(* ===== verification/Prelude.thy ===== *)
theory Prelude
  imports Main "HOL-Library.Word" "HOL-Library.Char_ord" "HOL-Library.List_Lexorder"
    "HOL-Library.Sublist"
begin

text \<open>
  The prelude of the CrashCatcher development: the parts of the Rust language and its standard
  library that the crates under \<^verbatim>\<open>src/crates\<close> use, and the generic lemmas the component
  theories share.

  A Rust \<^verbatim>\<open>str\<close> is a \<^typ>\<open>string\<close> whose characters are the bytes of its UTF-8 encoding, so
  \<^verbatim>\<open>len()\<close> is \<^const>\<open>length\<close>, slicing is \<^const>\<open>take\<close>/\<^const>\<open>drop\<close>, and the order is the
  byte-wise lexicographic order of \<^verbatim>\<open>Ord for str\<close> (and of SQLite's BINARY collation).
  A \<^verbatim>\<open>Vec<u8>\<close> is a list of 8-bit words.  Signed integers are \<^typ>\<open>int\<close> with their range and
  their saturation written out; bit masks and ids are words of their width.
\<close>

named_theorems str_simps \<open>byte strings: searching, splitting and trimming\<close>
named_theorems int_simps \<open>bounded integers: saturation, ranges and decimal text\<close>

section \<open>Bounded integers\<close>

definition i32_min :: int where "i32_min = - (2 ^ 31)"
definition i32_max :: int where "i32_max = 2 ^ 31 - 1"
definition i64_min :: int where "i64_min = - (2 ^ 63)"
definition i64_max :: int where "i64_max = 2 ^ 63 - 1"
definition u32_max :: int where "u32_max = 2 ^ 32 - 1"
definition u64_max :: int where "u64_max = 2 ^ 64 - 1"

definition is_i32 :: "int \<Rightarrow> bool" where "is_i32 x \<longleftrightarrow> i32_min \<le> x \<and> x \<le> i32_max"
definition is_i64 :: "int \<Rightarrow> bool" where "is_i64 x \<longleftrightarrow> i64_min \<le> x \<and> x \<le> i64_max"
definition is_u32 :: "int \<Rightarrow> bool" where "is_u32 x \<longleftrightarrow> 0 \<le> x \<and> x \<le> u32_max"
definition is_u64 :: "int \<Rightarrow> bool" where "is_u64 x \<longleftrightarrow> 0 \<le> x \<and> x \<le> u64_max"

text \<open>\<^verbatim>\<open>i64::saturating_add\<close>, \<^verbatim>\<open>i64::saturating_sub\<close>, \<^verbatim>\<open>i64::saturating_mul\<close>: the exact result,
  clamped to the range of the type.\<close>

definition i64_sat :: "int \<Rightarrow> int" where
  "i64_sat x = max i64_min (min i64_max x)"

definition i64_saturating_add :: "int \<Rightarrow> int \<Rightarrow> int" where
  "i64_saturating_add a b = i64_sat (a + b)"

definition i64_saturating_sub :: "int \<Rightarrow> int \<Rightarrow> int" where
  "i64_saturating_sub a b = i64_sat (a - b)"

definition i64_saturating_mul :: "int \<Rightarrow> int \<Rightarrow> int" where
  "i64_saturating_mul a b = i64_sat (a * b)"

text \<open>\<^verbatim>\<open>u64::saturating_add\<close>, and \<^verbatim>\<open>Ord::clamp\<close>.\<close>

definition u64_saturating_add :: "int \<Rightarrow> int \<Rightarrow> int" where
  "u64_saturating_add a b = min u64_max (a + b)"

definition clamp :: "int \<Rightarrow> int \<Rightarrow> int \<Rightarrow> int" where
  "clamp x lo hi = (if x < lo then lo else if x > hi then hi else x)"

text \<open>\<^verbatim>\<open>i64::abs_diff\<close>: the distance as a u64, which never overflows.\<close>

definition abs_diff :: "int \<Rightarrow> int \<Rightarrow> int" where
  "abs_diff a b = \<bar>a - b\<bar>"

lemmas int_range_defs = i32_min_def i32_max_def i64_min_def i64_max_def u32_max_def u64_max_def
  is_i32_def is_i64_def is_u32_def is_u64_def

lemma i64_sat_is_i64 [simp, int_simps]: "is_i64 (i64_sat x)"
  by (simp add: i64_sat_def int_range_defs)

lemma i64_sat_id [int_simps]: "is_i64 x \<Longrightarrow> i64_sat x = x"
  by (simp add: i64_sat_def int_range_defs)

lemma i64_sat_mono [int_simps]: "x \<le> y \<Longrightarrow> i64_sat x \<le> i64_sat y"
  by (auto simp: i64_sat_def)

lemma i64_saturating_add_is_i64 [simp, int_simps]: "is_i64 (i64_saturating_add a b)"
  by (simp add: i64_saturating_add_def)

lemma i64_saturating_sub_is_i64 [simp, int_simps]: "is_i64 (i64_saturating_sub a b)"
  by (simp add: i64_saturating_sub_def)

lemma i64_saturating_add_ge [int_simps]:
  "is_i64 a \<Longrightarrow> 0 \<le> b \<Longrightarrow> a \<le> i64_saturating_add a b"
  by (auto simp: i64_saturating_add_def i64_sat_def int_range_defs)

lemma i64_saturating_sub_le [int_simps]:
  "is_i64 a \<Longrightarrow> 0 \<le> b \<Longrightarrow> i64_saturating_sub a b \<le> a"
  by (auto simp: i64_saturating_sub_def i64_sat_def int_range_defs)

lemma clamp_bounds [simp, int_simps]:
  "lo \<le> hi \<Longrightarrow> lo \<le> clamp x lo hi" "lo \<le> hi \<Longrightarrow> clamp x lo hi \<le> hi"
  by (auto simp: clamp_def)

lemma clamp_id [int_simps]: "lo \<le> x \<Longrightarrow> x \<le> hi \<Longrightarrow> clamp x lo hi = x"
  by (simp add: clamp_def)

lemma clamp_idem [simp, int_simps]: "lo \<le> hi \<Longrightarrow> clamp (clamp x lo hi) lo hi = clamp x lo hi"
  by (auto simp: clamp_def)

lemma abs_diff_commute: "abs_diff a b = abs_diff b a"
  by (simp add: abs_diff_def)

lemma abs_diff_self [simp]: "abs_diff a a = 0"
  by (simp add: abs_diff_def)

section \<open>Words\<close>

text \<open>Shifts and masks as the source writes them, read as numbers.\<close>

unbundle bit_operations_syntax

lemma shifted_one_minus_one: "push_bit n 1 - 1 = (mask n :: 'a::len word)"
  by (simp add: mask_eq_exp_minus_1 push_bit_eq_mult)

lemma unat_and_mask: "unat (w AND mask n) = unat w mod 2 ^ n"
  by (metis take_bit_eq_mask take_bit_eq_mod unsigned_take_bit_eq)

lemma unat_take_bit: "unat (take_bit n w) = unat w mod 2 ^ n"
  by (metis take_bit_eq_mod unsigned_take_bit_eq)

lemma unat_drop_bit: "unat (drop_bit n w) = unat w div 2 ^ n"
  for w :: "'a::len word"
proof -
  have "unat w < 2 ^ LENGTH('a)" by (rule unsigned_less)
  then have "take_bit LENGTH('a) (unat w) = unat w" by (rule take_bit_nat_eq_self)
  moreover have "unat (drop_bit n w) = drop_bit n (take_bit LENGTH('a) (unat w))"
    by (rule unsigned_drop_bit_eq)
  ultimately show ?thesis by (metis drop_bit_eq_div)
qed

lemma nat_push_or: "(b :: nat) < 2 ^ n \<Longrightarrow> push_bit n a OR b = a * 2 ^ n + b"
proof -
  assume "b < 2 ^ n"
  then have "take_bit n b = b" by (simp add: take_bit_nat_eq_self)
  then have "bit b i \<Longrightarrow> i < n" for i by (metis bit_take_bit_iff)
  then have "push_bit n a AND b = 0" by (auto simp: bit_eq_iff bit_simps dest: leD)
  then show ?thesis by (metis disjunctive_add_eq_or push_bit_eq_mult)
qed

lemma unat_push_or:
  fixes t s :: "'a::len word"
  assumes "unat s < 2 ^ n" "unat t * 2 ^ n < 2 ^ LENGTH('a)"
  shows "unat (push_bit n t OR s) = unat t * 2 ^ n + unat s"
proof -
  have "unat (push_bit n t) = take_bit LENGTH('a) (push_bit n (unat t))"
    by (rule unsigned_push_bit_eq)
  also have "\<dots> = push_bit n (unat t)"
    by (rule take_bit_nat_eq_self) (metis assms(2) push_bit_eq_mult)
  finally have "unat (push_bit n t OR s) = push_bit n (unat t) OR unat s"
    by (simp only: unsigned_or_eq)
  then show ?thesis using nat_push_or [OF assms(1)] by simp
qed

lemma lex_le_iff:
  fixes a b c d n :: nat
  assumes "b < n" "d < n"
  shows "a * n + b \<le> c * n + d \<longleftrightarrow> a < c \<or> (a = c \<and> b \<le> d)"
proof -
  have "a < c \<Longrightarrow> a * n + n \<le> c * n" by (metis Suc_leI add.commute mult_Suc mult_le_mono1)
  moreover have "c < a \<Longrightarrow> c * n + n \<le> a * n" by (metis Suc_leI add.commute mult_Suc mult_le_mono1)
  ultimately show ?thesis using assms by (cases a c rule: linorder_cases) auto
qed

lemma unat_inject [simp]: "unat a = unat b \<longleftrightarrow> a = b"
  by (metis unsigned_word_eqI)

lemma word_bits_eq_iff: "a = b \<longleftrightarrow> (\<forall>n. bit a n = bit b n)"
  for a b :: "'a::len word"
  by (metis bit_eqI)

section \<open>Bytes\<close>

type_synonym u8 = "8 word"

definition byte_of_char :: "char \<Rightarrow> u8" where "byte_of_char c = word_of_nat (of_char c)"
definition char_of_byte :: "u8 \<Rightarrow> char" where "char_of_byte b = char_of (unat b)"

text \<open>\<^verbatim>\<open>str::as_bytes\<close>, and reading bytes back as text that is known to be valid UTF-8.\<close>

definition as_bytes :: "string \<Rightarrow> u8 list" where "as_bytes s = map byte_of_char s"
definition from_bytes :: "u8 list \<Rightarrow> string" where "from_bytes bs = map char_of_byte bs"

lemma unat_u8_lt [simp]: "unat (b :: u8) < 256"
proof -
  have "unat b < 2 ^ LENGTH(8)" by (rule unsigned_less)
  then show ?thesis by simp
qed

lemma char_of_byte_of_char [simp]: "char_of_byte (byte_of_char c) = c"
  by (simp add: char_of_byte_def byte_of_char_def unat_of_nat)

lemma byte_of_char_of_byte [simp]: "byte_of_char (char_of_byte b) = b"
  by (simp add: char_of_byte_def byte_of_char_def)

lemma from_bytes_as_bytes [simp]: "from_bytes (as_bytes s) = s"
  by (simp add: from_bytes_def as_bytes_def comp_def)

lemma as_bytes_from_bytes [simp]: "as_bytes (from_bytes b) = b"
  by (simp add: from_bytes_def as_bytes_def comp_def)

lemma length_as_bytes [simp]: "length (as_bytes s) = length s"
  by (simp add: as_bytes_def)

lemma length_from_bytes [simp]: "length (from_bytes b) = length b"
  by (simp add: from_bytes_def)

lemma as_bytes_inject [simp]: "as_bytes s = as_bytes t \<longleftrightarrow> s = t"
  by (metis from_bytes_as_bytes)

lemma as_bytes_append [simp]: "as_bytes (s @ t) = as_bytes s @ as_bytes t"
  by (simp add: as_bytes_def)

text \<open>\<^verbatim>\<open>to_be_bytes\<close>/\<^verbatim>\<open>to_le_bytes\<close> of an unsigned integer of \<^term>\<open>n\<close> bytes, and the value bytes
  denote.\<close>

primrec le_bytes :: "nat \<Rightarrow> nat \<Rightarrow> u8 list" where
  "le_bytes 0 v = []"
| "le_bytes (Suc n) v = word_of_nat (v mod 256) # le_bytes n (v div 256)"

primrec le_value :: "u8 list \<Rightarrow> nat" where
  "le_value [] = 0"
| "le_value (b # bs) = unat b + 256 * le_value bs"

definition be_bytes :: "nat \<Rightarrow> nat \<Rightarrow> u8 list" where "be_bytes n v = rev (le_bytes n v)"
definition be_value :: "u8 list \<Rightarrow> nat" where "be_value bs = le_value (rev bs)"

lemma length_le_bytes [simp]: "length (le_bytes n v) = n"
  by (induction n arbitrary: v) auto

lemma length_be_bytes [simp]: "length (be_bytes n v) = n"
  by (simp add: be_bytes_def)

lemma le_value_le_bytes: "v < 256 ^ n \<Longrightarrow> le_value (le_bytes n v) = v"
proof (induction n arbitrary: v)
  case (Suc n)
  then have "v div 256 < 256 ^ n" by (simp add: less_mult_imp_div_less mult.commute)
  with Suc show ?case by (simp add: unat_of_nat)
qed simp

lemma be_value_be_bytes: "v < 256 ^ n \<Longrightarrow> be_value (be_bytes n v) = v"
  by (simp add: be_value_def be_bytes_def le_value_le_bytes)

lemma le_value_lt: "le_value bs < 256 ^ length bs"
proof (induction bs)
  case (Cons b bs)
  with unat_u8_lt [of b] show ?case by (simp del: unat_u8_lt)
qed simp

lemma le_bytes_le_value: "le_bytes (length bs) (le_value bs) = bs"
proof (induction bs)
  case (Cons b bs)
  have "unat b < 256" by simp
  then have "(unat b + 256 * le_value bs) mod 256 = unat b"
    "(unat b + 256 * le_value bs) div 256 = le_value bs"
    by auto
  with Cons show ?case by simp
qed simp

lemma be_bytes_inject:
  "v < 256 ^ n \<Longrightarrow> w < 256 ^ n \<Longrightarrow> be_bytes n v = be_bytes n w \<longleftrightarrow> v = w"
  by (metis be_value_be_bytes)

lemma be_bytes_be_value: "length bs = n \<Longrightarrow> be_bytes n (be_value bs) = bs"
  using le_bytes_le_value [of "rev bs"] by (simp add: be_bytes_def be_value_def)

lemma be_value_lt: "length bs = n \<Longrightarrow> be_value bs < 256 ^ n"
  using le_value_lt [of "rev bs"] by (simp add: be_value_def)

section \<open>Text\<close>

text \<open>\<^verbatim>\<open>str::strip_prefix\<close>, \<^verbatim>\<open>str::find(char)\<close>, \<^verbatim>\<open>str::rfind(char)\<close> and \<^verbatim>\<open>str::contains(&str)\<close>.\<close>

definition strip_prefix :: "string \<Rightarrow> string \<Rightarrow> string option" where
  "strip_prefix p s = (if prefix p s then Some (drop (length p) s) else None)"

definition strip_suffix :: "string \<Rightarrow> string \<Rightarrow> string option" where
  "strip_suffix p s = (if suffix p s then Some (take (length s - length p) s) else None)"

fun find_char :: "char \<Rightarrow> string \<Rightarrow> nat option" where
  "find_char c [] = None"
| "find_char c (x # xs) = (if x = c then Some 0 else map_option Suc (find_char c xs))"

fun rfind_char :: "char \<Rightarrow> string \<Rightarrow> nat option" where
  "rfind_char c [] = None"
| "rfind_char c (x # xs) =
     (case rfind_char c xs of Some i \<Rightarrow> Some (Suc i) | None \<Rightarrow> if x = c then Some 0 else None)"

fun contains_str :: "string \<Rightarrow> string \<Rightarrow> bool" where
  "contains_str p [] = (p = [])"
| "contains_str p (x # xs) = (prefix p (x # xs) \<or> contains_str p xs)"

text \<open>\<^verbatim>\<open>str::split(char)\<close>: never empty.  \<^verbatim>\<open>splitn(n, char)\<close> leaves the rest of the text in the last
  piece.\<close>

fun split_on :: "char \<Rightarrow> string \<Rightarrow> string list" where
  "split_on c [] = [[]]"
| "split_on c (x # xs) =
     (if x = c then [] # split_on c xs
      else (case split_on c xs of [] \<Rightarrow> [[x]] | p # ps \<Rightarrow> (x # p) # ps))"

definition split_once :: "char \<Rightarrow> string \<Rightarrow> (string \<times> string) option" where
  "split_once c s = map_option (\<lambda>i. (take i s, drop (Suc i) s)) (find_char c s)"

fun splitn :: "nat \<Rightarrow> char \<Rightarrow> string \<Rightarrow> string list" where
  "splitn 0 c s = []"
| "splitn (Suc 0) c s = [s]"
| "splitn (Suc (Suc n)) c s =
     (case split_once c s of None \<Rightarrow> [s] | Some (a, b) \<Rightarrow> a # splitn (Suc n) c b)"

lemma find_char_None [str_simps]: "find_char c s = None \<longleftrightarrow> c \<notin> set s"
  by (induction s) auto

lemma find_char_SomeD: "find_char c s = Some i \<Longrightarrow> i < length s \<and> s ! i = c \<and> c \<notin> set (take i s)"
proof (induction s arbitrary: i)
  case (Cons x xs) then show ?case by (cases i) (auto split: if_splits)
qed simp

lemma find_char_append [str_simps]: "c \<notin> set p \<Longrightarrow> find_char c (p @ c # r) = Some (length p)"
  by (induction p) auto

lemma rfind_char_None [str_simps]: "rfind_char c s = None \<longleftrightarrow> c \<notin> set s"
  by (induction s) (auto split: option.splits)

lemma rfind_char_SomeD:
  "rfind_char c s = Some i \<Longrightarrow> i < length s \<and> s ! i = c \<and> c \<notin> set (drop (Suc i) s)"
proof (induction s arbitrary: i)
  case (Cons x xs)
  then show ?case by (cases i) (auto split: if_splits option.splits simp: rfind_char_None)
qed simp

lemma rfind_char_append [str_simps]: "c \<notin> set r \<Longrightarrow> rfind_char c (p @ c # r) = Some (length p)"
proof (induction p)
  case Nil then show ?case using rfind_char_None [of c r] by (simp del: rfind_char_None)
qed simp

lemma split_once_None [str_simps]: "split_once c s = None \<longleftrightarrow> c \<notin> set s"
  by (simp add: split_once_def find_char_None)

lemma split_once_append [str_simps]: "c \<notin> set p \<Longrightarrow> split_once c (p @ c # r) = Some (p, r)"
  by (simp add: split_once_def find_char_append)

lemma split_on_ne [simp]: "split_on c s \<noteq> []"
  by (induction s) (auto split: list.splits)

lemma split_on_fresh [str_simps]: "c \<notin> set s \<Longrightarrow> split_on c s = [s]"
  by (induction s) auto

lemma split_on_append [str_simps]: "c \<notin> set p \<Longrightarrow> split_on c (p @ c # r) = p # split_on c r"
  by (induction p) auto

lemma hd_split_on [str_simps]: "hd (split_on c s) = takeWhile (\<lambda>x. x \<noteq> c) s"
  by (induction s) (auto split: list.splits)

lemma strip_prefix_append [str_simps, simp]: "strip_prefix p (p @ s) = Some s"
  by (simp add: strip_prefix_def)

lemma strip_prefix_Some_iff: "strip_prefix p s = Some r \<longleftrightarrow> s = p @ r"
  by (auto simp: strip_prefix_def prefix_def)

subsection \<open>White space\<close>

text \<open>The UTF-8 encodings of the characters with the Unicode property White\_Space, which is what
  \<^verbatim>\<open>char::is_whitespace\<close>, \<^verbatim>\<open>trim\<close> and \<^verbatim>\<open>split_whitespace\<close> test.  In valid UTF-8 an encoding can
  only match at a character boundary.\<close>

definition white_space :: "string list" where
  "white_space =
     map (\<lambda>c. [c]) [CHR 0x09, CHR 0x0A, CHR 0x0B, CHR 0x0C, CHR 0x0D, CHR 0x20] @
     [[CHR 0xC2, CHR 0x85], [CHR 0xC2, CHR 0xA0], [CHR 0xE1, CHR 0x9A, CHR 0x80]] @
     map (\<lambda>c. [CHR 0xE2, CHR 0x80, c])
       [CHR 0x80, CHR 0x81, CHR 0x82, CHR 0x83, CHR 0x84, CHR 0x85, CHR 0x86, CHR 0x87,
        CHR 0x88, CHR 0x89, CHR 0x8A, CHR 0xA8, CHR 0xA9, CHR 0xAF] @
     [[CHR 0xE2, CHR 0x81, CHR 0x9F], [CHR 0xE3, CHR 0x80, CHR 0x80]]"

text \<open>The length of the white-space character a text starts with, 0 when it starts with none.\<close>

definition match_len :: "string list \<Rightarrow> string \<Rightarrow> nat" where
  "match_len ws s = (case find (\<lambda>w. prefix w s) ws of None \<Rightarrow> 0 | Some w \<Rightarrow> length w)"

function strip_front :: "string list \<Rightarrow> string \<Rightarrow> string" where
  "strip_front ws s =
     (if match_len ws s = 0 \<or> s = [] then s else strip_front ws (drop (match_len ws s) s))"
  by pat_completeness auto
termination by (relation "measure (\<lambda>(ws, s). length s)") auto

declare strip_front.simps [simp del]

definition trim_start :: "string \<Rightarrow> string" where
  "trim_start s = strip_front white_space s"

definition trim_end :: "string \<Rightarrow> string" where
  "trim_end s = rev (strip_front (map rev white_space) (rev s))"

definition trim :: "string \<Rightarrow> string" where
  "trim s = trim_end (trim_start s)"

text \<open>\<^verbatim>\<open>split_whitespace\<close>: the maximal runs without a white-space character.  \<^term>\<open>acc\<close> is the
  current run, reversed.\<close>

function split_ws :: "string \<Rightarrow> string \<Rightarrow> string list" where
  "split_ws acc s =
     (if s = [] then (if acc = [] then [] else [rev acc])
      else if match_len white_space s = 0 then split_ws (hd s # acc) (tl s)
      else (if acc = [] then [] else [rev acc]) @ split_ws [] (drop (match_len white_space s) s))"
  by pat_completeness auto
termination by (relation "measure (\<lambda>(acc, s). length s)") auto

declare split_ws.simps [simp del]

definition split_whitespace :: "string \<Rightarrow> string list" where
  "split_whitespace s = split_ws [] s"

subsection \<open>UTF-8\<close>

text \<open>\<^verbatim>\<open>core::str::validations\<close>: the width of the scalar value a byte string starts with, \<^const>\<open>None\<close>
  where \<^verbatim>\<open>from_utf8\<close> reports an error.\<close>

definition byte_at :: "string \<Rightarrow> nat \<Rightarrow> nat" where
  "byte_at s i = (if i < length s then of_char (s ! i) else 0)"

definition in_range :: "nat \<Rightarrow> nat \<Rightarrow> nat \<Rightarrow> bool" where
  "in_range lo x hi \<longleftrightarrow> lo \<le> x \<and> x \<le> hi"

definition is_cont :: "nat \<Rightarrow> bool" where "is_cont b \<longleftrightarrow> in_range 0x80 b 0xBF"

definition utf8_lead_width :: "nat \<Rightarrow> nat \<Rightarrow> nat \<Rightarrow> nat \<Rightarrow> nat option" where
  "utf8_lead_width b0 b1 b2 b3 =
     (if b0 < 0x80 then Some 1
      else if in_range 0xC2 b0 0xDF then (if is_cont b1 then Some 2 else None)
      else if in_range 0xE0 b0 0xEF then
        (if is_cont b1 \<and> (b0 = 0xE0 \<longrightarrow> 0xA0 \<le> b1) \<and> (b0 = 0xED \<longrightarrow> b1 \<le> 0x9F) \<and> is_cont b2
         then Some 3 else None)
      else if in_range 0xF0 b0 0xF4 then
        (if is_cont b1 \<and> (b0 = 0xF0 \<longrightarrow> 0x90 \<le> b1) \<and> (b0 = 0xF4 \<longrightarrow> b1 \<le> 0x8F) \<and>
            is_cont b2 \<and> is_cont b3
         then Some 4 else None)
      else None)"

definition utf8_width :: "string \<Rightarrow> nat option" where
  "utf8_width s =
     (if s = [] then None
      else utf8_lead_width (byte_at s 0) (byte_at s 1) (byte_at s 2) (byte_at s 3))"

function valid_utf8 :: "string \<Rightarrow> bool" where
  "valid_utf8 s =
     (if s = [] then True
      else (case utf8_width s of None \<Rightarrow> False
            | Some w \<Rightarrow> if w = 0 then False else valid_utf8 (drop w s)))"
  by pat_completeness auto
termination by (relation "measure length") auto

declare valid_utf8.simps [simp del]

text \<open>\<^verbatim>\<open>str::is_char_boundary\<close>: the ends of the text, and every byte that is not a continuation byte.\<close>

definition is_char_boundary :: "string \<Rightarrow> nat \<Rightarrow> bool" where
  "is_char_boundary s i \<longleftrightarrow>
     i = 0 \<or> i = length s \<or> (i < length s \<and> \<not> is_cont (of_char (s ! i)))"

lemma utf8_lead_width_cases:
  assumes "utf8_lead_width b0 b1 b2 b3 = Some w"
  obtains "w = 1" | "w = 2" "is_cont b1" | "w = 3" "is_cont b1" "is_cont b2"
    | "w = 4" "is_cont b1" "is_cont b2" "is_cont b3"
  using assms unfolding utf8_lead_width_def by (auto split: if_splits)

lemma utf8_lead_width_cong:
  assumes "utf8_lead_width b0 b1 b2 b3 = Some w"
    "1 < w \<Longrightarrow> c1 = b1" "2 < w \<Longrightarrow> c2 = b2" "3 < w \<Longrightarrow> c3 = b3"
  shows "utf8_lead_width b0 c1 c2 c3 = Some w"
  using assms(1)
proof (cases rule: utf8_lead_width_cases)
  case 1 with assms(1) show ?thesis by (auto simp: utf8_lead_width_def split: if_splits)
next
  case 2 with assms show ?thesis by (auto simp: utf8_lead_width_def split: if_splits)
next
  case 3 with assms show ?thesis by (auto simp: utf8_lead_width_def split: if_splits)
qed (use assms in simp)

lemma is_cont_byte_at: "is_cont (byte_at s i) \<Longrightarrow> i < length s \<and> is_cont (of_char (s ! i))"
  by (auto simp: byte_at_def is_cont_def in_range_def split: if_splits)

lemma utf8_width_SomeD:
  assumes "utf8_width s = Some w"
  shows "0 < w" "w \<le> length s" "0 < k \<Longrightarrow> k < w \<Longrightarrow> is_cont (of_char (s ! k))"
proof -
  have ne: "s \<noteq> []" and w: "utf8_lead_width (byte_at s 0) (byte_at s 1) (byte_at s 2) (byte_at s 3) = Some w"
    using assms by (auto simp: utf8_width_def split: if_splits)
  from w have "0 < w \<and> w \<le> length s \<and> (\<forall>k. 0 < k \<and> k < w \<longrightarrow> is_cont (of_char (s ! k)))"
  proof (cases rule: utf8_lead_width_cases)
    case 1 with ne show ?thesis by (cases s) auto
  next
    case 2 then show ?thesis
      using is_cont_byte_at [of s 1] is_cont_byte_at [of s 2] is_cont_byte_at [of s 3]
      by (auto simp: less_Suc_eq numeral_eq_Suc)
  next
    case 3 then show ?thesis
      using is_cont_byte_at [of s 1] is_cont_byte_at [of s 2] is_cont_byte_at [of s 3]
      by (auto simp: less_Suc_eq numeral_eq_Suc)
  next
    case 4 then show ?thesis
      using is_cont_byte_at [of s 1] is_cont_byte_at [of s 2] is_cont_byte_at [of s 3]
      by (auto simp: less_Suc_eq numeral_eq_Suc)
  qed
  then show "0 < w" "w \<le> length s" "0 < k \<Longrightarrow> k < w \<Longrightarrow> is_cont (of_char (s ! k))"
    by auto
qed

lemma utf8_width_take:
  assumes "utf8_width s = Some w" "w \<le> n"
  shows "utf8_width (take n s) = Some w"
proof -
  have w: "w \<le> length s" "0 < w" using utf8_width_SomeD [OF assms(1)] by auto
  then have "s \<noteq> []" "take n s \<noteq> []" using assms(2) by auto
  moreover have "byte_at (take n s) i = byte_at s i" if "i < w" for i
    using that assms(2) w by (simp add: byte_at_def)
  ultimately show ?thesis
    using assms(1) w(2) utf8_lead_width_cong [of "byte_at s 0" "byte_at s 1" "byte_at s 2" "byte_at s 3" w
      "byte_at (take n s) 1" "byte_at (take n s) 2" "byte_at (take n s) 3"]
    by (simp add: utf8_width_def)
qed

lemma valid_utf8_take:
  "valid_utf8 s \<Longrightarrow> is_char_boundary s i \<Longrightarrow> i \<le> length s \<Longrightarrow> valid_utf8 (take i s)"
proof (induction s arbitrary: i rule: valid_utf8.induct)
  case (1 s)
  show ?case
  proof (cases "s = [] \<or> i = 0")
    case True then show ?thesis by (auto simp: valid_utf8.simps)
  next
    case False
    with 1 obtain w where w: "utf8_width s = Some w" "0 < w" "valid_utf8 (drop w s)"
      by (auto simp: valid_utf8.simps [of s] split: option.splits if_splits)
    have wi: "w \<le> i"
    proof (rule ccontr)
      assume "\<not> w \<le> i"
      with False have "is_cont (of_char (s ! i))" using utf8_width_SomeD(3) [OF w(1)] by simp
      with False \<open>\<not> w \<le> i\<close> utf8_width_SomeD(2) [OF w(1)] 1(3) show False
        by (auto simp: is_char_boundary_def)
    qed
    have b: "is_char_boundary (drop w s) (i - w)"
      using wi 1(3,4) by (auto simp: is_char_boundary_def)
    have "valid_utf8 (take (i - w) (drop w s))"
      using 1(1) [OF _ w(1) _ w(3) b] False w wi 1(4) by auto
    then show ?thesis
      using utf8_width_take [OF w(1) wi] w(2) False
      by (subst valid_utf8.simps) (simp add: drop_take)
  qed
qed

lemma utf8_width_append:
  assumes "utf8_width p = Some w"
  shows "utf8_width (p @ r) = Some w"
proof -
  have w: "w \<le> length p" "0 < w" using utf8_width_SomeD [OF assms] by auto
  then have "p \<noteq> []" by auto
  moreover have "byte_at (p @ r) i = byte_at p i" if "i < w" for i
    using that w by (simp add: byte_at_def nth_append)
  ultimately show ?thesis
    using assms w(2) utf8_lead_width_cong [of "byte_at p 0" "byte_at p 1" "byte_at p 2" "byte_at p 3" w
      "byte_at (p @ r) 1" "byte_at (p @ r) 2" "byte_at (p @ r) 3"]
    by (simp add: utf8_width_def)
qed

lemma valid_utf8_append: "valid_utf8 p \<Longrightarrow> valid_utf8 (p @ r) \<longleftrightarrow> valid_utf8 r"
proof (induction p rule: valid_utf8.induct)
  case (1 p)
  show ?case
  proof (cases "p = []")
    case False
    with 1(2) obtain w where w: "utf8_width p = Some w" "w \<noteq> 0" "valid_utf8 (drop w p)"
      by (auto simp: valid_utf8.simps [of p] split: option.splits if_splits)
    have "w \<le> length p" using utf8_width_SomeD [OF w(1)] by simp
    then have "valid_utf8 (p @ r) \<longleftrightarrow> valid_utf8 (drop w p @ r)"
      using False w(2) utf8_width_append [OF w(1), of r]
      by (simp add: valid_utf8.simps [of "p @ r"])
    then show ?thesis using 1(1) [OF False w(1,2,3)] by simp
  qed simp
qed

subsection \<open>Decimal numbers\<close>

text \<open>\<^verbatim>\<open>Display\<close> and \<^verbatim>\<open>FromStr\<close> of the integer types: an optional sign, then digits, then the range of
  the type.  An unsigned type takes a plus sign only.\<close>

definition digit_char :: "nat \<Rightarrow> char" where "digit_char d = char_of (48 + d)"

definition digit_value :: "char \<Rightarrow> nat option" where
  "digit_value c = (let b = of_char c in if in_range 48 b 57 then Some (b - 48) else None)"

fun nat_to_dec :: "nat \<Rightarrow> string" where
  "nat_to_dec n = (if n < 10 then [digit_char n] else nat_to_dec (n div 10) @ [digit_char (n mod 10)])"

declare nat_to_dec.simps [simp del]

definition int_to_dec :: "int \<Rightarrow> string" where
  "int_to_dec x = (if x < 0 then CHR ''-'' # nat_to_dec (nat (- x)) else nat_to_dec (nat x))"

fun dec_acc :: "nat \<Rightarrow> string \<Rightarrow> nat option" where
  "dec_acc a [] = Some a"
| "dec_acc a (c # cs) =
     (case digit_value c of None \<Rightarrow> None | Some d \<Rightarrow> dec_acc (10 * a + d) cs)"

definition digits_to_nat :: "string \<Rightarrow> nat option" where
  "digits_to_nat s = (if s = [] then None else dec_acc 0 s)"

definition parse_signed :: "(int \<Rightarrow> bool) \<Rightarrow> string \<Rightarrow> int option" where
  "parse_signed ok s =
     (case (case s of [] \<Rightarrow> None
            | c # cs \<Rightarrow> if c = CHR ''-'' then map_option (\<lambda>n. - int n) (digits_to_nat cs)
                       else if c = CHR ''+'' then map_option int (digits_to_nat cs)
                       else map_option int (digits_to_nat s)) of
        None \<Rightarrow> None
      | Some x \<Rightarrow> if ok x then Some x else None)"

definition parse_unsigned :: "(int \<Rightarrow> bool) \<Rightarrow> string \<Rightarrow> int option" where
  "parse_unsigned ok s =
     (case (case s of [] \<Rightarrow> None
            | c # cs \<Rightarrow> if c = CHR ''+'' then map_option int (digits_to_nat cs)
                       else map_option int (digits_to_nat s)) of
        None \<Rightarrow> None
      | Some x \<Rightarrow> if ok x then Some x else None)"

definition is_digit :: "char \<Rightarrow> bool" where "is_digit c \<longleftrightarrow> digit_value c \<noteq> None"

lemma digit_value_digit_char [simp]: "d < 10 \<Longrightarrow> digit_value (digit_char d) = Some d"
  by (simp add: digit_value_def digit_char_def in_range_def Let_def)

lemma dec_acc_append: "dec_acc a (s @ t) = (case dec_acc a s of None \<Rightarrow> None | Some b \<Rightarrow> dec_acc b t)"
  by (induction s arbitrary: a) (auto split: option.splits)

lemma nat_to_dec_ne [simp]: "nat_to_dec n \<noteq> []"
  by (subst nat_to_dec.simps) simp

lemma nat_to_dec_small [simp]: "n < 10 \<Longrightarrow> nat_to_dec n = [digit_char n]"
  by (subst nat_to_dec.simps) simp

lemma nat_to_dec_large: "10 \<le> n \<Longrightarrow> nat_to_dec n = nat_to_dec (n div 10) @ [digit_char (n mod 10)]"
  by (subst nat_to_dec.simps) simp

lemma dec_acc_nat_to_dec: "dec_acc 0 (nat_to_dec n) = Some n"
proof (induction n rule: nat_to_dec.induct)
  case (1 n) then show ?case
    by (cases "n < 10") (simp_all add: nat_to_dec_large dec_acc_append)
qed

lemma digits_to_nat_to_dec [simp, int_simps]: "digits_to_nat (nat_to_dec n) = Some n"
  by (simp add: digits_to_nat_def dec_acc_nat_to_dec)

lemma nat_to_dec_digits: "c \<in> set (nat_to_dec n) \<Longrightarrow> is_digit c"
proof (induction n rule: nat_to_dec.induct)
  case (1 n) then show ?case
    by (cases "n < 10") (auto simp: nat_to_dec_large is_digit_def)
qed

lemma is_digit_sign [simp]: "\<not> is_digit CHR ''-''" "\<not> is_digit CHR ''+''" "\<not> is_digit CHR ''|''"
  by (simp_all add: is_digit_def digit_value_def in_range_def)

lemma nat_to_dec_hd: "nat_to_dec n = c # cs \<Longrightarrow> c \<noteq> CHR ''-'' \<and> c \<noteq> CHR ''+''"
  using nat_to_dec_digits [of c n] by auto

lemma int_to_dec_no_bar [simp]: "CHR ''|'' \<notin> set (int_to_dec x)"
  using nat_to_dec_digits [of "CHR ''|''"] by (auto simp: int_to_dec_def)

lemma int_to_dec_ne [simp]: "int_to_dec x \<noteq> []"
  by (simp add: int_to_dec_def)

lemma parse_signed_int_to_dec [int_simps]: "ok x \<Longrightarrow> parse_signed ok (int_to_dec x) = Some x"
proof (cases "x < 0")
  case False
  obtain c cs where c: "nat_to_dec (nat x) = c # cs" by (meson nat_to_dec_ne neq_Nil_conv)
  moreover assume "ok x"
  ultimately show ?thesis
    using False nat_to_dec_hd [OF c] digits_to_nat_to_dec [of "nat x"]
    by (simp add: parse_signed_def int_to_dec_def)
qed (simp add: parse_signed_def int_to_dec_def)

lemma parse_unsigned_nat_to_dec [int_simps]:
  "ok (int n) \<Longrightarrow> parse_unsigned ok (nat_to_dec n) = Some (int n)"
proof -
  obtain c cs where c: "nat_to_dec n = c # cs" by (meson nat_to_dec_ne neq_Nil_conv)
  moreover assume "ok (int n)"
  ultimately show ?thesis
    using nat_to_dec_hd [OF c] digits_to_nat_to_dec [of n] by (simp add: parse_unsigned_def)
qed

lemma int_to_dec_inject [simp]: "int_to_dec x = int_to_dec y \<longleftrightarrow> x = y"
  by (metis (mono_tags) parse_signed_int_to_dec [of "\<lambda>_. True"] option.inject)

lemma nat_to_dec_inject [simp]: "nat_to_dec m = nat_to_dec n \<longleftrightarrow> m = n"
  by (metis digits_to_nat_to_dec option.inject)

section \<open>Encodings\<close>

text \<open>The contract of every pair of conversions in the program: reading back what was written gives
  the value.  The conversions of the enums, of record ids, of frames and of cursors interpret it.\<close>

locale codec =
  fixes enc :: "'a \<Rightarrow> 'b" and dec :: "'b \<Rightarrow> 'a option" and valid :: "'a \<Rightarrow> bool"
  assumes dec_enc: "valid x \<Longrightarrow> dec (enc x) = Some x"
begin

lemma enc_inject: "valid x \<Longrightarrow> valid y \<Longrightarrow> enc x = enc y \<longleftrightarrow> x = y"
  by (metis dec_enc option.inject)

lemma enc_inj_on: "inj_on enc {x. valid x}"
  by (rule inj_onI) (simp add: enc_inject)

end

text \<open>A codec that reads only what it writes: decoding is exact, so the text is canonical.\<close>

locale canonical_codec = codec +
  assumes dec_canonical: "dec y = Some x \<Longrightarrow> valid x \<and> enc x = y"
begin

lemma dec_eq_Some_iff: "dec y = Some x \<longleftrightarrow> valid x \<and> y = enc x"
  using dec_enc dec_canonical by blast

lemma dec_None_iff: "dec y = None \<longleftrightarrow> (\<forall>x. valid x \<longrightarrow> y \<noteq> enc x)"
  using dec_eq_Some_iff by (metis not_Some_eq)

end

section \<open>Sources of increasing values\<close>

text \<open>A component that hands out values one call at a time.  \<^term>\<open>budget\<close> bounds how many calls
  remain before a counter of fixed width would wrap.\<close>

fun run_steps :: "('s \<Rightarrow> 'i \<Rightarrow> 'o \<times> 's) \<Rightarrow> 's \<Rightarrow> 'i list \<Rightarrow> 'o list \<times> 's" where
  "run_steps step s [] = ([], s)"
| "run_steps step s (i # is) =
     (let (v, s') = step s i; (rest, s'') = run_steps step s' is in (v # rest, s''))"

locale forward_source =
  fixes step :: "'s \<Rightarrow> 'i \<Rightarrow> 'o::linorder \<times> 's"
    and pos :: "'s \<Rightarrow> 'o" and budget :: "'s \<Rightarrow> nat" and inv :: "'s \<Rightarrow> bool" and ok :: "'i \<Rightarrow> bool"
  assumes step_inv: "inv s \<Longrightarrow> inv (snd (step s i))"
    and step_value: "inv s \<Longrightarrow> fst (step s i) = pos (snd (step s i))"
    and step_forward: "inv s \<Longrightarrow> ok i \<Longrightarrow> 0 < budget s \<Longrightarrow> pos s < pos (snd (step s i))"
    and step_budget: "inv s \<Longrightarrow> ok i \<Longrightarrow> 0 < budget s \<Longrightarrow> budget s \<le> Suc (budget (snd (step s i)))"
begin

lemma run_inv: "inv s \<Longrightarrow> inv (snd (run_steps step s is))"
  using step_inv by (induction "is" arbitrary: s) (auto simp: split_beta)

lemma length_run: "length (fst (run_steps step s is)) = length is"
  by (induction "is" arbitrary: s) (auto simp: split_beta)

lemma run_sorted:
  "inv s \<Longrightarrow> list_all ok is \<Longrightarrow> length is \<le> budget s \<Longrightarrow>
   sorted_wrt (<) (pos s # fst (run_steps step s is))"
proof (induction "is" arbitrary: s)
  case (Cons i "is")
  let ?s' = "snd (step s i)"
  have f: "pos s < pos ?s'" "inv ?s'" "fst (step s i) = pos ?s'"
    using step_forward [of s i] step_inv [of s i] step_value [of s i] Cons.prems by auto
  have "length is \<le> budget ?s'" using step_budget [of s i] Cons.prems by simp
  then have "sorted_wrt (<) (pos ?s' # fst (run_steps step ?s' is))"
    using Cons f by simp
  then show ?case using f by (auto simp: split_beta dest: less_trans)
qed simp

lemma run_distinct:
  "inv s \<Longrightarrow> list_all ok is \<Longrightarrow> length is \<le> budget s \<Longrightarrow>
   distinct (pos s # fst (run_steps step s is))"
  using run_sorted [of s "is"] strict_sorted_iff [of "pos s # fst (run_steps step s is)"] by blast

end

section \<open>Options and results\<close>

text \<open>\<^verbatim>\<open>Option::unwrap_or\<close>, \<^verbatim>\<open>Option::or\<close>.\<close>

fun unwrap_or :: "'a option \<Rightarrow> 'a \<Rightarrow> 'a" where
  "unwrap_or (Some x) d = x"
| "unwrap_or None d = d"

fun opt_or :: "'a option \<Rightarrow> 'a option \<Rightarrow> 'a option" where
  "opt_or (Some x) b = Some x"
| "opt_or None b = b"

lemma unwrap_or_unwrap_or:
  "a = None \<or> b = None \<Longrightarrow> unwrap_or a (unwrap_or b d) = unwrap_or b (unwrap_or a d)"
  by (cases a; cases b) auto

section \<open>Normal forms\<close>

text \<open>An operation that pulls a value into its supported form and leaves values in that form alone.\<close>

locale normal_form =
  fixes norm :: "'a \<Rightarrow> 'a" and ok :: "'a \<Rightarrow> bool"
  assumes norm_ok: "ok (norm x)" and norm_id: "ok x \<Longrightarrow> norm x = x"
begin

lemma norm_idem: "norm (norm x) = norm x"
  by (simp add: norm_id norm_ok)

lemma norm_fixed_iff: "norm x = x \<longleftrightarrow> ok x"
  using norm_ok norm_id by metis

end

section \<open>Lines and substrings\<close>

text \<open>\<^verbatim>\<open>str::lines\<close>: split after every line feed, drop the line ending (with an optional carriage
  return), and no empty line after a final line feed.\<close>

definition strip_cr :: "string \<Rightarrow> string" where
  "strip_cr l = (if l \<noteq> [] \<and> last l = CHR 0x0D then butlast l else l)"

definition lines :: "string \<Rightarrow> string list" where
  "lines s =
     (let parts = split_on CHR 0x0A s; complete = butlast parts; rest = last parts
      in map strip_cr complete @ (if rest = [] then [] else [rest]))"

text \<open>\<^verbatim>\<open>s.replace("\r\n", "\n")\<close>, \<^verbatim>\<open>str::find(&str)\<close> and \<^verbatim>\<open>str::rsplit_once(&str)\<close>.\<close>

fun replace_crlf :: "string \<Rightarrow> string" where
  "replace_crlf (a # b # s) =
     (if a = CHR 0x0D \<and> b = CHR 0x0A then CHR 0x0A # replace_crlf s else a # replace_crlf (b # s))"
| "replace_crlf s = s"

fun find_str :: "string \<Rightarrow> string \<Rightarrow> nat option" where
  "find_str p [] = (if p = [] then Some 0 else None)"
| "find_str p (x # xs) = (if prefix p (x # xs) then Some 0 else map_option Suc (find_str p xs))"

fun rfind_str :: "string \<Rightarrow> string \<Rightarrow> nat option" where
  "rfind_str p [] = (if p = [] then Some 0 else None)"
| "rfind_str p (x # xs) =
     (case rfind_str p xs of Some i \<Rightarrow> Some (Suc i)
      | None \<Rightarrow> if prefix p (x # xs) then Some 0 else None)"

definition split_once_str :: "string \<Rightarrow> string \<Rightarrow> (string \<times> string) option" where
  "split_once_str p s = map_option (\<lambda>i. (take i s, drop (i + length p) s)) (find_str p s)"

definition rsplit_once_str :: "string \<Rightarrow> string \<Rightarrow> (string \<times> string) option" where
  "rsplit_once_str p s = map_option (\<lambda>i. (take i s, drop (i + length p) s)) (rfind_str p s)"

definition rsplit_once :: "char \<Rightarrow> string \<Rightarrow> (string \<times> string) option" where
  "rsplit_once c s = map_option (\<lambda>i. (take i s, drop (Suc i) s)) (rfind_char c s)"

text \<open>\<^verbatim>\<open>Iterator::find\<close> on a line iterator that is used again afterwards.\<close>

fun find_line :: "(string \<Rightarrow> bool) \<Rightarrow> string list \<Rightarrow> (string \<times> string list) option" where
  "find_line P [] = None"
| "find_line P (l # ls) = (if P l then Some (l, ls) else find_line P ls)"

lemma rsplit_once_append [str_simps]: "c \<notin> set r \<Longrightarrow> rsplit_once c (p @ c # r) = Some (p, r)"
  by (simp add: rsplit_once_def rfind_char_append)

text \<open>\<^verbatim>\<open>to_ascii_lowercase\<close> and \<^verbatim>\<open>eq_ignore_ascii_case\<close>.\<close>

definition ascii_lower :: "char \<Rightarrow> char" where
  "ascii_lower c = (if in_range 65 (of_char c) 90 then char_of (of_char c + 32 :: nat) else c)"

definition eq_ignore_ascii_case :: "string \<Rightarrow> string \<Rightarrow> bool" where
  "eq_ignore_ascii_case a b \<longleftrightarrow> map ascii_lower a = map ascii_lower b"

text \<open>Text that begins and ends with a visible ASCII character is not changed by trimming.\<close>

definition graph_char :: "char \<Rightarrow> bool" where
  "graph_char c \<longleftrightarrow> in_range 0x21 (of_char c) 0x7E"

lemma strip_front_fresh: "list_all (\<lambda>w. w \<noteq> [] \<and> hd w \<noteq> hd s) ws \<Longrightarrow> strip_front ws s = s"
proof -
  assume a: "list_all (\<lambda>w. w \<noteq> [] \<and> hd w \<noteq> hd s) ws"
  have "\<not> prefix w s" if "w \<in> set ws" for w
    using a that by (cases w; cases s) (auto simp: list_all_iff)
  then have "find (\<lambda>w. prefix w s) ws = None" by (auto simp: find_None_iff)
  then show ?thesis by (simp add: strip_front.simps [of ws s] match_len_def)
qed

lemma graph_not_white:
  "graph_char c \<Longrightarrow> list_all (\<lambda>w. w \<noteq> [] \<and> hd w \<noteq> c) white_space"
  "graph_char c \<Longrightarrow> list_all (\<lambda>w. w \<noteq> [] \<and> hd w \<noteq> c) (map rev white_space)"
  by (auto simp: white_space_def graph_char_def in_range_def)

lemma trim_graph: "s = [] \<or> (graph_char (hd s) \<and> graph_char (last s)) \<Longrightarrow> trim s = s"
proof -
  assume a: "s = [] \<or> (graph_char (hd s) \<and> graph_char (last s))"
  have n: "strip_front ws [] = []" for ws by (simp add: strip_front.simps)
  show ?thesis
  proof (cases "s = []")
    case False
    with a have "graph_char (hd s)" "graph_char (hd (rev s))" by (auto simp: hd_rev)
    then show ?thesis
      by (simp add: trim_def trim_end_def trim_start_def strip_front_fresh graph_not_white)
  qed (simp add: trim_def trim_end_def trim_start_def n)
qed

section \<open>Invariants of runs\<close>

text \<open>A system whose operations keep an invariant that may lose strength with the operation performed:
  the index of the invariant after a run is the index before it, transformed by every operation.\<close>

locale graded_invariant =
  fixes step :: "'op \<Rightarrow> 's \<Rightarrow> 's" and inv :: "'i \<Rightarrow> 's \<Rightarrow> bool" and grade :: "'op \<Rightarrow> 'i \<Rightarrow> 'i"
    and allowed :: "'op \<Rightarrow> 'i \<Rightarrow> bool"
  assumes step_inv: "inv i s \<Longrightarrow> allowed op i \<Longrightarrow> inv (grade op i) (step op s)"
begin

fun all_allowed :: "'op list \<Rightarrow> 'i \<Rightarrow> bool" where
  "all_allowed [] i = True"
| "all_allowed (op # ops) i = (allowed op i \<and> all_allowed ops (grade op i))"

lemma run_inv: "inv i s \<Longrightarrow> all_allowed ops i \<Longrightarrow> inv (fold grade ops i) (fold step ops s)"
  by (induction ops arbitrary: i s) (auto simp: step_inv)

end

end
