(* ===== verification/Kinds.thy ===== *)
theory Kinds
  imports Prelude
begin

text \<open>
  \<^verbatim>\<open>cch_model/src/kind.rs\<close>: the crash kinds, the mask of collectors that saw an occurrence, the
  state and the encoding of a stored payload.  Their numbers are persisted in SQLite and sent on the
  wire; the codec interpretations show that reading a stored number gives the variant back and that
  no other number reads as a variant.
\<close>

unbundle bit_operations_syntax

section \<open>Crash kinds\<close>

datatype CrashKind = JavaException | Anr | NativeCrash | Wtf

definition CrashKind_ALL :: "CrashKind list" where
  "CrashKind_ALL = [JavaException, Anr, NativeCrash, Wtf]"

fun kind_as_i64 :: "CrashKind \<Rightarrow> int" where
  "kind_as_i64 JavaException = 0"
| "kind_as_i64 Anr = 1"
| "kind_as_i64 NativeCrash = 2"
| "kind_as_i64 Wtf = 3"

definition kind_from_i64 :: "int \<Rightarrow> CrashKind option" where
  "kind_from_i64 v =
     (if v = 0 then Some JavaException else if v = 1 then Some Anr
      else if v = 2 then Some NativeCrash else if v = 3 then Some Wtf else None)"

interpretation kind_codec: canonical_codec kind_as_i64 kind_from_i64 "\<lambda>_. True"
proof (standard, goal_cases)
  case (1 x) then show ?case by (cases x) (simp_all add: kind_from_i64_def)
next
  case (2 y x) then show ?case by (auto simp: kind_from_i64_def split: if_splits)
qed

lemma set_CrashKind_ALL: "set CrashKind_ALL = UNIV"
proof -
  have "k \<in> set CrashKind_ALL" for k by (cases k) (simp_all add: CrashKind_ALL_def)
  then show ?thesis by auto
qed

section \<open>Source masks\<close>

type_synonym SourceMask = "32 word"

definition EVENTS :: SourceMask where "EVENTS = push_bit 0 1"
definition CRASH_BUFFER :: SourceMask where "CRASH_BUFFER = push_bit 1 1"
definition DROPBOX :: SourceMask where "DROPBOX = push_bit 2 1"
definition TOMBSTONE :: SourceMask where "TOMBSTONE = push_bit 3 1"
definition ANR_FILE :: SourceMask where "ANR_FILE = push_bit 4 1"

definition KNOWN :: SourceMask where "KNOWN = 0b11111"

definition mask_empty :: SourceMask where "mask_empty = 0"

definition from_bits_truncate :: "32 word \<Rightarrow> SourceMask" where
  "from_bits_truncate bits = bits AND KNOWN"

definition mask_contains :: "SourceMask \<Rightarrow> SourceMask \<Rightarrow> bool" where
  "mask_contains m other \<longleftrightarrow> m AND other = other"

definition mask_union :: "SourceMask \<Rightarrow> SourceMask \<Rightarrow> SourceMask" where
  "mask_union m other = m OR other"

definition mask_intersects :: "SourceMask \<Rightarrow> SourceMask \<Rightarrow> bool" where
  "mask_intersects m other \<longleftrightarrow> m AND other \<noteq> 0"

definition mask_is_empty :: "SourceMask \<Rightarrow> bool" where
  "mask_is_empty m \<longleftrightarrow> m = 0"

lemmas source_bits = EVENTS_def CRASH_BUFFER_def DROPBOX_def TOMBSTONE_def ANR_FILE_def

text \<open>The abstraction of a mask: the set of its bits.  The operations are the set operations.\<close>

definition sources_of :: "SourceMask \<Rightarrow> nat set" where "sources_of m = {n. bit m n}"

lemma sources_of_inject [simp]: "sources_of a = sources_of b \<longleftrightarrow> a = b"
  by (auto simp: sources_of_def word_bits_eq_iff)

lemma sources_of_union [simp]: "sources_of (mask_union a b) = sources_of a \<union> sources_of b"
  by (auto simp: sources_of_def mask_union_def bit_simps)

lemma mask_contains_iff: "mask_contains m other \<longleftrightarrow> sources_of other \<subseteq> sources_of m"
  by (auto simp: sources_of_def mask_contains_def word_bits_eq_iff bit_simps)

lemma mask_intersects_iff: "mask_intersects m other \<longleftrightarrow> sources_of m \<inter> sources_of other \<noteq> {}"
  by (auto simp: sources_of_def mask_intersects_def word_bits_eq_iff bit_simps)

lemma mask_is_empty_iff: "mask_is_empty m \<longleftrightarrow> sources_of m = {}"
  by (auto simp: sources_of_def mask_is_empty_def word_bits_eq_iff)

lemma sources_of_truncate: "sources_of (from_bits_truncate b) = sources_of b \<inter> {0..<5}"
proof -
  have m: "KNOWN = mask 5" by (simp add: KNOWN_def mask_eq_exp_minus_1)
  have k: "bit KNOWN n \<longleftrightarrow> n < 5" for n unfolding m bit_mask_iff by auto
  show ?thesis by (auto simp: sources_of_def from_bits_truncate_def bit_and_iff k)
qed

lemma mask_union_known [simp]:
  "from_bits_truncate a = a \<Longrightarrow> from_bits_truncate b = b \<Longrightarrow>
   from_bits_truncate (mask_union a b) = mask_union a b"
  by (metis (no_types) from_bits_truncate_def mask_union_def bit.conj_disj_distrib2)

lemma from_bits_truncate_idem [simp]:
  "from_bits_truncate (from_bits_truncate b) = from_bits_truncate b"
  by (simp add: from_bits_truncate_def and.assoc)

section \<open>Payload states and encodings\<close>

datatype PayloadState = Present | Truncated | Evicted | Absent

fun pstate_as_i64 :: "PayloadState \<Rightarrow> int" where
  "pstate_as_i64 Present = 0"
| "pstate_as_i64 Truncated = 1"
| "pstate_as_i64 Evicted = 2"
| "pstate_as_i64 Absent = 3"

definition pstate_from_i64 :: "int \<Rightarrow> PayloadState option" where
  "pstate_from_i64 v =
     (if v = 0 then Some Present else if v = 1 then Some Truncated
      else if v = 2 then Some Evicted else if v = 3 then Some Absent else None)"

fun is_readable :: "PayloadState \<Rightarrow> bool" where
  "is_readable Present = True"
| "is_readable Truncated = True"
| "is_readable Evicted = False"
| "is_readable Absent = False"

datatype PayloadCodec = Raw | Zstd

fun pcodec_as_i64 :: "PayloadCodec \<Rightarrow> int" where
  "pcodec_as_i64 Raw = 0"
| "pcodec_as_i64 Zstd = 1"

definition pcodec_from_i64 :: "int \<Rightarrow> PayloadCodec option" where
  "pcodec_from_i64 v = (if v = 0 then Some Raw else if v = 1 then Some Zstd else None)"

interpretation pstate_codec: canonical_codec pstate_as_i64 pstate_from_i64 "\<lambda>_. True"
proof (standard, goal_cases)
  case (1 x) then show ?case by (cases x) (simp_all add: pstate_from_i64_def)
next
  case (2 y x) then show ?case by (auto simp: pstate_from_i64_def split: if_splits)
qed

interpretation pcodec_codec: canonical_codec pcodec_as_i64 pcodec_from_i64 "\<lambda>_. True"
proof (standard, goal_cases)
  case (1 x) then show ?case by (cases x) (simp_all add: pcodec_from_i64_def)
next
  case (2 y x) then show ?case by (auto simp: pcodec_from_i64_def split: if_splits)
qed

section \<open>Properties\<close>

text \<open>the numbers stored for crash kinds, payload states and payload encodings determine the variant,
  and no other number reads as one.\<close>
theorem stored_numbers_exact:
  "(kind_from_i64 n = Some k \<longleftrightarrow> n = kind_as_i64 k) \<and>
   (pstate_from_i64 n = Some st \<longleftrightarrow> n = pstate_as_i64 st) \<and>
   (pcodec_from_i64 n = Some co \<longleftrightarrow> n = pcodec_as_i64 co)"
  by (simp add: kind_codec.dec_eq_Some_iff pstate_codec.dec_eq_Some_iff pcodec_codec.dec_eq_Some_iff)

text \<open>source masks refine sets of collectors: union is union, \<^verbatim>\<open>contains\<close> is inclusion,
  \<^verbatim>\<open>intersects\<close> is a common member, and reading a stored mask keeps exactly the five known bits.\<close>
theorem source_mask_refines_set:
  "sources_of (mask_union a b) = sources_of a \<union> sources_of b \<and>
   (mask_contains a b \<longleftrightarrow> sources_of b \<subseteq> sources_of a) \<and>
   (mask_intersects a b \<longleftrightarrow> sources_of a \<inter> sources_of b \<noteq> {}) \<and>
   (mask_is_empty a \<longleftrightarrow> sources_of a = {}) \<and>
   sources_of (from_bits_truncate a) = sources_of a \<inter> {0..<5}"
  by (simp add: mask_contains_iff mask_intersects_iff mask_is_empty_iff sources_of_truncate)

end
