(* ===== verification/Fingerprint.thy ===== *)
theory Fingerprint
  imports Kinds
begin

text \<open>
  \<^verbatim>\<open>cch_model/src/fingerprint.rs\<close> and \<^verbatim>\<open>cch_model/src/record.rs\<close>: how stack frames are normalized,
  which of them identify a crash site, the group id, and the record the collectors produce.

  SHA-256 (crate \<^verbatim>\<open>sha2\<close>) is the parameter \<^term>\<open>sha256\<close>, a function of all the bytes fed to the hasher.
\<close>

section \<open>Frames\<close>

definition FINGERPRINT_FRAME_COUNT :: nat where "FINGERPRINT_FRAME_COUNT = 4"
definition GROUP_ID_LEN :: nat where "GROUP_ID_LEN = 32"

definition FRAMEWORK_PREFIXES :: "string list" where
  "FRAMEWORK_PREFIXES =
     [''android.'', ''androidx.'', ''com.android.internal.'', ''com.android.server.'', ''dalvik.'',
      ''java.'', ''javax.'', ''kotlin.'', ''kotlinx.coroutines.'', ''libcore.'', ''sun.'', ''art_'']"

definition strip_java_frame_prefix :: "string \<Rightarrow> string" where
  "strip_java_frame_prefix frame0 =
     (let frame = trim frame0
      in trim_start (case strip_prefix ''at '' frame of Some rest \<Rightarrow> rest | None \<Rightarrow> frame))"

definition is_framework_frame :: "string \<Rightarrow> bool" where
  "is_framework_frame frame0 =
     (let frame = strip_java_frame_prefix frame0
      in list_ex (\<lambda>pre. prefix pre frame) FRAMEWORK_PREFIXES)"

definition normalize_java_frame :: "string \<Rightarrow> string" where
  "normalize_java_frame frame0 =
     (let frame = strip_java_frame_prefix frame0
      in case rfind_char CHR ''('' frame of
           None \<Rightarrow> frame
         | Some open_at \<Rightarrow>
             (case map_option (\<lambda>offset. open_at + offset) (find_char CHR '')'' (drop open_at frame)) of
                None \<Rightarrow> frame
              | Some close_at \<Rightarrow>
                  (let inside = drop (open_at + 1) (take close_at frame);
                       location = hd (split_on CHR '':'' inside)
                   in take (open_at + 1) frame @ location @ '')'')))"

text \<open>\<^verbatim>\<open>token.rsplit('/').next()\<close> is the last piece of the split.\<close>

definition native_library :: "string \<Rightarrow> string" where
  "native_library frame =
     fold (\<lambda>token library.
             if contains_str ''/'' token \<and> (contains_str ''.so'' token \<or> contains_str ''.apk'' token)
             then last (split_on CHR ''/'' token) else library)
          (split_whitespace frame) []"

definition native_symbol :: "string \<Rightarrow> string" where
  "native_symbol frame =
     (case find_char CHR ''('' frame of
        None \<Rightarrow> []
      | Some open_at \<Rightarrow>
          (case map_option (\<lambda>offset. open_at + offset) (find_char CHR '')'' (drop open_at frame)) of
             None \<Rightarrow> []
           | Some close_at \<Rightarrow>
               (let inside = drop (open_at + 1) (take close_at frame)
                in if prefix ''BuildId:'' inside then [] else hd (split_on CHR ''+'' inside))))"

definition normalize_native_frame :: "string \<Rightarrow> string" where
  "normalize_native_frame frame0 =
     (let frame = trim frame0; library = native_library frame; symbol = native_symbol frame
      in if library = [] then (if symbol = [] then frame else symbol)
         else (if symbol = [] then library else library @ '' ('' @ symbol @ '')''))"

section \<open>Fingerprints and groups\<close>

record Fingerprint =
  fp_kind :: CrashKind
  primary :: string
  frames :: "string list"

fun normalizer :: "CrashKind \<Rightarrow> string \<Rightarrow> string" where
  "normalizer NativeCrash = normalize_native_frame"
| "normalizer JavaException = normalize_java_frame"
| "normalizer Anr = normalize_java_frame"
| "normalizer Wtf = normalize_java_frame"

definition from_raw_frames :: "CrashKind \<Rightarrow> string \<Rightarrow> string list \<Rightarrow> Fingerprint" where
  "from_raw_frames kind prim raw =
     (let normalized = map (normalizer kind) raw;
          app_frames = take FINGERPRINT_FRAME_COUNT (filter (\<lambda>f. \<not> is_framework_frame f) normalized);
          frs = (if app_frames = [] then take FINGERPRINT_FRAME_COUNT normalized else app_frames)
      in \<lparr>fp_kind = kind, primary = prim, frames = frs\<rparr>)"

record GroupKey =
  gk_package_name :: string
  gk_process_name :: string
  gk_user_id :: int
  gk_fingerprint :: Fingerprint

text \<open>\<^verbatim>\<open>feed\<close> hashes the length of a field before its bytes; \<^verbatim>\<open>group_bytes\<close> is everything
  \<^verbatim>\<open>group_id\<close> feeds, in order.\<close>

definition feed :: "string \<Rightarrow> u8 list" where
  "feed value = be_bytes 8 (length value) @ as_bytes value"

definition group_bytes :: "GroupKey \<Rightarrow> u8 list" where
  "group_bytes k =
     (let fp = gk_fingerprint k
      in feed (gk_package_name k) @ feed (gk_process_name k) @ feed (int_to_dec (gk_user_id k)) @
         feed (int_to_dec (kind_as_i64 (fp_kind fp))) @ feed (primary fp) @
         feed (nat_to_dec (length (frames fp))) @ concat (map feed (frames fp)))"

definition hex_digit :: "nat \<Rightarrow> char" where "hex_digit d = ''0123456789abcdef'' ! d"

definition hex_encode :: "u8 list \<Rightarrow> string" where
  "hex_encode bs = concat (map (\<lambda>b. [hex_digit (unat b div 16), hex_digit (unat b mod 16)]) bs)"

definition group_id :: "(u8 list \<Rightarrow> u8 list) \<Rightarrow> GroupKey \<Rightarrow> string" where
  "group_id sha256 k = hex_encode (take (GROUP_ID_LEN div 2) (sha256 (group_bytes k)))"

section \<open>Records\<close>

definition SUMMARY_TEXT_MAX_BYTES :: nat where "SUMMARY_TEXT_MAX_BYTES = 256"

record CrashSummary =
  class_name :: "string option"
  summary_text :: "string option"

fun boundary_down :: "string \<Rightarrow> nat \<Rightarrow> nat" where
  "boundary_down value 0 = 0"
| "boundary_down value (Suc n) =
     (if is_char_boundary value (Suc n) then Suc n else boundary_down value n)"

definition truncate_on_char_boundary :: "string \<Rightarrow> nat \<Rightarrow> string" where
  "truncate_on_char_boundary value max_bytes =
     (if length value \<le> max_bytes then value else take (boundary_down value max_bytes) value)"

definition summary_new :: "string option \<Rightarrow> string option \<Rightarrow> CrashSummary" where
  "summary_new cls txt =
     \<lparr>class_name = cls,
      summary_text = map_option (\<lambda>v. truncate_on_char_boundary v SUMMARY_TEXT_MAX_BYTES) txt\<rparr>"

datatype PayloadSource = Inline "u8 list" | FilePath string | NoPayload

fun payload_is_none :: "PayloadSource \<Rightarrow> bool" where
  "payload_is_none NoPayload = True"
| "payload_is_none _ = False"

record CrashRecord =
  kind :: CrashKind
  package_name :: string
  process_name :: string
  user_id :: int
  pid :: int
  happened_at_ms :: int
  app_version_name :: "string option"
  app_version_code :: "int option"
  is_system_app :: bool
  package_installed :: bool
  is_foreground :: "bool option"
  self_handled :: bool
  dropped_count :: "int option"
  sources :: SourceMask
  summary :: CrashSummary
  fingerprint :: Fingerprint
  payload :: PayloadSource

definition is_main_process :: "CrashRecord \<Rightarrow> bool" where
  "is_main_process r \<longleftrightarrow> package_name r = process_name r"

definition group_key :: "CrashRecord \<Rightarrow> GroupKey" where
  "group_key r = \<lparr>gk_package_name = package_name r, gk_process_name = process_name r,
                  gk_user_id = user_id r, gk_fingerprint = fingerprint r\<rparr>"

definition record_group_id :: "(u8 list \<Rightarrow> u8 list) \<Rightarrow> CrashRecord \<Rightarrow> string" where
  "record_group_id sha256 r = group_id sha256 (group_key r)"

section \<open>Fingerprint lemmas\<close>

lemma from_raw_frames_le: "length (frames (from_raw_frames k p raw)) \<le> FINGERPRINT_FRAME_COUNT"
  by (simp add: from_raw_frames_def Let_def)

lemma from_raw_frames_Nil: "frames (from_raw_frames k p raw) = [] \<longleftrightarrow> raw = []"
  by (auto simp: from_raw_frames_def Let_def FINGERPRINT_FRAME_COUNT_def)

lemma from_raw_frames_subseq: "subseq (frames (from_raw_frames k p raw)) (map (normalizer k) raw)"
proof -
  have t: "subseq (take n xs) xs" for n and xs :: "string list"
    by (simp add: prefix_imp_subseq take_is_prefix)
  have "subseq (take n (filter P xs)) xs" for n P and xs :: "string list"
    by (rule subseq_order.trans [OF t subseq_filter_left])
  with t show ?thesis by (simp add: from_raw_frames_def Let_def)
qed

lemma from_raw_frames_app:
  "f \<in> set (map (normalizer k) raw) \<Longrightarrow> \<not> is_framework_frame f \<Longrightarrow>
   list_all (\<lambda>f. \<not> is_framework_frame f) (frames (from_raw_frames k p raw))"
  by (auto simp: from_raw_frames_def Let_def list_all_iff FINGERPRINT_FRAME_COUNT_def
      filter_empty_conv dest: in_set_takeD)

text \<open>A frame with a source location keeps everything up to the file name and nothing of the line.\<close>

lemma normalize_java_frame_location:
  assumes "strip_java_frame_prefix f = site @ ''('' @ file @ '':'' @ line @ '')'' @ rest"
    and "CHR ''('' \<notin> set (file @ line @ rest)" "CHR '')'' \<notin> set (file @ line)" "CHR '':'' \<notin> set file"
  shows "normalize_java_frame f = site @ ''('' @ file @ '')''"
proof -
  let ?s = "site @ ''('' @ file @ '':'' @ line @ '')'' @ rest"
  have r: "rfind_char CHR ''('' ?s = Some (length site)"
    using assms(2) rfind_char_append [of "CHR ''(''" "file @ '':'' @ line @ '')'' @ rest" site] by simp
  have c: "find_char CHR '')'' (drop (length site) ?s) = Some (length (''('' @ file @ '':'' @ line))"
    using assms(3) find_char_append [of "CHR '')''" "''('' @ file @ '':'' @ line" rest] by simp
  have i: "drop (length site + 1) (take (length site + length (''('' @ file @ '':'' @ line)) ?s)
      = file @ '':'' @ line"
    by simp
  have h: "hd (split_on CHR '':'' (file @ '':'' @ line)) = file"
    using assms(4) split_on_append [of "CHR '':''" "file" "line"] by simp
  show ?thesis
    unfolding normalize_java_frame_def Let_def assms(1) r option.case c option.map i h by simp
qed

section \<open>The group encoding is injective\<close>

definition str_fits :: "string \<Rightarrow> bool" where "str_fits s \<longleftrightarrow> length s < 2 ^ 64"

definition key_fits :: "GroupKey \<Rightarrow> bool" where
  "key_fits k \<longleftrightarrow> str_fits (gk_package_name k) \<and> str_fits (gk_process_name k) \<and>
     str_fits (int_to_dec (gk_user_id k)) \<and> str_fits (primary (gk_fingerprint k)) \<and>
     str_fits (nat_to_dec (length (frames (gk_fingerprint k)))) \<and>
     list_all str_fits (frames (gk_fingerprint k))"

lemma feed_append_inject:
  assumes "str_fits a" "str_fits b"
  shows "feed a @ x = feed b @ y \<longleftrightarrow> a = b \<and> x = y"
proof
  assume eq: "feed a @ x = feed b @ y"
  then have "be_bytes 8 (length a) = be_bytes 8 (length b) \<and> as_bytes a @ x = as_bytes b @ y"
    by (simp add: feed_def)
  moreover from this have "length a = length b"
    using assms be_bytes_inject [of "length a" 8 "length b"] by (simp add: str_fits_def)
  ultimately show "a = b \<and> x = y" by (simp add: append_eq_append_conv)
qed simp

lemma concat_feed_inject:
  "length xs = length ys \<Longrightarrow> list_all str_fits xs \<Longrightarrow> list_all str_fits ys \<Longrightarrow>
   concat (map feed xs) = concat (map feed ys) \<longleftrightarrow> xs = ys"
  by (induction xs ys rule: list_induct2) (simp_all add: feed_append_inject)

lemma kind_digits_fit [simp]: "str_fits (int_to_dec (kind_as_i64 k))"
  by (cases k) (simp_all add: str_fits_def int_to_dec_def)

lemma group_bytes_inject:
  assumes "key_fits j" "key_fits k"
  shows "group_bytes j = group_bytes k \<longleftrightarrow> j = k"
proof
  assume eq: "group_bytes j = group_bytes k"
  let ?f = "gk_fingerprint j" and ?g = "gk_fingerprint k"
  have "gk_package_name j = gk_package_name k \<and> gk_process_name j = gk_process_name k \<and>
      gk_user_id j = gk_user_id k \<and> kind_as_i64 (fp_kind ?f) = kind_as_i64 (fp_kind ?g) \<and>
      primary ?f = primary ?g \<and> length (frames ?f) = length (frames ?g) \<and>
      concat (map feed (frames ?f)) = concat (map feed (frames ?g))"
    using eq assms by (simp add: group_bytes_def Let_def key_fits_def feed_append_inject)
  moreover from this have "frames ?f = frames ?g"
    using assms concat_feed_inject [of "frames ?f" "frames ?g"] by (simp add: key_fits_def)
  moreover have "fp_kind ?f = fp_kind ?g"
    using calculation(1) by (simp add: kind_codec.enc_inject)
  ultimately show "j = k" by (simp add: GroupKey.equality Fingerprint.equality)
qed simp

lemma hex_digit_inject: "a < 16 \<Longrightarrow> b < 16 \<Longrightarrow> hex_digit a = hex_digit b \<longleftrightarrow> a = b"
proof -
  have "distinct ''0123456789abcdef''" by simp
  then show "a < 16 \<Longrightarrow> b < 16 \<Longrightarrow> ?thesis" by (simp add: hex_digit_def nth_eq_iff_index_eq)
qed

lemma hex_encode_inject: "hex_encode x = hex_encode y \<longleftrightarrow> x = y"
proof (induction x arbitrary: y)
  case Nil then show ?case by (cases y) (auto simp: hex_encode_def)
next
  case (Cons b bs)
  show ?case
  proof (cases y)
    case (Cons c cs)
    have "hex_digit (unat b div 16) = hex_digit (unat c div 16) \<and>
        hex_digit (unat b mod 16) = hex_digit (unat c mod 16) \<longleftrightarrow> b = c"
    proof -
      have "unat b div 16 < 16" "unat c div 16 < 16" by (simp_all add: less_mult_imp_div_less)
      then show ?thesis by (auto simp: hex_digit_inject) (metis mod_div_mult_eq unat_inject)
    qed
    moreover have "hex_encode (b # bs) = [hex_digit (unat b div 16), hex_digit (unat b mod 16)] @ hex_encode bs"
      "hex_encode (c # cs) = [hex_digit (unat c div 16), hex_digit (unat c mod 16)] @ hex_encode cs"
      by (simp_all add: hex_encode_def)
    ultimately show ?thesis using Cons.IH [of cs] Cons by auto
  qed (simp add: hex_encode_def)
qed

lemma group_id_eq_iff:
  "key_fits j \<Longrightarrow> key_fits k \<Longrightarrow>
   group_id sha j = group_id sha k \<longleftrightarrow>
     j = k \<or> take 16 (sha (group_bytes j)) = take 16 (sha (group_bytes k))"
  by (auto simp: group_id_def hex_encode_inject GROUP_ID_LEN_def)

section \<open>Truncation\<close>

lemma boundary_down_le: "boundary_down s n \<le> n"
  by (induction n) auto

lemma boundary_down_boundary: "is_char_boundary s (boundary_down s n)"
  by (induction n) (auto simp: is_char_boundary_def)

lemma boundary_down_max: "m \<le> n \<Longrightarrow> is_char_boundary s m \<Longrightarrow> m \<le> boundary_down s n"
  by (induction n) (auto simp: le_Suc_eq)

lemma truncate_length: "length (truncate_on_char_boundary s n) \<le> n"
  using boundary_down_le [of s n] by (auto simp: truncate_on_char_boundary_def)

lemma truncate_prefix: "prefix (truncate_on_char_boundary s n) s"
  by (simp add: truncate_on_char_boundary_def take_is_prefix)

lemma truncate_valid: "valid_utf8 s \<Longrightarrow> valid_utf8 (truncate_on_char_boundary s n)"
  using boundary_down_le [of s n] boundary_down_boundary [of s n]
  by (auto simp: truncate_on_char_boundary_def intro: valid_utf8_take)

lemma truncate_maximal:
  "p \<le> n \<Longrightarrow> p \<le> length s \<Longrightarrow> is_char_boundary s p \<Longrightarrow>
   p \<le> length (truncate_on_char_boundary s n)"
  using boundary_down_max [of p n s] by (simp add: truncate_on_char_boundary_def)

section \<open>Properties\<close>

text \<open>the bytes hashed for a group id determine every field of the group key, so two different groups
  can only share an id through a collision of the truncated SHA-256 digest.\<close>
theorem group_key_encoding_injective:
  assumes "key_fits j" and "key_fits k"
  shows "(group_bytes j = group_bytes k \<longleftrightarrow> j = k) \<and>
         (group_id sha256 j = group_id sha256 k \<longleftrightarrow>
            j = k \<or> (group_bytes j \<noteq> group_bytes k \<and>
                     take 16 (sha256 (group_bytes j)) = take 16 (sha256 (group_bytes k))))"
  using group_bytes_inject [OF assms] group_id_eq_iff [OF assms, of sha256] by auto

theorem group_key_encoding_injective_witness:
  "group_bytes \<lparr>gk_package_name = ''a'', gk_process_name = ''a'', gk_user_id = 0,
      gk_fingerprint = \<lparr>fp_kind = Anr, primary = ''x'', frames = []\<rparr>\<rparr> \<noteq>
   group_bytes \<lparr>gk_package_name = ''a'', gk_process_name = ''a'', gk_user_id = 0,
      gk_fingerprint = \<lparr>fp_kind = Anr, primary = [], frames = [''x'']\<rparr>\<rparr>"
  using group_key_encoding_injective [of
      "\<lparr>gk_package_name = ''a'', gk_process_name = ''a'', gk_user_id = 0,
        gk_fingerprint = \<lparr>fp_kind = Anr, primary = ''x'', frames = []\<rparr>\<rparr>"
      "\<lparr>gk_package_name = ''a'', gk_process_name = ''a'', gk_user_id = 0,
        gk_fingerprint = \<lparr>fp_kind = Anr, primary = [], frames = [''x'']\<rparr>\<rparr>"]
  by (simp add: key_fits_def str_fits_def int_to_dec_def)

text \<open>a fingerprint has at most four frames, all of them normalized frames of the trace in the order
  of the trace; it is empty only for an empty trace, and if any normalized frame is app code, then
  no framework frame is in it.\<close>
theorem fingerprint_frames_spec:
  "length (frames (from_raw_frames k p raw)) \<le> 4 \<and>
   subseq (frames (from_raw_frames k p raw)) (map (normalizer k) raw) \<and>
   (frames (from_raw_frames k p raw) = [] \<longleftrightarrow> raw = []) \<and>
   (list_ex (\<lambda>f. \<not> is_framework_frame f) (map (normalizer k) raw) =
      (raw \<noteq> [] \<and> list_all (\<lambda>f. \<not> is_framework_frame f) (frames (from_raw_frames k p raw))))"
proof -
  let ?fs = "frames (from_raw_frames k p raw)"
  have "list_ex (\<lambda>f. \<not> is_framework_frame f) (map (normalizer k) raw)"
    if "raw \<noteq> []" "list_all (\<lambda>f. \<not> is_framework_frame f) ?fs"
  proof -
    have "?fs \<noteq> []" using that(1) by (simp add: from_raw_frames_Nil)
    then have "hd ?fs \<in> set ?fs" by simp
    moreover from this have "hd ?fs \<in> set (map (normalizer k) raw)"
      by (rule list_emb_set [OF from_raw_frames_subseq]) blast
    ultimately show ?thesis using that(2) unfolding list_ex_iff list_all_iff by blast
  qed
  moreover have "raw \<noteq> [] \<and> list_all (\<lambda>f. \<not> is_framework_frame f) ?fs"
    if "list_ex (\<lambda>f. \<not> is_framework_frame f) (map (normalizer k) raw)"
    using that from_raw_frames_app [of _ k raw p] by (auto simp: list_ex_iff)
  ultimately show ?thesis
    using from_raw_frames_le [of k p raw] from_raw_frames_subseq [of k p raw] from_raw_frames_Nil [of k p raw]
    unfolding FINGERPRINT_FRAME_COUNT_def by blast
qed

text \<open>two Java frames that differ only in the line number after the file name, or in what follows the
  closing parenthesis, normalize to the same text, so recompiling an app does not split a group.\<close>
theorem java_line_number_ignored:
  assumes "strip_java_frame_prefix f = site @ ''('' @ file @ '':'' @ line @ '')'' @ rest"
    and "strip_java_frame_prefix g = site @ ''('' @ file @ '':'' @ line' @ '')'' @ rest'"
    and "CHR ''('' \<notin> set (file @ line @ rest @ line' @ rest')"
    and "CHR '')'' \<notin> set (file @ line @ line')" and "CHR '':'' \<notin> set file"
  shows "normalize_java_frame f = normalize_java_frame g \<and>
         normalize_java_frame f = site @ ''('' @ file @ '')''"
  using normalize_java_frame_location [OF assms(1)] normalize_java_frame_location [OF assms(2)] assms(3-5)
  by simp

theorem java_line_number_ignored_witness:
  "normalize_java_frame ([CHR 0x09] @ ''at a.B.c(B.kt:17)'') = normalize_java_frame ''at a.B.c(B.kt:4) ''"
proof -
  have "strip_java_frame_prefix ([CHR 0x09] @ ''at a.B.c(B.kt:17)'')
      = ''a.B.c'' @ ''('' @ ''B.kt'' @ '':'' @ ''17'' @ '')'' @ []"
    "strip_java_frame_prefix ''at a.B.c(B.kt:4) '' = ''a.B.c'' @ ''('' @ ''B.kt'' @ '':'' @ ''4'' @ '')'' @ []"
    by code_simp+
  from java_line_number_ignored [OF this] show ?thesis by simp
qed

text \<open>truncating a text never returns more than the limit, returns a prefix of it that is valid UTF-8
  when the text is, and cuts as late as a character boundary allows.\<close>
theorem truncate_spec:
  assumes "valid_utf8 value"
  shows "length (truncate_on_char_boundary value n) \<le> n \<and>
         prefix (truncate_on_char_boundary value n) value \<and>
         valid_utf8 (truncate_on_char_boundary value n) \<and>
         (\<forall>m. is_char_boundary value m \<longrightarrow> m \<le> n \<longrightarrow> m \<le> length value \<longrightarrow>
            m \<le> length (truncate_on_char_boundary value n))"
  using assms truncate_length truncate_prefix truncate_valid truncate_maximal by blast

theorem truncate_spec_witness:
  "valid_utf8 (truncate_on_char_boundary [CHR ''a'', CHR 0xC3, CHR 0xA9] 2) \<and>
   truncate_on_char_boundary [CHR ''a'', CHR 0xC3, CHR 0xA9] 2 = ''a''"
proof -
  have "valid_utf8 [CHR ''a'', CHR 0xC3, CHR 0xA9]" by code_simp
  moreover have "truncate_on_char_boundary [CHR ''a'', CHR 0xC3, CHR 0xA9] 2 = ''a''" by code_simp
  ultimately show ?thesis using truncate_spec [of "[CHR ''a'', CHR 0xC3, CHR 0xA9]" 2] by blast
qed

end
