(* ===== verification/Merge.thy ===== *)
theory Merge
  imports Fingerprint "HOL-Library.Multiset"
begin

text \<open>
  \<^verbatim>\<open>cch_merge/src/lib.rs\<close>: the correlator.  Collectors hand it fragments; it keeps the occurrences
  that may still gain evidence (\<^verbatim>\<open>pending\<close>), the identities of those completed within the window
  (\<^verbatim>\<open>recent\<close>) and the keys of fragments absorbed by a completion (\<^verbatim>\<open>suppressed_source_keys\<close>), and it
  returns completed records.

  Every mutation of \<^verbatim>\<open>&mut self\<close> returns the new merger.  Completion ids are 64-bit words that wrap,
  timestamps are i64 with the saturating additions of the source.
\<close>

section \<open>Fragments\<close>

definition DEFAULT_MERGE_WINDOW_MS :: int where "DEFAULT_MERGE_WINDOW_MS = 10000"
definition RICH_SOURCE_SETTLE_WINDOW_MS :: int where "RICH_SOURCE_SETTLE_WINDOW_MS = 250"
definition MAX_SOURCE_SKEW_MS :: int where "MAX_SOURCE_SKEW_MS = 2000"

datatype EvidenceQuality = Text | Structured | Artifact | Protobuf

fun quality_rank :: "EvidenceQuality \<Rightarrow> nat" where
  "quality_rank Text = 0"
| "quality_rank Structured = 1"
| "quality_rank Artifact = 2"
| "quality_rank Protobuf = 3"

text \<open>The derived \<^verbatim>\<open>Ord\<close> is the order of the variants.\<close>

lemma quality_rank_inject [simp]: "quality_rank a = quality_rank b \<longleftrightarrow> a = b"
  by (cases a; cases b) simp_all

instantiation EvidenceQuality :: linorder
begin

definition less_eq_EvidenceQuality :: "EvidenceQuality \<Rightarrow> EvidenceQuality \<Rightarrow> bool" where
  "a \<le> b \<longleftrightarrow> quality_rank a \<le> quality_rank b"

definition less_EvidenceQuality :: "EvidenceQuality \<Rightarrow> EvidenceQuality \<Rightarrow> bool" where
  "a < b \<longleftrightarrow> quality_rank a < quality_rank b"

instance
  by standard (auto simp: less_eq_EvidenceQuality_def less_EvidenceQuality_def
      simp flip: quality_rank_inject)

end

datatype FragmentPayload = PNone | PInline "u8 list" | PFile string

fun into_model :: "FragmentPayload \<Rightarrow> PayloadSource" where
  "into_model PNone = NoPayload"
| "into_model (PInline v) = Inline v"
| "into_model (PFile v) = FilePath v"

fun fp_is_none :: "FragmentPayload \<Rightarrow> bool" where
  "fp_is_none PNone = True"
| "fp_is_none _ = False"

record CrashFragment =
  f_source :: SourceMask
  f_quality :: EvidenceQuality
  f_kind :: CrashKind
  f_package_name :: "string option"
  f_process_name :: string
  f_user_id :: "int option"
  f_pid :: int
  f_happened_at_ms :: int
  f_app_version_name :: "string option"
  f_app_version_code :: "int option"
  f_is_system_app :: "bool option"
  f_is_foreground :: "bool option"
  f_dropped_count :: "int option"
  f_summary_class :: "string option"
  f_summary_text :: "string option"
  f_frames :: "string list"
  f_payload :: FragmentPayload
  f_source_key :: "string option"
  f_source_instance :: "string option"

definition fragment_new ::
  "SourceMask \<Rightarrow> EvidenceQuality \<Rightarrow> CrashKind \<Rightarrow> string \<Rightarrow> int \<Rightarrow> int \<Rightarrow> CrashFragment" where
  "fragment_new src q k process p at =
     \<lparr>f_source = src, f_quality = q, f_kind = k, f_package_name = None, f_process_name = process,
      f_user_id = None, f_pid = p, f_happened_at_ms = at, f_app_version_name = None,
      f_app_version_code = None, f_is_system_app = None, f_is_foreground = None,
      f_dropped_count = None, f_summary_class = None, f_summary_text = None, f_frames = [],
      f_payload = PNone, f_source_key = None, f_source_instance = None\<rparr>"

record MergedCrash =
  completion_id :: "64 word"
  merged_record :: CrashRecord
  merged_source_keys :: "string list"

section \<open>Ranked evidence\<close>

record 'a Ranked =
  quality :: EvidenceQuality
  rvalue :: 'a

definition ranked_replace :: "'a Ranked \<Rightarrow> EvidenceQuality \<Rightarrow> 'a \<Rightarrow> 'a Ranked" where
  "ranked_replace r q v = (if q \<ge> quality r then \<lparr>quality = q, rvalue = v\<rparr> else r)"

definition ranked :: "EvidenceQuality \<Rightarrow> 'a option \<Rightarrow> 'a Ranked option" where
  "ranked q v = map_option (\<lambda>x. \<lparr>quality = q, rvalue = x\<rparr>) v"

definition merge_ranked :: "'a Ranked option \<Rightarrow> EvidenceQuality \<Rightarrow> 'a option \<Rightarrow> 'a Ranked option" where
  "merge_ranked slot q v =
     (case v of None \<Rightarrow> slot
      | Some x \<Rightarrow> (case slot of Some s \<Rightarrow> Some (ranked_replace s q x)
                   | None \<Rightarrow> Some \<lparr>quality = q, rvalue = x\<rparr>))"

section \<open>Pending occurrences\<close>

definition occurrence_identity_matches :: "int \<Rightarrow> int option \<Rightarrow> int \<Rightarrow> int option \<Rightarrow> bool" where
  "occurrence_identity_matches left_pid left_user right_pid right_user =
     (if left_pid \<noteq> 0 \<and> right_pid \<noteq> 0
      then left_pid = right_pid \<and>
           (case (left_user, right_user) of (Some l, Some r) \<Rightarrow> l = r | _ \<Rightarrow> True)
      else (case (left_user, right_user) of (Some l, Some r) \<Rightarrow> l = r | _ \<Rightarrow> False))"

text \<open>\<^verbatim>\<open>a.as_deref().zip(b.as_deref()).is_some_and(|(x, y)| x == y)\<close>, and
  \<^verbatim>\<open>u64::try_from(skew).unwrap_or(u64::MAX)\<close>.\<close>

definition both_equal :: "string option \<Rightarrow> string option \<Rightarrow> bool" where
  "both_equal a b = (case (a, b) of (Some x, Some y) \<Rightarrow> x = y | _ \<Rightarrow> False)"

definition skew_limit :: "int \<Rightarrow> int" where
  "skew_limit skew = (if skew < 0 then u64_max else skew)"

record Pending =
  p_kind :: "CrashKind Ranked"
  p_package :: "string Ranked option"
  p_process :: string
  p_user :: "int Ranked option"
  p_pid :: int
  p_first_ms :: int
  p_last_ms :: int
  p_version_name :: "string Ranked option"
  p_version_code :: "int Ranked option"
  p_system :: "bool Ranked option"
  p_foreground :: "bool Ranked option"
  p_dropped :: "int option"
  p_class :: "string Ranked option"
  p_text :: "string Ranked option"
  p_frames :: "string list Ranked"
  p_payload :: "FragmentPayload Ranked"
  p_sources :: SourceMask
  p_source_keys :: "string list"
  p_anr_file :: "string option"

definition pending_new :: "CrashFragment \<Rightarrow> Pending" where
  "pending_new f =
     (let q = f_quality f
      in \<lparr>p_kind = \<lparr>quality = q, rvalue = f_kind f\<rparr>,
          p_package = ranked q (f_package_name f),
          p_process = f_process_name f,
          p_user = ranked q (f_user_id f),
          p_pid = f_pid f,
          p_first_ms = f_happened_at_ms f,
          p_last_ms = f_happened_at_ms f,
          p_version_name = ranked q (f_app_version_name f),
          p_version_code = ranked q (f_app_version_code f),
          p_system = ranked q (f_is_system_app f),
          p_foreground = ranked q (f_is_foreground f),
          p_dropped = f_dropped_count f,
          p_class = ranked q (f_summary_class f),
          p_text = ranked q (f_summary_text f),
          p_frames = \<lparr>quality = q, rvalue = f_frames f\<rparr>,
          p_payload = \<lparr>quality = q, rvalue = f_payload f\<rparr>,
          p_sources = f_source f,
          p_source_keys = (case f_source_key f of None \<Rightarrow> [] | Some k \<Rightarrow> [k]),
          p_anr_file = (if f_source f = ANR_FILE then f_source_instance f else None)\<rparr>)"

definition pending_matches :: "Pending \<Rightarrow> CrashFragment \<Rightarrow> int \<Rightarrow> int \<Rightarrow> bool" where
  "pending_matches p f source_skew_ms merge_window_ms =
     (let repeated_anr_file =
            rvalue (p_kind p) = Anr \<and> f_kind f = Anr \<and> f_source f = ANR_FILE \<and>
            mask_contains (p_sources p) ANR_FILE \<and>
            both_equal (p_anr_file p) (f_source_instance f);
          allowed_skew_ms = (if repeated_anr_file then merge_window_ms else source_skew_ms)
      in (\<not> mask_contains (p_sources p) (f_source f) \<or> repeated_anr_file) \<and>
         occurrence_identity_matches (p_pid p) (map_option rvalue (p_user p)) (f_pid f) (f_user_id f) \<and>
         p_process p = f_process_name f \<and> rvalue (p_kind p) = f_kind f \<and>
         abs_diff (p_first_ms p) (f_happened_at_ms f) \<le> skew_limit allowed_skew_ms)"

definition pending_merge :: "Pending \<Rightarrow> CrashFragment \<Rightarrow> Pending" where
  "pending_merge p f =
     (let q = f_quality f
      in p\<lparr>p_source_keys :=
             (case f_source_key f of None \<Rightarrow> p_source_keys p
              | Some k \<Rightarrow> if k \<in> set (p_source_keys p) then p_source_keys p
                          else p_source_keys p @ [k]),
           p_anr_file := (if f_source f = ANR_FILE \<and> p_anr_file p = None
                          then f_source_instance f else p_anr_file p),
           p_pid := (if p_pid p = 0 \<and> f_pid f \<noteq> 0 then f_pid f else p_pid p),
           p_first_ms := min (p_first_ms p) (f_happened_at_ms f),
           p_last_ms := max (p_last_ms p) (f_happened_at_ms f),
           p_sources := mask_union (p_sources p) (f_source f),
           p_kind := ranked_replace (p_kind p) q (f_kind f),
           p_package := merge_ranked (p_package p) q (f_package_name f),
           p_user := merge_ranked (p_user p) q (f_user_id f),
           p_version_name := merge_ranked (p_version_name p) q (f_app_version_name f),
           p_version_code := merge_ranked (p_version_code p) q (f_app_version_code f),
           p_system := merge_ranked (p_system p) q (f_is_system_app f),
           p_foreground := merge_ranked (p_foreground p) q (f_is_foreground f),
           p_dropped :=
             (case (p_dropped p, f_dropped_count f) of
                (Some a, Some b) \<Rightarrow> Some (max a b)
              | (None, b) \<Rightarrow> b
              | (Some a, None) \<Rightarrow> Some a),
           p_class := merge_ranked (p_class p) q (f_summary_class f),
           p_text := merge_ranked (p_text p) q (f_summary_text f),
           p_frames :=
             (if f_frames f \<noteq> [] \<and> (rvalue (p_frames p) = [] \<or> q \<ge> quality (p_frames p))
              then ranked_replace (p_frames p) q (f_frames f) else p_frames p),
           p_payload :=
             (if \<not> fp_is_none (f_payload f) \<and>
                 (fp_is_none (rvalue (p_payload p)) \<or> q \<ge> quality (p_payload p))
              then ranked_replace (p_payload p) q (f_payload f) else p_payload p)\<rparr>)"

definition completion_delay_ms :: "Pending \<Rightarrow> int \<Rightarrow> int" where
  "completion_delay_ms p merge_window_ms =
     (let has_events = mask_contains (p_sources p) EVENTS;
          has_dropbox = mask_contains (p_sources p) DROPBOX;
          has_user = p_user p \<noteq> None;
          k = rvalue (p_kind p)
      in if k = JavaException \<and> has_events \<and> mask_contains (p_sources p) CRASH_BUFFER then 0
         else if k = NativeCrash \<and> has_events \<and> mask_contains (p_sources p) TOMBSTONE \<and>
                 quality (p_kind p) = Protobuf then 0
         else if k = Anr \<and> has_events \<and> mask_contains (p_sources p) ANR_FILE then 0
         else if k = Wtf \<and> (has_events \<or> has_dropbox) then 0
         else if k = NativeCrash \<and> has_user \<and> mask_contains (p_sources p) TOMBSTONE
           then RICH_SOURCE_SETTLE_WINDOW_MS
         else if (k = JavaException \<or> k = NativeCrash \<or> k = Anr) \<and> has_user \<and> has_dropbox
           then RICH_SOURCE_SETTLE_WINDOW_MS
         else merge_window_ms)"

fun kind_debug :: "CrashKind \<Rightarrow> string" where
  "kind_debug JavaException = ''JavaException''"
| "kind_debug Anr = ''Anr''"
| "kind_debug NativeCrash = ''NativeCrash''"
| "kind_debug Wtf = ''Wtf''"

definition pending_finish :: "Pending \<Rightarrow> 64 word \<Rightarrow> MergedCrash" where
  "pending_finish p cid =
     (let k = rvalue (p_kind p);
          package = (case p_package p of Some v \<Rightarrow> rvalue v
                     | None \<Rightarrow> hd (split_on CHR '':'' (p_process p)));
          cls = map_option rvalue (p_class p);
          prim = (case cls of Some c \<Rightarrow> c
                  | None \<Rightarrow> (case p_text p of Some t \<Rightarrow> rvalue t | None \<Rightarrow> kind_debug k));
          handled = (k = JavaException \<and> mask_contains (p_sources p) CRASH_BUFFER \<and>
                     \<not> mask_contains (p_sources p) EVENTS)
      in \<lparr>completion_id = cid,
          merged_record =
            \<lparr>kind = k, package_name = package, process_name = p_process p,
             user_id = (case p_user p of Some v \<Rightarrow> rvalue v | None \<Rightarrow> 0),
             pid = p_pid p, happened_at_ms = p_first_ms p,
             app_version_name = map_option rvalue (p_version_name p),
             app_version_code = map_option rvalue (p_version_code p),
             is_system_app = (case p_system p of Some v \<Rightarrow> rvalue v | None \<Rightarrow> False),
             package_installed = True,
             is_foreground = map_option rvalue (p_foreground p),
             self_handled = handled, dropped_count = p_dropped p, sources = p_sources p,
             summary = summary_new cls (map_option rvalue (p_text p)),
             fingerprint = from_raw_frames k prim (rvalue (p_frames p)),
             payload = into_model (rvalue (p_payload p))\<rparr>,
          merged_source_keys = p_source_keys p\<rparr>)"

section \<open>Recent completions\<close>

record Recent =
  r_completion_id :: "64 word"
  r_persisted :: bool
  r_kind :: CrashKind
  r_process :: string
  r_user :: "int option"
  r_pid :: int
  r_first_ms :: int
  r_sources :: SourceMask
  r_anr_file :: "string option"

definition recent_from_pending :: "64 word \<Rightarrow> Pending \<Rightarrow> Recent" where
  "recent_from_pending cid p =
     \<lparr>r_completion_id = cid, r_persisted = False, r_kind = rvalue (p_kind p),
      r_process = p_process p, r_user = map_option rvalue (p_user p), r_pid = p_pid p,
      r_first_ms = p_first_ms p, r_sources = p_sources p, r_anr_file = p_anr_file p\<rparr>"

definition recent_matches :: "Recent \<Rightarrow> CrashFragment \<Rightarrow> int \<Rightarrow> int \<Rightarrow> bool" where
  "recent_matches r f source_skew_ms merge_window_ms =
     (let repeated_anr_file =
            (r_kind r = Anr \<and> f_source f = ANR_FILE \<and> mask_contains (r_sources r) ANR_FILE) \<and>
            both_equal (r_anr_file r) (f_source_instance f)
      in if mask_contains (r_sources r) (f_source f) \<and> \<not> repeated_anr_file then False
         else
           (let trailing_anr_companion =
                  r_kind r = Anr \<and> mask_contains (r_sources r) ANR_FILE \<and> f_source f = DROPBOX;
                allowed_skew_ms =
                  (if repeated_anr_file \<or> trailing_anr_companion then merge_window_ms
                   else source_skew_ms)
            in occurrence_identity_matches (r_pid r) (r_user r) (f_pid f) (f_user_id f) \<and>
               r_process r = f_process_name f \<and> r_kind r = f_kind f \<and>
               abs_diff (r_first_ms r) (f_happened_at_ms f) \<le> skew_limit allowed_skew_ms))"

section \<open>The merger\<close>

record CrashMerger =
  window_ms :: int
  pending :: "Pending list"
  recent :: "Recent list"
  suppressed_source_keys :: "(64 word \<times> string) list"
  next_completion_id :: "64 word"

definition merger_new :: "int \<Rightarrow> CrashMerger" where
  "merger_new w = \<lparr>window_ms = w, pending = [], recent = [], suppressed_source_keys = [],
                   next_completion_id = 1\<rparr>"

text \<open>\<^verbatim>\<open>Vec::swap_remove\<close>: the last element takes the place of the removed one.\<close>

definition swap_remove :: "nat \<Rightarrow> 'a list \<Rightarrow> 'a list" where
  "swap_remove i xs = (if Suc i = length xs then butlast xs else (butlast xs)[i := last xs])"

definition allocate_completion_id :: "CrashMerger \<Rightarrow> 64 word \<times> CrashMerger" where
  "allocate_completion_id m =
     (next_completion_id m, m\<lparr>next_completion_id := next_completion_id m + 1\<rparr>)"

definition finish_pending :: "CrashMerger \<Rightarrow> nat \<Rightarrow> MergedCrash \<times> CrashMerger" where
  "finish_pending m0 index =
     (let p = pending m0 ! index;
          m1 = m0\<lparr>pending := swap_remove index (pending m0)\<rparr>;
          (cid, m2) = allocate_completion_id m1;
          m3 = m2\<lparr>recent := recent m2 @ [recent_from_pending cid p]\<rparr>
      in (pending_finish p cid, m3))"

lemma length_swap_remove [simp]: "xs \<noteq> [] \<Longrightarrow> length (swap_remove i xs) = length xs - 1"
  by (simp add: swap_remove_def)

lemma pending_finish_pending:
  "pending (snd (finish_pending m i)) = swap_remove i (pending m)"
  by (simp add: finish_pending_def allocate_completion_id_def Let_def)

definition pending_expired :: "int \<Rightarrow> int \<Rightarrow> Pending \<Rightarrow> bool" where
  "pending_expired window watermark p \<longleftrightarrow>
     i64_saturating_add (p_last_ms p) (completion_delay_ms p window) < watermark"

function flush_loop :: "int \<Rightarrow> CrashMerger \<Rightarrow> nat \<Rightarrow> MergedCrash list \<Rightarrow> MergedCrash list \<times> CrashMerger" where
  "flush_loop watermark m i out =
     (if i < length (pending m) then
        (if pending_expired (window_ms m) watermark (pending m ! i)
         then flush_loop watermark (snd (finish_pending m i)) i (out @ [fst (finish_pending m i)])
         else flush_loop watermark m (Suc i) out)
      else (out, m))"
  by pat_completeness auto
termination
proof (relation "measure (\<lambda>(w, m, i, out). length (pending m) - i)", goal_cases)
  case (2 watermark m i out)
  then have "pending m \<noteq> []" by auto
  with 2 show ?case by (simp add: pending_finish_pending)
qed auto

declare flush_loop.simps [simp del]

definition merged_at :: "MergedCrash \<Rightarrow> int" where
  "merged_at c = happened_at_ms (merged_record c)"

definition flush_before :: "CrashMerger \<Rightarrow> int \<Rightarrow> MergedCrash list \<times> CrashMerger" where
  "flush_before m watermark =
     (let m1 = m\<lparr>recent := filter (\<lambda>r. i64_saturating_add (r_first_ms r) (window_ms m) \<ge> watermark)
                              (recent m)\<rparr>;
          (out, m2) = flush_loop watermark m1 0 []
      in (sort_key merged_at out, m2))"

text \<open>\<^verbatim>\<open>Iterator::min_by_key\<close> keeps the first of several minima.\<close>

fun min_by_key :: "('a \<Rightarrow> int) \<Rightarrow> 'a list \<Rightarrow> 'a option" where
  "min_by_key f [] = None"
| "min_by_key f (x # xs) =
     (case min_by_key f xs of None \<Rightarrow> Some x | Some y \<Rightarrow> if f y < f x then Some y else Some x)"

lemma min_by_key_in: "min_by_key f xs = Some x \<Longrightarrow> x \<in> set xs"
  by (induction xs arbitrary: x) (auto split: option.splits if_splits)

definition has_key :: "CrashMerger \<Rightarrow> CrashFragment \<Rightarrow> bool" where
  "has_key m f = (case f_source_key f of None \<Rightarrow> False
                  | Some k \<Rightarrow> list_ex (\<lambda>p. k \<in> set (p_source_keys p)) (pending m))"

definition pending_match :: "CrashMerger \<Rightarrow> CrashFragment \<Rightarrow> int \<Rightarrow> nat option" where
  "pending_match m f source_skew_ms =
     min_by_key (\<lambda>i. abs_diff (p_first_ms (pending m ! i)) (f_happened_at_ms f))
       (filter (\<lambda>i. pending_matches (pending m ! i) f source_skew_ms (window_ms m))
          [0..<length (pending m)])"

definition recent_match :: "CrashMerger \<Rightarrow> CrashFragment \<Rightarrow> int \<Rightarrow> 64 word option" where
  "recent_match m f source_skew_ms =
     map_option r_completion_id
       (min_by_key (\<lambda>r. abs_diff (r_first_ms r) (f_happened_at_ms f))
          (filter (\<lambda>r. recent_matches r f source_skew_ms (window_ms m)) (recent m)))"

text \<open>The tail of \<^verbatim>\<open>ingest\<close>: complete the touched occurrence when nothing can improve it.\<close>

definition complete_at :: "MergedCrash list \<Rightarrow> CrashMerger \<Rightarrow> nat \<Rightarrow> MergedCrash list \<times> CrashMerger" where
  "complete_at completed m index =
     (if completion_delay_ms (pending m ! index) (window_ms m) = 0
      then (let (c, m') = finish_pending m index in (sort_key merged_at (completed @ [c]), m'))
      else (completed, m))"

definition ingest :: "CrashMerger \<Rightarrow> CrashFragment \<Rightarrow> MergedCrash list \<times> CrashMerger" where
  "ingest m0 f =
     (let (completed, m) = flush_before m0 (f_happened_at_ms f)
      in if has_key m f then (completed, m)
         else
           (let source_skew_ms = clamp (window_ms m) 0 MAX_SOURCE_SKEW_MS
            in case pending_match m f source_skew_ms of
                 Some index \<Rightarrow>
                   complete_at completed
                     (m\<lparr>pending := (pending m)[index := pending_merge (pending m ! index) f]\<rparr>) index
               | None \<Rightarrow>
                   (case recent_match m f source_skew_ms of
                      Some cid \<Rightarrow>
                        (completed,
                         (case f_source_key f of None \<Rightarrow> m
                          | Some k \<Rightarrow> m\<lparr>suppressed_source_keys :=
                                          suppressed_source_keys m @ [(cid, k)]\<rparr>))
                    | None \<Rightarrow>
                        complete_at completed (m\<lparr>pending := pending m @ [pending_new f]\<rparr>)
                          (length (pending m)))))"

fun drain_loop :: "CrashMerger \<Rightarrow> Pending list \<Rightarrow> MergedCrash list \<times> CrashMerger" where
  "drain_loop m [] = ([], m)"
| "drain_loop m (p # ps) =
     (let (cid, m1) = allocate_completion_id m; (out, m2) = drain_loop m1 ps
      in (pending_finish p cid # out, m2))"

definition drain :: "CrashMerger \<Rightarrow> MergedCrash list \<times> CrashMerger" where
  "drain m =
     (let (out, m') = drain_loop (m\<lparr>pending := []\<rparr>) (pending m) in (sort_key merged_at out, m'))"

text \<open>\<^verbatim>\<open>find\<close> stops at the first entry with the id, so only that one is marked.\<close>

fun mark_persisted :: "64 word \<Rightarrow> Recent list \<Rightarrow> Recent list" where
  "mark_persisted cid [] = []"
| "mark_persisted cid (r # rs) =
     (if r_completion_id r = cid then r\<lparr>r_persisted := True\<rparr> # rs else r # mark_persisted cid rs)"

definition confirm_persisted :: "CrashMerger \<Rightarrow> 64 word \<Rightarrow> CrashMerger" where
  "confirm_persisted m cid = m\<lparr>recent := mark_persisted cid (recent m)\<rparr>"

definition reject_completion :: "CrashMerger \<Rightarrow> 64 word \<Rightarrow> CrashMerger" where
  "reject_completion m cid =
     m\<lparr>recent := filter (\<lambda>r. r_completion_id r \<noteq> cid) (recent m),
       suppressed_source_keys := filter (\<lambda>(owner, _). owner \<noteq> cid) (suppressed_source_keys m)\<rparr>"

definition owner_persisted :: "CrashMerger \<Rightarrow> 64 word \<Rightarrow> bool" where
  "owner_persisted m cid = list_ex (\<lambda>r. r_completion_id r = cid \<and> r_persisted r) (recent m)"

definition take_confirmed_suppressed_source_keys :: "CrashMerger \<Rightarrow> string list \<times> CrashMerger" where
  "take_confirmed_suppressed_source_keys m =
     (map snd (filter (\<lambda>(cid, _). owner_persisted m cid) (suppressed_source_keys m)),
      m\<lparr>suppressed_source_keys :=
          filter (\<lambda>(cid, _). \<not> owner_persisted m cid) (suppressed_source_keys m)\<rparr>)"

definition pending_count :: "CrashMerger \<Rightarrow> nat" where
  "pending_count m = length (pending m)"

end
