(* ===== verification/Merge_Proofs.thy ===== *)
theory Merge_Proofs
  imports Merge
begin

text \<open>
  What the correlator guarantees: which occurrences a flush completes, that no source key is lost or
  duplicated, how evidence of different quality combines, and that the keys of suppressed fragments
  are only released once the record that absorbed them is stored.
\<close>

section \<open>Completing a batch of occurrences\<close>

text \<open>Completion ids are consecutive in the order the occurrences are finished.\<close>

fun finish_all :: "64 word \<Rightarrow> Pending list \<Rightarrow> MergedCrash list" where
  "finish_all cid [] = []"
| "finish_all cid (p # ps) = pending_finish p cid # finish_all (cid + 1) ps"

fun recents_of :: "64 word \<Rightarrow> Pending list \<Rightarrow> Recent list" where
  "recents_of cid [] = []"
| "recents_of cid (p # ps) = recent_from_pending cid p # recents_of (cid + 1) ps"

lemma finish_all_append:
  "finish_all cid (ps @ qs) = finish_all cid ps @ finish_all (cid + word_of_nat (length ps)) qs"
  by (induction ps arbitrary: cid) (simp_all add: algebra_simps)

lemma recents_of_append:
  "recents_of cid (ps @ qs) = recents_of cid ps @ recents_of (cid + word_of_nat (length ps)) qs"
  by (induction ps arbitrary: cid) (simp_all add: algebra_simps)

lemma length_finish_all [simp]: "length (finish_all cid ps) = length ps"
  by (induction ps arbitrary: cid) auto

lemma pending_finish_simps [simp]:
  "merged_source_keys (pending_finish p cid) = p_source_keys p"
  "completion_id (pending_finish p cid) = cid"
  "sources (merged_record (pending_finish p cid)) = p_sources p"
  "happened_at_ms (merged_record (pending_finish p cid)) = p_first_ms p"
  "kind (merged_record (pending_finish p cid)) = rvalue (p_kind p)"
  "payload (merged_record (pending_finish p cid)) = into_model (rvalue (p_payload p))"
  "process_name (merged_record (pending_finish p cid)) = p_process p"
  by (simp_all add: pending_finish_def Let_def)

lemma finish_all_keys:
  "concat (map merged_source_keys (finish_all cid ps)) = concat (map p_source_keys ps)"
  by (induction ps arbitrary: cid) auto

lemma finish_all_ids:
  "map completion_id (finish_all cid ps) = map (\<lambda>i. cid + word_of_nat i) [0..<length ps]"
proof (induction ps arbitrary: cid)
  case (Cons p ps)
  have "map (\<lambda>i. cid + word_of_nat i) [0..<length (p # ps)]
      = cid # map (\<lambda>i. cid + 1 + word_of_nat i) [0..<length ps]"
    by (simp add: upt_conv_Cons map_Suc_upt [symmetric] comp_def algebra_simps del: upt_Suc)
  with Cons show ?case by simp
qed simp

lemma recents_of_ids: "map r_completion_id (recents_of cid ps) = map completion_id (finish_all cid ps)"
  by (induction ps arbitrary: cid) (auto simp: recent_from_pending_def)

lemma recents_of_unpersisted: "r \<in> set (recents_of cid ps) \<Longrightarrow> \<not> r_persisted r"
  by (induction ps arbitrary: cid) (auto simp: recent_from_pending_def)

section \<open>Flushing\<close>

lemma mset_swap_remove:
  assumes "i < length xs"
  shows "mset xs = add_mset (xs ! i) (mset (swap_remove i xs))"
proof -
  obtain ys y where xs: "xs = ys @ [y]" using assms by (cases xs rule: rev_cases) auto
  show ?thesis
  proof (cases "i = length ys")
    case False
    then have "i < length ys" using assms xs by simp
    then have "ys ! i \<in># mset ys" by simp
    then show ?thesis
      using False \<open>i < length ys\<close>
      by (simp add: xs swap_remove_def mset_update nth_append add_mset_commute)
  qed (simp add: xs swap_remove_def)
qed

lemma swap_remove_nth:
  assumes "i < length xs" "j < length (swap_remove i xs)"
  shows "swap_remove i xs ! j = (if j = i then last xs else xs ! j)"
  using assms by (auto simp: swap_remove_def nth_butlast nth_list_update split: if_splits)

lemma finish_pending_eq:
  "finish_pending m i =
     (pending_finish (pending m ! i) (next_completion_id m),
      m\<lparr>pending := swap_remove i (pending m),
        recent := recent m @ [recent_from_pending (next_completion_id m) (pending m ! i)],
        next_completion_id := next_completion_id m + 1\<rparr>)"
  by (simp add: finish_pending_def allocate_completion_id_def Let_def)

text \<open>What a flush does: it finishes the expired occurrences \<^term>\<open>ps\<close>, in some order, and keeps the
  others.\<close>

definition flushed :: "int \<Rightarrow> CrashMerger \<Rightarrow> Pending list \<Rightarrow> CrashMerger \<Rightarrow> bool" where
  "flushed w m ps m' \<longleftrightarrow>
     m' = m\<lparr>pending := pending m', recent := recent m @ recents_of (next_completion_id m) ps,
            next_completion_id := next_completion_id m + word_of_nat (length ps)\<rparr> \<and>
     mset (pending m) = mset ps + mset (pending m') \<and>
     list_all (pending_expired (window_ms m) w) ps"

lemma flush_loop_spec:
  assumes "\<And>j. j < i \<Longrightarrow> j < length (pending m) \<Longrightarrow> \<not> pending_expired (window_ms m) w (pending m ! j)"
  shows "\<exists>ps. fst (flush_loop w m i out) = out @ finish_all (next_completion_id m) ps \<and>
     flushed w m ps (snd (flush_loop w m i out)) \<and>
     list_all (\<lambda>p. \<not> pending_expired (window_ms m) w p) (pending (snd (flush_loop w m i out)))"
  using assms
proof (induction w m i out rule: flush_loop.induct)
  case (1 w m i out)
  show ?case
  proof (cases "i < length (pending m)")
    case False
    then have "flush_loop w m i out = (out, m)" by (simp add: flush_loop.simps [of w m i out])
    moreover have "list_all (\<lambda>p. \<not> pending_expired (window_ms m) w p) (pending m)"
      using 1(3) False by (auto simp: list_all_length)
    ultimately show ?thesis
      by (intro exI [of _ "[]"]) (simp add: flushed_def)
  next
    case True
    show ?thesis
    proof (cases "pending_expired (window_ms m) w (pending m ! i)")
      case False
      then have eq: "flush_loop w m i out = flush_loop w m (Suc i) out"
        using True by (simp add: flush_loop.simps [of w m i out])
      have "\<not> pending_expired (window_ms m) w (pending m ! j)"
        if "j < Suc i" "j < length (pending m)" for j
        using that False 1(3) by (cases "j = i") auto
      from 1(2) [OF True False this] show ?thesis unfolding eq .
    next
      case exp: True
      let ?m = "snd (finish_pending m i)" and ?c = "fst (finish_pending m i)"
      have eq: "flush_loop w m i out = flush_loop w ?m i (out @ [?c])"
        using True exp by (simp add: flush_loop.simps [of w m i out])
      have "\<not> pending_expired (window_ms ?m) w (pending ?m ! j)"
        if "j < i" "j < length (pending ?m)" for j
      proof -
        have "pending ?m ! j = pending m ! j" "j < length (pending m)"
          using that True swap_remove_nth [OF True, of j] by (auto simp: finish_pending_eq)
        then show ?thesis using 1(3) [OF that(1)] by (simp add: finish_pending_eq)
      qed
      from 1(1) [OF True exp this] obtain ps where
        ps: "fst (flush_loop w ?m i (out @ [?c])) = (out @ [?c]) @ finish_all (next_completion_id ?m) ps"
        and f: "flushed w ?m ps (snd (flush_loop w ?m i (out @ [?c])))"
        and n: "list_all (\<lambda>p. \<not> pending_expired (window_ms ?m) w p)
                  (pending (snd (flush_loop w ?m i (out @ [?c]))))"
        by blast
      have "flushed w m (pending m ! i # ps) (snd (flush_loop w m i out))"
        using f exp mset_swap_remove [OF True]
        by (simp add: flushed_def finish_pending_eq eq algebra_simps)
      moreover have "fst (flush_loop w m i out)
          = out @ finish_all (next_completion_id m) (pending m ! i # ps)"
        using ps by (simp add: eq finish_pending_eq)
      moreover have "list_all (\<lambda>p. \<not> pending_expired (window_ms m) w p) (pending (snd (flush_loop w m i out)))"
        using n by (simp add: eq finish_pending_eq)
      ultimately show ?thesis by blast
    qed
  qed
qed

definition prune_recent :: "CrashMerger \<Rightarrow> int \<Rightarrow> CrashMerger" where
  "prune_recent m w =
     m\<lparr>recent := filter (\<lambda>r. i64_saturating_add (r_first_ms r) (window_ms m) \<ge> w) (recent m)\<rparr>"

lemma flush_before_spec:
  obtains ps where
    "fst (flush_before m w) = sort_key merged_at (finish_all (next_completion_id m) ps)"
    "flushed w (prune_recent m w) ps (snd (flush_before m w))"
    "list_all (\<lambda>p. \<not> pending_expired (window_ms m) w p) (pending (snd (flush_before m w)))"
proof -
  have eq: "flush_before m w = (sort_key merged_at (fst (flush_loop w (prune_recent m w) 0 [])),
      snd (flush_loop w (prune_recent m w) 0 []))"
    by (simp add: flush_before_def prune_recent_def split_beta Let_def)
  have "next_completion_id (prune_recent m w) = next_completion_id m"
    "window_ms (prune_recent m w) = window_ms m" by (simp_all add: prune_recent_def)
  with that flush_loop_spec [of 0 "prune_recent m w" w "[]"] show thesis
    by (auto simp: eq)
qed

lemma flushed_simps:
  assumes "flushed w m ps m'"
  shows "window_ms m' = window_ms m" "suppressed_source_keys m' = suppressed_source_keys m"
    "recent m' = recent m @ recents_of (next_completion_id m) ps"
    "next_completion_id m' = next_completion_id m + word_of_nat (length ps)"
    "mset (pending m) = mset ps + mset (pending m')"
proof -
  let ?n = "m\<lparr>pending := pending m', recent := recent m @ recents_of (next_completion_id m) ps,
      next_completion_id := next_completion_id m + word_of_nat (length ps)\<rparr>"
  have e: "m' = ?n" and "mset (pending m) = mset ps + mset (pending m')"
    using assms unfolding flushed_def by blast+
  then show "mset (pending m) = mset ps + mset (pending m')" by simp
  have "window_ms ?n = window_ms m" by simp
  with e show "window_ms m' = window_ms m" by metis
  have "suppressed_source_keys ?n = suppressed_source_keys m" by simp
  with e show "suppressed_source_keys m' = suppressed_source_keys m" by metis
  have "recent ?n = recent m @ recents_of (next_completion_id m) ps" by simp
  with e show "recent m' = recent m @ recents_of (next_completion_id m) ps" by metis
  have "next_completion_id ?n = next_completion_id m + word_of_nat (length ps)" by simp
  with e show "next_completion_id m' = next_completion_id m + word_of_nat (length ps)" by metis
qed

lemma prune_recent_simps [simp]:
  "window_ms (prune_recent m w) = window_ms m" "pending (prune_recent m w) = pending m"
  "suppressed_source_keys (prune_recent m w) = suppressed_source_keys m"
  "next_completion_id (prune_recent m w) = next_completion_id m"
  by (simp_all add: prune_recent_def)

section \<open>Source keys are conserved\<close>

text \<open>The keys the merger still holds, and the keys a batch of completed records carries.\<close>

definition held_keys :: "CrashMerger \<Rightarrow> string multiset" where
  "held_keys m = (\<Sum>p \<in># mset (pending m). mset (p_source_keys p)) +
                 image_mset snd (mset (suppressed_source_keys m))"

definition carried_keys :: "MergedCrash list \<Rightarrow> string multiset" where
  "carried_keys out = (\<Sum>c \<in># mset out. mset (merged_source_keys c))"

lemma carried_keys_sort [simp]: "carried_keys (sort_key f out) = carried_keys out"
  by (simp add: carried_keys_def)

lemma carried_keys_append [simp]: "carried_keys (xs @ ys) = carried_keys xs + carried_keys ys"
  by (simp add: carried_keys_def)

lemma carried_finish_all: "carried_keys (finish_all cid ps) = (\<Sum>p \<in># mset ps. mset (p_source_keys p))"
  by (induction ps arbitrary: cid) (simp_all add: carried_keys_def)

lemma flush_before_keys:
  "held_keys m = carried_keys (fst (flush_before m w)) + held_keys (snd (flush_before m w))"
proof -
  obtain ps where ps: "fst (flush_before m w) = sort_key merged_at (finish_all (next_completion_id m) ps)"
    and f: "flushed w (prune_recent m w) ps (snd (flush_before m w))"
    by (rule flush_before_spec)
  show ?thesis
    using flushed_simps [OF f] by (simp add: held_keys_def ps carried_finish_all)
qed

lemma complete_at_keys:
  assumes "i < length (pending m)"
  shows "carried_keys (fst (complete_at done m i)) + held_keys (snd (complete_at done m i))
       = carried_keys done + held_keys m"
proof -
  have "mset (pending m) = add_mset (pending m ! i) (mset (swap_remove i (pending m)))"
    by (rule mset_swap_remove [OF assms])
  then show ?thesis
    by (simp add: complete_at_def finish_pending_eq held_keys_def) (simp add: carried_keys_def)
qed

lemma min_by_key_min: "min_by_key f xs = Some x \<Longrightarrow> y \<in> set xs \<Longrightarrow> f x \<le> f y"
proof (induction xs arbitrary: x)
  case (Cons a xs)
  then show ?case
  proof (cases "min_by_key f xs")
    case None
    then have "xs = []" by (cases xs) (auto split: option.splits if_splits)
    with Cons show ?thesis by simp
  qed (fastforce split: if_splits)
qed simp

lemma min_by_key_None [simp]: "min_by_key f xs = None \<longleftrightarrow> xs = []"
  by (cases xs) (auto split: option.splits if_splits)

lemma pending_matchD:
  "pending_match m f skew = Some i \<Longrightarrow>
   i < length (pending m) \<and> pending_matches (pending m ! i) f skew (window_ms m)"
  by (auto simp: pending_match_def dest: min_by_key_in)

definition key_of :: "CrashFragment \<Rightarrow> string multiset" where
  "key_of f = (case f_source_key f of None \<Rightarrow> {#} | Some k \<Rightarrow> {#k#})"

lemma pending_new_keys: "mset (p_source_keys (pending_new f)) = key_of f"
  by (simp add: pending_new_def Let_def key_of_def split: option.splits)

lemma pending_merge_keys:
  "\<not> has_key m f \<Longrightarrow> p \<in> set (pending m) \<Longrightarrow>
   mset (p_source_keys (pending_merge p f)) = mset (p_source_keys p) + key_of f"
  by (auto simp: pending_merge_def Let_def key_of_def has_key_def list_ex_iff split: option.splits)

lemma held_keys_update:
  assumes "i < length (pending m)"
    and "mset (p_source_keys p) = mset (p_source_keys (pending m ! i)) + K"
  shows "held_keys (m\<lparr>pending := (pending m)[i := p]\<rparr>) = held_keys m + K"
proof -
  have mem: "pending m ! i \<in># mset (pending m)" using assms(1) by simp
  then have "mset (pending m) = add_mset (pending m ! i) (mset (pending m) - {#pending m ! i#})"
    by simp
  then have "(\<Sum>q \<in># mset (pending m). mset (p_source_keys q)) =
      mset (p_source_keys (pending m ! i)) +
      (\<Sum>q \<in># mset (pending m) - {#pending m ! i#}. mset (p_source_keys q))"
    by (metis (no_types, lifting) image_mset_add_mset sum_mset.insert)
  then show ?thesis using assms by (simp add: held_keys_def mset_update)
qed

text \<open>Ingesting adds the key of the fragment exactly once, unless an occurrence still pending already
  has it.\<close>

lemma ingest_keys:
  "carried_keys (fst (ingest m f)) + held_keys (snd (ingest m f)) =
     held_keys m + (if has_key (snd (flush_before m (f_happened_at_ms f))) f then {#} else key_of f)"
proof -
  define out where "out = fst (flush_before m (f_happened_at_ms f))"
  define n where "n = snd (flush_before m (f_happened_at_ms f))"
  define skew where "skew = clamp (window_ms n) 0 MAX_SOURCE_SKEW_MS"
  have fl: "held_keys m = carried_keys out + held_keys n"
    unfolding out_def n_def by (rule flush_before_keys)
  have fb: "flush_before m (f_happened_at_ms f) = (out, n)" by (simp add: out_def n_def)
  note ing = ingest_def [of m f] fb
  show ?thesis
  proof (cases "has_key n f")
    case True
    then show ?thesis using fl by (simp add: ing)
  next
    case nk: False
    show ?thesis
    proof (cases "pending_match n f skew")
      case (Some i)
      from pending_matchD [OF this] have i: "i < length (pending n)" by simp
      let ?n = "n\<lparr>pending := (pending n)[i := pending_merge (pending n ! i) f]\<rparr>"
      have "held_keys ?n = held_keys n + key_of f"
        by (rule held_keys_update [OF i pending_merge_keys [OF nk nth_mem [OF i]]])
      then show ?thesis
        using fl nk Some complete_at_keys [of i ?n out] i
        by (simp add: ing skew_def Let_def algebra_simps)
    next
      case None
      show ?thesis
      proof (cases "recent_match n f skew")
        case (Some cid)
        then show ?thesis
          using fl nk None
          by (cases "f_source_key f") (simp_all add: ing skew_def Let_def held_keys_def key_of_def)
      next
        case None2: None
        let ?n = "n\<lparr>pending := pending n @ [pending_new f]\<rparr>"
        have "held_keys ?n = held_keys n + key_of f"
          by (simp add: held_keys_def pending_new_keys algebra_simps)
        then show ?thesis
          using fl nk None None2 complete_at_keys [of "length (pending n)" ?n out]
          by (simp add: ing skew_def Let_def algebra_simps)
      qed
    qed
  qed
qed

section \<open>Evidence of different quality\<close>

text \<open>The specification of a ranked slot: of all values offered, the last one of the best quality.\<close>

fun best_of :: "(EvidenceQuality \<times> 'a option) list \<Rightarrow> 'a Ranked option" where
  "best_of [] = None"
| "best_of ((q, v) # rest) =
     (case best_of rest of
        None \<Rightarrow> ranked q v
      | Some b \<Rightarrow> (case v of Some x \<Rightarrow> if quality b < q then Some \<lparr>quality = q, rvalue = x\<rparr> else Some b
                  | None \<Rightarrow> Some b))"

definition offer_all :: "'a Ranked option \<Rightarrow> (EvidenceQuality \<times> 'a option) list \<Rightarrow> 'a Ranked option" where
  "offer_all slot offers = foldl (\<lambda>s (q, v). merge_ranked s q v) slot offers"

lemma offer_all_best_from:
  "offer_all (Some r) offers =
     (case best_of offers of None \<Rightarrow> Some r
      | Some b \<Rightarrow> if quality b < quality r then Some r else Some b)"
proof (induction offers arbitrary: r)
  case (Cons o1 rest)
  obtain q v where o: "o1 = (q, v)" by fastforce
  show ?case
  proof (cases v)
    case None
    then show ?thesis
      using Cons [of r] by (simp add: o offer_all_def merge_ranked_def ranked_def split: option.splits)
  next
    case (Some x)
    then show ?thesis
      using Cons [of "ranked_replace r q x"]
      by (auto simp: o offer_all_def merge_ranked_def ranked_def ranked_replace_def
          split: option.splits if_splits)
  qed
qed (simp add: offer_all_def)

lemma offer_all_best: "offer_all None offers = best_of offers"
proof (induction offers)
  case (Cons o1 rest)
  obtain q v where o: "o1 = (q, v)" by fastforce
  show ?case
  proof (cases v)
    case None
    then show ?thesis
      using Cons by (simp add: o offer_all_def merge_ranked_def ranked_def split: option.splits)
  next
    case (Some x)
    then have "offer_all None (o1 # rest) = offer_all (Some \<lparr>quality = q, rvalue = x\<rparr>) rest"
      by (simp add: o offer_all_def merge_ranked_def)
    then show ?thesis
      using Some offer_all_best_from [of "\<lparr>quality = q, rvalue = x\<rparr>" rest]
      by (simp add: o ranked_def split: option.splits)
  qed
qed (simp add: offer_all_def)

text \<open>A pending occurrence built from a list of fragments, and what its optional fields hold.\<close>

definition pending_of :: "CrashFragment \<Rightarrow> CrashFragment list \<Rightarrow> Pending" where
  "pending_of f fs = foldl pending_merge (pending_new f) fs"

lemma pending_of_ranked:
  assumes "\<And>g. get (pending_new g) = ranked (f_quality g) (offer g)"
    and "\<And>p g. get (pending_merge p g) = merge_ranked (get p) (f_quality g) (offer g)"
  shows "get (pending_of f fs) = best_of (map (\<lambda>g. (f_quality g, offer g)) (f # fs))"
proof -
  have "get (foldl pending_merge p fs) = offer_all (get p) (map (\<lambda>g. (f_quality g, offer g)) fs)" for p
    by (induction fs arbitrary: p) (simp_all add: offer_all_def assms)
  moreover have "ranked q v = merge_ranked None q v" for q and v :: "'a option"
    by (simp add: ranked_def merge_ranked_def split: option.splits)
  ultimately have "get (pending_of f fs)
      = offer_all None (map (\<lambda>g. (f_quality g, offer g)) (f # fs))"
    by (simp add: pending_of_def assms offer_all_def)
  then show ?thesis by (simp only: offer_all_best)
qed

lemma pending_of_sources: "p_sources (pending_of f fs) = fold (\<lambda>g m. mask_union m (f_source g)) fs (f_source f)"
proof -
  have "p_sources (foldl pending_merge p fs) = fold (\<lambda>g m. mask_union m (f_source g)) fs (p_sources p)" for p
    by (induction fs arbitrary: p) (simp_all add: pending_merge_def Let_def)
  then show ?thesis by (simp add: pending_of_def pending_new_def Let_def)
qed

lemma pending_of_first_ms: "p_first_ms (pending_of f fs) = Min (set (map f_happened_at_ms (f # fs)))"
proof -
  have "p_first_ms (foldl pending_merge p fs) = Min (set (p_first_ms p # map f_happened_at_ms fs))" for p
  proof (induction fs arbitrary: p)
    case (Cons g fs)
    have "p_first_ms (pending_merge p g) = min (p_first_ms p) (f_happened_at_ms g)"
      by (simp add: pending_merge_def Let_def)
    with Cons [of "pending_merge p g"] show ?case
      by (cases fs) (simp_all add: min.assoc)
  qed simp
  from this [of "pending_new f"] show ?thesis
    by (simp add: pending_of_def pending_new_def Let_def)
qed

text \<open>The payload slot is not such a slot: an occurrence opened by a fragment without a payload keeps
  the quality of that fragment, and \<^verbatim>\<open>Ranked::replace\<close> refuses a payload of lower quality although
  the guard of \<^verbatim>\<open>merge\<close> lets it through.\<close>

lemma pending_merge_payload:
  "rvalue (p_payload (pending_merge p f)) =
     (if f_payload f \<noteq> PNone \<and> f_quality f \<ge> quality (p_payload p) then f_payload f
      else rvalue (p_payload p))"
  by (cases "f_payload f") (auto simp: pending_merge_def Let_def ranked_replace_def)

lemma pending_merge_frames:
  "rvalue (p_frames (pending_merge p f)) =
     (if f_frames f \<noteq> [] \<and> f_quality f \<ge> quality (p_frames p) then f_frames f
      else rvalue (p_frames p))"
  by (auto simp: pending_merge_def Let_def ranked_replace_def)

section \<open>Runs of the correlator\<close>

text \<open>The daemon's calls, one step each.  \<^term>\<open>C\<close> is the set of completion ids confirmed so far and
  \<^term>\<open>ids\<close> the ids handed out, in order of completion.\<close>

inductive merger_run :: "int \<Rightarrow> CrashMerger \<Rightarrow> 64 word set \<Rightarrow> 64 word list \<Rightarrow> bool" for w where
  run_new: "merger_run w (merger_new w) {} []"
| run_ingest: "merger_run w m C ids \<Longrightarrow> ingest m f = (out, m') \<Longrightarrow>
    merger_run w m' C (ids @ map completion_id out)"
| run_flush: "merger_run w m C ids \<Longrightarrow> flush_before m t = (out, m') \<Longrightarrow>
    merger_run w m' C (ids @ map completion_id out)"
| run_drain: "merger_run w m C ids \<Longrightarrow> drain m = (out, m') \<Longrightarrow>
    merger_run w m' C (ids @ map completion_id out)"
| run_confirm: "merger_run w m C ids \<Longrightarrow> merger_run w (confirm_persisted m cid) (insert cid C) ids"
| run_reject: "merger_run w m C ids \<Longrightarrow> merger_run w (reject_completion m cid) C ids"
| run_take: "merger_run w m C ids \<Longrightarrow> take_confirmed_suppressed_source_keys m = (ks, m') \<Longrightarrow>
    merger_run w m' C ids"

text \<open>What a call that completes records does to the identity state.\<close>

definition issues :: "CrashMerger \<Rightarrow> MergedCrash list \<Rightarrow> CrashMerger \<Rightarrow> bool" where
  "issues m out m' \<longleftrightarrow>
     next_completion_id m' = next_completion_id m + word_of_nat (length out) \<and>
     mset (map completion_id out) =
       mset (map (\<lambda>i. next_completion_id m + word_of_nat i) [0..<length out]) \<and>
     (\<forall>r \<in> set (recent m'). r \<in> set (recent m) \<or>
        (\<not> r_persisted r \<and> r_completion_id r \<in> completion_id ` set out)) \<and>
     (\<forall>s \<in> set (suppressed_source_keys m'). s \<in> set (suppressed_source_keys m) \<or>
        fst s \<in> r_completion_id ` set (recent m'))"

lemma finish_all_issued:
  "mset (map completion_id (finish_all cid ps)) = mset (map (\<lambda>i. cid + word_of_nat i) [0..<length ps])"
  by (simp only: finish_all_ids)

lemma mset_map_sort [simp]: "mset (map g (sort_key f xs)) = mset (map g xs)"
  by (simp only: mset_map mset_sort)

lemma issues_sort: "issues m out m' \<Longrightarrow> issues m (sort_key f out) m'"
  by (simp add: issues_def del: mset_map)

lemma flush_before_issues: "issues m (fst (flush_before m w)) (snd (flush_before m w))"
proof -
  obtain ps where ps: "fst (flush_before m w) = sort_key merged_at (finish_all (next_completion_id m) ps)"
    and f: "flushed w (prune_recent m w) ps (snd (flush_before m w))"
    by (rule flush_before_spec)
  have "issues m (finish_all (next_completion_id m) ps) (snd (flush_before m w))"
    unfolding issues_def finish_all_issued length_finish_all
  proof (intro conjI ballI)
    fix r assume "r \<in> set (recent (snd (flush_before m w)))"
    then have "r \<in> set (recent m) \<or> r \<in> set (recents_of (next_completion_id m) ps)"
      using flushed_simps(3) [OF f] by (auto simp: prune_recent_def)
    moreover have "r_completion_id r \<in> completion_id ` set (finish_all (next_completion_id m) ps)"
      if "r \<in> set (recents_of (next_completion_id m) ps)"
      using recents_of_ids [of "next_completion_id m" ps] that by (metis image_eqI list.set_map)
    ultimately show "r \<in> set (recent m) \<or>
        (\<not> r_persisted r \<and> r_completion_id r \<in> completion_id ` set (finish_all (next_completion_id m) ps))"
      using recents_of_unpersisted by blast
  qed (use flushed_simps [OF f] in auto)
  then show ?thesis unfolding ps by (rule issues_sort)
qed

lemma issues_complete:
  assumes "issues m out n" "c = pending_finish p (next_completion_id n)"
    and "n' = n\<lparr>pending := ps, recent := recent n @ [recent_from_pending (next_completion_id n) p],
                next_completion_id := next_completion_id n + 1\<rparr>"
  shows "issues m (out @ [c]) n'"
  using assms
  by (auto simp: issues_def recent_from_pending_def algebra_simps)

lemma issues_pending: "issues m out (n\<lparr>pending := ps\<rparr>) \<longleftrightarrow> issues m out n"
  by (simp add: issues_def)

lemma complete_at_issues:
  "issues m out n \<Longrightarrow> issues m (fst (complete_at out n i)) (snd (complete_at out n i))"
  using issues_complete [of m out n _ "pending n ! i"]
  by (auto simp: complete_at_def finish_pending_eq intro!: issues_sort)

lemma recent_match_in: "recent_match m f skew = Some cid \<Longrightarrow> cid \<in> r_completion_id ` set (recent m)"
  by (auto simp: recent_match_def dest: min_by_key_in)

lemma ingest_issues: "issues m (fst (ingest m f)) (snd (ingest m f))"
proof -
  define out where "out = fst (flush_before m (f_happened_at_ms f))"
  define n where "n = snd (flush_before m (f_happened_at_ms f))"
  have fb: "flush_before m (f_happened_at_ms f) = (out, n)" by (simp add: out_def n_def)
  have i: "issues m out n" unfolding out_def n_def by (rule flush_before_issues)
  have "issues m out (n\<lparr>suppressed_source_keys := suppressed_source_keys n @ [(cid, k)]\<rparr>)"
    if "recent_match n f skew = Some cid" for cid k skew
    using i recent_match_in [OF that] by (auto simp: issues_def)
  then show ?thesis
    using i by (auto simp: ingest_def fb Let_def issues_pending
        intro!: complete_at_issues split: option.splits)
qed

lemma drain_loop_eq:
  "drain_loop m ps = (finish_all (next_completion_id m) ps,
     m\<lparr>next_completion_id := next_completion_id m + word_of_nat (length ps)\<rparr>)"
  by (induction ps arbitrary: m) (simp_all add: allocate_completion_id_def algebra_simps)

lemma drain_eq:
  "drain m = (sort_key merged_at (finish_all (next_completion_id m) (pending m)),
     m\<lparr>pending := [], next_completion_id := next_completion_id m + word_of_nat (length (pending m))\<rparr>)"
  by (simp add: drain_def drain_loop_eq)

lemma drain_issues: "issues m (fst (drain m)) (snd (drain m))"
  unfolding drain_eq fst_conv snd_conv
  by (rule issues_sort) (auto simp: issues_def finish_all_issued simp del: mset_map)

text \<open>The invariant of a run: ids are handed out consecutively from 1, every identity the merger
  remembers was handed out, and only confirmed completions are marked persisted.\<close>

definition ids_from_one :: "nat \<Rightarrow> 64 word list" where
  "ids_from_one n = map (\<lambda>i. 1 + word_of_nat i) [0..<n]"

definition run_inv :: "CrashMerger \<Rightarrow> 64 word set \<Rightarrow> 64 word list \<Rightarrow> bool" where
  "run_inv m C ids \<longleftrightarrow>
     next_completion_id m = 1 + word_of_nat (length ids) \<and>
     mset ids = mset (ids_from_one (length ids)) \<and>
     (\<forall>r \<in> set (recent m). r_completion_id r \<in> set ids \<and> (r_persisted r \<longrightarrow> r_completion_id r \<in> C)) \<and>
     (\<forall>s \<in> set (suppressed_source_keys m). fst s \<in> set ids)"

lemma ids_from_one_add:
  "ids_from_one (a + b) = ids_from_one a @ map (\<lambda>i. 1 + word_of_nat a + word_of_nat i) [0..<b]"
  unfolding ids_from_one_def
  by (induction b) (simp_all add: algebra_simps)

lemma run_inv_issue:
  assumes inv: "run_inv m C ids" and iss: "issues m out m'"
  shows "run_inv m' C (ids @ map completion_id out)"
proof -
  let ?ids = "ids @ map completion_id out"
  have n: "next_completion_id m = 1 + word_of_nat (length ids)"
    and ms: "mset ids = mset (ids_from_one (length ids))"
    using inv by (simp_all add: run_inv_def)
  have "mset ?ids = mset (ids_from_one (length ids)) +
      mset (map (\<lambda>i. 1 + word_of_nat (length ids) + word_of_nat i) [0..<length out])"
    using iss ms n by (simp add: issues_def)
  also have "\<dots> = mset (ids_from_one (length ?ids))"
    by (simp add: ids_from_one_add)
  finally have "mset ?ids = mset (ids_from_one (length ?ids))" .
  moreover have "next_completion_id m' = 1 + word_of_nat (length ?ids)"
    using iss n by (simp add: issues_def algebra_simps)
  moreover have "r_completion_id r \<in> set ?ids \<and> (r_persisted r \<longrightarrow> r_completion_id r \<in> C)"
    if "r \<in> set (recent m')" for r
    using that inv iss unfolding issues_def run_inv_def by fastforce
  moreover from this have "fst s \<in> set ?ids" if "s \<in> set (suppressed_source_keys m')" for s
    using that inv iss unfolding issues_def run_inv_def by fastforce
  ultimately show ?thesis unfolding run_inv_def by blast
qed

lemma mark_persistedD:
  "r \<in> set (mark_persisted cid rs) \<Longrightarrow>
   \<exists>r0 \<in> set rs. r_completion_id r = r_completion_id r0 \<and>
     (r_persisted r \<longrightarrow> r_persisted r0 \<or> r_completion_id r0 = cid)"
  by (induction rs) (auto split: if_splits)

lemma merger_run_inv: "merger_run w m C ids \<Longrightarrow> run_inv m C ids"
proof (induction rule: merger_run.induct)
  case run_new then show ?case by (simp add: run_inv_def merger_new_def ids_from_one_def)
next
  case (run_ingest m C ids f out m')
  then show ?case using run_inv_issue ingest_issues [of m f] by simp
next
  case (run_flush m C ids t out m')
  then show ?case using run_inv_issue flush_before_issues [of m t] by simp
next
  case (run_drain m C ids out m')
  then show ?case using run_inv_issue drain_issues [of m] by simp
next
  case (run_confirm m C ids cid)
  then show ?case
    by (fastforce simp: run_inv_def confirm_persisted_def dest: mark_persistedD)
next
  case (run_reject m C ids cid)
  then show ?case by (auto simp: run_inv_def reject_completion_def)
next
  case (run_take m C ids ks m')
  then show ?case by (auto simp: run_inv_def take_confirmed_suppressed_source_keys_def)
qed

lemma ids_from_one_distinct: "n \<le> 2 ^ 64 \<Longrightarrow> distinct (ids_from_one n)"
proof -
  assume n: "n \<le> 2 ^ 64"
  have "inj_on (\<lambda>i. 1 + word_of_nat i :: 64 word) {0..<n}"
  proof (rule inj_onI)
    fix i j assume ij: "i \<in> {0..<n}" "j \<in> {0..<n}"
      and "1 + word_of_nat i = (1 + word_of_nat j :: 64 word)"
    then have "unat (word_of_nat i :: 64 word) = unat (word_of_nat j :: 64 word)" by simp
    then show "i = j" using ij n by (simp add: unat_of_nat)
  qed
  then show ?thesis by (simp add: ids_from_one_def distinct_map)
qed

lemma merger_run_ids_distinct: "merger_run w m C ids \<Longrightarrow> length ids \<le> 2 ^ 64 \<Longrightarrow> distinct ids"
proof -
  assume r: "merger_run w m C ids" and l: "length ids \<le> 2 ^ 64"
  have "mset ids = mset (ids_from_one (length ids))"
    using merger_run_inv [OF r] by (simp add: run_inv_def)
  then show ?thesis using ids_from_one_distinct [OF l] by (metis distinct_count_atmost_1 set_mset_mset)
qed

lemma take_confirmed_owner:
  "merger_run w m C ids \<Longrightarrow> k \<in> set (fst (take_confirmed_suppressed_source_keys m)) \<Longrightarrow>
   \<exists>cid \<in> C. (cid, k) \<in> set (suppressed_source_keys m)"
  by (drule merger_run_inv)
    (auto simp: take_confirmed_suppressed_source_keys_def run_inv_def owner_persisted_def list_ex_iff)

lemma drain_keys: "held_keys m = carried_keys (fst (drain m)) + held_keys (snd (drain m))"
  by (simp add: drain_eq held_keys_def carried_finish_all)

section \<open>Each pending occurrence owns its keys\<close>

definition pending_keys :: "CrashMerger \<Rightarrow> string multiset" where
  "pending_keys m = (\<Sum>p \<in># mset (pending m). mset (p_source_keys p))"

definition keys_unique :: "CrashMerger \<Rightarrow> bool" where
  "keys_unique m \<longleftrightarrow> distinct (concat (map p_source_keys (pending m)))"

lemma sum_mset_concat: "(\<Sum>x \<in># mset xs. mset (g x)) = mset (concat (map g xs))"
  by (induction xs) auto

lemma distinct_iff_count: "distinct xs \<longleftrightarrow> (\<forall>k. count (mset xs) k \<le> 1)"
proof
  assume le: "\<forall>k. count (mset xs) k \<le> 1"
  have "count (mset xs) k = (if k \<in> set xs then 1 else 0)" for k
  proof (cases "k \<in> set xs")
    case True
    then have "1 \<le> count (mset xs) k" by (metis count_greater_eq_one_iff set_mset_mset)
    then have "count (mset xs) k = 1" using le [rule_format, of k] by (rule le_antisym [rotated])
    with True show ?thesis by (simp only: if_True)
  qed (simp add: count_mset_0_iff)
  then show "distinct xs" by (simp add: distinct_count_atmost_1)
qed (simp add: distinct_count_atmost_1)

lemma keys_unique_iff: "keys_unique m \<longleftrightarrow> (\<forall>k. count (pending_keys m) k \<le> 1)"
  unfolding keys_unique_def pending_keys_def sum_mset_concat by (rule distinct_iff_count)

lemma held_keys_pending: "held_keys m = pending_keys m + image_mset snd (mset (suppressed_source_keys m))"
  by (simp add: held_keys_def pending_keys_def)

lemma keys_unique_subset: "keys_unique m \<Longrightarrow> pending_keys n \<subseteq># pending_keys m \<Longrightarrow> keys_unique n"
  unfolding keys_unique_iff by (meson le_trans mset_subset_eq_count)

lemma flush_before_pending_keys: "pending_keys (snd (flush_before m w)) \<subseteq># pending_keys m"
proof -
  obtain ps where f: "flushed w (prune_recent m w) ps (snd (flush_before m w))"
    by (rule flush_before_spec)
  show ?thesis using flushed_simps(5) [OF f] by (simp add: pending_keys_def)
qed

lemma complete_at_pending_keys:
  assumes "i < length (pending m)"
  shows "pending_keys (snd (complete_at done m i)) \<subseteq># pending_keys m"
  using mset_swap_remove [OF assms]
  by (simp add: complete_at_def finish_pending_eq pending_keys_def)

lemma fresh_key_unique:
  assumes "keys_unique n" "\<not> has_key n f" "pending_keys n' = pending_keys n + key_of f"
  shows "keys_unique n'"
proof (cases "f_source_key f")
  case None with assms show ?thesis by (simp add: keys_unique_iff key_of_def)
next
  case (Some k)
  then have "k \<notin> set (concat (map p_source_keys (pending n)))"
    using assms(2) by (auto simp: has_key_def list_ex_iff)
  then have "count (pending_keys n) k = 0"
    by (simp add: pending_keys_def sum_mset_concat)
  then show ?thesis using assms Some by (auto simp: keys_unique_iff key_of_def)
qed

lemma ingest_keys_unique: "keys_unique m \<Longrightarrow> keys_unique (snd (ingest m f))"
proof -
  assume u: "keys_unique m"
  define out where "out = fst (flush_before m (f_happened_at_ms f))"
  define n where "n = snd (flush_before m (f_happened_at_ms f))"
  define skew where "skew = clamp (window_ms n) 0 MAX_SOURCE_SKEW_MS"
  have fb: "flush_before m (f_happened_at_ms f) = (out, n)" by (simp add: out_def n_def)
  have n: "keys_unique n"
    using keys_unique_subset [OF u flush_before_pending_keys] by (simp add: n_def)
  note ing = ingest_def [of m f] fb Let_def skew_def [symmetric]
  show ?thesis
  proof (cases "has_key n f")
    case True with n show ?thesis by (simp add: ing)
  next
    case nk: False
    show ?thesis
    proof (cases "pending_match n f skew")
      case (Some i)
      from pending_matchD [OF this] have i: "i < length (pending n)" by simp
      let ?n = "n\<lparr>pending := (pending n)[i := pending_merge (pending n ! i) f]\<rparr>"
      have "held_keys ?n = held_keys n + key_of f"
        by (rule held_keys_update [OF i pending_merge_keys [OF nk nth_mem [OF i]]])
      then have "keys_unique ?n"
        by (intro fresh_key_unique [OF n nk]) (simp add: held_keys_pending)
      then show ?thesis
        using nk Some i keys_unique_subset complete_at_pending_keys [of i ?n out] by (simp add: ing)
    next
      case None
      let ?n = "n\<lparr>pending := pending n @ [pending_new f]\<rparr>"
      have "pending_keys ?n = pending_keys n + key_of f"
        by (simp add: pending_keys_def pending_new_keys)
      then have "keys_unique ?n" by (rule fresh_key_unique [OF n nk])
      moreover have "keys_unique (n\<lparr>suppressed_source_keys := s\<rparr>)" for s
        using n by (simp add: keys_unique_def)
      ultimately show ?thesis
        using n nk None keys_unique_subset complete_at_pending_keys [of "length (pending n)" ?n out]
        by (auto simp: ing split: option.splits)
    qed
  qed
qed

lemma merger_run_keys_unique: "merger_run w m C ids \<Longrightarrow> keys_unique m"
proof (induction rule: merger_run.induct)
  case (run_ingest m C ids f out m') then show ?case using ingest_keys_unique [of m f] by simp
next
  case (run_flush m C ids t out m')
  then show ?case using keys_unique_subset [OF _ flush_before_pending_keys [of m t]] by simp
next
  case (run_drain m C ids out m')
  then show ?case by (auto simp: drain_eq keys_unique_def)
qed (auto simp: keys_unique_def merger_new_def confirm_persisted_def reject_completion_def
    take_confirmed_suppressed_source_keys_def)

section \<open>Properties\<close>

text \<open>C20: a flush completes exactly the occurrences whose deadline has passed: the pending list splits into
  the occurrences \<^term>\<open>ps\<close> that are past it, which are the records returned (ordered by time), and
  the ones kept, none of which is past it.\<close>
theorem flush_completes_exactly_expired:
  "\<exists>ps. fst (flush_before m w) = sort_key merged_at (finish_all (next_completion_id m) ps) \<and>
        mset (pending m) = mset ps + mset (pending (snd (flush_before m w))) \<and>
        list_all (pending_expired (window_ms m) w) ps \<and>
        list_all (\<lambda>p. \<not> pending_expired (window_ms m) w p) (pending (snd (flush_before m w))) \<and>
        sorted (map merged_at (fst (flush_before m w)))"
proof -
  obtain ps where ps: "fst (flush_before m w) = sort_key merged_at (finish_all (next_completion_id m) ps)"
    and f: "flushed w (prune_recent m w) ps (snd (flush_before m w))"
    and n: "list_all (\<lambda>p. \<not> pending_expired (window_ms m) w p) (pending (snd (flush_before m w)))"
    by (rule flush_before_spec)
  have "list_all (pending_expired (window_ms m) w) ps" using f by (simp add: flushed_def)
  moreover have "sorted (map merged_at (fst (flush_before m w)))" by (simp add: ps)
  ultimately show ?thesis using ps n flushed_simps(5) [OF f] by (intro exI [of _ ps]) simp
qed

text \<open>C19: no source key is lost or counted twice: after ingesting a fragment the keys of the completed
  records together with the keys still held are the keys held before plus the fragment's own key,
  which is left out only when a pending occurrence already has it.\<close>
theorem ingest_conserves_source_keys:
  "carried_keys (fst (ingest m f)) + held_keys (snd (ingest m f)) =
     held_keys m + (if has_key (snd (flush_before m (f_happened_at_ms f))) f then {#} else key_of f)"
  by (rule ingest_keys)

text \<open>in every run of the correlator no two pending occurrences, and no one of them twice, hold the
  same source key; and fewer than 2^64 completions never share a completion id.\<close>
theorem run_keys_and_ids_unique:
  assumes "merger_run w m C ids"
  shows "distinct (concat (map p_source_keys (pending m))) \<and> (length ids \<le> 2 ^ 64 \<longrightarrow> distinct ids)"
  using merger_run_keys_unique [OF assms] merger_run_ids_distinct [OF assms]
  by (simp add: keys_unique_def)

text \<open>Fragments of one Java crash as the collectors build them, for the witnesses.\<close>

definition ev_fragment :: CrashFragment where
  "ev_fragment = (fragment_new EVENTS Structured JavaException ''a'' 7 1000)
     \<lparr>f_user_id := Some 0, f_source_key := Some ''k1''\<rparr>"

definition cb_fragment :: CrashFragment where
  "cb_fragment = (fragment_new CRASH_BUFFER Text JavaException ''a'' 7 1001)
     \<lparr>f_payload := PInline [1, 2], f_frames := [''a.B.c(B.kt:1)''], f_source_key := Some ''k2''\<rparr>"

definition db_fragment :: CrashFragment where
  "db_fragment = (fragment_new DROPBOX Structured JavaException ''a'' 7 1100)
     \<lparr>f_payload := PInline [1, 2, 3], f_source_key := Some ''k3''\<rparr>"

definition sample_merger :: "nat \<Rightarrow> CrashMerger" where
  "sample_merger n =
     (let m1 = snd (ingest (merger_new 10000) ev_fragment); m2 = snd (ingest m1 cb_fragment);
          m3 = snd (ingest m2 db_fragment); m4 = confirm_persisted m3 1
      in if n = 1 then m1 else if n = 2 then m2 else if n = 3 then m3 else m4)"

lemma sample_run: "merger_run 10000 (sample_merger 4) {1} [1]"
proof -
  have "map completion_id (fst (ingest (merger_new 10000) ev_fragment)) = []" by code_simp
  moreover have "map completion_id (fst (ingest (sample_merger 1) cb_fragment)) = [1]" by code_simp
  moreover have "map completion_id (fst (ingest (sample_merger 2) db_fragment)) = []" by code_simp
  moreover have "sample_merger 2 = snd (ingest (sample_merger 1) cb_fragment)"
    "sample_merger 3 = snd (ingest (sample_merger 2) db_fragment)"
    "sample_merger 4 = confirm_persisted (sample_merger 3) 1"
    "sample_merger 1 = snd (ingest (merger_new 10000) ev_fragment)"
    by (simp_all add: sample_merger_def Let_def)
  ultimately show ?thesis
    by (metis (no_types) append_Nil append_Nil2 prod.collapse run_confirm run_ingest run_new)
qed

theorem run_keys_and_ids_unique_witness:
  "distinct (concat (map p_source_keys (pending (sample_merger 4)))) \<and> distinct [1 :: 64 word]"
  using run_keys_and_ids_unique [OF sample_run] by simp

text \<open>the key of a fragment that a finished record absorbed is handed out for acknowledgement only after
  that record was confirmed as stored, so a crash between the two leaves the source to be read
  again.\<close>
theorem suppressed_keys_need_confirmation:
  assumes "merger_run w m C ids" and "k \<in> set (fst (take_confirmed_suppressed_source_keys m))"
  shows "\<exists>cid \<in> C. (cid, k) \<in> set (suppressed_source_keys m)"
  using assms by (rule take_confirmed_owner)

theorem suppressed_keys_need_confirmation_witness:
  "\<exists>cid \<in> {1}. (cid, ''k3'') \<in> set (suppressed_source_keys (sample_merger 4))"
proof -
  have "''k3'' \<in> set (fst (take_confirmed_suppressed_source_keys (sample_merger 4)))" by code_simp
  from suppressed_keys_need_confirmation [OF sample_run this] show ?thesis .
qed

text \<open>the optional evidence of an occurrence (its package, user, version, exception class, message,
  foreground and system flags) is, for fragments arriving in any order, the last value of the best
  quality offered; sources accumulate and the time is the earliest one.\<close>
theorem merged_evidence_is_best:
  "p_package (pending_of f fs) = best_of (map (\<lambda>g. (f_quality g, f_package_name g)) (f # fs)) \<and>
   p_user (pending_of f fs) = best_of (map (\<lambda>g. (f_quality g, f_user_id g)) (f # fs)) \<and>
   p_version_name (pending_of f fs) = best_of (map (\<lambda>g. (f_quality g, f_app_version_name g)) (f # fs)) \<and>
   p_version_code (pending_of f fs) = best_of (map (\<lambda>g. (f_quality g, f_app_version_code g)) (f # fs)) \<and>
   p_system (pending_of f fs) = best_of (map (\<lambda>g. (f_quality g, f_is_system_app g)) (f # fs)) \<and>
   p_foreground (pending_of f fs) = best_of (map (\<lambda>g. (f_quality g, f_is_foreground g)) (f # fs)) \<and>
   p_class (pending_of f fs) = best_of (map (\<lambda>g. (f_quality g, f_summary_class g)) (f # fs)) \<and>
   p_text (pending_of f fs) = best_of (map (\<lambda>g. (f_quality g, f_summary_text g)) (f # fs)) \<and>
   p_sources (pending_of f fs) = fold (\<lambda>g m. mask_union m (f_source g)) fs (f_source f) \<and>
   p_first_ms (pending_of f fs) = Min (set (map f_happened_at_ms (f # fs)))"
  by (intro conjI pending_of_ranked pending_of_sources pending_of_first_ms)
    (simp_all add: pending_new_def pending_merge_def Let_def)

text \<open>a Java crash seen first in the events buffer and then in the crash buffer loses its stack: the
  event has no payload but a higher quality, so the payload and the frames of the crash buffer are
  refused, and the record is completed at once without them.\<close>
theorem crash_buffer_stack_lost_after_event:
  assumes "pending m = [pending_new e]" and "recent m = []"
    and "f_kind e = JavaException" "f_source e = EVENTS" "f_quality e = Structured"
    and "f_payload e = PNone" "f_frames e = []"
    and "f_kind f = JavaException" "f_source f = CRASH_BUFFER" "f_quality f = Text"
    and "f_source_key f = None \<or> f_source_key f \<noteq> f_source_key e"
    and "f_process_name f = f_process_name e" "f_pid f = f_pid e" "f_pid e \<noteq> 0" "f_user_id f = None"
    and "f_happened_at_ms e = t" "f_happened_at_ms f = t'" "is_i64 t" "is_i64 t'"
    and "t \<le> t'" "t' \<le> t + 2000" "t' \<le> t + window_ms m"
  shows "map (\<lambda>c. (payload (merged_record c), frames (fingerprint (merged_record c)))) (fst (ingest m f))
       = [(NoPayload, [])]"
proof -
  have delay: "completion_delay_ms (pending_new e) (window_ms m) = window_ms m"
    using assms by (simp add: completion_delay_ms_def pending_new_def mask_contains_def source_bits)
  have "t' \<le> i64_saturating_add t (window_ms m)"
    using assms i64_sat_mono [of t' "t + window_ms m"] by (simp add: i64_saturating_add_def i64_sat_id)
  then have ne: "\<not> pending_expired (window_ms m) t' (pending_new e)"
    using assms by (simp add: pending_expired_def delay) (simp add: pending_new_def Let_def)
  have fl: "flush_before m t' = ([], m)"
    using assms ne by (simp add: flush_before_def Let_def flush_loop.simps)
  have hk: "\<not> has_key m f"
    using assms by (auto simp: has_key_def pending_new_def Let_def split: option.splits)
  have match: "pending_matches (pending_new e) f skew (window_ms m)" if "t' - t \<le> skew" for skew
    using assms that
    by (simp add: pending_matches_def pending_new_def mask_contains_def source_bits
        occurrence_identity_matches_def skew_limit_def abs_diff_def Let_def split: option.splits)
  have pm: "pending_match m f (clamp (window_ms m) 0 MAX_SOURCE_SKEW_MS) = Some 0"
    using assms match [of "clamp (window_ms m) 0 MAX_SOURCE_SKEW_MS"]
    by (simp add: pending_match_def MAX_SOURCE_SKEW_MS_def clamp_def)
  let ?p = "pending_merge (pending_new e) f"
  have p: "p_payload ?p = \<lparr>quality = Structured, rvalue = PNone\<rparr>"
    "p_frames ?p = \<lparr>quality = Structured, rvalue = []\<rparr>"
    "rvalue (p_kind ?p) = JavaException" "p_sources ?p = EVENTS OR CRASH_BUFFER"
    using assms by (simp_all add: pending_merge_def pending_new_def Let_def ranked_replace_def
        less_eq_EvidenceQuality_def mask_union_def)
  then have "completion_delay_ms ?p (window_ms m) = 0"
    by (simp add: completion_delay_ms_def mask_contains_def source_bits)
  then have "fst (ingest m f) = [pending_finish ?p (next_completion_id m)]"
    using assms hk pm fl by (simp add: ingest_def Let_def complete_at_def finish_pending_eq)
  moreover have "frames (fingerprint (merged_record (pending_finish ?p cid))) = []" for cid
    using p by (simp add: pending_finish_def Let_def from_raw_frames_def)
  ultimately show ?thesis using p by simp
qed

theorem crash_buffer_stack_lost_after_event_witness:
  "map (\<lambda>c. (payload (merged_record c), frames (fingerprint (merged_record c))))
       (fst (ingest (sample_merger 1) cb_fragment)) = [(NoPayload, [])] \<and>
   f_payload cb_fragment = PInline [1, 2]"
proof -
  have "sample_merger 1 = (merger_new 10000)\<lparr>pending := [pending_new ev_fragment]\<rparr>" by code_simp
  then show ?thesis
    using crash_buffer_stack_lost_after_event [of "sample_merger 1" ev_fragment cb_fragment 1000 1001]
    by (simp add: merger_new_def ev_fragment_def cb_fragment_def fragment_new_def int_range_defs)
qed

end
