(* ===== verification/Config.thy ===== *)
theory Config
  imports Prelude
begin

text \<open>
  \<^verbatim>\<open>cch_config\<close>: the configuration document, the partial updates the manager sends, and the file it is
  kept in.

  JSON (crate \<^verbatim>\<open>serde_json\<close>) is a pair of parameters.  The file system is a map from paths to contents
  together with the failures the next operation meets, so every error path of the store is a branch.
\<close>

section \<open>The document\<close>

definition CONFIG_SCHEMA_VERSION :: int where "CONFIG_SCHEMA_VERSION = 1"

datatype NotifyMode = Dialog | Notification | Toast | Nothing

datatype MuteScope = MuteNone | UntilUnlock | UntilRestart

record RetentionPolicy =
  retention_days :: int
  max_records_per_group :: int
  max_records_total :: int
  max_payload_bytes_total :: int
  max_payload_bytes_per_record :: int

definition retention_default :: RetentionPolicy where
  "retention_default =
     \<lparr>retention_days = 30, max_records_per_group = 20, max_records_total = 2000,
      max_payload_bytes_total = 256 * 1024 * 1024,
      max_payload_bytes_per_record = 2 * 1024 * 1024\<rparr>"

definition MIN_RETENTION_DAYS :: int where "MIN_RETENTION_DAYS = 1"
definition MIN_RECORDS_PER_GROUP :: int where "MIN_RECORDS_PER_GROUP = 1"
definition MIN_RECORDS_TOTAL :: int where "MIN_RECORDS_TOTAL = 50"
definition MIN_PAYLOAD_BYTES_TOTAL :: int where "MIN_PAYLOAD_BYTES_TOTAL = 8 * 1024 * 1024"
definition MIN_PAYLOAD_BYTES_PER_RECORD :: int where "MIN_PAYLOAD_BYTES_PER_RECORD = 64 * 1024"
definition MAX_RETENTION_DAYS :: int where "MAX_RETENTION_DAYS = 365"
definition MAX_RECORDS_PER_GROUP :: int where "MAX_RECORDS_PER_GROUP = 500"
definition MAX_RECORDS_TOTAL :: int where "MAX_RECORDS_TOTAL = 100000"
definition MAX_PAYLOAD_BYTES_TOTAL :: int where "MAX_PAYLOAD_BYTES_TOTAL = 8 * 1024 * 1024 * 1024"
definition MAX_PAYLOAD_BYTES_PER_RECORD :: int where "MAX_PAYLOAD_BYTES_PER_RECORD = 64 * 1024 * 1024"

lemmas retention_bounds =
  MIN_RETENTION_DAYS_def MIN_RECORDS_PER_GROUP_def MIN_RECORDS_TOTAL_def
  MIN_PAYLOAD_BYTES_TOTAL_def MIN_PAYLOAD_BYTES_PER_RECORD_def MAX_RETENTION_DAYS_def
  MAX_RECORDS_PER_GROUP_def MAX_RECORDS_TOTAL_def MAX_PAYLOAD_BYTES_TOTAL_def
  MAX_PAYLOAD_BYTES_PER_RECORD_def

definition clamped :: "RetentionPolicy \<Rightarrow> RetentionPolicy" where
  "clamped p =
     \<lparr>retention_days = clamp (retention_days p) MIN_RETENTION_DAYS MAX_RETENTION_DAYS,
      max_records_per_group =
        clamp (max_records_per_group p) MIN_RECORDS_PER_GROUP MAX_RECORDS_PER_GROUP,
      max_records_total = clamp (max_records_total p) MIN_RECORDS_TOTAL MAX_RECORDS_TOTAL,
      max_payload_bytes_total =
        clamp (max_payload_bytes_total p) MIN_PAYLOAD_BYTES_TOTAL MAX_PAYLOAD_BYTES_TOTAL,
      max_payload_bytes_per_record =
        clamp (max_payload_bytes_per_record p) MIN_PAYLOAD_BYTES_PER_RECORD
          MAX_PAYLOAD_BYTES_PER_RECORD\<rparr>"

record GlobalConfig =
  enabled :: bool
  capture_java :: bool
  capture_anr :: bool
  capture_native :: bool
  capture_wtf :: bool
  capture_self_handled :: bool
  notify_mode :: NotifyMode
  only_foreground :: bool
  foreground_unknown_notifies :: bool
  only_main_process :: bool
  include_system_apps :: bool
  takeover_system_dialog :: bool
  debug_logging :: bool
  retention :: RetentionPolicy

definition global_default :: GlobalConfig where
  "global_default =
     \<lparr>enabled = True, capture_java = True, capture_anr = True, capture_native = True,
      capture_wtf = False, capture_self_handled = True, notify_mode = Notification,
      only_foreground = False, foreground_unknown_notifies = True, only_main_process = False,
      include_system_apps = False, takeover_system_dialog = False, debug_logging = False,
      retention = retention_default\<rparr>"

definition global_normalized :: "GlobalConfig \<Rightarrow> GlobalConfig" where
  "global_normalized g = g\<lparr>retention := clamped (retention g)\<rparr>"

record AppConfig =
  app_notify_mode :: "NotifyMode option"
  ignore :: bool
  mute :: MuteScope

definition app_default :: AppConfig where
  "app_default = \<lparr>app_notify_mode = None, ignore = False, mute = MuteNone\<rparr>"

definition app_is_default :: "AppConfig \<Rightarrow> bool" where
  "app_is_default a \<longleftrightarrow> a = app_default"

record ConfigDocument =
  schema_version :: int
  global :: GlobalConfig
  apps :: "string \<rightharpoonup> AppConfig"

definition document_default :: ConfigDocument where
  "document_default =
     \<lparr>schema_version = CONFIG_SCHEMA_VERSION, global = global_default, apps = Map.empty\<rparr>"

definition document_normalized :: "ConfigDocument \<Rightarrow> ConfigDocument" where
  "document_normalized d =
     d\<lparr>schema_version := CONFIG_SCHEMA_VERSION, global := global_normalized (global d),
       apps := (\<lambda>p. case apps d p of None \<Rightarrow> None
                    | Some c \<Rightarrow> if \<not> app_is_default c then Some c else None)\<rparr>"

definition app :: "ConfigDocument \<Rightarrow> string \<Rightarrow> AppConfig" where
  "app d package = unwrap_or (apps d package) app_default"

definition effective_notify_mode :: "ConfigDocument \<Rightarrow> string \<Rightarrow> NotifyMode" where
  "effective_notify_mode d package =
     (let a = app d package
      in if ignore a then Nothing else unwrap_or (app_notify_mode a) (notify_mode (global d)))"

definition should_record :: "ConfigDocument \<Rightarrow> string \<Rightarrow> bool \<Rightarrow> bool \<Rightarrow> bool \<Rightarrow> bool" where
  "should_record d package is_system is_main handled =
     (if \<not> enabled (global d) \<or> ignore (app d package) then False
      else if is_system \<and> \<not> include_system_apps (global d) then False
      else if only_main_process (global d) \<and> \<not> is_main then False
      else if handled \<and> \<not> capture_self_handled (global d) then False
      else True)"

definition should_notify :: "ConfigDocument \<Rightarrow> string \<Rightarrow> bool option \<Rightarrow> bool" where
  "should_notify d package foreground =
     (if effective_notify_mode d package = Nothing then False
      else if \<not> only_foreground (global d) then True
      else (case foreground of Some fg \<Rightarrow> fg | None \<Rightarrow> foreground_unknown_notifies (global d)))"

section \<open>Partial updates\<close>

record RetentionPatch =
  rp_retention_days :: "int option"
  rp_max_records_per_group :: "int option"
  rp_max_records_total :: "int option"
  rp_max_payload_bytes_total :: "int option"
  rp_max_payload_bytes_per_record :: "int option"

definition rp_is_empty :: "RetentionPatch \<Rightarrow> bool" where
  "rp_is_empty p \<longleftrightarrow>
     rp_retention_days p = None \<and> rp_max_records_per_group p = None \<and>
     rp_max_records_total p = None \<and> rp_max_payload_bytes_total p = None \<and>
     rp_max_payload_bytes_per_record p = None"

definition rp_apply :: "RetentionPatch \<Rightarrow> RetentionPolicy \<Rightarrow> RetentionPolicy" where
  "rp_apply p base =
     clamped
       \<lparr>retention_days = unwrap_or (rp_retention_days p) (retention_days base),
        max_records_per_group =
          unwrap_or (rp_max_records_per_group p) (max_records_per_group base),
        max_records_total = unwrap_or (rp_max_records_total p) (max_records_total base),
        max_payload_bytes_total =
          unwrap_or (rp_max_payload_bytes_total p) (max_payload_bytes_total base),
        max_payload_bytes_per_record =
          unwrap_or (rp_max_payload_bytes_per_record p) (max_payload_bytes_per_record base)\<rparr>"

record GlobalConfigPatch =
  gp_enabled :: "bool option"
  gp_capture_java :: "bool option"
  gp_capture_anr :: "bool option"
  gp_capture_native :: "bool option"
  gp_capture_wtf :: "bool option"
  gp_capture_self_handled :: "bool option"
  gp_notify_mode :: "NotifyMode option"
  gp_only_foreground :: "bool option"
  gp_foreground_unknown_notifies :: "bool option"
  gp_only_main_process :: "bool option"
  gp_include_system_apps :: "bool option"
  gp_takeover_system_dialog :: "bool option"
  gp_debug_logging :: "bool option"
  gp_retention :: RetentionPatch

definition gp_is_empty :: "GlobalConfigPatch \<Rightarrow> bool" where
  "gp_is_empty p \<longleftrightarrow>
     gp_enabled p = None \<and> gp_capture_java p = None \<and> gp_capture_anr p = None \<and>
     gp_capture_native p = None \<and> gp_capture_wtf p = None \<and> gp_capture_self_handled p = None \<and>
     gp_notify_mode p = None \<and> gp_only_foreground p = None \<and>
     gp_foreground_unknown_notifies p = None \<and> gp_only_main_process p = None \<and>
     gp_include_system_apps p = None \<and> gp_takeover_system_dialog p = None \<and>
     gp_debug_logging p = None \<and> rp_is_empty (gp_retention p)"

definition gp_apply :: "GlobalConfigPatch \<Rightarrow> GlobalConfig \<Rightarrow> GlobalConfig" where
  "gp_apply p base =
     \<lparr>enabled = unwrap_or (gp_enabled p) (enabled base),
      capture_java = unwrap_or (gp_capture_java p) (capture_java base),
      capture_anr = unwrap_or (gp_capture_anr p) (capture_anr base),
      capture_native = unwrap_or (gp_capture_native p) (capture_native base),
      capture_wtf = unwrap_or (gp_capture_wtf p) (capture_wtf base),
      capture_self_handled = unwrap_or (gp_capture_self_handled p) (capture_self_handled base),
      notify_mode = unwrap_or (gp_notify_mode p) (notify_mode base),
      only_foreground = unwrap_or (gp_only_foreground p) (only_foreground base),
      foreground_unknown_notifies =
        unwrap_or (gp_foreground_unknown_notifies p) (foreground_unknown_notifies base),
      only_main_process = unwrap_or (gp_only_main_process p) (only_main_process base),
      include_system_apps = unwrap_or (gp_include_system_apps p) (include_system_apps base),
      takeover_system_dialog =
        unwrap_or (gp_takeover_system_dialog p) (takeover_system_dialog base),
      debug_logging = unwrap_or (gp_debug_logging p) (debug_logging base),
      retention = rp_apply (gp_retention p) (retention base)\<rparr>"

record AppConfigPatch =
  ap_notify_mode :: "NotifyMode option option"
  ap_ignore :: "bool option"
  ap_mute :: "MuteScope option"

definition ap_is_empty :: "AppConfigPatch \<Rightarrow> bool" where
  "ap_is_empty p \<longleftrightarrow> ap_notify_mode p = None \<and> ap_ignore p = None \<and> ap_mute p = None"

definition ap_apply :: "AppConfigPatch \<Rightarrow> AppConfig \<Rightarrow> AppConfig" where
  "ap_apply p base =
     \<lparr>app_notify_mode = (case ap_notify_mode p of Some value \<Rightarrow> value | None \<Rightarrow> app_notify_mode base),
      ignore = unwrap_or (ap_ignore p) (ignore base),
      mute = unwrap_or (ap_mute p) (mute base)\<rparr>"

section \<open>The store\<close>

text \<open>A path is its list of components.  The failures of one call: a read error other than
  \<^verbatim>\<open>NotFound\<close>, the creation of the parent directories or of the temporary file, a write that stops
  after some bytes, the sync, and the rename.\<close>

type_synonym path = "string list"

record Disk =
  files :: "path \<rightharpoonup> string"
  read_fails :: bool
  mkdir_fails :: bool
  create_fails :: bool
  write_fails :: "nat option"
  sync_fails :: bool
  rename_fails :: bool

datatype ConfigError = CfgIo path | CfgParse path | CfgSerialize

definition file_name :: "path \<Rightarrow> string option" where
  "file_name p = (if p = [] then None else Some (last p))"

definition parent_of :: "path \<Rightarrow> path" where "parent_of p = butlast p"

definition set_file_name :: "path \<Rightarrow> string \<Rightarrow> path" where
  "set_file_name p name = butlast p @ [name]"

definition temp_path :: "path \<Rightarrow> path" where
  "temp_path p = set_file_name p (''.'' @ unwrap_or (file_name p) ''config.json'' @ ''.tmp'')"

definition quarantine_path :: "path \<Rightarrow> path" where
  "quarantine_path p = set_file_name p (unwrap_or (file_name p) ''config.json'' @ ''.corrupt'')"

text \<open>\<^verbatim>\<open>fs::rename\<close>: the source moves over the target, or nothing changes and the call fails.\<close>

definition fs_rename :: "Disk \<Rightarrow> path \<Rightarrow> path \<Rightarrow> Disk \<times> bool" where
  "fs_rename d from_path to =
     (case files d from_path of None \<Rightarrow> (d, False)
      | Some content \<Rightarrow>
          if rename_fails d then (d, False)
          else (d\<lparr>files := (files d)(from_path := None, to := Some content)\<rparr>, True))"

definition load :: "(string \<Rightarrow> ConfigDocument option) \<Rightarrow> path \<Rightarrow> Disk \<Rightarrow> ConfigError + ConfigDocument" where
  "load from_json p d =
     (if read_fails d then Inl (CfgIo p)
      else (case files d p of None \<Rightarrow> Inr document_default
            | Some text \<Rightarrow>
                (case from_json text of None \<Rightarrow> Inl (CfgParse p)
                 | Some doc \<Rightarrow> Inr (document_normalized doc))))"

definition quarantine :: "path \<Rightarrow> Disk \<Rightarrow> Disk" where
  "quarantine p d = fst (fs_rename d p (quarantine_path p))"

definition load_or_recover ::
  "(string \<Rightarrow> ConfigDocument option) \<Rightarrow> path \<Rightarrow> Disk \<Rightarrow> ConfigDocument \<times> Disk" where
  "load_or_recover from_json p d =
     (case load from_json p d of Inr doc \<Rightarrow> (doc, d)
      | Inl _ \<Rightarrow> (document_default, quarantine p d))"

definition write_then_sync :: "path \<Rightarrow> string \<Rightarrow> Disk \<Rightarrow> (ConfigError + unit) \<times> Disk" where
  "write_then_sync p bytes d =
     (if create_fails d then (Inl (CfgIo p), d)
      else (case write_fails d of
              Some n \<Rightarrow> (Inl (CfgIo p), d\<lparr>files := (files d)(p \<mapsto> take n bytes)\<rparr>)
            | None \<Rightarrow>
                (let d' = d\<lparr>files := (files d)(p \<mapsto> bytes)\<rparr>
                 in if sync_fails d then (Inl (CfgIo p), d') else (Inr (), d'))))"

definition save ::
  "(ConfigDocument \<Rightarrow> string option) \<Rightarrow> path \<Rightarrow> ConfigDocument \<Rightarrow> Disk \<Rightarrow> (ConfigError + unit) \<times> Disk" where
  "save to_json p document d =
     (case to_json (document_normalized document) of
        None \<Rightarrow> (Inl CfgSerialize, d)
      | Some text \<Rightarrow>
          (let json = text @ [CHR 0x0A]
           in if parent_of p \<noteq> [] \<and> mkdir_fails d then (Inl (CfgIo (parent_of p)), d)
              else (case write_then_sync (temp_path p) json d of
                      (Inl e, d1) \<Rightarrow> (Inl e, d1)
                    | (Inr _, d1) \<Rightarrow>
                        (case fs_rename d1 (temp_path p) p of
                           (d2, True) \<Rightarrow> (Inr (), d2)
                         | (d2, False) \<Rightarrow> (Inl (CfgIo p), d2)))))"

definition update ::
  "(string \<Rightarrow> ConfigDocument option) \<Rightarrow> (ConfigDocument \<Rightarrow> string option) \<Rightarrow> path \<Rightarrow>
   (ConfigDocument \<Rightarrow> ConfigDocument) \<Rightarrow> Disk \<Rightarrow> (ConfigError + ConfigDocument) \<times> Disk" where
  "update from_json to_json p mutate d =
     (let (doc, d1) = load_or_recover from_json p d;
          document = document_normalized (mutate doc)
      in case save to_json p document d1 of
           (Inl e, d2) \<Rightarrow> (Inl e, d2)
         | (Inr _, d2) \<Rightarrow> (Inr document, d2))"

section \<open>Normal forms\<close>

definition policy_ok :: "RetentionPolicy \<Rightarrow> bool" where
  "policy_ok p \<longleftrightarrow>
     MIN_RETENTION_DAYS \<le> retention_days p \<and> retention_days p \<le> MAX_RETENTION_DAYS \<and>
     MIN_RECORDS_PER_GROUP \<le> max_records_per_group p \<and>
     max_records_per_group p \<le> MAX_RECORDS_PER_GROUP \<and>
     MIN_RECORDS_TOTAL \<le> max_records_total p \<and> max_records_total p \<le> MAX_RECORDS_TOTAL \<and>
     MIN_PAYLOAD_BYTES_TOTAL \<le> max_payload_bytes_total p \<and>
     max_payload_bytes_total p \<le> MAX_PAYLOAD_BYTES_TOTAL \<and>
     MIN_PAYLOAD_BYTES_PER_RECORD \<le> max_payload_bytes_per_record p \<and>
     max_payload_bytes_per_record p \<le> MAX_PAYLOAD_BYTES_PER_RECORD"

definition document_ok :: "ConfigDocument \<Rightarrow> bool" where
  "document_ok d \<longleftrightarrow> schema_version d = CONFIG_SCHEMA_VERSION \<and> policy_ok (retention (global d)) \<and>
     app_default \<notin> ran (apps d)"

interpretation policy: normal_form clamped policy_ok
proof (standard, goal_cases)
  case (1 p) show ?case by (simp add: policy_ok_def clamped_def retention_bounds clamp_def)
next
  case (2 p) then show ?case
    by (intro RetentionPolicy.equality) (simp_all add: policy_ok_def clamped_def clamp_id)
qed

interpretation global_form: normal_form global_normalized "\<lambda>g. policy_ok (retention g)"
proof (standard, goal_cases)
  case (1 g) show ?case by (simp add: global_normalized_def policy.norm_ok)
next
  case (2 g) then show ?case by (simp add: global_normalized_def policy.norm_id)
qed

interpretation document: normal_form document_normalized document_ok
proof (standard, goal_cases)
  case (1 d)
  have "app_default \<notin> ran (apps (document_normalized d))"
    by (auto simp: ran_def document_normalized_def app_is_default_def split: option.splits if_splits)
  then show ?case
    using global_form.norm_ok [of "global d"] by (simp add: document_ok_def document_normalized_def)
next
  case (2 d)
  then have "(case apps d p of None \<Rightarrow> None | Some c \<Rightarrow> if \<not> app_is_default c then Some c else None) = apps d p" for p
    by (auto simp: document_ok_def ran_def app_is_default_def split: option.splits)
  with 2 show ?case
    by (simp add: document_ok_def document_normalized_def global_form.norm_id)
qed

lemma document_default_ok: "document_ok document_default"
  by (simp add: document_ok_def document_default_def global_default_def retention_default_def
      policy_ok_def retention_bounds)

lemma app_normalized [simp]: "app (document_normalized d) p = app d p"
  by (simp add: app_def document_normalized_def app_is_default_def split: option.splits)

lemma global_normalized_simps [simp]:
  "enabled (global (document_normalized d)) = enabled (global d)"
  "include_system_apps (global (document_normalized d)) = include_system_apps (global d)"
  "only_main_process (global (document_normalized d)) = only_main_process (global d)"
  "capture_self_handled (global (document_normalized d)) = capture_self_handled (global d)"
  "notify_mode (global (document_normalized d)) = notify_mode (global d)"
  "only_foreground (global (document_normalized d)) = only_foreground (global d)"
  "foreground_unknown_notifies (global (document_normalized d)) = foreground_unknown_notifies (global d)"
  by (simp_all add: document_normalized_def global_normalized_def)

lemma decisions_normalized:
  "effective_notify_mode (document_normalized d) p = effective_notify_mode d p"
  "should_record (document_normalized d) p s m h = should_record d p s m h"
  "should_notify (document_normalized d) p fg = should_notify d p fg"
proof -
  show e: "effective_notify_mode (document_normalized d) p = effective_notify_mode d p"
    unfolding effective_notify_mode_def Let_def app_normalized global_normalized_simps ..
  show "should_record (document_normalized d) p s m h = should_record d p s m h"
    unfolding should_record_def app_normalized global_normalized_simps ..
  show "should_notify (document_normalized d) p fg = should_notify d p fg"
    unfolding should_notify_def e global_normalized_simps ..
qed

section \<open>Patches\<close>

lemma clamp_unwrap: "lo \<le> hi \<Longrightarrow> clamp (unwrap_or a (clamp (unwrap_or b x) lo hi)) lo hi = clamp (unwrap_or a (unwrap_or b x)) lo hi"
  by (cases a) auto

definition rp_disjoint :: "RetentionPatch \<Rightarrow> RetentionPatch \<Rightarrow> bool" where
  "rp_disjoint p q \<longleftrightarrow>
     (rp_retention_days p = None \<or> rp_retention_days q = None) \<and>
     (rp_max_records_per_group p = None \<or> rp_max_records_per_group q = None) \<and>
     (rp_max_records_total p = None \<or> rp_max_records_total q = None) \<and>
     (rp_max_payload_bytes_total p = None \<or> rp_max_payload_bytes_total q = None) \<and>
     (rp_max_payload_bytes_per_record p = None \<or> rp_max_payload_bytes_per_record q = None)"

definition gp_disjoint :: "GlobalConfigPatch \<Rightarrow> GlobalConfigPatch \<Rightarrow> bool" where
  "gp_disjoint p q \<longleftrightarrow>
     (gp_enabled p = None \<or> gp_enabled q = None) \<and>
     (gp_capture_java p = None \<or> gp_capture_java q = None) \<and>
     (gp_capture_anr p = None \<or> gp_capture_anr q = None) \<and>
     (gp_capture_native p = None \<or> gp_capture_native q = None) \<and>
     (gp_capture_wtf p = None \<or> gp_capture_wtf q = None) \<and>
     (gp_capture_self_handled p = None \<or> gp_capture_self_handled q = None) \<and>
     (gp_notify_mode p = None \<or> gp_notify_mode q = None) \<and>
     (gp_only_foreground p = None \<or> gp_only_foreground q = None) \<and>
     (gp_foreground_unknown_notifies p = None \<or> gp_foreground_unknown_notifies q = None) \<and>
     (gp_only_main_process p = None \<or> gp_only_main_process q = None) \<and>
     (gp_include_system_apps p = None \<or> gp_include_system_apps q = None) \<and>
     (gp_takeover_system_dialog p = None \<or> gp_takeover_system_dialog q = None) \<and>
     (gp_debug_logging p = None \<or> gp_debug_logging q = None) \<and>
     rp_disjoint (gp_retention p) (gp_retention q)"

lemma rp_apply_twice:
  "rp_apply p (rp_apply q b) =
     clamped
       \<lparr>retention_days = unwrap_or (rp_retention_days p) (unwrap_or (rp_retention_days q) (retention_days b)),
        max_records_per_group = unwrap_or (rp_max_records_per_group p)
          (unwrap_or (rp_max_records_per_group q) (max_records_per_group b)),
        max_records_total = unwrap_or (rp_max_records_total p)
          (unwrap_or (rp_max_records_total q) (max_records_total b)),
        max_payload_bytes_total = unwrap_or (rp_max_payload_bytes_total p)
          (unwrap_or (rp_max_payload_bytes_total q) (max_payload_bytes_total b)),
        max_payload_bytes_per_record = unwrap_or (rp_max_payload_bytes_per_record p)
          (unwrap_or (rp_max_payload_bytes_per_record q) (max_payload_bytes_per_record b))\<rparr>"
  unfolding rp_apply_def clamped_def by (simp add: clamp_unwrap retention_bounds)

lemma rp_apply_commute: "rp_disjoint p q \<Longrightarrow> rp_apply p (rp_apply q b) = rp_apply q (rp_apply p b)"
  unfolding rp_apply_twice rp_disjoint_def
  by (elim conjE, intro arg_cong [of _ _ clamped] RetentionPolicy.equality)
    (unfold RetentionPolicy.select_convs, (rule unwrap_or_unwrap_or, assumption | simp)+)

lemma gp_apply_commute: "gp_disjoint p q \<Longrightarrow> gp_apply p (gp_apply q b) = gp_apply q (gp_apply p b)"
  unfolding gp_disjoint_def
  by (elim conjE, intro GlobalConfig.equality)
    (unfold gp_apply_def GlobalConfig.select_convs,
      (rule unwrap_or_unwrap_or, assumption | rule rp_apply_commute, assumption | simp)+)

lemma gp_apply_ok: "policy_ok (retention (gp_apply p b))"
  by (simp add: gp_apply_def rp_apply_def policy.norm_ok)

lemma gp_apply_empty: "gp_is_empty p \<Longrightarrow> gp_apply p b = global_normalized b"
  by (intro GlobalConfig.equality)
    (simp_all add: gp_apply_def gp_is_empty_def rp_apply_def rp_is_empty_def global_normalized_def
      clamped_def)

section \<open>The file\<close>

lemma temp_path_ne: "temp_path p \<noteq> p"
proof (cases p rule: rev_cases)
  case (snoc ys y)
  have "length (''.'' @ y @ ''.tmp'') \<noteq> length y" by simp
  then have "''.'' @ y @ ''.tmp'' \<noteq> y" by metis
  then show ?thesis by (simp add: temp_path_def set_file_name_def file_name_def snoc)
qed (simp add: temp_path_def set_file_name_def)

lemma save_cases:
  obtains
    (unchanged) e where "fst (save to_json p doc d) = Inl e"
      "files (snd (save to_json p doc d)) p = files d p"
  | (saved) js where "to_json (document_normalized doc) = Some js"
      "fst (save to_json p doc d) = Inr ()"
      "files (snd (save to_json p doc d)) p = Some (js @ [CHR 0x0A])"
proof (cases "to_json (document_normalized doc)")
  case None then show thesis using unchanged by (simp add: save_def)
next
  case (Some js)
  note ne = temp_path_ne [of p]
  show thesis
  proof (cases "(parent_of p \<noteq> [] \<and> mkdir_fails d) \<or> create_fails d \<or> write_fails d \<noteq> None \<or>
      sync_fails d \<or> rename_fails d")
    case True
    then have "(\<exists>e. fst (save to_json p doc d) = Inl e) \<and> files (snd (save to_json p doc d)) p = files d p"
      using ne by (auto simp: save_def Some write_then_sync_def fs_rename_def Let_def split: option.splits)
    then show thesis using unchanged by blast
  next
    case False
    let ?bytes = "js @ [CHR 0x0A]"
    have "fs_rename (d\<lparr>files := (files d)(temp_path p \<mapsto> ?bytes)\<rparr>) (temp_path p) p =
        (d\<lparr>files := (files d)(temp_path p := None, p \<mapsto> ?bytes)\<rparr>, True)"
      using False by (simp add: fs_rename_def)
    then have "save to_json p doc d =
        (Inr (), d\<lparr>files := (files d)(temp_path p := None, p \<mapsto> ?bytes)\<rparr>)"
      using False by (auto simp: save_def Some write_then_sync_def Let_def)
    then show thesis using saved [OF Some] by simp
  qed
qed

lemma save_flags:
  "read_fails (snd (save to_json p doc d)) = read_fails d"
  by (auto simp: save_def write_then_sync_def fs_rename_def Let_def split: option.splits)

lemma update_stored:
  assumes "update from_json to_json p mutate d = (Inr doc, d')"
    and "\<And>text. to_json doc = Some text \<Longrightarrow> from_json (text @ [CHR 0x0A]) = Some doc"
    and "\<not> read_fails d"
  shows "load from_json p d' = Inr doc \<and> document_ok doc"
proof -
  obtain start d1 where lr: "load_or_recover from_json p d = (start, d1)" by fastforce
  have "read_fails d1 = read_fails d"
    using lr by (auto simp: load_or_recover_def quarantine_def fs_rename_def
        split: sum.splits option.splits if_splits)
  then have r1: "\<not> read_fails d1" using assms(3) by simp
  have doc: "doc = document_normalized (mutate start)"
    and sv: "save to_json p doc d1 = (Inr (), d')"
    using assms(1) lr by (auto simp: update_def Let_def split: prod.splits sum.splits)
  have ok: "document_ok doc" unfolding doc by (rule document.norm_ok)
  obtain js where "to_json doc = Some js" "files d' p = Some (js @ [CHR 0x0A])"
    by (rule save_cases [of to_json p doc d1]) (auto simp: sv document.norm_id [OF ok])
  moreover have "\<not> read_fails d'" using save_flags [of to_json p doc d1] sv r1 by simp
  ultimately show ?thesis
    using assms(2) ok by (simp add: load_def document.norm_id)
qed

section \<open>Properties\<close>

text \<open>normalizing a document puts every retention ceiling into its range, is idempotent, and changes
  no decision: the effective override of every app and the record and notify decisions stay.\<close>
theorem normalization_changes_no_decision:
  "document_ok (document_normalized d) \<and>
   document_normalized (document_normalized d) = document_normalized d \<and>
   app (document_normalized d) p = app d p \<and>
   effective_notify_mode (document_normalized d) p = effective_notify_mode d p \<and>
   should_record (document_normalized d) p s m h = should_record d p s m h \<and>
   should_notify (document_normalized d) p fg = should_notify d p fg"
  using document.norm_ok document.norm_idem by (simp add: decisions_normalized)

text \<open>two partial updates of the global settings that name different fields commute, so two settings
  screens saving different rows cannot clobber each other; the result is always in range, and an
  empty patch only normalizes.\<close>
theorem disjoint_patches_commute:
  assumes "gp_disjoint p q" and "gp_is_empty e"
  shows "gp_apply p (gp_apply q b) = gp_apply q (gp_apply p b) \<and>
         policy_ok (retention (gp_apply p b)) \<and> gp_apply e b = global_normalized b"
  using gp_apply_commute [OF assms(1)] gp_apply_ok gp_apply_empty [OF assms(2)] by blast

definition empty_patch :: GlobalConfigPatch where
  "empty_patch =
     \<lparr>gp_enabled = None, gp_capture_java = None, gp_capture_anr = None, gp_capture_native = None,
      gp_capture_wtf = None, gp_capture_self_handled = None, gp_notify_mode = None,
      gp_only_foreground = None, gp_foreground_unknown_notifies = None, gp_only_main_process = None,
      gp_include_system_apps = None, gp_takeover_system_dialog = None, gp_debug_logging = None,
      gp_retention = \<lparr>rp_retention_days = None, rp_max_records_per_group = None,
        rp_max_records_total = None, rp_max_payload_bytes_total = None,
        rp_max_payload_bytes_per_record = None\<rparr>\<rparr>"

theorem disjoint_patches_commute_witness:
  "gp_apply (empty_patch\<lparr>gp_enabled := Some False\<rparr>) (gp_apply (empty_patch\<lparr>gp_notify_mode := Some Toast\<rparr>) global_default)
   = gp_apply (empty_patch\<lparr>gp_notify_mode := Some Toast\<rparr>) (gp_apply (empty_patch\<lparr>gp_enabled := Some False\<rparr>) global_default)"
  using disjoint_patches_commute [of "empty_patch\<lparr>gp_enabled := Some False\<rparr>"
      "empty_patch\<lparr>gp_notify_mode := Some Toast\<rparr>" empty_patch global_default]
  by (simp add: gp_disjoint_def rp_disjoint_def gp_is_empty_def rp_is_empty_def empty_patch_def)

text \<open>C24: saving is atomic for the live file: whatever fails on the way, the file afterwards holds either
  exactly what it held before, and the call reports an error, or the complete new document.\<close>
theorem save_is_atomic:
  "(case fst (save to_json p doc d) of
      Inl _ \<Rightarrow> files (snd (save to_json p doc d)) p = files d p
    | Inr _ \<Rightarrow> (\<exists>text. to_json (document_normalized doc) = Some text \<and>
                 files (snd (save to_json p doc d)) p = Some (text @ [CHR 0x0A])))"
  by (rule save_cases [of to_json p doc d]) auto

text \<open>what an update returns is what a later load reads: after a successful update, with a JSON library
  that reads back the document it wrote, loading gives the returned, normalized document.\<close>
theorem update_returns_stored_document:
  assumes "update from_json to_json p mutate d = (Inr doc, d')"
    and "\<And>text. to_json doc = Some text \<Longrightarrow> from_json (text @ [CHR 0x0A]) = Some doc"
    and "\<not> read_fails d"
  shows "load from_json p d' = Inr doc \<and> document_ok doc"
  by (rule update_stored [OF assms])

definition empty_disk :: Disk where
  "empty_disk = \<lparr>files = Map.empty, read_fails = False, mkdir_fails = False, create_fails = False,
     write_fails = None, sync_fails = False, rename_fails = False\<rparr>"

theorem update_returns_stored_document_witness:
  "load (\<lambda>_. Some document_default) [''c''] (snd (update (\<lambda>_. Some document_default) (\<lambda>_. Some ''{}'') [''c'']
      (\<lambda>d. d) empty_disk)) = Inr document_default"
proof -
  let ?u = "update (\<lambda>_. Some document_default) (\<lambda>_. Some ''{}'') [''c''] (\<lambda>d. d) empty_disk"
  have "fst ?u = Inr document_default"
    by (simp add: update_def load_or_recover_def load_def empty_disk_def save_def write_then_sync_def
        fs_rename_def Let_def parent_of_def document.norm_id [OF document_default_ok])
  then have "?u = (Inr document_default, snd ?u)" by (metis prod.collapse)
  from update_returns_stored_document [OF this] show ?thesis
    by (simp add: empty_disk_def)
qed

end
