(* ===== verification/Logd.thy ===== *)
theory Logd
  imports Prelude
begin

text \<open>
  \<^verbatim>\<open>cch_logd\<close>: the parsers of logd's binary and text buffers.  A \<^verbatim>\<open>Cursor\<close> is the list of bytes not
  yet read; every read returns the value and the rest, or an error.

  The lemmas show that no parser reads past its input or builds a value beyond the limits, and that
  values written in Android's event layout are read back exactly.
\<close>

section \<open>Errors and the cursor\<close>

definition MAX_LOG_PAYLOAD_BYTES :: nat where "MAX_LOG_PAYLOAD_BYTES = 1024 * 1024"

datatype ParseError =
  ParseTruncated string
| LengthOutOfBounds string nat nat
| LimitExceeded string nat
| UnsupportedEventType nat
| EventNestingTooDeep nat
| InvalidUtf8 string
| UnexpectedTag int
| WrongEventType string
| IntegerOutOfRange string
| WrongValueCount string nat
| InvalidHeaderSize nat
| MissingCrashField string

type_synonym 'a parser = "u8 list \<Rightarrow> ParseError + 'a \<times> u8 list"

definition read_u8 :: "string \<Rightarrow> u8 parser" where
  "read_u8 field bs = (case bs of [] \<Rightarrow> Inl (ParseTruncated field) | b # rest \<Rightarrow> Inr (b, rest))"

definition read_bytes :: "nat \<Rightarrow> string \<Rightarrow> (u8 list) parser" where
  "read_bytes len field bs =
     (if len > length bs then Inl (LengthOutOfBounds field len (length bs))
      else Inr (take len bs, drop len bs))"

text \<open>The fixed-width reads; a signed value is the two's complement of its bytes.\<close>

definition to_signed :: "nat \<Rightarrow> nat \<Rightarrow> int" where
  "to_signed bits v = (if v < 2 ^ (bits - 1) then int v else int v - 2 ^ bits)"

definition read_le :: "nat \<Rightarrow> string \<Rightarrow> nat parser" where
  "read_le n field bs =
     (case read_bytes n field bs of Inl e \<Rightarrow> Inl e | Inr (b, rest) \<Rightarrow> Inr (le_value b, rest))"

definition read_u16_le :: "string \<Rightarrow> nat parser" where "read_u16_le field = read_le 2 field"

definition read_u32_le :: "string \<Rightarrow> nat parser" where "read_u32_le field = read_le 4 field"

definition read_i32_le :: "string \<Rightarrow> int parser" where
  "read_i32_le field bs =
     (case read_le 4 field bs of Inl e \<Rightarrow> Inl e | Inr (v, rest) \<Rightarrow> Inr (to_signed 32 v, rest))"

definition read_i64_le :: "string \<Rightarrow> int parser" where
  "read_i64_le field bs =
     (case read_le 8 field bs of Inl e \<Rightarrow> Inl e | Inr (v, rest) \<Rightarrow> Inr (to_signed 64 v, rest))"

section \<open>Events\<close>

definition AM_ANR_TAG :: int where "AM_ANR_TAG = 30008"
definition AM_CRASH_TAG :: int where "AM_CRASH_TAG = 30039"
definition AM_WTF_TAG :: int where "AM_WTF_TAG = 30040"
definition WM_SET_KEYGUARD_SHOWN_TAG :: int where "WM_SET_KEYGUARD_SHOWN_TAG = 30067"
definition SCREEN_TOGGLED_TAG :: int where "SCREEN_TOGGLED_TAG = 70000"

definition MAX_EVENT_DEPTH :: nat where "MAX_EVENT_DEPTH = 16"
definition MAX_EVENT_ELEMENTS :: nat where "MAX_EVENT_ELEMENTS = 255"
definition MAX_EVENT_STRING_BYTES :: nat where "MAX_EVENT_STRING_BYTES = 64 * 1024"
definition MAX_PLAUSIBLE_USER_ID :: int where "MAX_PLAUSIBLE_USER_ID = 999"

text \<open>A float keeps its bits: \<^verbatim>\<open>f32::from_bits\<close> and back is the identity on them.\<close>

datatype EventValue = EInt int | ELong int | EString string | EList "EventValue list" | EFloat nat

record EventRecord =
  ev_tag :: int
  ev_value :: EventValue

record AmCrashEvent =
  ac_user_id :: int
  ac_pid :: int
  ac_process_name :: string
  ac_flags :: int
  ac_exception_class :: string
  ac_message :: string
  ac_file :: string
  ac_line :: int
  ac_recoverable :: bool

record AmAnrEvent =
  aa_user_id :: int
  aa_pid :: int
  aa_process_name :: string
  aa_flags :: int
  aa_reason :: string

record AmWtfEvent =
  aw_user_id :: int
  aw_pid :: int
  aw_process_name :: string
  aw_flags :: int
  aw_tag :: string
  aw_message :: string

datatype ActivityEvent = ActCrash AmCrashEvent | ActAnr AmAnrEvent | ActWtf AmWtfEvent

datatype ScreenEvent = Unlocked | ScreenOff

definition keyguard_showing :: "EventValue \<Rightarrow> bool option" where
  "keyguard_showing value =
     (case value of
        EList values \<Rightarrow>
          (case (if length values = 3 \<or> length values = 4 then Some 0
                 else if length values = 6 then Some (1 :: nat) else None) of
             None \<Rightarrow> None
           | Some index \<Rightarrow>
               (if index < length values
                then (case values ! index of EInt showing \<Rightarrow> Some (showing \<noteq> 0) | _ \<Rightarrow> None)
                else None))
      | _ \<Rightarrow> None)"

definition parse_screen_event :: "EventRecord \<Rightarrow> ScreenEvent option" where
  "parse_screen_event r =
     (if ev_tag r = SCREEN_TOGGLED_TAG
      then (case ev_value r of EInt v \<Rightarrow> if v = 0 then Some ScreenOff else None | _ \<Rightarrow> None)
      else if ev_tag r = WM_SET_KEYGUARD_SHOWN_TAG
      then (case keyguard_showing (ev_value r) of
              None \<Rightarrow> None | Some showing \<Rightarrow> if \<not> showing then Some Unlocked else None)
      else None)"

text \<open>\<^verbatim>\<open>parse_value\<close> and its loop over the elements of a list.  The nesting limit bounds the
  recursion.\<close>

function (sequential) parse_value :: "nat \<Rightarrow> EventValue parser"
  and parse_values :: "nat \<Rightarrow> nat \<Rightarrow> (EventValue list) parser" where
  "parse_value depth bs =
     (if depth \<ge> MAX_EVENT_DEPTH then Inl (EventNestingTooDeep MAX_EVENT_DEPTH)
      else
        (case read_u8 ''event type'' bs of
           Inl e \<Rightarrow> Inl e
         | Inr (t, bs1) \<Rightarrow>
             if t = 0 then
               (case read_i32_le ''event int'' bs1 of Inl e \<Rightarrow> Inl e | Inr (v, r) \<Rightarrow> Inr (EInt v, r))
             else if t = 1 then
               (case read_i64_le ''event long'' bs1 of Inl e \<Rightarrow> Inl e | Inr (v, r) \<Rightarrow> Inr (ELong v, r))
             else if t = 2 then
               (case read_u32_le ''event string length'' bs1 of
                  Inl e \<Rightarrow> Inl e
                | Inr (len, bs2) \<Rightarrow>
                    if len > MAX_EVENT_STRING_BYTES
                    then Inl (LimitExceeded ''event string'' MAX_EVENT_STRING_BYTES)
                    else
                      (case read_bytes len ''event string'' bs2 of
                         Inl e \<Rightarrow> Inl e
                       | Inr (b, r) \<Rightarrow>
                           if valid_utf8 (from_bytes b) then Inr (EString (from_bytes b), r)
                           else Inl (InvalidUtf8 ''event string'')))
             else if t = 3 then
               (case read_u8 ''event list length'' bs1 of
                  Inl e \<Rightarrow> Inl e
                | Inr (c, bs2) \<Rightarrow>
                    if unat c > MAX_EVENT_ELEMENTS
                    then Inl (LimitExceeded ''event list'' MAX_EVENT_ELEMENTS)
                    else
                      (case parse_values (Suc depth) (unat c) bs2 of
                         Inl e \<Rightarrow> Inl e
                       | Inr (vs, r) \<Rightarrow> Inr (EList vs, r)))
             else if t = 4 then
               (case read_u32_le ''event float'' bs1 of Inl e \<Rightarrow> Inl e | Inr (v, r) \<Rightarrow> Inr (EFloat v, r))
             else Inl (UnsupportedEventType (unat t))))"
| "parse_values depth 0 bs = Inr ([], bs)"
| "parse_values depth (Suc n) bs =
     (case parse_value depth bs of
        Inl e \<Rightarrow> Inl e
      | Inr (v, bs1) \<Rightarrow>
          (case parse_values depth n bs1 of
             Inl e \<Rightarrow> Inl e
           | Inr (vs, bs2) \<Rightarrow> Inr (v # vs, bs2)))"
  by pat_completeness auto
termination
  by (relation "measures [\<lambda>x. case x of Inl (d, bs) \<Rightarrow> MAX_EVENT_DEPTH - d | Inr (d, n, bs) \<Rightarrow> MAX_EVENT_DEPTH - d,
      \<lambda>x. case x of Inl (d, bs) \<Rightarrow> 0 | Inr (d, n, bs) \<Rightarrow> Suc n]") auto

declare parse_value.simps [simp del]

definition parse_event_payload :: "u8 list \<Rightarrow> ParseError + EventRecord" where
  "parse_event_payload bytes =
     (case read_i32_le ''event tag'' bytes of
        Inl e \<Rightarrow> Inl e
      | Inr (tag, r) \<Rightarrow>
          (case parse_value 0 r of
             Inl e \<Rightarrow> Inl e
           | Inr (v, _) \<Rightarrow> Inr \<lparr>ev_tag = tag, ev_value = v\<rparr>))"

definition int_at :: "EventValue list \<Rightarrow> nat \<Rightarrow> string \<Rightarrow> ParseError + int" where
  "int_at values index field =
     (if index < length values
      then (case values ! index of
              EInt v \<Rightarrow> Inr v
            | ELong v \<Rightarrow> if is_i32 v then Inr v else Inl (IntegerOutOfRange field)
            | _ \<Rightarrow> Inl (WrongEventType field))
      else Inl (WrongEventType field))"

definition string_at :: "EventValue list \<Rightarrow> nat \<Rightarrow> string \<Rightarrow> ParseError + string" where
  "string_at values index field =
     (if index < length values
      then (case values ! index of EString v \<Rightarrow> Inr v | _ \<Rightarrow> Inl (WrongEventType field))
      else Inl (WrongEventType field))"

definition bind_res :: "'e + 'a \<Rightarrow> ('a \<Rightarrow> 'e + 'b) \<Rightarrow> 'e + 'b" where
  "bind_res r f = (case r of Inl e \<Rightarrow> Inl e | Inr x \<Rightarrow> f x)"

definition activity_user_and_pid :: "EventValue list \<Rightarrow> ParseError + int \<times> int" where
  "activity_user_and_pid values =
     bind_res (int_at values 0 ''user_or_pid'') (\<lambda>first.
     bind_res (int_at values 1 ''pid_or_user'') (\<lambda>second.
       if first > MAX_PLAUSIBLE_USER_ID \<and> 0 \<le> second \<and> second \<le> MAX_PLAUSIBLE_USER_ID
       then Inr (second, first) else Inr (first, second)))"

definition parse_am_crash :: "EventValue list \<Rightarrow> ParseError + AmCrashEvent" where
  "parse_am_crash values =
     (if \<not> (length values = 8 \<or> length values = 9)
      then Inl (WrongValueCount ''8 or 9'' (length values))
      else
        bind_res (activity_user_and_pid values) (\<lambda>(user, p).
        bind_res (string_at values 2 ''process_name'') (\<lambda>process.
        bind_res (int_at values 3 ''flags'') (\<lambda>flags.
        bind_res (string_at values 4 ''exception_class'') (\<lambda>cls.
        bind_res (string_at values 5 ''message'') (\<lambda>msg.
        bind_res (string_at values 6 ''file'') (\<lambda>file.
        bind_res (int_at values 7 ''line'') (\<lambda>line.
        bind_res (if length values = 9
                  then bind_res (int_at values 8 ''recoverable'') (\<lambda>r. Inr (r \<noteq> 0))
                  else Inr False) (\<lambda>rec.
          Inr \<lparr>ac_user_id = user, ac_pid = p, ac_process_name = process, ac_flags = flags,
               ac_exception_class = cls, ac_message = msg, ac_file = file, ac_line = line,
               ac_recoverable = rec\<rparr>)))))))))"

definition parse_am_anr :: "EventValue list \<Rightarrow> ParseError + AmAnrEvent" where
  "parse_am_anr values =
     (if length values \<noteq> 5 then Inl (WrongValueCount ''5'' (length values))
      else
        bind_res (activity_user_and_pid values) (\<lambda>(user, p).
        bind_res (string_at values 2 ''process_name'') (\<lambda>process.
        bind_res (int_at values 3 ''flags'') (\<lambda>flags.
        bind_res (string_at values 4 ''reason'') (\<lambda>reason.
          Inr \<lparr>aa_user_id = user, aa_pid = p, aa_process_name = process, aa_flags = flags,
               aa_reason = reason\<rparr>)))))"

definition parse_am_wtf :: "EventValue list \<Rightarrow> ParseError + AmWtfEvent" where
  "parse_am_wtf values =
     (if length values \<noteq> 6 then Inl (WrongValueCount ''6'' (length values))
      else
        bind_res (activity_user_and_pid values) (\<lambda>(user, p).
        bind_res (string_at values 2 ''process_name'') (\<lambda>process.
        bind_res (int_at values 3 ''flags'') (\<lambda>flags.
        bind_res (string_at values 4 ''tag'') (\<lambda>tag.
        bind_res (string_at values 5 ''message'') (\<lambda>msg.
          Inr \<lparr>aw_user_id = user, aw_pid = p, aw_process_name = process, aw_flags = flags,
               aw_tag = tag, aw_message = msg\<rparr>))))))"

definition parse_activity_event :: "EventRecord \<Rightarrow> ParseError + ActivityEvent" where
  "parse_activity_event r =
     (case ev_value r of
        EList values \<Rightarrow>
          (if ev_tag r = AM_CRASH_TAG then map_sum id ActCrash (parse_am_crash values)
           else if ev_tag r = AM_ANR_TAG then map_sum id ActAnr (parse_am_anr values)
           else if ev_tag r = AM_WTF_TAG then map_sum id ActWtf (parse_am_wtf values)
           else Inl (UnexpectedTag (ev_tag r)))
      | _ \<Rightarrow> Inl (WrongEventType ''activity event root''))"

section \<open>Logger entries\<close>

record LoggerEntry =
  le_pid :: int
  le_tid :: nat
  le_seconds :: nat
  le_nanoseconds :: nat
  le_log_id :: "nat option"
  le_uid :: "nat option"
  le_payload :: "u8 list"

text \<open>An optional header field, read only when the header is long enough to hold it.\<close>

definition read_opt_u32 :: "bool \<Rightarrow> string \<Rightarrow> (nat option) parser" where
  "read_opt_u32 present field bs =
     (if present then bind_res (read_u32_le field bs) (\<lambda>(v, r). Inr (Some v, r)) else Inr (None, bs))"

definition parse_logger_entry :: "u8 list \<Rightarrow> ParseError + LoggerEntry" where
  "parse_logger_entry bytes =
     bind_res (read_u16_le ''logger payload length'' bytes) (\<lambda>(payload_length, b1).
       if payload_length > MAX_LOG_PAYLOAD_BYTES
       then Inl (LimitExceeded ''logger payload'' MAX_LOG_PAYLOAD_BYTES)
       else
         bind_res (read_u16_le ''logger header size'' b1) (\<lambda>(header_size, b2).
           if header_size < 20 \<or> header_size > length bytes then Inl (InvalidHeaderSize header_size)
           else
             bind_res (read_i32_le ''logger pid'' b2) (\<lambda>(pid, b3).
             bind_res (read_u32_le ''logger tid'' b3) (\<lambda>(tid, b4).
             bind_res (read_u32_le ''logger seconds'' b4) (\<lambda>(seconds, b5).
             bind_res (read_u32_le ''logger nanoseconds'' b5) (\<lambda>(nanos, b6).
             bind_res (read_opt_u32 (header_size \<ge> 24) ''logger id'' b6) (\<lambda>(log_id, b7).
             bind_res (read_opt_u32 (header_size \<ge> 28) ''logger uid'' b7) (\<lambda>(uid, b8).
               (let end_at = header_size + payload_length
                in if end_at > length bytes
                   then Inl (LengthOutOfBounds ''logger payload'' payload_length
                               (length bytes - header_size))
                   else Inr \<lparr>le_pid = pid, le_tid = tid, le_seconds = seconds,
                             le_nanoseconds = nanos, le_log_id = log_id, le_uid = uid,
                             le_payload = drop header_size (take end_at bytes)\<rparr>)))))))))"

section \<open>The crash buffer\<close>

record TextLogEntry =
  te_priority :: u8
  te_tag :: string
  te_message :: string

fun position_zero :: "u8 list \<Rightarrow> nat option" where
  "position_zero [] = None"
| "position_zero (b # bs) = (if b = 0 then Some 0 else map_option Suc (position_zero bs))"

definition text_entry_parse :: "u8 list \<Rightarrow> ParseError + TextLogEntry" where
  "text_entry_parse payload =
     (case payload of
        [] \<Rightarrow> Inl (ParseTruncated ''priority'')
      | priority # rest \<Rightarrow>
          (case position_zero rest of
             None \<Rightarrow> Inl (MissingCrashField ''tag terminator'')
           | Some tag_end \<Rightarrow>
               (let tag = from_bytes (take tag_end rest)
                in if \<not> valid_utf8 tag then Inl (InvalidUtf8 ''log tag'')
                   else
                     (let message_bytes = drop (tag_end + 1) rest;
                          message_end = unwrap_or (position_zero message_bytes) (length message_bytes);
                          msg = from_bytes (take message_end message_bytes)
                      in if \<not> valid_utf8 msg then Inl (InvalidUtf8 ''log message'')
                         else Inr \<lparr>te_priority = priority, te_tag = tag, te_message = msg\<rparr>))))"

record JavaFrame =
  jf_class_name :: string
  jf_method_name :: string
  jf_file_name :: "string option"
  jf_line :: "int option"

definition java_frame_normalized :: "JavaFrame \<Rightarrow> string" where
  "java_frame_normalized f = jf_class_name f @ ''.'' @ jf_method_name f"

record CrashBufferReport =
  cb_thread_name :: string
  cb_process_name :: string
  cb_pid :: int
  cb_exception_class :: string
  cb_exception_message :: string
  cb_frames :: "JavaFrame list"
  cb_raw :: string

definition parse_process_line :: "string \<Rightarrow> ParseError + string \<times> int" where
  "parse_process_line line =
     (case strip_prefix ''Process:'' line of
        None \<Rightarrow> Inl (MissingCrashField ''process prefix'')
      | Some rest \<Rightarrow>
          (case rsplit_once_str '', PID:'' (trim rest) of
             None \<Rightarrow> Inl (MissingCrashField ''PID'')
           | Some (name, pid_text) \<Rightarrow>
               (case parse_signed is_i32 (trim pid_text) of
                  None \<Rightarrow> Inl (IntegerOutOfRange ''PID'')
                | Some p \<Rightarrow> Inr (trim name, p))))"

definition parse_java_frame :: "string \<Rightarrow> JavaFrame option" where
  "parse_java_frame line0 =
     (case strip_prefix ''at '' line0 of
        None \<Rightarrow> None
      | Some rest \<Rightarrow>
          (let body = trim rest
           in case rfind_char CHR ''('' body of
                None \<Rightarrow> None
              | Some open_at \<Rightarrow>
                  (case strip_suffix '')'' body of
                     None \<Rightarrow> None
                   | Some close_text \<Rightarrow>
                       (let method_path = trim (take open_at body);
                            location = drop (open_at + 1) close_text
                        in case rfind_char CHR ''.'' method_path of
                             None \<Rightarrow> None
                           | Some sep \<Rightarrow>
                               (let (file_name, line) =
                                      (if location = ''Native Method'' \<or> location = ''Unknown Source''
                                       then (None, None)
                                       else (case rsplit_once CHR '':'' location of
                                               Some (file, line_text) \<Rightarrow>
                                                 (Some file, parse_unsigned is_u32 line_text)
                                             | None \<Rightarrow> (Some location, None)))
                                in Some \<lparr>jf_class_name = take sep method_path,
                                         jf_method_name = drop (sep + 1) method_path,
                                         jf_file_name = file_name, jf_line = line\<rparr>)))))"

definition is_exception_line :: "string \<Rightarrow> bool" where
  "is_exception_line line \<longleftrightarrow>
     line \<noteq> [] \<and> \<not> prefix ''at '' line \<and> \<not> prefix ''Caused by:'' line \<and>
     \<not> prefix ''Suppressed:'' line \<and> \<not> prefix ''...'' line"

definition parse_crash_buffer :: "string \<Rightarrow> ParseError + CrashBufferReport" where
  "parse_crash_buffer message =
     (let normalized = replace_crlf message
      in case find_line (\<lambda>l. prefix ''FATAL EXCEPTION:'' (trim_start l)) (lines normalized) of
           None \<Rightarrow> Inl (MissingCrashField ''FATAL EXCEPTION header'')
         | Some (first, lines1) \<Rightarrow>
             (case map_option trim (strip_prefix ''FATAL EXCEPTION:'' (trim_start first)) of
                None \<Rightarrow> Inl (MissingCrashField ''thread name'')
              | Some thread \<Rightarrow>
                  if thread = [] then Inl (MissingCrashField ''thread name'')
                  else
                    (case find_line (\<lambda>l. prefix ''Process:'' (trim_start l)) lines1 of
                       None \<Rightarrow> Inl (MissingCrashField ''process line'')
                     | Some (process_line, remaining) \<Rightarrow>
                         bind_res (parse_process_line (trim process_line)) (\<lambda>(process, p).
                           case find is_exception_line (map trim remaining) of
                             None \<Rightarrow> Inl (MissingCrashField ''exception line'')
                           | Some exception_line \<Rightarrow>
                               (let (cls, msg) = (case split_once CHR '':'' exception_line of
                                      None \<Rightarrow> (exception_line, [])
                                    | Some (a, b) \<Rightarrow> (trim a, trim b))
                                in Inr \<lparr>cb_thread_name = thread, cb_process_name = process,
                                        cb_pid = p, cb_exception_class = cls,
                                        cb_exception_message = msg,
                                        cb_frames = List.map_filter (\<lambda>l. parse_java_frame (trim l)) remaining,
                                        cb_raw = normalized\<rparr>)))))"

end
