(* ===== verification/Logd_Proofs.thy ===== *)
theory Logd_Proofs
  imports Logd
begin

text \<open>
  The event parser is the exact inverse of Android's event layout: it accepts a byte string exactly
  when the string starts with the encoding of a value within the limits, and returns that value and
  the bytes after it.  From this follow that it reads nothing past its input and that its results
  are bounded.
\<close>

section \<open>Fixed-width reads\<close>

definition to_unsigned :: "nat \<Rightarrow> int \<Rightarrow> nat" where
  "to_unsigned bits v = nat (v mod 2 ^ bits)"

lemma read_bytes_Inr:
  "read_bytes n f bs = Inr (b, r) \<longleftrightarrow> length b = n \<and> bs = b @ r"
proof
  assume "read_bytes n f bs = Inr (b, r)"
  then show "length b = n \<and> bs = b @ r"
    by (auto simp: read_bytes_def split: if_splits)
next
  assume "length b = n \<and> bs = b @ r"
  then show "read_bytes n f bs = Inr (b, r)" by (simp add: read_bytes_def)
qed

lemma read_le_Inr: "read_le n f bs = Inr (v, r) \<longleftrightarrow> v < 256 ^ n \<and> bs = le_bytes n v @ r"
proof
  assume "read_le n f bs = Inr (v, r)"
  then obtain b where "read_bytes n f bs = Inr (b, r)" "le_value b = v"
    by (auto simp: read_le_def split: sum.splits)
  then show "v < 256 ^ n \<and> bs = le_bytes n v @ r"
    using le_value_lt [of b] le_bytes_le_value [of b] by (auto simp: read_bytes_Inr)
next
  assume "v < 256 ^ n \<and> bs = le_bytes n v @ r"
  moreover from this have "read_bytes n f bs = Inr (le_bytes n v, r)" by (simp add: read_bytes_Inr)
  ultimately show "read_le n f bs = Inr (v, r)" by (simp add: read_le_def le_value_le_bytes)
qed

lemma read_u8_Inr: "read_u8 f bs = Inr (b, r) \<longleftrightarrow> bs = b # r"
  by (auto simp: read_u8_def split: list.splits)

lemma mod_range:
  fixes v :: int
  assumes "- (2 ^ n) \<le> v" "v < 2 ^ n"
  shows "v mod 2 ^ Suc n = (if v < 0 then v + 2 ^ Suc n else v)"
proof (cases "v < 0")
  case True
  have "v mod 2 ^ Suc n = (v + 2 ^ Suc n) mod 2 ^ Suc n" by simp
  also have "\<dots> = v + 2 ^ Suc n" by (rule mod_pos_pos_trivial) (use assms True in simp_all)
  finally show ?thesis using True by simp
qed (use assms in simp)

lemma to_signed_to_unsigned:
  assumes "- (2 ^ n) \<le> v" "v < 2 ^ n"
  shows "to_signed (Suc n) (to_unsigned (Suc n) v) = v" "to_unsigned (Suc n) v < 2 ^ Suc n"
proof -
  have m: "0 \<le> v mod 2 ^ Suc n" "v mod 2 ^ Suc n < 2 ^ Suc n" by simp_all
  then show "to_unsigned (Suc n) v < 2 ^ Suc n" by (simp add: to_unsigned_def nat_less_iff)
  have "int (to_unsigned (Suc n) v) = v mod 2 ^ Suc n" using m by (simp add: to_unsigned_def)
  moreover have "to_unsigned (Suc n) v < 2 ^ n \<longleftrightarrow> v mod 2 ^ Suc n < 2 ^ n"
    using m by (simp add: to_unsigned_def nat_less_iff)
  ultimately show "to_signed (Suc n) (to_unsigned (Suc n) v) = v"
    using mod_range [OF assms] assms by (auto simp: to_signed_def)
qed

lemma to_unsigned_to_signed:
  assumes "u < 2 ^ Suc n"
  shows "to_unsigned (Suc n) (to_signed (Suc n) u) = u"
    "- (2 ^ n) \<le> to_signed (Suc n) u" "to_signed (Suc n) u < 2 ^ n"
proof -
  have u: "int u < 2 ^ Suc n" using assms by (metis of_nat_less_iff of_nat_numeral of_nat_power)
  have l: "u < 2 ^ n \<longleftrightarrow> int u < 2 ^ n" by (metis of_nat_less_iff of_nat_numeral of_nat_power)
  have "to_signed (Suc n) u mod 2 ^ Suc n = int u"
    using u by (simp add: to_signed_def)
  then show "to_unsigned (Suc n) (to_signed (Suc n) u) = u" by (simp only: to_unsigned_def nat_int)
  show "- (2 ^ n) \<le> to_signed (Suc n) u" "to_signed (Suc n) u < 2 ^ n"
    using u l by (auto simp: to_signed_def)
qed

lemma read_signed_Inr:
  assumes "\<And>bs. rd bs = (case read_le k f bs of Inl e \<Rightarrow> Inl e | Inr (u, rest) \<Rightarrow> Inr (to_signed b u, rest))"
    and "(256 :: nat) ^ k = 2 ^ Suc n" and b: "b = Suc n"
  shows "rd bs = Inr (v, r) \<longleftrightarrow> - (2 ^ n) \<le> v \<and> v < 2 ^ n \<and> bs = le_bytes k (to_unsigned b v) @ r"
  unfolding b
proof
  assume "rd bs = Inr (v, r)"
  then obtain u where u: "read_le k f bs = Inr (u, r)" "v = to_signed (Suc n) u"
    by (auto simp: assms(1) b split: sum.splits)
  then have "u < 2 ^ Suc n" "bs = le_bytes k u @ r" using assms(2) by (auto simp: read_le_Inr)
  then show "- (2 ^ n) \<le> v \<and> v < 2 ^ n \<and> bs = le_bytes k (to_unsigned (Suc n) v) @ r"
    using to_unsigned_to_signed [of u n] u(2) by simp
next
  assume v: "- (2 ^ n) \<le> v \<and> v < 2 ^ n \<and> bs = le_bytes k (to_unsigned (Suc n) v) @ r"
  then have "read_le k f bs = Inr (to_unsigned (Suc n) v, r)"
    using to_signed_to_unsigned(2) [of n v] assms(2) by (simp add: read_le_Inr)
  then show "rd bs = Inr (v, r)" using v to_signed_to_unsigned(1) [of n v] by (simp add: assms(1) b)
qed

lemma read_i32_Inr:
  "read_i32_le f bs = Inr (v, r) \<longleftrightarrow> is_i32 v \<and> bs = le_bytes 4 (to_unsigned 32 v) @ r"
  by (subst read_signed_Inr [where rd = "read_i32_le f" and n = 31 and b = 32, OF read_i32_le_def])
    (auto simp: int_range_defs)

lemma read_i64_Inr:
  "read_i64_le f bs = Inr (v, r) \<longleftrightarrow> is_i64 v \<and> bs = le_bytes 8 (to_unsigned 64 v) @ r"
  by (subst read_signed_Inr [where rd = "read_i64_le f" and n = 63 and b = 64, OF read_i64_le_def])
    (auto simp: int_range_defs)

lemma read_u32_Inr: "read_u32_le f bs = Inr (v, r) \<longleftrightarrow> v < 2 ^ 32 \<and> bs = le_bytes 4 v @ r"
  by (simp add: read_u32_le_def read_le_Inr)

lemma read_u16_Inr: "read_u16_le f bs = Inr (v, r) \<longleftrightarrow> v < 2 ^ 16 \<and> bs = le_bytes 2 v @ r"
  by (simp add: read_u16_le_def read_le_Inr)

lemmas read_Inr = read_u8_Inr read_bytes_Inr read_i32_Inr read_i64_Inr read_u32_Inr read_u16_Inr

lemma bind_res_Inr: "bind_res r f = Inr y \<longleftrightarrow> (\<exists>x. r = Inr x \<and> f x = Inr y)"
  by (auto simp: bind_res_def split: sum.splits)

section \<open>The event layout\<close>

text \<open>How Android writes an event value, and the values within the parser's limits at a nesting
  depth.\<close>

fun layout :: "EventValue \<Rightarrow> u8 list" where
  "layout (EInt v) = 0 # le_bytes 4 (to_unsigned 32 v)"
| "layout (ELong v) = 1 # le_bytes 8 (to_unsigned 64 v)"
| "layout (EString s) = 2 # le_bytes 4 (length s) @ as_bytes s"
| "layout (EList vs) = 3 # word_of_nat (length vs) # concat (map layout vs)"
| "layout (EFloat b) = 4 # le_bytes 4 b"

fun within :: "nat \<Rightarrow> EventValue \<Rightarrow> bool" where
  "within d (EInt v) = (d < MAX_EVENT_DEPTH \<and> is_i32 v)"
| "within d (ELong v) = (d < MAX_EVENT_DEPTH \<and> is_i64 v)"
| "within d (EString s) = (d < MAX_EVENT_DEPTH \<and> length s \<le> MAX_EVENT_STRING_BYTES \<and> valid_utf8 s)"
| "within d (EList vs) =
     (d < MAX_EVENT_DEPTH \<and> length vs \<le> MAX_EVENT_ELEMENTS \<and> list_all (within (Suc d)) vs)"
| "within d (EFloat b) = (d < MAX_EVENT_DEPTH \<and> b < 2 ^ 32)"

lemma from_bytes_eq: "from_bytes b = s \<longleftrightarrow> b = as_bytes s"
  by (metis as_bytes_from_bytes from_bytes_as_bytes)

lemma unat_u8_le: "unat (c :: u8) \<le> MAX_EVENT_ELEMENTS"
  using unat_u8_lt [of c] by (simp add: MAX_EVENT_ELEMENTS_def del: unat_u8_lt)

lemma unat_small_u8: "n \<le> MAX_EVENT_ELEMENTS \<Longrightarrow> unat (word_of_nat n :: u8) = n"
  by (simp add: MAX_EVENT_ELEMENTS_def unat_of_nat)

text \<open>Soundness: what is accepted is a layout.\<close>

lemma parse_value_sound:
  "parse_value d bs = Inr (v, rest) \<Longrightarrow> within d v \<and> bs = layout v @ rest"
  "parse_values d n bs = Inr (vs, rest) \<Longrightarrow>
   length vs = n \<and> list_all (within d) vs \<and> bs = concat (map layout vs) @ rest"
proof (induction d bs and d n bs arbitrary: v rest and vs rest rule: parse_value_parse_values.induct)
  case (1 depth bs)
  note p = 1(2)
  from p have d: "depth < MAX_EVENT_DEPTH"
    by (simp add: parse_value.simps [of depth bs] split: if_splits)
  from p d obtain t bs1 where t: "bs = t # bs1"
    by (cases bs) (auto simp: parse_value.simps [of depth "[]"] read_u8_def)
  have r: "read_u8 ''event type'' bs = Inr (t, bs1)" by (simp add: t read_u8_Inr)
  consider "t = 0" | "t = 1" | "t = 2" | "t = 3" | "t = 4" | "t \<notin> {0, 1, 2, 3, 4}" by blast
  then show ?case
  proof cases
    case 1
    then obtain x where "v = EInt x" "read_i32_le ''event int'' bs1 = Inr (x, rest)"
      using p d r by (auto simp: parse_value.simps [of depth bs] split: sum.splits)
    then show ?thesis using d t 1 by (simp add: read_i32_Inr)
  next
    case 2
    then obtain x where "v = ELong x" "read_i64_le ''event long'' bs1 = Inr (x, rest)"
      using p d r by (auto simp: parse_value.simps [of depth bs] split: sum.splits)
    then show ?thesis using d t 2 by (simp add: read_i64_Inr)
  next
    case 3
    then obtain len bs2 b where "read_u32_le ''event string length'' bs1 = Inr (len, bs2)"
      "len \<le> MAX_EVENT_STRING_BYTES" "read_bytes len ''event string'' bs2 = Inr (b, rest)"
      "valid_utf8 (from_bytes b)" "v = EString (from_bytes b)"
      using p d r by (auto simp: parse_value.simps [of depth bs] split: sum.splits if_splits)
    then show ?thesis using d t 3 by (simp add: read_u32_Inr read_bytes_Inr)
  next
    case 4
    then obtain c bs2 vs where c: "read_u8 ''event list length'' bs1 = Inr (c, bs2)"
      "parse_values (Suc depth) (unat c) bs2 = Inr (vs, rest)" "v = EList vs"
      using p d r by (auto simp: parse_value.simps [of depth bs] split: sum.splits if_splits)
    have "\<not> depth \<ge> MAX_EVENT_DEPTH" "\<not> unat c > MAX_EVENT_ELEMENTS"
      using d unat_u8_le [of c] by simp_all
    then have "length vs = unat c \<and> list_all (within (Suc depth)) vs \<and> bs2 = concat (map layout vs) @ rest"
      using 1(1) [OF _ r refl _ _ _ _ c(1) refl _ c(2)] 4 by simp
    then show ?thesis using d t 4 c unat_u8_le [of c] by (simp add: read_u8_Inr)
  next
    case 5
    then obtain x where "v = EFloat x" "read_u32_le ''event float'' bs1 = Inr (x, rest)"
      using p d r by (auto simp: parse_value.simps [of depth bs] split: sum.splits)
    then show ?thesis using d t 5 by (simp add: read_u32_Inr)
  next
    case 6
    then show ?thesis using p d r by (simp add: parse_value.simps [of depth bs])
  qed
next
  case (2 depth bs) then show ?case by simp
next
  case (3 depth n bs)
  then show ?case by (fastforce split: sum.splits)
qed

text \<open>Completeness: every layout within the limits is accepted.\<close>

lemma parse_value_complete: "within d v \<Longrightarrow> parse_value d (layout v @ rest) = Inr (v, rest)"
proof (induction v arbitrary: d rest)
  case (EList vs)
  have "parse_values (Suc d) (length xs) (concat (map layout xs) @ r) = Inr (xs, r)"
    if "set xs \<subseteq> set vs" "list_all (within (Suc d)) xs" for xs r
    using that
  proof (induction xs arbitrary: r)
    case (Cons x xs)
    then have "parse_value (Suc d) (layout x @ concat (map layout xs) @ r) = Inr (x, concat (map layout xs) @ r)"
      using EList.IH [of x "Suc d"] by simp
    then show ?case using Cons by simp
  qed simp
  from this [of vs rest] EList.prems show ?case
    by (simp add: parse_value.simps [of d] read_u8_def unat_small_u8)
next
  case (EInt v)
  have "read_i32_le ''event int'' (le_bytes 4 (to_unsigned 32 v) @ rest) = Inr (v, rest)"
    using EInt by (simp add: read_i32_Inr)
  then show ?case using EInt by (simp add: parse_value.simps [of d] read_u8_def)
next
  case (ELong v)
  have "read_i64_le ''event long'' (le_bytes 8 (to_unsigned 64 v) @ rest) = Inr (v, rest)"
    using ELong by (simp add: read_i64_Inr)
  then show ?case using ELong by (simp add: parse_value.simps [of d] read_u8_def)
next
  case (EString s)
  have "read_u32_le ''event string length'' (le_bytes 4 (length s) @ as_bytes s @ rest)
      = Inr (length s, as_bytes s @ rest)"
    using EString by (simp add: read_u32_Inr MAX_EVENT_STRING_BYTES_def)
  moreover have "read_bytes (length s) ''event string'' (as_bytes s @ rest) = Inr (as_bytes s, rest)"
    by (simp add: read_bytes_Inr)
  ultimately show ?case using EString by (simp add: parse_value.simps [of d] read_u8_def)
next
  case (EFloat b)
  have "read_u32_le ''event float'' (le_bytes 4 b @ rest) = Inr (b, rest)"
    using EFloat by (simp add: read_u32_Inr)
  then show ?case using EFloat by (simp add: parse_value.simps [of d] read_u8_def)
qed

lemma parse_value_iff: "parse_value d bs = Inr (v, rest) \<longleftrightarrow> within d v \<and> bs = layout v @ rest"
  using parse_value_sound(1) parse_value_complete by blast

section \<open>Logger entries and text entries\<close>

definition v4_header :: "nat \<Rightarrow> int \<Rightarrow> nat \<Rightarrow> nat \<Rightarrow> nat \<Rightarrow> nat \<Rightarrow> nat \<Rightarrow> u8 list" where
  "v4_header plen p t sec nsec log uid =
     le_bytes 2 plen @ le_bytes 2 28 @ le_bytes 4 (to_unsigned 32 p) @ le_bytes 4 t @
     le_bytes 4 sec @ le_bytes 4 nsec @ le_bytes 4 log @ le_bytes 4 uid"

lemma length_v4_header [simp]: "length (v4_header a b c d e f g) = 28"
  by (simp add: v4_header_def)

lemma read_append:
  "v < 2 ^ 16 \<Longrightarrow> read_u16_le f (le_bytes 2 v @ r) = Inr (v, r)"
  "v < 2 ^ 32 \<Longrightarrow> read_u32_le f (le_bytes 4 v @ r) = Inr (v, r)"
  "is_i32 w \<Longrightarrow> read_i32_le f (le_bytes 4 (to_unsigned 32 w) @ r) = Inr (w, r)"
  by (simp_all add: read_Inr)

lemma logger_entry_v4:
  assumes "length payload < 2 ^ 16" "is_i32 p" "t < 2 ^ 32" "sec < 2 ^ 32" "nsec < 2 ^ 32"
    "log < 2 ^ 32" "uid < 2 ^ 32"
  shows "parse_logger_entry (v4_header (length payload) p t sec nsec log uid @ payload @ junk) =
     Inr \<lparr>le_pid = p, le_tid = t, le_seconds = sec, le_nanoseconds = nsec, le_log_id = Some log,
          le_uid = Some uid, le_payload = payload\<rparr>"
proof -
  let ?b = "v4_header (length payload) p t sec nsec log uid @ payload @ junk"
  have t: "drop 28 (take (28 + length payload) ?b) = payload"
    by simp
  show ?thesis
    unfolding parse_logger_entry_def bind_res_def Let_def t
    using assms t unfolding v4_header_def
    by (simp add: read_append MAX_LOG_PAYLOAD_BYTES_def read_opt_u32_def bind_res_def)
qed

lemma parse_logger_entry_bounds:
  assumes "parse_logger_entry bytes = Inr e"
  shows "\<exists>hdr plen. 20 \<le> hdr \<and> hdr + plen \<le> length bytes \<and> plen < 2 ^ 16 \<and>
     le_payload e = take plen (drop hdr bytes) \<and> is_i32 (le_pid e)"
proof -
  from assms obtain plen b1 hdr b2 where 1: "read_u16_le ''logger payload length'' bytes = Inr (plen, b1)"
      "read_u16_le ''logger header size'' b1 = Inr (hdr, b2)" "\<not> (hdr < 20 \<or> hdr > length bytes)"
    and rest: "bind_res (read_i32_le ''logger pid'' b2) (\<lambda>(pid, b3).
             bind_res (read_u32_le ''logger tid'' b3) (\<lambda>(tid, b4).
             bind_res (read_u32_le ''logger seconds'' b4) (\<lambda>(seconds, b5).
             bind_res (read_u32_le ''logger nanoseconds'' b5) (\<lambda>(nanos, b6).
             bind_res (read_opt_u32 (hdr \<ge> 24) ''logger id'' b6) (\<lambda>(log_id, b7).
             bind_res (read_opt_u32 (hdr \<ge> 28) ''logger uid'' b7) (\<lambda>(uid, b8).
               (let end_at = hdr + plen
                in if end_at > length bytes
                   then Inl (LengthOutOfBounds ''logger payload'' plen (length bytes - hdr))
                   else Inr \<lparr>le_pid = pid, le_tid = tid, le_seconds = seconds,
                             le_nanoseconds = nanos, le_log_id = log_id, le_uid = uid,
                             le_payload = drop hdr (take end_at bytes)\<rparr>))))))) = Inr e"
    unfolding parse_logger_entry_def bind_res_Inr by (auto simp: bind_res_Inr split: if_splits)
  from rest obtain p b3 where "read_i32_le ''logger pid'' b2 = Inr (p, b3)" "le_pid e = p"
    "hdr + plen \<le> length bytes" "le_payload e = drop hdr (take (hdr + plen) bytes)"
    by (auto simp: bind_res_Inr Let_def split: if_splits)
  then show ?thesis
    using 1 by (intro exI [of _ hdr] exI [of _ plen]) (simp add: read_Inr drop_take)
qed

lemma position_zero_append: "(0 :: u8) \<notin> set a \<Longrightarrow> position_zero (a @ 0 # r) = Some (length a)"
  by (induction a) auto

lemma text_entry_round_trip_lemma:
  assumes "0 \<notin> set (as_bytes tag)" "0 \<notin> set (as_bytes msg)" "valid_utf8 tag" "valid_utf8 msg"
  shows "text_entry_parse (prio # as_bytes tag @ [0] @ as_bytes msg @ [0] @ junk) =
     Inr \<lparr>te_priority = prio, te_tag = tag, te_message = msg\<rparr>"
  using assms position_zero_append [of "as_bytes tag"] position_zero_append [of "as_bytes msg"]
  by (simp add: text_entry_parse_def Let_def)

section \<open>Properties\<close>

text \<open>C22: the event parser accepts a buffer exactly when it holds a tag followed by the Android layout of a
  value within the limits (nesting below 16, at most 255 elements, strings of at most 64 KiB of
  valid UTF-8), and then returns exactly that tag and value; bytes after the value are ignored.\<close>
theorem event_payload_exact:
  "parse_event_payload bytes = Inr \<lparr>ev_tag = tag, ev_value = v\<rparr> \<longleftrightarrow>
     is_i32 tag \<and> within 0 v \<and>
     prefix (le_bytes 4 (to_unsigned 32 tag) @ layout v) bytes"
proof -
  have "parse_event_payload bytes = Inr \<lparr>ev_tag = tag, ev_value = v\<rparr> \<longleftrightarrow>
      (\<exists>r rest. read_i32_le ''event tag'' bytes = Inr (tag, r) \<and> parse_value 0 r = Inr (v, rest))"
    by (auto simp: parse_event_payload_def split: sum.splits)
  then show ?thesis by (auto simp: read_i32_Inr parse_value_iff prefix_def)
qed

text \<open>an entry in the current logger layout is read back exactly, whatever follows it in the buffer, and
  every accepted entry's payload lies inside the buffer, behind a header of at least 20 bytes.\<close>
theorem logger_entry_exact:
  assumes "length payload < 2 ^ 16" and "is_i32 p" and "t < 2 ^ 32" and "sec < 2 ^ 32"
    and "nsec < 2 ^ 32" and "log < 2 ^ 32" and "uid < 2 ^ 32"
  shows "parse_logger_entry (v4_header (length payload) p t sec nsec log uid @ payload @ junk) =
           Inr \<lparr>le_pid = p, le_tid = t, le_seconds = sec, le_nanoseconds = nsec,
                le_log_id = Some log, le_uid = Some uid, le_payload = payload\<rparr> \<and>
         (\<forall>bytes e. parse_logger_entry bytes = Inr e \<longrightarrow>
            (\<exists>hdr plen. 20 \<le> hdr \<and> hdr + plen \<le> length bytes \<and>
               le_payload e = take plen (drop hdr bytes)))"
  using logger_entry_v4 [OF assms] parse_logger_entry_bounds by blast

theorem logger_entry_exact_witness:
  "parse_logger_entry (v4_header (length [7, 8]) (- 1) 2 3 4 5 6 @ [7, 8] @ [9]) =
     Inr \<lparr>le_pid = - 1, le_tid = 2, le_seconds = 3, le_nanoseconds = 4, le_log_id = Some 5,
          le_uid = Some 6, le_payload = [7, 8]\<rparr>"
  using logger_entry_exact [of "[7, 8]" "- 1" 2 3 4 5 6 "[9]"] by (simp add: int_range_defs)

text \<open>the first two fields of an activity event are recovered as user and pid whichever order the
  platform wrote them in, whenever the user id is plausible and the pid is not.\<close>
theorem user_and_pid_either_order:
  assumes "0 \<le> user" and "user \<le> MAX_PLAUSIBLE_USER_ID" and "MAX_PLAUSIBLE_USER_ID < pid"
  shows "activity_user_and_pid (EInt user # EInt pid # rest) = Inr (user, pid) \<and>
         activity_user_and_pid (EInt pid # EInt user # rest) = Inr (user, pid)"
  using assms by (simp add: activity_user_and_pid_def int_at_def bind_res_def MAX_PLAUSIBLE_USER_ID_def)

theorem user_and_pid_either_order_witness:
  "activity_user_and_pid [EInt 4321, EInt 10] = Inr (10, 4321)"
  using user_and_pid_either_order [of 10 4321 "[]"] by (simp add: MAX_PLAUSIBLE_USER_ID_def)

end
