(* ===== verification/Record_Id.thy ===== *)
theory Record_Id
  imports Prelude
begin

text \<open>
  \<^verbatim>\<open>cch_model/src/id.rs\<close>: record ids, 48 bits of millisecond timestamp followed by 80 bits of
  sequence in 26 Crockford base32 characters, and the generator that hands them out.

  The lemmas show that the text and the number determine each other, that the order of the texts is
  the order of the numbers, and that the generator only moves forward.
\<close>

unbundle bit_operations_syntax

section \<open>Ids\<close>

definition ALPHABET :: string where
  "ALPHABET = ''0123456789ABCDEFGHJKMNPQRSTVWXYZ''"

definition TIMESTAMP_BITS :: nat where "TIMESTAMP_BITS = 48"
definition SEQUENCE_BITS :: nat where "SEQUENCE_BITS = 128 - TIMESTAMP_BITS"
definition ID_CHARS :: nat where "ID_CHARS = 26"

datatype RecordId = RecordId (as_str: string)

text \<open>The derived \<^verbatim>\<open>Ord\<close> compares the text.\<close>

instantiation RecordId :: linorder
begin

definition less_eq_RecordId :: "RecordId \<Rightarrow> RecordId \<Rightarrow> bool" where
  "a \<le> b \<longleftrightarrow> as_str a \<le> as_str b"

definition less_RecordId :: "RecordId \<Rightarrow> RecordId \<Rightarrow> bool" where
  "a < b \<longleftrightarrow> as_str a < as_str b"

instance
  by standard (auto simp: less_eq_RecordId_def less_RecordId_def RecordId.expand)

end

definition parse :: "string \<Rightarrow> RecordId option" where
  "parse value =
     (if length value \<noteq> ID_CHARS then None
      else if \<not> list_all (\<lambda>byte. byte \<in> set ALPHABET) value then None
      else Some (RecordId value))"

text \<open>\<^verbatim>\<open>ALPHABET.iter().position(..)\<close>, and the loop of \<^verbatim>\<open>decode\<close> with its accumulator.\<close>

definition alphabet_position :: "char \<Rightarrow> nat option" where
  "alphabet_position c = find_char c ALPHABET"

fun decode_from :: "128 word \<Rightarrow> string \<Rightarrow> 128 word option" where
  "decode_from value [] = Some value"
| "decode_from value (byte # rest) =
     (case alphabet_position byte of None \<Rightarrow> None
      | Some digit \<Rightarrow> decode_from (push_bit 5 value OR word_of_nat digit) rest)"

definition decode :: "RecordId \<Rightarrow> 128 word option" where
  "decode i = decode_from 0 (as_str i)"

text \<open>The loop of \<^verbatim>\<open>encode\<close> fills the slots from the last to the first; \<^term>\<open>n\<close> is the number of
  slots still to fill.\<close>

primrec encode_slots :: "nat \<Rightarrow> 128 word \<Rightarrow> string" where
  "encode_slots 0 remaining = []"
| "encode_slots (Suc n) remaining =
     encode_slots n (drop_bit 5 remaining) @ [ALPHABET ! unat (remaining AND 0x1f)]"

definition encode :: "128 word \<Rightarrow> RecordId" where
  "encode value = RecordId (encode_slots ID_CHARS value)"

section \<open>The generator\<close>

record RecordIdGenerator =
  last_ms :: "64 word"
  sequence :: "128 word"

definition new_generator :: RecordIdGenerator where
  "new_generator = \<lparr>last_ms = 0, sequence = 0\<rparr>"

definition resume_after :: "RecordIdGenerator \<Rightarrow> RecordId \<Rightarrow> RecordIdGenerator" where
  "resume_after g i =
     (case decode i of None \<Rightarrow> g
      | Some value \<Rightarrow>
          (let timestamp = ucast (drop_bit SEQUENCE_BITS value) :: 64 word;
               sq = value AND (push_bit SEQUENCE_BITS 1 - 1)
           in if timestamp > last_ms g \<or> (timestamp = last_ms g \<and> sq \<ge> sequence g)
              then g\<lparr>last_ms := timestamp, sequence := sq\<rparr> else g))"

definition next_id :: "RecordIdGenerator \<Rightarrow> 64 word \<Rightarrow> RecordId \<times> RecordIdGenerator" where
  "next_id g now_ms =
     (let timestamp = max now_ms (last_ms g) AND (push_bit TIMESTAMP_BITS 1 - 1);
          g' = (if timestamp = last_ms g
                then g\<lparr>sequence := (sequence g + 1) AND (push_bit SEQUENCE_BITS 1 - 1)\<rparr>
                else g\<lparr>last_ms := timestamp, sequence := 0\<rparr>)
      in (encode (push_bit SEQUENCE_BITS (ucast timestamp) OR sequence g'), g'))"

lemmas id_consts = TIMESTAMP_BITS_def SEQUENCE_BITS_def ID_CHARS_def

section \<open>Digits\<close>

lemma length_ALPHABET [simp]: "length ALPHABET = 32"
  by (simp add: ALPHABET_def)

lemma sorted_ALPHABET: "sorted_wrt (<) ALPHABET"
  by (simp add: ALPHABET_def less_char_def)

lemma ALPHABET_less_iff: "i < 32 \<Longrightarrow> j < 32 \<Longrightarrow> ALPHABET ! i < ALPHABET ! j \<longleftrightarrow> i < j"
  using sorted_ALPHABET by (metis length_ALPHABET linorder_cases not_less_iff_gr_or_eq
      sorted_wrt_nth_less)

lemma ALPHABET_eq_iff: "i < 32 \<Longrightarrow> j < 32 \<Longrightarrow> ALPHABET ! i = ALPHABET ! j \<longleftrightarrow> i = j"
  by (metis ALPHABET_less_iff linorder_neq_iff)

lemma alphabet_position_nth [simp]: "d < 32 \<Longrightarrow> alphabet_position (ALPHABET ! d) = Some d"
proof -
  assume d: "d < 32"
  then have "find_char (ALPHABET ! d) ALPHABET \<noteq> None" by (simp add: find_char_None)
  then obtain i where i: "find_char (ALPHABET ! d) ALPHABET = Some i" by auto
  from find_char_SomeD [OF this] d have "i = d" using ALPHABET_eq_iff by auto
  with i show ?thesis by (simp add: alphabet_position_def)
qed

lemma alphabet_position_SomeD: "alphabet_position c = Some d \<Longrightarrow> d < 32 \<and> ALPHABET ! d = c"
  using find_char_SomeD [of c ALPHABET d] by (simp add: alphabet_position_def)

lemma alphabet_position_None: "alphabet_position c = None \<longleftrightarrow> c \<notin> set ALPHABET"
  by (simp add: alphabet_position_def find_char_None)

text \<open>The loops as arithmetic: a text denotes the base-32 number of its digits, modulo 2^128.\<close>

definition digits32 :: "nat \<Rightarrow> nat \<Rightarrow> nat list" where
  "digits32 n v = map (\<lambda>i. v div 32 ^ (n - Suc i) mod 32) [0..<n]"

lemma digits32_Suc: "digits32 (Suc n) v = digits32 n (v div 32) @ [v mod 32]"
proof -
  have "v div 32 ^ (Suc n - Suc i) = v div 32 div 32 ^ (n - Suc i)" if "i < n" for i
    using that by (simp add: Suc_diff_Suc flip: div_mult2_eq power_Suc)
  then show ?thesis by (simp add: digits32_def)
qed

lemma encode_slots_digits:
  "encode_slots n v = map ((!) ALPHABET) (digits32 n (unat v))"
proof (induction n arbitrary: v)
  case (Suc n)
  have "v AND 0x1f = v AND mask 5" by (simp add: mask_eq_exp_minus_1)
  then have "unat (v AND 0x1f) = unat v mod 32" by (simp only: unat_and_mask) simp
  moreover have "unat (drop_bit 5 v) = unat v div 32" by (simp only: unat_drop_bit) simp
  ultimately show ?case by (simp add: Suc digits32_Suc)
qed (simp add: digits32_def)

lemma push_or_digit: "d < 32 \<Longrightarrow> push_bit 5 v OR word_of_nat d = v * 32 + (word_of_nat d :: 128 word)"
proof -
  assume d: "d < 32"
  then have "unat (word_of_nat d :: 128 word) < 2 ^ 5" by (simp add: unat_of_nat)
  then have "take_bit 5 (word_of_nat d :: 128 word) = word_of_nat d"
    by (metis take_bit_nat_eq_self unsigned_take_bit_eq unat_inject)
  then have "bit (word_of_nat d :: 128 word) n \<Longrightarrow> n < 5" for n by (metis bit_take_bit_iff)
  then have "push_bit 5 v AND (word_of_nat d :: 128 word) = 0"
    by (auto simp: word_bits_eq_iff bit_push_bit_iff bit_and_iff dest: leD)
  then show ?thesis
    by (simp flip: disjunctive_add_eq_or) (simp add: push_bit_eq_mult)
qed

lemma decode_from_digits:
  "list_all (\<lambda>d. d < 32) ds \<Longrightarrow>
   decode_from a (map ((!) ALPHABET) ds) = Some (foldl (\<lambda>v d. v * 32 + word_of_nat d) a ds)"
  by (induction ds arbitrary: a) (simp_all add: push_or_digit)

lemma foldl_digits32:
  "foldl (\<lambda>v d. v * 32 + word_of_nat d) (0 :: 128 word) (digits32 n v) = word_of_nat (v mod 32 ^ n)"
proof (induction n arbitrary: v)
  case (Suc n)
  have "v mod 32 ^ Suc n = 32 * (v div 32 mod 32 ^ n) + v mod 32"
    by (simp add: mod_mult2_eq)
  then show ?case using Suc by (simp add: digits32_Suc mult.commute)
qed (simp add: digits32_def)

lemma digits32_lt: "list_all (\<lambda>d. d < 32) (digits32 n v)"
  by (simp add: digits32_def list_all_iff)

lemma decode_encode [simp]: "decode (encode v) = Some v"
proof -
  have "unat v < 2 ^ LENGTH(128)" by (rule unsigned_less)
  then have "unat v mod 32 ^ 26 = unat v" by simp
  then show ?thesis
    by (simp add: decode_def encode_def ID_CHARS_def encode_slots_digits decode_from_digits
        digits32_lt foldl_digits32)
qed

lemma length_encode_slots [simp]: "length (encode_slots n v) = n"
  by (induction n arbitrary: v) auto

lemma set_encode_slots: "set (encode_slots n v) \<subseteq> set ALPHABET"
proof (induction n arbitrary: v)
  case (Suc n)
  have "v AND 0x1f = v AND mask 5" by (simp add: mask_eq_exp_minus_1)
  then have "unat (v AND 0x1f) < 32" by (simp only: unat_and_mask) simp
  then have "ALPHABET ! unat (v AND 0x1f) \<in> set ALPHABET" by (simp only: nth_mem length_ALPHABET)
  then show ?case using Suc by simp
qed simp

lemma parse_encode [simp]: "parse (as_str (encode v)) = Some (encode v)"
  using set_encode_slots [of ID_CHARS v] by (auto simp: parse_def encode_def list_all_iff)

lemma parse_SomeD: "parse s = Some i \<Longrightarrow> as_str i = s \<and> length s = 26 \<and> set s \<subseteq> set ALPHABET"
  by (auto simp: parse_def ID_CHARS_def list_all_iff split: if_splits)

interpretation id_codec: codec encode decode "\<lambda>_. True"
  by standard simp

text \<open>Every id that parses decodes, so the guard of \<^verbatim>\<open>resume_after\<close> only skips rows that were not
  written by the program.\<close>

lemma decode_from_total: "set s \<subseteq> set ALPHABET \<Longrightarrow> \<exists>v. decode_from a s = Some v"
proof (induction s arbitrary: a)
  case (Cons c s)
  then obtain d where "alphabet_position c = Some d"
    using alphabet_position_None [of c] by auto
  with Cons show ?case by auto
qed simp

lemma decode_from_None: "decode_from a s = None \<longleftrightarrow> \<not> set s \<subseteq> set ALPHABET"
proof (induction s arbitrary: a)
  case (Cons c s) then show ?case
    using alphabet_position_None [of c] by (cases "alphabet_position c") auto
qed simp

section \<open>Order\<close>

text \<open>Two texts of equal length whose digits come from the alphabet compare as their numbers.\<close>

lemma map_ALPHABET_less:
  "length xs = length ys \<Longrightarrow> list_all (\<lambda>d. d < 32) xs \<Longrightarrow> list_all (\<lambda>d. d < 32) ys \<Longrightarrow>
   map ((!) ALPHABET) xs < map ((!) ALPHABET) ys \<longleftrightarrow> xs < ys"
  by (induction xs ys rule: list_induct2) (auto simp: ALPHABET_less_iff ALPHABET_eq_iff)

lemma append_less_iff:
  "length xs = length ys \<Longrightarrow> xs @ [a] < ys @ [b] \<longleftrightarrow> xs < ys \<or> (xs = ys \<and> a < b)"
  for xs ys :: "nat list"
  by (induction xs ys rule: list_induct2) auto

lemma digits32_less:
  "v < 32 ^ n \<Longrightarrow> w < 32 ^ n \<Longrightarrow> digits32 n v < digits32 n w \<longleftrightarrow> v < w"
proof (induction n arbitrary: v w)
  case (Suc n)
  have lt: "x div 32 < 32 ^ n" if "x < 32 ^ Suc n" for x :: nat
    using that by (simp add: less_mult_imp_div_less mult.commute)
  have eq: "digits32 n (v div 32) = digits32 n (w div 32) \<longleftrightarrow> v div 32 = w div 32"
    using Suc.IH [of "v div 32" "w div 32"] Suc.IH [of "w div 32" "v div 32"] lt Suc.prems
    by (metis less_irrefl linorder_neqE)
  have l: "length (digits32 n x) = n" for x by (simp add: digits32_def)
  have vw: "v = 32 * (v div 32) + v mod 32" "w = 32 * (w div 32) + w mod 32" by simp_all
  have m: "v mod 32 < 32" "w mod 32 < 32" by simp_all
  have "digits32 (Suc n) v < digits32 (Suc n) w
      \<longleftrightarrow> v div 32 < w div 32 \<or> (v div 32 = w div 32 \<and> v mod 32 < w mod 32)"
    using Suc.IH [of "v div 32" "w div 32"] lt Suc.prems
    by (simp add: digits32_Suc append_less_iff l eq)
  also have "\<dots> \<longleftrightarrow> v < w" using vw m by linarith
  finally show ?case .
qed simp

lemma encode_less_iff [simp]: "encode v < encode w \<longleftrightarrow> v < w"
proof -
  have lt: "unat x < 32 ^ 26" for x :: "128 word"
  proof -
    have "unat x < 2 ^ LENGTH(128)" by (rule unsigned_less)
    then show ?thesis by simp
  qed
  have l: "length (digits32 n x) = n" for n x by (simp add: digits32_def)
  have "encode v < encode w \<longleftrightarrow> digits32 26 (unat v) < digits32 26 (unat w)"
    by (simp add: encode_def less_RecordId_def encode_slots_digits ID_CHARS_def
        map_ALPHABET_less digits32_lt l)
  also have "\<dots> \<longleftrightarrow> unat v < unat w" by (rule digits32_less [OF lt lt])
  finally show ?thesis by (simp add: word_less_nat_alt)
qed

section \<open>The generator moves forward\<close>

definition gen_wf :: "RecordIdGenerator \<Rightarrow> bool" where
  "gen_wf g \<longleftrightarrow> unat (last_ms g) < 2 ^ 48 \<and> unat (sequence g) < 2 ^ 80"

definition gen_code :: "RecordIdGenerator \<Rightarrow> 128 word" where
  "gen_code g = push_bit SEQUENCE_BITS (ucast (last_ms g)) OR sequence g"

definition sequence_left :: "RecordIdGenerator \<Rightarrow> nat" where
  "sequence_left g = 2 ^ 80 - 1 - unat (sequence g)"

lemma new_generator_wf [simp]: "gen_wf new_generator"
  by (simp add: gen_wf_def new_generator_def)

lemma masks_48_80:
  "push_bit TIMESTAMP_BITS 1 - 1 = (mask 48 :: 64 word)"
  "push_bit SEQUENCE_BITS 1 - 1 = (mask 80 :: 128 word)"
  by (simp_all only: shifted_one_minus_one id_consts) simp

text \<open>The two operations with their masks written as truncations.\<close>

lemma next_id_eq:
  "next_id g now =
     (let timestamp = take_bit 48 (max now (last_ms g));
          g' = (if timestamp = last_ms g then g\<lparr>sequence := take_bit 80 (sequence g + 1)\<rparr>
                else g\<lparr>last_ms := timestamp, sequence := 0\<rparr>)
      in (encode (push_bit SEQUENCE_BITS (ucast timestamp) OR sequence g'), g'))"
  unfolding next_id_def masks_48_80 take_bit_eq_mask ..

lemma resume_after_eq:
  "resume_after g (encode v) =
     (let timestamp = ucast (drop_bit 80 v); sq = take_bit 80 v
      in if timestamp > last_ms g \<or> (timestamp = last_ms g \<and> sq \<ge> sequence g)
         then g\<lparr>last_ms := timestamp, sequence := sq\<rparr> else g)"
proof -
  have "SEQUENCE_BITS = 80" by (simp add: id_consts)
  then show ?thesis
    unfolding resume_after_def masks_48_80 decode_encode option.case take_bit_eq_mask by simp
qed

lemma unat_ucast_64_128: "unat (ucast (t :: 64 word) :: 128 word) = unat t"
proof -
  have "unat t < 2 ^ LENGTH(64)" by (rule unsigned_less)
  then have "unat t < 2 ^ LENGTH(128)" by simp
  then show ?thesis by (simp only: unsigned_ucast_eq take_bit_nat_eq_self)
qed

lemma unat_gen_code: "gen_wf g \<Longrightarrow> unat (gen_code g) = unat (last_ms g) * 2 ^ 80 + unat (sequence g)"
  unfolding gen_code_def
  by (subst unat_push_or) (simp_all add: gen_wf_def unat_ucast_64_128 id_consts)

lemma next_id_wf: "gen_wf g \<Longrightarrow> gen_wf (snd (next_id g now))"
  by (auto simp: next_id_eq Let_def gen_wf_def unat_take_bit)

lemma next_id_code: "fst (next_id g now) = encode (gen_code (snd (next_id g now)))"
  by (auto simp: next_id_eq Let_def gen_code_def)

lemma next_timestamp:
  assumes "gen_wf g" "unat now < 2 ^ 48"
  shows "take_bit 48 (max now (last_ms g)) = max now (last_ms g)"
proof -
  have "unat (max now (last_ms g)) < 2 ^ 48" using assms by (simp add: gen_wf_def max_def)
  then have "unat (take_bit 48 (max now (last_ms g))) = unat (max now (last_ms g))"
    by (simp add: unat_take_bit)
  then show ?thesis by simp
qed

lemma unat_bump:
  "unat s < 2 ^ 80 - 1 \<Longrightarrow> unat (take_bit 80 (s + 1 :: 128 word)) = unat s + 1"
  unfolding unat_take_bit by (subst unat_word_ariths) simp

lemma next_id_step:
  assumes "gen_wf g" "unat now < 2 ^ 48" "0 < sequence_left g"
  shows "gen_code g < gen_code (snd (next_id g now))"
    and "sequence_left g \<le> Suc (sequence_left (snd (next_id g now)))"
proof -
  note wf = next_id_wf [OF assms(1), of now]
  have seq: "unat (sequence g) < 2 ^ 80 - 1" using assms(3) by (simp add: sequence_left_def)
  show "sequence_left g \<le> Suc (sequence_left (snd (next_id g now)))"
    using seq unat_bump [OF seq] by (auto simp: next_id_eq Let_def sequence_left_def)
  show "gen_code g < gen_code (snd (next_id g now))"
  proof (cases "max now (last_ms g) = last_ms g")
    case True
    then have "snd (next_id g now) = g\<lparr>sequence := take_bit 80 (sequence g + 1)\<rparr>"
      using next_timestamp [OF assms(1,2)] by (simp add: next_id_eq Let_def)
    then show ?thesis
      using unat_gen_code [OF assms(1)] unat_gen_code [OF wf] unat_bump [OF seq]
      by (simp add: word_less_nat_alt)
  next
    case False
    then have "snd (next_id g now) = g\<lparr>last_ms := now, sequence := 0\<rparr>"
      by (simp add: next_id_eq Let_def next_timestamp [OF assms(1,2)]) (auto simp: max_def)
    moreover have "last_ms g < now" using False by (auto simp: max_def split: if_splits)
    then have "unat (last_ms g) < unat now" by (simp only: word_less_nat_alt)
    ultimately show ?thesis
      using unat_gen_code [OF assms(1)] unat_gen_code [OF wf] seq by (simp add: word_less_nat_alt)
  qed
qed

interpretation ids: forward_source next_id "\<lambda>g. encode (gen_code g)" sequence_left gen_wf
  "\<lambda>now. unat now < 2 ^ 48"
  by standard (simp_all add: next_id_wf next_id_code next_id_step)

lemma resume_after_encode:
  assumes "gen_wf g"
  shows "gen_code (resume_after g (encode v)) = max (gen_code g) v"
    and "gen_wf (resume_after g (encode v))"
proof -
  have v: "unat v < 2 ^ LENGTH(128)" by (rule unsigned_less)
  have lt: "unat v div 2 ^ 80 < 2 ^ 48"
    by (rule less_mult_imp_div_less) (use v in simp)
  define t where "t = (ucast (drop_bit 80 v) :: 64 word)"
  define q where "q = (take_bit 80 v :: 128 word)"
  have t: "unat t = unat v div 2 ^ 80"
    unfolding t_def unsigned_ucast_eq unat_drop_bit by (rule take_bit_nat_eq_self) (use lt in simp)
  have q: "unat q = unat v mod 2 ^ 80" by (simp add: q_def unat_take_bit)
  have wf: "gen_wf (g\<lparr>last_ms := t, sequence := q\<rparr>)"
    using lt by (simp add: gen_wf_def t q)
  have code: "gen_code (g\<lparr>last_ms := t, sequence := q\<rparr>) = v"
    using unat_gen_code [OF wf] by (simp flip: unat_inject add: t q)
  have r: "resume_after g (encode v)
      = (if t > last_ms g \<or> (t = last_ms g \<and> q \<ge> sequence g) then g\<lparr>last_ms := t, sequence := q\<rparr> else g)"
    by (simp only: resume_after_eq Let_def t_def q_def)
  then show "gen_wf (resume_after g (encode v))" using assms wf by simp
  have cmp: "(t > last_ms g \<or> (t = last_ms g \<and> q \<ge> sequence g)) \<longleftrightarrow> gen_code g \<le> v"
  proof -
    have "gen_code g \<le> v \<longleftrightarrow>
        unat (last_ms g) * 2 ^ 80 + unat (sequence g) \<le> unat t * 2 ^ 80 + unat q"
      using unat_gen_code [OF assms] by (simp add: word_le_nat_alt t q)
    moreover have "unat q < 2 ^ 80" "unat (sequence g) < 2 ^ 80"
      using assms by (simp_all add: q gen_wf_def)
    ultimately show ?thesis
      by (simp add: lex_le_iff word_less_nat_alt word_le_nat_alt) auto
  qed
  show "gen_code (resume_after g (encode v)) = max (gen_code g) v"
    using r cmp code by (auto simp: max_def)
qed

section \<open>Properties\<close>

text \<open>every 128-bit value survives being written as a record id: the text it is encoded to is accepted
  by the parser as that very id, has 26 characters, and decodes to the value.\<close>
theorem record_id_round_trip:
  "decode (encode v) = Some v \<and> parse (as_str (encode v)) = Some (encode v) \<and>
   length (as_str (encode v)) = ID_CHARS"
  using parse_encode [of v] decode_encode [of v] parse_SomeD by (auto simp: ID_CHARS_def)

text \<open>the lexicographic order of the encoded ids, which SQLite uses as the tiebreaker of keyset
  pagination, is the numeric order of what they encode.\<close>
theorem record_id_order_preserved:
  "encode v < encode w \<longleftrightarrow> v < w"
  by simp

text \<open>C23: a run of calls on a well-formed generator, with clocks below 2^48 ms in any order (the clock
  may jump backwards), hands out strictly increasing ids, all above the generator's position, as
  long as the 80-bit sequence does not wrap.\<close>
theorem generator_strictly_increasing:
  assumes "gen_wf g" and "list_all (\<lambda>now. unat now < 2 ^ 48) clocks" and "length clocks \<le> sequence_left g"
  shows "sorted_wrt (<) (encode (gen_code g) # fst (run_steps next_id g clocks))"
  using assms by (rule ids.run_sorted)

theorem generator_strictly_increasing_witness:
  "sorted_wrt (<) (encode (gen_code new_generator) # fst (run_steps next_id new_generator [7, 7, 3, 9]))"
proof -
  have "list_all (\<lambda>now. unat now < 2 ^ 48) [7, 7, 3, 9 :: 64 word]" by simp
  moreover have "length [7, 7, 3, 9 :: 64 word] \<le> sequence_left new_generator"
    by (simp add: sequence_left_def new_generator_def)
  ultimately show ?thesis using generator_strictly_increasing [OF new_generator_wf] by blast
qed

text \<open>after resuming from a stored id the next id sorts after it, whatever the clock says, so a
  restart cannot issue an id again; resuming never moves the generator backwards.\<close>
theorem resume_after_no_reissue:
  assumes "gen_wf g" and "unat now < 2 ^ 48" and "unat v mod 2 ^ 80 < 2 ^ 80 - 1"
    and "0 < sequence_left g"
  shows "encode v < fst (next_id (resume_after g (encode v)) now) \<and>
         encode (gen_code g) < fst (next_id (resume_after g (encode v)) now)"
proof -
  let ?g = "resume_after g (encode v)"
  have wf: "gen_wf ?g" and code: "gen_code ?g = max (gen_code g) v"
    using resume_after_encode [OF assms(1)] by auto
  have "0 < sequence_left ?g"
  proof (cases "?g = g")
    case False
    then have "sequence ?g = take_bit 80 v"
      by (auto simp: resume_after_eq Let_def split: if_splits)
    then show ?thesis using assms(3) by (simp add: sequence_left_def unat_take_bit)
  qed (use assms(4) in simp)
  then have "gen_code ?g < gen_code (snd (next_id ?g now))"
    using next_id_step(1) [OF wf assms(2)] by simp
  then show ?thesis by (simp add: next_id_code code)
qed

theorem resume_after_no_reissue_witness:
  "encode 5 < fst (next_id (resume_after new_generator (encode 5)) 0)"
  using resume_after_no_reissue [of new_generator 0 5]
  by (simp add: sequence_left_def new_generator_def gen_wf_def)

end
