(* ===== verification/Wire.thy ===== *)
theory Wire
  imports Record_Id Fingerprint Config
begin

text \<open>
  \<^verbatim>\<open>cch_wire\<close>: the protocol between daemon and manager.  Errors, length-prefixed frames, the query
  vocabulary (filters, sort keys, keyset cursors, pages), the data transfer types, requests and
  response envelopes, and the lenient event parser.

  The JSON encoding itself (\<^verbatim>\<open>serde_json\<close>) is a parameter where a function depends on it.
\<close>

section \<open>Errors\<close>

datatype ErrorCode =
  InvalidRequest | MalformedFrame | Unauthorized | NotFound | PayloadTooLarge | Unavailable
| VersionMismatch | CursorInvalidated | Internal

fun is_transient :: "ErrorCode \<Rightarrow> bool" where
  "is_transient Unavailable = True"
| "is_transient Internal = True"
| "is_transient _ = False"

record WireError =
  code :: ErrorCode
  message :: string

definition wire_error :: "ErrorCode \<Rightarrow> string \<Rightarrow> WireError" where
  "wire_error c m = \<lparr>code = c, message = m\<rparr>"

definition payload_too_large :: "nat \<Rightarrow> WireError" where
  "payload_too_large bytes =
     wire_error PayloadTooLarge (''frame body of '' @ nat_to_dec bytes @ '' bytes exceeds the limit'')"

section \<open>Frames\<close>

definition LENGTH_PREFIX_BYTES :: nat where "LENGTH_PREFIX_BYTES = 4"
definition MAX_FRAME_BODY_BYTES :: nat where "MAX_FRAME_BODY_BYTES = 1024 * 1024"
definition PROTOCOL_VERSION :: int where "PROTOCOL_VERSION = 5"

datatype ChannelKind = Control | Subscribe

definition encode_frame :: "u8 list \<Rightarrow> WireError + u8 list" where
  "encode_frame body =
     (if length body > MAX_FRAME_BODY_BYTES then Inl (payload_too_large (length body))
      else Inr (be_bytes LENGTH_PREFIX_BYTES (length body) @ body))"

definition decode_length :: "u8 list \<Rightarrow> WireError + nat" where
  "decode_length pre =
     (let len = be_value pre
      in if len > MAX_FRAME_BODY_BYTES then Inl (payload_too_large len) else Inr len)"

definition decode_frame :: "u8 list \<Rightarrow> WireError + u8 list" where
  "decode_frame frame =
     (if length frame < LENGTH_PREFIX_BYTES
      then Inl (wire_error MalformedFrame ''frame is shorter than its length prefix'')
      else
        (case decode_length (take LENGTH_PREFIX_BYTES frame) of
           Inl e \<Rightarrow> Inl e
         | Inr declared \<Rightarrow>
             (let body = drop LENGTH_PREFIX_BYTES frame
              in if length body \<noteq> declared
                 then Inl (wire_error MalformedFrame
                        (''frame body length mismatch: declared '' @ nat_to_dec declared @
                         '' bytes, got '' @ nat_to_dec (length body) @ '' bytes''))
                 else Inr body)))"

section \<open>Queries\<close>

definition DEFAULT_PAGE_LIMIT :: int where "DEFAULT_PAGE_LIMIT = 50"
definition MAX_PAGE_LIMIT :: int where "MAX_PAGE_LIMIT = 200"

record CrashFilter =
  packages :: "string list"
  kinds :: "CrashKind list"
  user_ids :: "int list"
  time_from_ms :: "int option"
  time_to_ms :: "int option"
  flt_include_system_apps :: bool
  include_system_processes :: bool
  flt_only_main_process :: bool
  only_self_handled :: bool
  flt_query :: "string option"

definition filter_default :: CrashFilter where
  "filter_default =
     \<lparr>packages = [], kinds = [], user_ids = [], time_from_ms = None, time_to_ms = None,
      flt_include_system_apps = False, include_system_processes = False,
      flt_only_main_process = False, only_self_handled = False, flt_query = None\<rparr>"

definition filter_validate :: "CrashFilter \<Rightarrow> WireError + unit" where
  "filter_validate f =
     (case (time_from_ms f, time_to_ms f) of
        (Some from_ms, Some to_ms) \<Rightarrow>
          if from_ms > to_ms
          then Inl (wire_error InvalidRequest
                 (''time_from_ms ('' @ int_to_dec from_ms @ '') is after time_to_ms ('' @
                  int_to_dec to_ms @ '')''))
          else Inr ()
      | _ \<Rightarrow> Inr ())"

definition is_unrestricted :: "CrashFilter \<Rightarrow> bool" where
  "is_unrestricted f \<longleftrightarrow>
     packages f = [] \<and> kinds f = [] \<and> user_ids f = [] \<and> time_from_ms f = None \<and>
     time_to_ms f = None \<and> flt_include_system_apps f \<and> include_system_processes f \<and>
     \<not> flt_only_main_process f \<and> \<not> only_self_handled f \<and> unwrap_or (flt_query f) [] = []"

datatype SortKey = LastSeenDesc | FirstSeenDesc | OccurrenceDesc | PackageAsc

fun anchor_is_text :: "SortKey \<Rightarrow> bool" where
  "anchor_is_text PackageAsc = True"
| "anchor_is_text _ = False"

fun is_descending :: "SortKey \<Rightarrow> bool" where
  "is_descending PackageAsc = False"
| "is_descending _ = True"

datatype CursorAnchor = AInt int | AText string

record Cursor =
  cur_sort :: SortKey
  anchor :: CursorAnchor
  tiebreak :: string

definition CURSOR_SEPARATOR :: char where "CURSOR_SEPARATOR = CHR ''|''"
definition CURSOR_VERSION :: string where "CURSOR_VERSION = ''1''"

fun sort_name :: "SortKey \<Rightarrow> string" where
  "sort_name LastSeenDesc = ''last_seen_desc''"
| "sort_name FirstSeenDesc = ''first_seen_desc''"
| "sort_name OccurrenceDesc = ''occurrence_desc''"
| "sort_name PackageAsc = ''package_asc''"

fun anchor_text :: "CursorAnchor \<Rightarrow> string \<times> string" where
  "anchor_text (AInt v) = (''i'', int_to_dec v)"
| "anchor_text (AText v) = (''t'', v)"

definition cursor_to_string :: "Cursor \<Rightarrow> string" where
  "cursor_to_string c =
     (let (k, a) = anchor_text (anchor c); sep = [CURSOR_SEPARATOR]
      in CURSOR_VERSION @ sep @ sort_name (cur_sort c) @ sep @ k @ sep @ a @ sep @ tiebreak c)"

definition cursor_invalid :: WireError where
  "cursor_invalid = wire_error CursorInvalidated ''cursor is not in a recognised format''"

definition sort_of_name :: "string \<Rightarrow> SortKey option" where
  "sort_of_name s =
     (if s = ''last_seen_desc'' then Some LastSeenDesc
      else if s = ''first_seen_desc'' then Some FirstSeenDesc
      else if s = ''occurrence_desc'' then Some OccurrenceDesc
      else if s = ''package_asc'' then Some PackageAsc else None)"

definition cursor_from_str :: "string \<Rightarrow> WireError + Cursor" where
  "cursor_from_str value =
     (case splitn 5 CURSOR_SEPARATOR value of
        [] \<Rightarrow> Inl cursor_invalid
      | version # parts \<Rightarrow>
          if version \<noteq> CURSOR_VERSION
          then Inl (wire_error CursorInvalidated
                 (''cursor version '' @ version @ '' is not supported''))
          else (case parts of
                  [] \<Rightarrow> Inl cursor_invalid
                | sort_text # rest \<Rightarrow>
                    (case sort_of_name sort_text of
                       None \<Rightarrow> Inl cursor_invalid
                     | Some srt \<Rightarrow>
                         (case rest of
                            [k, a, tb] \<Rightarrow>
                              (if k = ''i'' then
                                 (case parse_signed is_i64 a of
                                    None \<Rightarrow> Inl cursor_invalid
                                  | Some v \<Rightarrow> Inr \<lparr>cur_sort = srt, anchor = AInt v, tiebreak = tb\<rparr>)
                               else if k = ''t'' then
                                 Inr \<lparr>cur_sort = srt, anchor = AText a, tiebreak = tb\<rparr>
                               else Inl cursor_invalid)
                          | _ \<Rightarrow> Inl cursor_invalid))))"

definition cursor_new :: "SortKey \<Rightarrow> CursorAnchor \<Rightarrow> string \<Rightarrow> Cursor" where
  "cursor_new s a t = \<lparr>cur_sort = s, anchor = a, tiebreak = t\<rparr>"

fun sort_debug :: "SortKey \<Rightarrow> string" where
  "sort_debug LastSeenDesc = ''LastSeenDesc''"
| "sort_debug FirstSeenDesc = ''FirstSeenDesc''"
| "sort_debug OccurrenceDesc = ''OccurrenceDesc''"
| "sort_debug PackageAsc = ''PackageAsc''"

definition validate_for :: "Cursor \<Rightarrow> SortKey \<Rightarrow> WireError + unit" where
  "validate_for c srt =
     (if cur_sort c \<noteq> srt
      then Inl (wire_error CursorInvalidated
             (''cursor was issued for '' @ sort_debug (cur_sort c) @ '' but the request sorts by '' @
              sort_debug srt))
      else
        (let matches_type = (case anchor c of AText _ \<Rightarrow> anchor_is_text srt
                             | AInt _ \<Rightarrow> \<not> anchor_is_text srt)
         in if \<not> matches_type
            then Inl (wire_error CursorInvalidated ''cursor anchor type does not match the sort column'')
            else Inr ()))"

record PageRequest =
  pr_filter :: CrashFilter
  pr_sort :: SortKey
  pr_cursor :: "Cursor option"
  pr_limit :: int

definition effective_limit :: "PageRequest \<Rightarrow> int" where
  "effective_limit r =
     (if pr_limit r = 0 then DEFAULT_PAGE_LIMIT
      else if pr_limit r > MAX_PAGE_LIMIT then MAX_PAGE_LIMIT
      else pr_limit r)"

definition page_validate :: "PageRequest \<Rightarrow> WireError + unit" where
  "page_validate r =
     (case filter_validate (pr_filter r) of
        Inl e \<Rightarrow> Inl e
      | Inr _ \<Rightarrow> (case pr_cursor r of None \<Rightarrow> Inr () | Some c \<Rightarrow> validate_for c (pr_sort r)))"

record 'a Page =
  items :: "'a list"
  next_cursor :: "Cursor option"

section \<open>Data transfer types\<close>

record GroupSummary =
  gs_group_id :: string
  gs_package_name :: string
  gs_process_name :: string
  gs_user_id :: int
  gs_kind :: CrashKind
  gs_is_system_app :: bool
  gs_is_main_process :: bool
  gs_self_handled :: bool
  gs_summary_class :: "string option"
  gs_summary_text :: "string option"
  gs_occurrence :: int
  gs_first_seen_ms :: int
  gs_last_seen_ms :: int
  gs_payload_bytes :: int
  gs_muted_until_ms :: "int option"
  gs_package_installed :: bool

record RecordSummary =
  rs_id :: RecordId
  rs_group_id :: string
  rs_happened_at_ms :: int
  rs_pid :: int
  rs_sources :: SourceMask
  rs_app_version_name :: "string option"
  rs_app_version_code :: "int option"
  rs_is_foreground :: "bool option"
  rs_is_repeating :: bool
  rs_dropped_count :: "int option"
  rs_payload_bytes :: int
  rs_payload_state :: PayloadState

record RecordDetail =
  rd_record :: RecordSummary
  rd_group :: GroupSummary

datatype CollectorSource = Events | CrashBuffer | Dropbox | Tombstone | AnrFile

definition CollectorSource_ALL :: "CollectorSource list" where
  "CollectorSource_ALL = [Events, CrashBuffer, Dropbox, Tombstone, AnrFile]"

record StorageStatus =
  group_count :: nat
  record_count :: nat
  payload_bytes :: int
  database_bytes :: int
  evicted_payload_count :: nat

record PayloadChunk =
  pc_offset :: nat
  pc_text :: string
  pc_next_offset :: nat
  pc_eof :: bool

definition MAX_PAYLOAD_CHUNK_BYTES :: nat where "MAX_PAYLOAD_CHUNK_BYTES = 256 * 1024"

datatype ExportFormat = ExportText | ExportJson

record ExportRedaction =
  hide_device_brand :: bool
  hide_device_model :: bool
  hide_build_display_id :: bool
  hide_package_name :: bool

definition hides_anything :: "ExportRedaction \<Rightarrow> bool" where
  "hides_anything r \<longleftrightarrow> hide_device_brand r \<or> hide_device_model r \<or> hide_build_display_id r \<or>
     hide_package_name r"

datatype DeleteTarget = Ids "RecordId list" | Group string | AllRecords

section \<open>Requests and responses\<close>

datatype Request =
  Handshake int string
| ModuleStatusReq
| ListGroups PageRequest
| GetGroup string
| ListRecords string PageRequest
| GetRecord RecordId
| OpenPayload RecordId
| ReadPayload "64 word" nat nat
| ClosePayload "64 word"
| ExportRecords "RecordId list" ExportFormat ExportRedaction
| DeleteRecords DeleteTarget
| GetGlobalConfig
| SetGlobalConfig GlobalConfigPatch
| GetAppConfig string
| SetAppConfig string AppConfigPatch
| ListApps bool bool "string option" int
| StatsReq "int option" "int option" int
| ReopenApp string int
| MuteApp string MuteScope
| DismissNotification RecordId
| SetDialogTakeover bool
| ReadRuntimeLog "string option" nat

fun requires_handshake :: "Request \<Rightarrow> bool" where
  "requires_handshake (Handshake _ _) = False"
| "requires_handshake _ = True"

text \<open>The envelope around any response type.\<close>

record 'r ResponseEnvelope =
  re_seq :: nat
  re_ok :: "'r option"
  re_err :: "WireError option"

definition envelope_ok :: "nat \<Rightarrow> 'r \<Rightarrow> 'r ResponseEnvelope" where
  "envelope_ok s r = \<lparr>re_seq = s, re_ok = Some r, re_err = None\<rparr>"

definition envelope_err :: "nat \<Rightarrow> WireError \<Rightarrow> 'r ResponseEnvelope" where
  "envelope_err s e = \<lparr>re_seq = s, re_ok = None, re_err = Some e\<rparr>"

definition envelope_result :: "'r ResponseEnvelope \<Rightarrow> WireError + 'r" where
  "envelope_result env =
     (case (re_ok env, re_err env) of
        (Some r, None) \<Rightarrow> Inr r
      | (None, Some e) \<Rightarrow> Inl e
      | (Some _, Some _) \<Rightarrow> Inl (wire_error MalformedFrame ''response carries both ok and err'')
      | (None, None) \<Rightarrow> Inl (wire_error MalformedFrame ''response carries neither ok nor err''))"

section \<open>Events\<close>

definition KNOWN_EVENTS :: "string list" where
  "KNOWN_EVENTS = [''crash_recorded'', ''config_changed'', ''module_status_changed'', ''dropped'']"

text \<open>\<^verbatim>\<open>parse_lenient\<close> over a JSON library: \<^term>\<open>from_str\<close> parses a document or gives the error text,
  \<^term>\<open>tag_of\<close> is the string under the key \<^verbatim>\<open>event\<close>, and \<^term>\<open>from_value\<close> reads a typed event.\<close>

definition parse_lenient ::
  "(string \<Rightarrow> string + 'j) \<Rightarrow> ('j \<Rightarrow> string option) \<Rightarrow> ('j \<Rightarrow> string + 'e) \<Rightarrow> string \<Rightarrow> WireError + 'e option" where
  "parse_lenient from_str tag_of from_value json =
     (case from_str json of
        Inl source \<Rightarrow> Inl (wire_error MalformedFrame (''event is not JSON: '' @ source))
      | Inr value \<Rightarrow>
          (case tag_of value of
             None \<Rightarrow> Inl (wire_error MalformedFrame ''event frame has no `event` tag'')
           | Some tag \<Rightarrow>
               if tag \<notin> set KNOWN_EVENTS then Inr None
               else (case from_value value of
                       Inr e \<Rightarrow> Inr (Some e)
                     | Inl source \<Rightarrow>
                         Inl (wire_error MalformedFrame
                                (''event '' @ tag @ '' did not parse: '' @ source)))))"

section \<open>Frame lemmas\<close>

definition frame_of :: "u8 list \<Rightarrow> u8 list" where
  "frame_of body = be_bytes 4 (length body) @ body"

definition ok_part :: "'e + 'a \<Rightarrow> 'a option" where
  "ok_part r = (case r of Inr x \<Rightarrow> Some x | Inl _ \<Rightarrow> None)"

lemma encode_frame_Inr: "encode_frame b = Inr f \<longleftrightarrow> length b \<le> MAX_FRAME_BODY_BYTES \<and> f = frame_of b"
  by (auto simp: encode_frame_def frame_of_def LENGTH_PREFIX_BYTES_def)

lemma decode_frame_Inr:
  "decode_frame f = Inr b \<longleftrightarrow> length b \<le> MAX_FRAME_BODY_BYTES \<and> f = frame_of b"
proof
  assume d: "decode_frame f = Inr b"
  then have l: "4 \<le> length f"
    by (auto simp: decode_frame_def LENGTH_PREFIX_BYTES_def split: if_splits)
  with d have b: "b = drop 4 f" "length b = be_value (take 4 f)" "length b \<le> MAX_FRAME_BODY_BYTES"
    by (auto simp: decode_frame_def decode_length_def LENGTH_PREFIX_BYTES_def Let_def
        split: if_splits sum.splits)
  moreover have "be_bytes 4 (be_value (take 4 f)) = take 4 f"
    by (rule be_bytes_be_value) (use l in simp)
  ultimately show "length b \<le> MAX_FRAME_BODY_BYTES \<and> f = frame_of b"
    by (metis append_take_drop_id frame_of_def)
next
  assume b: "length b \<le> MAX_FRAME_BODY_BYTES \<and> f = frame_of b"
  then have "be_value (be_bytes 4 (length b)) = length b"
    by (intro be_value_be_bytes) (simp add: MAX_FRAME_BODY_BYTES_def)
  with b show "decode_frame f = Inr b"
    by (simp add: decode_frame_def decode_length_def frame_of_def LENGTH_PREFIX_BYTES_def Let_def)
qed

interpretation frame_codec: canonical_codec frame_of "\<lambda>f. ok_part (decode_frame f)"
  "\<lambda>b. length b \<le> MAX_FRAME_BODY_BYTES"
proof (standard, goal_cases)
  case (1 x) then show ?case by (simp add: ok_part_def decode_frame_Inr split: sum.splits)
      (metis decode_frame_Inr sum.distinct(1) sum.inject(2))
next
  case (2 y x) then show ?case by (auto simp: ok_part_def decode_frame_Inr split: sum.splits)
qed

text \<open>Reading a stream the way both ends do: a prefix, then as many bytes as it declares.\<close>

definition read_frame :: "u8 list \<Rightarrow> (u8 list \<times> u8 list) option" where
  "read_frame bytes =
     (if length bytes < 4 then None
      else (case decode_length (take 4 bytes) of
              Inl _ \<Rightarrow> None
            | Inr n \<Rightarrow> if length bytes < 4 + n then None
                       else Some (take n (drop 4 bytes), drop (4 + n) bytes)))"

lemma read_frame_append:
  "length b \<le> MAX_FRAME_BODY_BYTES \<Longrightarrow> read_frame (frame_of b @ rest) = Some (b, rest)"
proof -
  assume b: "length b \<le> MAX_FRAME_BODY_BYTES"
  then have "be_value (be_bytes 4 (length b)) = length b"
    by (intro be_value_be_bytes) (simp add: MAX_FRAME_BODY_BYTES_def)
  with b show ?thesis
    by (simp add: read_frame_def decode_length_def frame_of_def Let_def)
qed

fun read_frames :: "nat \<Rightarrow> u8 list \<Rightarrow> u8 list list \<times> u8 list" where
  "read_frames 0 bytes = ([], bytes)"
| "read_frames (Suc n) bytes =
     (case read_frame bytes of None \<Rightarrow> ([], bytes)
      | Some (b, rest) \<Rightarrow> (let (bs, r) = read_frames n rest in (b # bs, r)))"

lemma read_frames_concat:
  "list_all (\<lambda>b. length b \<le> MAX_FRAME_BODY_BYTES) bs \<Longrightarrow>
   read_frames (length bs) (concat (map frame_of bs) @ rest) = (bs, rest)"
  by (induction bs) (simp_all add: read_frame_append)

section \<open>Cursor lemmas\<close>

definition cursor_ok :: "Cursor \<Rightarrow> bool" where
  "cursor_ok c \<longleftrightarrow> (case anchor c of AInt v \<Rightarrow> is_i64 v | AText s \<Rightarrow> CHR ''|'' \<notin> set s)"

lemma sort_name_fresh [simp]: "CHR ''|'' \<notin> set (sort_name s)"
  by (cases s) simp_all

lemma sort_of_sort_name [simp]: "sort_of_name (sort_name s) = Some s"
  by (cases s) (simp_all add: sort_of_name_def)

lemma splitn_sep:
  "CHR ''|'' \<notin> set p \<Longrightarrow> splitn (Suc (Suc n)) CHR ''|'' (p @ CHR ''|'' # r) = p # splitn (Suc n) CHR ''|'' r"
  by (simp add: split_once_append)

lemma splitn_cursor:
  assumes "CHR ''|'' \<notin> set a" "CHR ''|'' \<notin> set s" "CHR ''|'' \<notin> set k"
  shows "splitn 5 CHR ''|'' (''1'' @ ''|'' @ s @ ''|'' @ k @ ''|'' @ a @ ''|'' @ t) = [''1'', s, k, a, t]"
proof -
  have "splitn (Suc (Suc 3)) CHR ''|'' (''1'' @ CHR ''|'' # (s @ ''|'' @ k @ ''|'' @ a @ ''|'' @ t))
      = ''1'' # splitn (Suc 3) CHR ''|'' (s @ ''|'' @ k @ ''|'' @ a @ ''|'' @ t)"
    by (rule splitn_sep) simp
  also have "splitn (Suc (Suc 2)) CHR ''|'' (s @ CHR ''|'' # (k @ ''|'' @ a @ ''|'' @ t))
      = s # splitn (Suc 2) CHR ''|'' (k @ ''|'' @ a @ ''|'' @ t)"
    by (rule splitn_sep [OF assms(2)])
  moreover have "splitn (Suc (Suc 1)) CHR ''|'' (k @ CHR ''|'' # (a @ ''|'' @ t))
      = k # splitn (Suc 1) CHR ''|'' (a @ ''|'' @ t)"
    by (rule splitn_sep [OF assms(3)])
  moreover have "splitn (Suc (Suc 0)) CHR ''|'' (a @ CHR ''|'' # t) = a # splitn (Suc 0) CHR ''|'' t"
    by (rule splitn_sep [OF assms(1)])
  ultimately show ?thesis by (simp add: numeral_eq_Suc)
qed

lemma cursor_round_trip_lemma: "cursor_ok c \<Longrightarrow> cursor_from_str (cursor_to_string c) = Inr c"
proof -
  assume ok: "cursor_ok c"
  obtain k a where ka: "anchor_text (anchor c) = (k, a)" by fastforce
  have "CHR ''|'' \<notin> set a" "CHR ''|'' \<notin> set k"
    using ok ka by (cases "anchor c"; auto simp: cursor_ok_def)+
  then have "splitn 5 CURSOR_SEPARATOR (cursor_to_string c)
      = [CURSOR_VERSION, sort_name (cur_sort c), k, a, tiebreak c]"
    using splitn_cursor [of a "sort_name (cur_sort c)" k "tiebreak c"]
    by (simp add: cursor_to_string_def ka CURSOR_SEPARATOR_def CURSOR_VERSION_def)
  then show ?thesis
    using ok ka
    by (cases "anchor c")
      (auto simp: cursor_from_str_def cursor_ok_def parse_signed_int_to_dec intro!: Cursor.equality)
qed

interpretation cursor_codec: codec cursor_to_string "\<lambda>s. ok_part (cursor_from_str s)" cursor_ok
  by standard (simp add: ok_part_def cursor_round_trip_lemma)

section \<open>Properties\<close>

text \<open>a frame decodes exactly when it is the encoding of a body within the limit, and encoding succeeds
  exactly on such bodies; everything else is an error.\<close>
theorem frame_codec_exact:
  "(decode_frame f = Inr b \<longleftrightarrow> encode_frame b = Inr f) \<and>
   ((\<exists>g. encode_frame b = Inr g) \<longleftrightarrow> length b \<le> MAX_FRAME_BODY_BYTES)"
  by (auto simp: decode_frame_Inr encode_frame_Inr)

text \<open>reading frames off a byte stream, by the declared lengths, recovers the sequence of bodies that
  was written and leaves exactly the bytes after the last one, so framing never desynchronizes.\<close>
theorem frame_stream_round_trip:
  assumes "list_all (\<lambda>b. length b \<le> MAX_FRAME_BODY_BYTES) bs"
  shows "read_frames (length bs) (concat (map frame_of bs) @ rest) = (bs, rest) \<and>
         list_all (\<lambda>b. encode_frame b = Inr (frame_of b)) bs"
  using read_frames_concat [OF assms] assms by (simp add: list_all_iff encode_frame_Inr)

theorem frame_stream_round_trip_witness:
  "read_frames (length [[1, 2], [], [3 :: u8]]) (concat (map frame_of [[1, 2], [], [3]]) @ [9, 9])
     = ([[1, 2], [], [3]], [9, 9])"
  using frame_stream_round_trip [of "[[1, 2], [], [3]]" "[9, 9]"] by (simp add: MAX_FRAME_BODY_BYTES_def)

text \<open>a cursor whose anchor is an i64 or a text without the separator comes back from its text form
  unchanged, so a client that echoes it resumes at the same position; different such cursors have
  different texts.\<close>
theorem cursor_round_trip:
  assumes "cursor_ok c" and "cursor_ok c'"
  shows "cursor_from_str (cursor_to_string c) = Inr c \<and>
         (cursor_to_string c = cursor_to_string c' \<longleftrightarrow> c = c')"
  using assms cursor_round_trip_lemma cursor_codec.enc_inject by blast

theorem cursor_round_trip_witness:
  "cursor_from_str (cursor_to_string (cursor_new LastSeenDesc (AInt (- 5)) ''x|y'')) =
     Inr (cursor_new LastSeenDesc (AInt (- 5)) ''x|y'')"
  using cursor_round_trip [of "cursor_new LastSeenDesc (AInt (- 5)) ''x|y''"
      "cursor_new LastSeenDesc (AInt (- 5)) ''x|y''"]
  by (simp add: cursor_ok_def cursor_new_def int_range_defs)

text \<open>the separator is not safe in a text anchor: a package name containing it, which a native process
  name may be, comes back as a different anchor and tiebreak, so the next page resumes at the wrong
  place.\<close>
theorem cursor_separator_in_package_name:
  assumes "CHR ''|'' \<notin> set a" and "CHR ''|'' \<notin> set b"
  shows "cursor_from_str (cursor_to_string (cursor_new PackageAsc (AText (a @ ''|'' @ b)) t)) =
         Inr (cursor_new PackageAsc (AText a) (b @ ''|'' @ t))"
proof -
  have "cursor_to_string (cursor_new PackageAsc (AText (a @ ''|'' @ b)) t)
      = ''1'' @ ''|'' @ ''package_asc'' @ ''|'' @ ''t'' @ ''|'' @ a @ ''|'' @ (b @ ''|'' @ t)"
    by (simp add: cursor_to_string_def cursor_new_def CURSOR_SEPARATOR_def CURSOR_VERSION_def)
  then have "splitn 5 CURSOR_SEPARATOR (cursor_to_string (cursor_new PackageAsc (AText (a @ ''|'' @ b)) t))
      = [''1'', ''package_asc'', ''t'', a, b @ ''|'' @ t]"
    using splitn_cursor [of a "''package_asc''" "''t''" "b @ ''|'' @ t"] assms(1)
    by (simp add: CURSOR_SEPARATOR_def)
  then show ?thesis
    by (simp add: cursor_from_str_def CURSOR_VERSION_def sort_of_name_def cursor_new_def)
qed

theorem cursor_separator_in_package_name_witness:
  "cursor_from_str (cursor_to_string (cursor_new PackageAsc (AText ''a|b'') ''g'')) =
     Inr (cursor_new PackageAsc (AText ''a'') ''b|g'')"
  using cursor_separator_in_package_name [of "''a''" "''b''" "''g''"] by simp

text \<open>whatever limit a client sends, a page holds between 1 and 200 rows, and a request is accepted
  only if its time range is not empty by construction and its cursor was issued for the same order
  with an anchor of the type of the sort column.\<close>
theorem page_request_checked:
  assumes "is_u32 (pr_limit r)"
  shows "1 \<le> effective_limit r \<and> effective_limit r \<le> 200 \<and>
         (page_validate r = Inr () \<longleftrightarrow>
            (\<forall>a b. time_from_ms (pr_filter r) = Some a \<longrightarrow> time_to_ms (pr_filter r) = Some b \<longrightarrow> a \<le> b) \<and>
            (\<forall>c. pr_cursor r = Some c \<longrightarrow> cur_sort c = pr_sort r \<and>
               ((\<exists>s. anchor c = AText s) \<longleftrightarrow> anchor_is_text (pr_sort r))))"
  using assms
  by (auto simp: effective_limit_def DEFAULT_PAGE_LIMIT_def MAX_PAGE_LIMIT_def is_u32_def
      page_validate_def filter_validate_def validate_for_def Let_def
      split: option.splits sum.splits CursorAnchor.splits if_splits)

theorem page_request_checked_witness:
  "effective_limit \<lparr>pr_filter = filter_default, pr_sort = LastSeenDesc, pr_cursor = None, pr_limit = 5000\<rparr> \<le> 200"
  using page_request_checked [of "\<lparr>pr_filter = filter_default, pr_sort = LastSeenDesc, pr_cursor = None,
      pr_limit = 5000\<rparr>"]
  by (simp add: is_u32_def u32_max_def)

end
