(* ===== verification/Payload.thy ===== *)
theory Payload
  imports Wire "HOL-Library.AList"
begin

text \<open>
  \<^verbatim>\<open>cch_store/src/payload.rs\<close>: the payload files beside the index.  The files under the payload root
  are an association list from relative paths to their bytes.  Compression (crate \<^verbatim>\<open>zstd\<close>) and
  reading a collector's file are parameters; the failures of the file system are a record of flags.
\<close>

section \<open>Store errors\<close>

text \<open>\<^verbatim>\<open>StoreError\<close> without the operating system's error objects.\<close>

datatype StoreError =
  Sqlite
| StoreIo string
| Compress
| Decompress
| Memfd
| BadPayloadPath string
| SchemaTooNew int int
| RecordNotFound string
| GroupNotFound string
| PayloadUnavailable string
| RequestError WireError
| Poisoned

definition to_wire :: "(StoreError \<Rightarrow> string) \<Rightarrow> StoreError \<Rightarrow> WireError" where
  "to_wire to_string e =
     (case e of
        RequestError err \<Rightarrow> err
      | RecordNotFound _ \<Rightarrow> wire_error NotFound (to_string e)
      | GroupNotFound _ \<Rightarrow> wire_error NotFound (to_string e)
      | PayloadUnavailable _ \<Rightarrow> wire_error NotFound (to_string e)
      | _ \<Rightarrow> wire_error Internal (to_string e))"

section \<open>Cutting text\<close>

definition bytes_is_boundary :: "u8 list \<Rightarrow> nat \<Rightarrow> bool" where
  "bytes_is_boundary bytes i \<longleftrightarrow>
     (if i < length bytes then \<not> (0x80 \<le> unat (bytes ! i) \<and> unat (bytes ! i) \<le> 0xBF)
      else i = length bytes)"

fun cut_down :: "u8 list \<Rightarrow> nat \<Rightarrow> nat" where
  "cut_down bytes 0 = 0"
| "cut_down bytes (Suc n) = (if bytes_is_boundary bytes (Suc n) then Suc n else cut_down bytes n)"

definition truncate_utf8 :: "u8 list \<Rightarrow> nat \<Rightarrow> u8 list" where
  "truncate_utf8 bytes max_bytes =
     (if length bytes \<le> max_bytes then bytes
      else (let e = cut_down bytes max_bytes in take (if e = 0 then max_bytes else e) bytes))"

section \<open>Paths\<close>

definition relative_path_for :: "RecordId \<Rightarrow> string" where
  "relative_path_for i = take 2 (as_str i) @ ''/'' @ as_str i @ ''.zst''"

text \<open>\<^verbatim>\<open>Path::components\<close> of a Unix path: a leading slash is the root, a leading dot the current
  directory, two dots the parent; empty pieces and later single dots disappear.\<close>

datatype Component = RootDir | CurDir | ParentDir | Normal string

fun piece_components :: "string list \<Rightarrow> Component list" where
  "piece_components [] = []"
| "piece_components (p # ps) =
     (if p = [] \<or> p = ''.'' then piece_components ps
      else (if p = ''..'' then ParentDir else Normal p) # piece_components ps)"

definition components :: "string \<Rightarrow> Component list" where
  "components s =
     (case split_on CHR ''/'' s of
        [] \<Rightarrow> []
      | p # ps \<Rightarrow>
          (if s = [] then []
           else if p = [] then RootDir # piece_components ps
           else if p = ''.'' then CurDir # piece_components ps
           else piece_components (p # ps)))"

fun is_normal :: "Component \<Rightarrow> bool" where
  "is_normal (Normal _) = True"
| "is_normal _ = False"

text \<open>The resolved path is the payload root followed by the components of the relative path.\<close>

definition resolve :: "Component list \<Rightarrow> string \<Rightarrow> StoreError + Component list" where
  "resolve root relative_path =
     (if \<not> list_all is_normal (components relative_path) \<or> relative_path = []
      then Inl (BadPayloadPath relative_path)
      else Inr (root @ components relative_path))"

section \<open>Writing, reading and deleting\<close>

type_synonym files = "(string \<times> u8 list) list"

record FsFaults =
  fs_mkdir_fails :: bool
  fs_create_fails :: bool
  fs_write_fails :: "nat option"
  fs_unlink_fails :: "string list"

definition no_faults :: FsFaults where
  "no_faults = \<lparr>fs_mkdir_fails = False, fs_create_fails = False, fs_write_fails = None,
                fs_unlink_fails = []\<rparr>"

record WrittenPayload =
  relative_path :: string
  stored_bytes :: nat
  text_bytes :: nat
  written_codec :: PayloadCodec
  written_state :: PayloadState

definition read_source :: "(string \<Rightarrow> u8 list option) \<Rightarrow> PayloadSource \<Rightarrow> StoreError + u8 list" where
  "read_source read_file source =
     (case source of
        NoPayload \<Rightarrow> Inr []
      | Inline bytes \<Rightarrow> Inr bytes
      | FilePath path \<Rightarrow> (case read_file path of None \<Rightarrow> Inl (StoreIo path) | Some b \<Rightarrow> Inr b))"

definition payload_write ::
  "(string \<Rightarrow> u8 list option) \<Rightarrow> (u8 list \<Rightarrow> u8 list option) \<Rightarrow> FsFaults \<Rightarrow> RecordId \<Rightarrow> PayloadSource \<Rightarrow> nat \<Rightarrow>
   files \<Rightarrow> (StoreError + WrittenPayload option) \<times> files" where
  "payload_write read_file zstd faults rid source max_bytes fs =
     (case read_source read_file source of
        Inl e \<Rightarrow> (Inl e, fs)
      | Inr raw \<Rightarrow>
          if raw = [] then (Inr None, fs)
          else
            (let (bytes, st) = (if length raw > max_bytes
                                then (truncate_utf8 raw max_bytes, Truncated) else (raw, Present));
                 rel = relative_path_for rid
             in if fs_mkdir_fails faults then (Inl (StoreIo rel), fs)
                else
                  (case zstd bytes of
                     None \<Rightarrow> (Inl Compress, fs)
                   | Some compressed \<Rightarrow>
                       if fs_create_fails faults then (Inl (StoreIo rel), fs)
                       else
                         (case fs_write_fails faults of
                            Some n \<Rightarrow> (Inl (StoreIo rel), AList.update rel (take n compressed) fs)
                          | None \<Rightarrow>
                              (Inr (Some \<lparr>relative_path = rel, stored_bytes = length compressed,
                                          text_bytes = length bytes, written_codec = Zstd,
                                          written_state = st\<rparr>),
                               AList.update rel compressed fs)))))"

definition payload_read_bytes ::
  "(u8 list \<Rightarrow> u8 list option) \<Rightarrow> files \<Rightarrow> string \<Rightarrow> PayloadCodec \<Rightarrow> StoreError + u8 list" where
  "payload_read_bytes unzstd fs rel cdc =
     (case resolve [] rel of
        Inl e \<Rightarrow> Inl e
      | Inr _ \<Rightarrow>
          (case map_of fs rel of
             None \<Rightarrow> Inl (StoreIo rel)
           | Some content \<Rightarrow>
               (case cdc of
                  Raw \<Rightarrow> Inr content
                | Zstd \<Rightarrow> (case unzstd content of None \<Rightarrow> Inl Decompress | Some b \<Rightarrow> Inr b))))"

text \<open>The chunk, the nxt offset and the end flag of \<^verbatim>\<open>read_chunk\<close>; \<^verbatim>\<open>from_utf8_lossy\<close> of the chunk is
  what travels.\<close>

definition chunk_of :: "u8 list \<Rightarrow> nat \<Rightarrow> nat \<Rightarrow> u8 list \<times> nat \<times> bool" where
  "chunk_of bytes offset len =
     (let start = min offset (length bytes);
          requested_end = min (start + len) (length bytes);
          chunk = truncate_utf8 (drop start bytes) (requested_end - start);
          next_offset = start + length chunk
      in (chunk, next_offset, next_offset \<ge> length bytes))"

definition read_chunk ::
  "(u8 list \<Rightarrow> u8 list option) \<Rightarrow> files \<Rightarrow> string \<Rightarrow> PayloadCodec \<Rightarrow> nat \<Rightarrow> nat \<Rightarrow>
   StoreError + u8 list \<times> nat \<times> bool" where
  "read_chunk unzstd fs rel cdc offset len =
     (case payload_read_bytes unzstd fs rel cdc of
        Inl e \<Rightarrow> Inl e
      | Inr bytes \<Rightarrow> Inr (chunk_of bytes offset len))"

definition payload_delete :: "FsFaults \<Rightarrow> string \<Rightarrow> files \<Rightarrow> (StoreError + unit) \<times> files" where
  "payload_delete faults rel fs =
     (case resolve [] rel of
        Inl e \<Rightarrow> (Inl e, fs)
      | Inr _ \<Rightarrow>
          if rel \<in> set (map fst fs) \<and> rel \<in> set (fs_unlink_fails faults) then (Inl (StoreIo rel), fs)
          else (Inr (), AList.delete rel fs))"

definition remove_orphans :: "FsFaults \<Rightarrow> string list \<Rightarrow> files \<Rightarrow> nat \<times> files" where
  "remove_orphans faults referenced fs =
     (let keep = (\<lambda>(rel, _). rel \<in> set referenced \<or> rel \<in> set (fs_unlink_fails faults))
      in (length (filter (\<lambda>f. \<not> keep f) fs), filter keep fs))"

definition disk_bytes :: "files \<Rightarrow> nat" where
  "disk_bytes fs = sum_list (map (\<lambda>(_, content). length content) fs)"

section \<open>Lemmas\<close>











lemma piece_components_slash_free:
  "list_all is_normal (piece_components ps) \<longleftrightarrow> ''..'' \<notin> set ps"
  by (induction ps) auto

lemma resolve_relative_path:
  assumes "parse s = Some i"
  shows "resolve root (relative_path_for i) =
     Inr (root @ [Normal (take 2 (as_str i)), Normal (as_str i @ ''.zst'')])"
proof -
  have s: "length (as_str i) = 26" "set (as_str i) \<subseteq> set ALPHABET"
    using parse_SomeD [OF assms] by auto
  have a: "CHR ''/'' \<notin> set ALPHABET" "CHR ''.'' \<notin> set ALPHABET" by (simp_all add: ALPHABET_def)
  then have f: "CHR ''/'' \<notin> set (take 2 (as_str i))" "CHR ''.'' \<notin> set (take 2 (as_str i))"
    "CHR ''/'' \<notin> set (as_str i @ ''.zst'')"
    using s by (auto dest: in_set_takeD)
  have "split_on CHR ''/'' (relative_path_for i) = [take 2 (as_str i), as_str i @ ''.zst'']"
    using f split_on_append [OF f(1), of "as_str i @ ''.zst''"]
    by (simp add: relative_path_for_def split_on_fresh)
  moreover have "take 2 (as_str i) \<noteq> []" "take 2 (as_str i) \<noteq> ''.''" "take 2 (as_str i) \<noteq> ''..''"
    using f s(1) by auto
  moreover have "as_str i @ ''.zst'' \<noteq> ''.''" "as_str i @ ''.zst'' \<noteq> ''..''"
    using s(1) by (metis append_is_Nil_conv length_0_conv list.simps(3) self_append_conv2 zero_neq_numeral
        append_eq_Cons_conv length_append numeral_eq_iff list.sel(3))+
  ultimately show ?thesis
    by (simp add: resolve_def components_def relative_path_for_def)
qed



section \<open>Properties\<close>



text \<open>a stored payload path is only used when it consists of plain names, so the resolved path is the
  payload root followed by names and can never leave it; the paths the store itself generates are
  always accepted.\<close>
theorem payload_path_confined:
  "(\<forall>p. resolve root rel = Inr p \<longrightarrow> (\<exists>names. p = root @ map Normal names \<and> names \<noteq> [] \<and> ''..'' \<notin> set names)) \<and>
   (\<forall>s i. parse s = Some i \<longrightarrow>
      resolve root (relative_path_for i) = Inr (root @ [Normal (take 2 s), Normal (s @ ''.zst'')]))"
proof -
  have n: "\<exists>names. cs = map Normal names" if "list_all is_normal cs" for cs
    using that
  proof (induction cs)
    case (Cons c cs)
    then obtain x names where "c = Normal x" "cs = map Normal names" by (cases c) auto
    then have "c # cs = map Normal (x # names)" by simp
    then show ?case by (rule exI)
  qed simp
  have dd: "Normal ''..'' \<notin> set (piece_components ps)" for ps by (induction ps) auto
  have ne: "rel \<noteq> [] \<Longrightarrow> list_all is_normal (components rel) \<Longrightarrow> components rel \<noteq> [] \<and> Normal ''..'' \<notin> set (components rel)"
    using dd by (auto simp: components_def split: list.splits if_splits)
  have "\<exists>names. p = root @ map Normal names \<and> names \<noteq> [] \<and> ''..'' \<notin> set names" if "resolve root rel = Inr p" for p
  proof -
    have r: "rel \<noteq> []" "list_all is_normal (components rel)" "p = root @ components rel"
      using that by (auto simp: resolve_def split: if_splits)
    obtain names where "components rel = map Normal names" using n [OF r(2)] by blast
    then show ?thesis using ne [OF r(1,2)] r(3) by (intro exI [of _ names]) auto
  qed
  then show ?thesis using resolve_relative_path parse_SomeD by metis
qed

theorem payload_path_confined_witness:
  "resolve [Normal ''p''] ''00/../x'' = Inl (BadPayloadPath ''00/../x'') \<and>
   (\<exists>names. [Normal ''p'', Normal ''a'', Normal ''b''] = [Normal ''p''] @ map Normal names \<and> names \<noteq> [] \<and> ''..'' \<notin> set names)"
proof -
  have "resolve [Normal ''p''] ''a/b'' = Inr [Normal ''p'', Normal ''a'', Normal ''b'']" by code_simp
  moreover have "resolve [Normal ''p''] ''00/../x'' = Inl (BadPayloadPath ''00/../x'')" by code_simp
  ultimately show ?thesis using payload_path_confined [of "[Normal ''p'']" "''a/b''"] by blast
qed

text \<open>a payload that was written is read back as the collector's bytes, cut at a character boundary below
  the limit exactly when they exceed it, for any compressor whose output decompresses to its input.\<close>
theorem payload_write_read:
  assumes "payload_write rf z fl i src cap fs = (Inr (Some w), fs')"
    and "read_source rf src = Inr raw" and "parse s = Some i"
    and "\<And>b c. z b = Some c \<Longrightarrow> unz c = Some b"
  shows "payload_read_bytes unz fs' (relative_path w) (written_codec w) =
           Inr (if length raw > cap then truncate_utf8 raw cap else raw) \<and>
         (written_state w = Truncated \<longleftrightarrow> length raw > cap) \<and> is_readable (written_state w)"
proof -
  let ?bytes = "if length raw > cap then truncate_utf8 raw cap else raw"
  obtain c where c: "z ?bytes = Some c" "fs' = AList.update (relative_path_for i) c fs"
    "relative_path w = relative_path_for i" "written_codec w = Zstd"
    "written_state w = (if length raw > cap then Truncated else Present)"
    using assms(1,2) by (auto simp: payload_write_def Let_def split: if_splits option.splits)
  show ?thesis
    using c assms(4) [OF c(1)] resolve_relative_path [OF assms(3), of "[]"]
    by (simp add: payload_read_bytes_def update_conv)
qed

theorem payload_write_read_witness:
  "payload_read_bytes Some (snd (payload_write (\<lambda>_. None) Some no_faults (encode 1) (Inline [1, 2, 3]) 2 []))
     (relative_path_for (encode 1)) Zstd = Inr [1, 2]"
proof -
  let ?w = "payload_write (\<lambda>_. None) Some no_faults (encode 1) (Inline [1, 2, 3]) 2 []"
  let ?p = "\<lparr>relative_path = relative_path_for (encode 1), stored_bytes = Suc (Suc 0), text_bytes = Suc (Suc 0),
      written_codec = Zstd, written_state = Truncated\<rparr>"
  have t: "truncate_utf8 [1, 2, 3] 2 = [1, 2]" by code_simp
  have "?w = (Inr (Some ?p), snd ?w)"
    by (simp add: payload_write_def read_source_def no_faults_def t Let_def)
  from payload_write_read [OF this _ parse_encode, of "[1, 2, 3]" Some] t show ?thesis
    by (simp add: read_source_def)
qed

end
