(* ===== verification/Store.thy ===== *)
theory Store
  imports Merge Payload "HOL-Library.Product_Lexorder"
begin

text \<open>
  \<^verbatim>\<open>cch_store\<close>: the tables of the SQLite index (\<^verbatim>\<open>schema.rs\<close>), the mapping of rows (\<^verbatim>\<open>sql.rs\<close>), and the
  operations that write to it (\<^verbatim>\<open>write.rs\<close>) and open it (\<^verbatim>\<open>lib.rs\<close>).

  A table is the list of its rows, and each SQL statement is the list operation it denotes.  A
  statement that violates a constraint, or a transaction that fails, makes the operation return
  \<^const>\<open>Sqlite\<close> with the tables as they were before the transaction.
\<close>

section \<open>Tables\<close>

record GroupRow =
  g_group_id :: string
  g_package_name :: string
  g_process_name :: string
  g_user_id :: int
  g_kind :: int
  g_is_system_app :: bool
  g_package_installed :: bool
  g_is_main_process :: bool
  g_self_handled :: bool
  g_summary_class :: "string option"
  g_summary_text :: "string option"
  g_occurrence :: int
  g_first_seen_ms :: int
  g_last_seen_ms :: int
  g_payload_bytes :: int
  g_muted_until_ms :: "int option"

record RecordRow =
  r_id :: string
  r_group_id :: string
  r_happened_at_ms :: int
  r_record_pid :: int
  r_source_bits :: int
  r_app_version_name :: "string option"
  r_app_version_code :: "int option"
  r_is_foreground :: "bool option"
  r_is_repeating :: bool
  r_dropped_count :: "int option"
  r_payload_path :: "string option"
  r_payload_bytes :: int
  r_payload_codec :: int
  r_payload_state :: int

record Db =
  crash_group :: "GroupRow list"
  crash_record :: "RecordRow list"
  ingested_source :: "(string \<times> int) list"

definition empty_db :: Db where
  "empty_db = \<lparr>crash_group = [], crash_record = [], ingested_source = []\<rparr>"

section \<open>Rows as transfer objects\<close>

definition map_group :: "GroupRow \<Rightarrow> GroupSummary" where
  "map_group g =
     \<lparr>gs_group_id = g_group_id g, gs_package_name = g_package_name g,
      gs_process_name = g_process_name g, gs_user_id = g_user_id g,
      gs_kind = unwrap_or (kind_from_i64 (g_kind g)) JavaException,
      gs_is_system_app = g_is_system_app g, gs_is_main_process = g_is_main_process g,
      gs_self_handled = g_self_handled g, gs_summary_class = g_summary_class g,
      gs_summary_text = g_summary_text g, gs_occurrence = max (g_occurrence g) 0,
      gs_first_seen_ms = g_first_seen_ms g, gs_last_seen_ms = g_last_seen_ms g,
      gs_payload_bytes = max (g_payload_bytes g) 0, gs_muted_until_ms = g_muted_until_ms g,
      gs_package_installed = g_package_installed g\<rparr>"

definition fallback_id :: RecordId where
  "fallback_id = fst (Record_Id.next_id new_generator 0)"

definition bits_of_column :: "int \<Rightarrow> 32 word" where
  "bits_of_column v = (if is_u32 v then word_of_int v else 0)"

definition map_record :: "RecordRow \<Rightarrow> RecordSummary" where
  "map_record r =
     \<lparr>rs_id = unwrap_or (parse (r_id r)) fallback_id, rs_group_id = r_group_id r,
      rs_happened_at_ms = r_happened_at_ms r, rs_pid = r_record_pid r,
      rs_sources = from_bits_truncate (bits_of_column (r_source_bits r)),
      rs_app_version_name = r_app_version_name r, rs_app_version_code = r_app_version_code r,
      rs_is_foreground = r_is_foreground r, rs_is_repeating = r_is_repeating r,
      rs_dropped_count = map_option (\<lambda>c. if is_u32 c then c else u32_max) (r_dropped_count r),
      rs_payload_bytes = max (r_payload_bytes r) 0,
      rs_payload_state = unwrap_or (pstate_from_i64 (r_payload_state r)) Evicted\<rparr>"

definition codec_from_i64 :: "int \<Rightarrow> PayloadCodec" where
  "codec_from_i64 v = unwrap_or (pcodec_from_i64 v) Zstd"

section \<open>Statements of an insert\<close>

text \<open>The group row a record inserts, and the \<^verbatim>\<open>ON CONFLICT DO UPDATE\<close> of an existing one.\<close>

definition new_group_row :: "string \<Rightarrow> CrashRecord \<Rightarrow> int \<Rightarrow> GroupRow" where
  "new_group_row gid r bytes =
     \<lparr>g_group_id = gid, g_package_name = package_name r, g_process_name = process_name r,
      g_user_id = user_id r, g_kind = kind_as_i64 (kind r), g_is_system_app = is_system_app r,
      g_package_installed = package_installed r, g_is_main_process = is_main_process r,
      g_self_handled = self_handled r, g_summary_class = class_name (summary r),
      g_summary_text = summary_text (summary r), g_occurrence = 1,
      g_first_seen_ms = happened_at_ms r, g_last_seen_ms = happened_at_ms r,
      g_payload_bytes = bytes, g_muted_until_ms = None\<rparr>"

definition on_conflict :: "GroupRow \<Rightarrow> GroupRow \<Rightarrow> GroupRow" where
  "on_conflict old excluded =
     old\<lparr>g_occurrence := g_occurrence old + 1,
         g_first_seen_ms := min (g_first_seen_ms old) (g_first_seen_ms excluded),
         g_last_seen_ms := max (g_last_seen_ms old) (g_last_seen_ms excluded),
         g_payload_bytes := g_payload_bytes old + g_payload_bytes excluded,
         g_summary_class := opt_or (g_summary_class excluded) (g_summary_class old),
         g_summary_text := opt_or (g_summary_text excluded) (g_summary_text old),
         g_self_handled := g_self_handled excluded,
         g_is_system_app := g_is_system_app excluded,
         g_package_installed := g_package_installed excluded\<rparr>"

fun upsert_group :: "GroupRow \<Rightarrow> GroupRow list \<Rightarrow> GroupRow list" where
  "upsert_group g [] = [g]"
| "upsert_group g (x # xs) =
     (if g_group_id x = g_group_id g then on_conflict x g # xs else x # upsert_group g xs)"

definition find_group :: "Db \<Rightarrow> string \<Rightarrow> GroupRow option" where
  "find_group d gid = find (\<lambda>g. g_group_id g = gid) (crash_group d)"

definition find_record :: "Db \<Rightarrow> string \<Rightarrow> RecordRow option" where
  "find_record d i = find (\<lambda>r. r_id r = i) (crash_record d)"

definition new_record_row :: "string \<Rightarrow> string \<Rightarrow> CrashRecord \<Rightarrow> bool \<Rightarrow> WrittenPayload option \<Rightarrow> RecordRow" where
  "new_record_row i gid r repeating written =
     \<lparr>r_id = i, r_group_id = gid, r_happened_at_ms = happened_at_ms r, r_record_pid = pid r,
      r_source_bits = uint (sources r), r_app_version_name = app_version_name r,
      r_app_version_code = app_version_code r, r_is_foreground = is_foreground r,
      r_is_repeating = repeating, r_dropped_count = dropped_count r,
      r_payload_path = map_option relative_path written,
      r_payload_bytes = (case written of None \<Rightarrow> 0 | Some w \<Rightarrow> int (stored_bytes w)),
      r_payload_codec = (case written of None \<Rightarrow> 0 | Some w \<Rightarrow> pcodec_as_i64 (written_codec w)),
      r_payload_state =
        pstate_as_i64 (case written of None \<Rightarrow> Absent | Some w \<Rightarrow> written_state w)\<rparr>"

text \<open>\<^verbatim>\<open>INSERT INTO ingested_source .. ON CONFLICT DO NOTHING\<close>.\<close>

definition insert_source :: "int \<Rightarrow> string \<Rightarrow> (string \<times> int) list \<Rightarrow> (string \<times> int) list" where
  "insert_source at k srcs = (if k \<in> set (map fst srcs) then srcs else srcs @ [(k, at)])"

definition insert_sources :: "int \<Rightarrow> string list \<Rightarrow> (string \<times> int) list \<Rightarrow> (string \<times> int) list" where
  "insert_sources at ks srcs = fold (insert_source at) ks srcs"

record Inserted =
  ins_record :: RecordSummary
  ins_group :: GroupSummary
  ins_is_new_group :: bool

text \<open>\<^verbatim>\<open>insert_rows\<close>: one transaction.  \<^term>\<open>tx_fails\<close> is a failure of SQLite itself; a record id that
  is already taken violates the primary key.\<close>

definition insert_rows ::
  "(u8 list \<Rightarrow> u8 list) \<Rightarrow> bool \<Rightarrow> RecordId \<Rightarrow> CrashRecord \<Rightarrow> WrittenPayload option \<Rightarrow> string list \<Rightarrow> int \<Rightarrow>
   Db \<Rightarrow> (StoreError + Inserted) \<times> Db" where
  "insert_rows sha256 tx_fails i r written source_keys ingested_at d =
     (let gid = record_group_id sha256 r;
          is_new = (find_group d gid = None);
          bytes = (case written of None \<Rightarrow> 0 | Some w \<Rightarrow> int (stored_bytes w));
          groups = upsert_group (new_group_row gid r bytes) (crash_group d);
          row = new_record_row (as_str i) gid r (\<not> is_new) written
      in if tx_fails \<or> find_record d (as_str i) \<noteq> None then (Inl Sqlite, d)
         else
           (let d1 = d\<lparr>crash_group := groups, crash_record := crash_record d @ [row]\<rparr>
            in case (find_group d1 gid, find_record d1 (as_str i)) of
                 (Some g, Some rr) \<Rightarrow>
                   (Inr \<lparr>ins_record = map_record rr, ins_group = map_group g, ins_is_new_group = is_new\<rparr>,
                    d1\<lparr>ingested_source := insert_sources ingested_at source_keys (ingested_source d)\<rparr>)
               | _ \<Rightarrow> (Inl Sqlite, d)))"

section \<open>The store\<close>

record Store =
  store_db :: Db
  store_files :: files
  store_ids :: RecordIdGenerator

text \<open>What the outside world does during one call: the collector's files, the compressor, failures of
  the file system and of SQLite.  A transaction fails by what it is about: the id of the record for
  the writes of one record, the name of the statement otherwise.\<close>

record World =
  w_read_file :: "string \<Rightarrow> u8 list option"
  w_zstd :: "u8 list \<Rightarrow> u8 list option"
  w_sha256 :: "u8 list \<Rightarrow> u8 list"
  w_faults :: FsFaults
  w_tx_fails :: "string \<Rightarrow> bool"

definition u64_of :: "int \<Rightarrow> 64 word" where
  "u64_of v = (if v < 0 then 0 else word_of_int v)"

definition store_next_id :: "Store \<Rightarrow> int \<Rightarrow> RecordId \<times> Store" where
  "store_next_id s at =
     (let (i, g) = Record_Id.next_id (store_ids s) (u64_of at) in (i, s\<lparr>store_ids := g\<rparr>))"

definition insert_with_sources ::
  "World \<Rightarrow> CrashRecord \<Rightarrow> RetentionPolicy \<Rightarrow> string list \<Rightarrow> int \<Rightarrow> Store \<Rightarrow> (StoreError + Inserted) \<times> Store" where
  "insert_with_sources w r retn source_keys ingested_at s =
     (let (i, s1) = store_next_id s (happened_at_ms r)
      in case payload_write (w_read_file w) (w_zstd w) (w_faults w) i (payload r)
                (nat (max_payload_bytes_per_record retn)) (store_files s1) of
           (Inl e, fs) \<Rightarrow> (Inl e, s1\<lparr>store_files := fs\<rparr>)
         | (Inr written, fs) \<Rightarrow>
             (case insert_rows (w_sha256 w) (w_tx_fails w (as_str i)) i r written source_keys ingested_at (store_db s1) of
                (Inr ins, d) \<Rightarrow> (Inr ins, s1\<lparr>store_files := fs, store_db := d\<rparr>)
              | (Inl e, d) \<Rightarrow>
                  (case written of
                     None \<Rightarrow> (Inl e, s1\<lparr>store_files := fs, store_db := d\<rparr>)
                   | Some wp \<Rightarrow>
                       (Inl e, s1\<lparr>store_files := snd (payload_delete (w_faults w) (relative_path wp) fs),
                                  store_db := d\<rparr>))))"

definition store_insert :: "World \<Rightarrow> CrashRecord \<Rightarrow> RetentionPolicy \<Rightarrow> Store \<Rightarrow> (StoreError + Inserted) \<times> Store" where
  "store_insert w r retn s = insert_with_sources w r retn [] 0 s"

section \<open>Folding a second view\<close>

text \<open>The rows \<^verbatim>\<open>companion_record\<close> selects from, and the nearest of them.\<close>

definition is_companion :: "Db \<Rightarrow> CrashRecord \<Rightarrow> int \<Rightarrow> RecordRow \<Rightarrow> bool" where
  "is_companion d r window rr \<longleftrightarrow>
     (case find_group d (r_group_id rr) of
        None \<Rightarrow> False
      | Some g \<Rightarrow>
          r_record_pid rr = pid r \<and> g_process_name g = process_name r \<and>
          g_kind g = kind_as_i64 (kind r) \<and> g_user_id g = user_id r \<and>
          happened_at_ms r - window \<le> r_happened_at_ms rr \<and>
          r_happened_at_ms rr \<le> happened_at_ms r + window \<and>
          (r_happened_at_ms rr = happened_at_ms r \<or>
           word_of_int (r_source_bits rr) AND sources r = 0))"

definition companion_record :: "Db \<Rightarrow> CrashRecord \<Rightarrow> int \<Rightarrow> RecordSummary option" where
  "companion_record d r window =
     (if pid r = 0 then None
      else map_option map_record
             (min_by_key (\<lambda>rr. \<bar>r_happened_at_ms rr - happened_at_ms r\<bar>)
                (filter (is_companion d r window) (crash_record d))))"

definition update_records :: "(RecordRow \<Rightarrow> bool) \<Rightarrow> (RecordRow \<Rightarrow> RecordRow) \<Rightarrow> Db \<Rightarrow> Db" where
  "update_records P f d = d\<lparr>crash_record := map (\<lambda>r. if P r then f r else r) (crash_record d)\<rparr>"

definition update_groups :: "(GroupRow \<Rightarrow> bool) \<Rightarrow> (GroupRow \<Rightarrow> GroupRow) \<Rightarrow> Db \<Rightarrow> Db" where
  "update_groups P f d = d\<lparr>crash_group := map (\<lambda>g. if P g then f g else g) (crash_group d)\<rparr>"

definition adopt_payload :: "RecordSummary \<Rightarrow> WrittenPayload \<Rightarrow> Db \<Rightarrow> Db" where
  "adopt_payload existing w d =
     update_groups (\<lambda>g. g_group_id g = rs_group_id existing)
       (\<lambda>g. g\<lparr>g_payload_bytes := g_payload_bytes g + int (stored_bytes w)\<rparr>)
       (update_records (\<lambda>r. r_id r = as_str (rs_id existing))
          (\<lambda>r. r\<lparr>r_payload_path := Some (relative_path w), r_payload_bytes := int (stored_bytes w),
                 r_payload_codec := pcodec_as_i64 (written_codec w),
                 r_payload_state := pstate_as_i64 (written_state w)\<rparr>) d)"

definition fold_rows ::
  "bool \<Rightarrow> RecordSummary \<Rightarrow> CrashRecord \<Rightarrow> WrittenPayload option \<Rightarrow> string list \<Rightarrow> int \<Rightarrow> Db \<Rightarrow>
   (StoreError + RecordSummary) \<times> Db" where
  "fold_rows tx_fails existing r adopted source_keys ingested_at d =
     (let srcs = mask_union (rs_sources existing) (sources r);
          d1 = update_records (\<lambda>rr. r_id rr = as_str (rs_id existing))
                 (\<lambda>rr. rr\<lparr>r_source_bits := uint srcs\<rparr>) d;
          d2 = (case adopted of None \<Rightarrow> d1 | Some w \<Rightarrow> adopt_payload existing w d1);
          d3 = d2\<lparr>ingested_source := insert_sources ingested_at source_keys (ingested_source d2)\<rparr>
      in if tx_fails then (Inl Sqlite, d)
         else (case find_record d3 (as_str (rs_id existing)) of
                 None \<Rightarrow> (Inl Sqlite, d)
               | Some rr \<Rightarrow> (Inr (map_record rr), d3)))"

definition fold_into_record ::
  "World \<Rightarrow> RecordSummary \<Rightarrow> CrashRecord \<Rightarrow> RetentionPolicy \<Rightarrow> string list \<Rightarrow> int \<Rightarrow> Store \<Rightarrow>
   (StoreError + RecordSummary) \<times> Store" where
  "fold_into_record w existing r retn source_keys ingested_at s =
     (case (if rs_payload_state existing = Absent
            then payload_write (w_read_file w) (w_zstd w) (w_faults w) (rs_id existing) (payload r)
                   (nat (max_payload_bytes_per_record retn)) (store_files s)
            else (Inr None, store_files s)) of
        (Inl e, fs) \<Rightarrow> (Inl e, s\<lparr>store_files := fs\<rparr>)
      | (Inr adopt, fs) \<Rightarrow>
          (case fold_rows (w_tx_fails w (as_str (rs_id existing))) existing r adopt source_keys ingested_at (store_db s) of
             (Inr folded, d) \<Rightarrow> (Inr folded, s\<lparr>store_files := fs, store_db := d\<rparr>)
           | (Inl e, d) \<Rightarrow>
               (case adopt of
                  None \<Rightarrow> (Inl e, s\<lparr>store_files := fs, store_db := d\<rparr>)
                | Some wp \<Rightarrow>
                    (Inl e, s\<lparr>store_files := snd (payload_delete (w_faults w) (relative_path wp) fs),
                              store_db := d\<rparr>))))"

section \<open>Small writes\<close>

definition group_package_names :: "Db \<Rightarrow> string list" where
  "group_package_names d = sort (remdups (map g_package_name (crash_group d)))"

text \<open>One \<^verbatim>\<open>UPDATE\<close> per pair; the count is the number of rows each statement matched.\<close>

fun apply_flags :: "(string \<times> bool) list \<Rightarrow> Db \<Rightarrow> nat \<times> Db" where
  "apply_flags [] d = (0, d)"
| "apply_flags ((name, sys) # rest) d =
     (let P = (\<lambda>g. g_package_name g = name \<and> (g_is_system_app g \<noteq> sys \<or> \<not> g_package_installed g));
          n = length (filter P (crash_group d));
          (m, d') = apply_flags rest
             (update_groups P (\<lambda>g. g\<lparr>g_is_system_app := sys, g_package_installed := True\<rparr>) d)
      in (n + m, d'))"

definition apply_package_system_flags :: "bool \<Rightarrow> (string \<times> bool) list \<Rightarrow> Db \<Rightarrow> (StoreError + nat) \<times> Db" where
  "apply_package_system_flags tx_fails flags d =
     (if flags = [] then (Inr 0, d)
      else if tx_fails then (Inl Sqlite, d)
      else (let (n, d') = apply_flags flags d in (Inr n, d')))"

definition was_ingested :: "Db \<Rightarrow> string \<Rightarrow> bool" where
  "was_ingested d k \<longleftrightarrow> k \<in> set (map fst (ingested_source d))"

definition mark_ingested :: "string \<Rightarrow> int \<Rightarrow> Db \<Rightarrow> bool \<times> Db" where
  "mark_ingested k now d =
     (k \<notin> set (map fst (ingested_source d)),
      d\<lparr>ingested_source := insert_source now k (ingested_source d)\<rparr>)"

definition set_mute :: "(GroupRow \<Rightarrow> bool) \<Rightarrow> int option \<Rightarrow> Db \<Rightarrow> nat \<times> Db" where
  "set_mute P until d =
     (length (filter P (crash_group d)), update_groups P (\<lambda>g. g\<lparr>g_muted_until_ms := until\<rparr>) d)"

definition set_group_mute :: "string \<Rightarrow> int option \<Rightarrow> Db \<Rightarrow> bool \<times> Db" where
  "set_group_mute gid until d =
     (let (n, d') = set_mute (\<lambda>g. g_group_id g = gid) until d in (n > 0, d'))"

definition set_package_mute :: "string \<Rightarrow> int option \<Rightarrow> Db \<Rightarrow> nat \<times> Db" where
  "set_package_mute package until d = set_mute (\<lambda>g. g_package_name g = package) until d"

definition clear_all_mutes :: "Db \<Rightarrow> nat \<times> Db" where
  "clear_all_mutes d = set_mute (\<lambda>g. g_muted_until_ms g \<noteq> None) None d"

section \<open>Opening\<close>

definition max_id :: "Db \<Rightarrow> string option" where
  "max_id d = (if crash_record d = [] then None else Some (Max (set (map r_id (crash_record d)))))"

definition resume_ids :: "Db \<Rightarrow> RecordIdGenerator \<Rightarrow> RecordIdGenerator" where
  "resume_ids d g =
     (case max_id d of None \<Rightarrow> g
      | Some latest \<Rightarrow> (case parse latest of None \<Rightarrow> g | Some i \<Rightarrow> resume_after g i))"

definition referenced_payload_paths :: "Db \<Rightarrow> string list" where
  "referenced_payload_paths d = List.map_filter r_payload_path (crash_record d)"

definition SCHEMA_VERSION :: int where "SCHEMA_VERSION = 2"

text \<open>\<^verbatim>\<open>schema::initialize\<close> on a database whose \<^verbatim>\<open>user_version\<close> is \<^term>\<open>found\<close>; every row of the model
  already has the column a migration would add with its default.\<close>

definition initialize :: "int \<Rightarrow> StoreError + int" where
  "initialize found =
     (if found > SCHEMA_VERSION then Inl (SchemaTooNew found SCHEMA_VERSION) else Inr SCHEMA_VERSION)"

definition store_open :: "FsFaults \<Rightarrow> int \<Rightarrow> Db \<Rightarrow> files \<Rightarrow> StoreError + Store" where
  "store_open faults found d fs =
     (case initialize found of
        Inl e \<Rightarrow> Inl e
      | Inr _ \<Rightarrow>
          Inr \<lparr>store_db = d,
               store_files = snd (remove_orphans faults (referenced_payload_paths d) fs),
               store_ids = resume_ids d new_generator\<rparr>)"

end
