(* ===== verification/Store_Ops.thy ===== *)
theory Store_Ops
  imports Store
begin

text \<open>
  \<^verbatim>\<open>cch_store\<close>: retention (\<^verbatim>\<open>retention.rs\<close>), queries and deletion (\<^verbatim>\<open>read.rs\<close>) and the SQL fragments they
  are built from (\<^verbatim>\<open>sql.rs\<close>).
\<close>

section \<open>LIKE\<close>

text \<open>SQLite's \<^verbatim>\<open>LIKE\<close> with \<^verbatim>\<open>ESCAPE '\'\<close>: percent matches any run, underscore one character, and ASCII
  letters compare without case.\<close>

definition same_ci :: "char \<Rightarrow> char \<Rightarrow> bool" where
  "same_ci a b \<longleftrightarrow> ascii_lower a = ascii_lower b"

fun like_tokens :: "string \<Rightarrow> char option list" where
  "like_tokens [] = []"
| "like_tokens (c # cs) =
     (if c = CHR 0x5C then (case cs of [] \<Rightarrow> [Some c] | d # ds \<Rightarrow> Some d # like_tokens ds)
      else if c = CHR ''%'' then None # like_tokens cs
      else Some c # like_tokens cs)"

text \<open>A token is a literal character or the run wildcard; the patterns of the program contain no
  unescaped underscore.\<close>

fun like_match :: "char option list \<Rightarrow> string \<Rightarrow> bool" where
  "like_match [] s = (s = [])"
| "like_match (None # ts) [] = like_match ts []"
| "like_match (None # ts) (c # s) = (like_match ts (c # s) \<or> like_match (None # ts) s)"
| "like_match (Some t # ts) [] = False"
| "like_match (Some t # ts) (c # s) = (same_ci t c \<and> like_match ts s)"

definition sql_like :: "string \<Rightarrow> string \<Rightarrow> bool" where
  "sql_like pattern text = like_match (like_tokens pattern) text"

definition like_pattern :: "string \<Rightarrow> string" where
  "like_pattern q =
     ''%'' @ concat (map (\<lambda>c. if c \<in> {CHR 0x5C, CHR ''%'', CHR ''_''} then [CHR 0x5C, c] else [c]) q) @ ''%''"

section \<open>Retention\<close>

definition MS_PER_DAY :: int where "MS_PER_DAY = 24 * 60 * 60 * 1000"
definition LOG_SOURCE_KEY_TTL_MS :: int where "LOG_SOURCE_KEY_TTL_MS = 24 * 60 * 60 * 1000"

record SweepOutcome =
  removed_records :: nat
  removed_groups :: nat
  evicted_payloads :: nat
  reclaimed_bytes :: int
  removed_source_keys :: nat

definition did_nothing :: "SweepOutcome \<Rightarrow> bool" where
  "did_nothing o1 \<longleftrightarrow> removed_records o1 = 0 \<and> removed_groups o1 = 0 \<and> evicted_payloads o1 = 0 \<and>
     reclaimed_bytes o1 = 0 \<and> removed_source_keys o1 = 0"

definition prune_ingested_sources :: "int \<Rightarrow> int \<Rightarrow> Db \<Rightarrow> nat \<times> Db" where
  "prune_ingested_sources now artifact_cutoff d =
     (let log_cutoff = i64_saturating_sub now LOG_SOURCE_KEY_TTL_MS;
          drop_it = (\<lambda>(k, at). \<not> sql_like ''marker:%'' k \<and>
                       at < (if sql_like ''logd:%'' k then log_cutoff else artifact_cutoff))
      in (length (filter drop_it (ingested_source d)),
          d\<lparr>ingested_source := filter (\<lambda>s. \<not> drop_it s) (ingested_source d)\<rparr>))"

text \<open>Unlinking a list of payload files stops at the first failure.\<close>

fun delete_files :: "FsFaults \<Rightarrow> string list \<Rightarrow> files \<Rightarrow> (StoreError + unit) \<times> files" where
  "delete_files faults [] fs = (Inr (), fs)"
| "delete_files faults (p # ps) fs =
     (case payload_delete faults p fs of
        (Inl e, fs1) \<Rightarrow> (Inl e, fs1)
      | (Inr _, fs1) \<Rightarrow> delete_files faults ps fs1)"

definition less_group_bytes :: "string \<Rightarrow> int \<Rightarrow> Db \<Rightarrow> Db" where
  "less_group_bytes gid bytes d =
     update_groups (\<lambda>g. g_group_id g = gid)
       (\<lambda>g. g\<lparr>g_payload_bytes := max 0 (g_payload_bytes g - bytes)\<rparr>) d"

definition delete_row :: "string \<Rightarrow> Db \<Rightarrow> Db" where
  "delete_row i d = d\<lparr>crash_record := filter (\<lambda>r. r_id r \<noteq> i) (crash_record d)\<rparr>"

definition remove_record :: "RecordRow \<Rightarrow> Db \<Rightarrow> Db" where
  "remove_record r d = less_group_bytes (r_group_id r) (r_payload_bytes r) (delete_row (r_id r) d)"

definition delete_records_where ::
  "World \<Rightarrow> string \<Rightarrow> (RecordRow \<Rightarrow> bool) \<Rightarrow> Store \<Rightarrow> (StoreError + nat) \<times> Store" where
  "delete_records_where w name P s =
     (let ids = filter P (crash_record (store_db s))
      in if ids = [] then (Inr 0, s)
         else
           (case delete_files (w_faults w) (List.map_filter r_payload_path ids) (store_files s) of
              (Inl e, fs) \<Rightarrow> (Inl e, s\<lparr>store_files := fs\<rparr>)
            | (Inr _, fs) \<Rightarrow>
                if w_tx_fails w name then (Inl Sqlite, s\<lparr>store_files := fs\<rparr>)
                else (Inr (length ids),
                      s\<lparr>store_files := fs, store_db := fold remove_record ids (store_db s)\<rparr>)))"

text \<open>The order of the window function and of the trims: by time, then by id.\<close>

definition record_key :: "RecordRow \<Rightarrow> int \<times> string" where
  "record_key r = (r_happened_at_ms r, r_id r)"

text \<open>\<^verbatim>\<open>ROW_NUMBER() OVER (PARTITION BY group_id ORDER BY happened_at_ms DESC, id DESC)\<close>.\<close>

definition row_number :: "Db \<Rightarrow> RecordRow \<Rightarrow> nat" where
  "row_number d r =
     Suc (length (filter (\<lambda>x. r_group_id x = r_group_id r \<and> record_key r < record_key x) (crash_record d)))"

definition trim_each_group :: "World \<Rightarrow> nat \<Rightarrow> Store \<Rightarrow> (StoreError + nat) \<times> Store" where
  "trim_each_group w keep s =
     delete_records_where w ''group''
       (\<lambda>r. r_id r \<in> set (map r_id (filter (\<lambda>x. row_number (store_db s) x > keep) (crash_record (store_db s))))) s"

definition oldest_first :: "RecordRow list \<Rightarrow> RecordRow list" where
  "oldest_first rs = sort_key record_key rs"

definition trim_total :: "World \<Rightarrow> nat \<Rightarrow> Store \<Rightarrow> (StoreError + nat) \<times> Store" where
  "trim_total w keep s =
     (let total = length (crash_record (store_db s))
      in if total \<le> keep then (Inr 0, s)
         else delete_records_where w ''total''
                (\<lambda>r. r_id r \<in> set (map r_id (take (total - keep) (oldest_first (crash_record (store_db s)))))) s)"

definition drop_empty_groups_before :: "int \<Rightarrow> Db \<Rightarrow> nat \<times> Db" where
  "drop_empty_groups_before cutoff d =
     (let gone = (\<lambda>g. g_last_seen_ms g < cutoff \<and> g_group_id g \<notin> set (map r_group_id (crash_record d)))
      in (length (filter gone (crash_group d)),
          d\<lparr>crash_group := filter (\<lambda>g. \<not> gone g) (crash_group d)\<rparr>))"

definition payload_bytes_in_index :: "Db \<Rightarrow> int" where
  "payload_bytes_in_index d =
     max 0 (sum_list (map r_payload_bytes (filter (\<lambda>r. r_payload_path r \<noteq> None) (crash_record d))))"

definition evict_row :: "RecordRow \<Rightarrow> Db \<Rightarrow> Db" where
  "evict_row r d =
     less_group_bytes (r_group_id r) (r_payload_bytes r)
       (update_records (\<lambda>x. r_id x = r_id r)
          (\<lambda>x. x\<lparr>r_payload_path := None, r_payload_bytes := 0,
                 r_payload_state := pstate_as_i64 Evicted\<rparr>) d)"

fun evict_loop ::
  "World \<Rightarrow> int \<Rightarrow> RecordRow list \<Rightarrow> nat \<Rightarrow> int \<Rightarrow> Store \<Rightarrow> (StoreError + nat \<times> int) \<times> Store" where
  "evict_loop w over_by [] evicted reclaimed s = (Inr (evicted, reclaimed), s)"
| "evict_loop w over_by (r # rs) evicted reclaimed s =
     (if over_by = 0 then (Inr (evicted, reclaimed), s)
      else
        (case payload_delete (w_faults w) (unwrap_or (r_payload_path r) []) (store_files s) of
           (Inl e, fs) \<Rightarrow> (Inl e, s\<lparr>store_files := fs\<rparr>)
         | (Inr _, fs) \<Rightarrow>
             if w_tx_fails w (r_id r) then (Inl Sqlite, s\<lparr>store_files := fs\<rparr>)
             else
               (let freed = max 0 (r_payload_bytes r)
                in evict_loop w (max 0 (over_by - freed)) rs (Suc evicted) (reclaimed + freed)
                     (s\<lparr>store_files := fs, store_db := evict_row r (store_db s)\<rparr>))))"

definition evict_payloads :: "World \<Rightarrow> int \<Rightarrow> Store \<Rightarrow> (StoreError + nat \<times> int) \<times> Store" where
  "evict_payloads w max_bytes s =
     (let total = payload_bytes_in_index (store_db s)
      in if total \<le> max_bytes then (Inr (0, 0), s)
         else evict_loop w (total - max_bytes)
                (oldest_first (filter (\<lambda>r. r_payload_path r \<noteq> None \<and> r_payload_state r \<noteq> pstate_as_i64 Evicted)
                   (crash_record (store_db s)))) 0 0 s)"

text \<open>The \<^verbatim>\<open>?\<close> operator on calls that change the store.\<close>

definition bind_store :: "('e + 'a) \<times> 's \<Rightarrow> ('a \<Rightarrow> 's \<Rightarrow> ('e + 'b) \<times> 's) \<Rightarrow> ('e + 'b) \<times> 's" where
  "bind_store m f = (case m of (Inl e, s) \<Rightarrow> (Inl e, s) | (Inr x, s) \<Rightarrow> f x s)"

definition sweep_cutoff :: "int \<Rightarrow> RetentionPolicy \<Rightarrow> int" where
  "sweep_cutoff now p = i64_saturating_sub now (retention_days p * MS_PER_DAY)"

definition sweep :: "World \<Rightarrow> int \<Rightarrow> RetentionPolicy \<Rightarrow> Store \<Rightarrow> (StoreError + SweepOutcome) \<times> Store" where
  "sweep w now retn s0 =
     (let p = clamped retn; cutoff = sweep_cutoff now p
      in bind_store (delete_records_where w ''age'' (\<lambda>r. r_happened_at_ms r < cutoff) s0) (\<lambda>a s1.
         bind_store (trim_each_group w (nat (max_records_per_group p)) s1) (\<lambda>b s2.
         bind_store (trim_total w (nat (max_records_total p)) s2) (\<lambda>c s3.
           (let (gone, d3) = drop_empty_groups_before cutoff (store_db s3)
            in if w_tx_fails w ''empty groups'' then (Inl Sqlite, s3)
               else bind_store (evict_payloads w (max_payload_bytes_total p) (s3\<lparr>store_db := d3\<rparr>)) (\<lambda>(ev, rc) s4.
                 (let (ks, d4) = prune_ingested_sources now cutoff (store_db s4)
                  in if w_tx_fails w ''source keys'' then (Inl Sqlite, s4)
                     else (Inr \<lparr>removed_records = a + b + c, removed_groups = gone, evicted_payloads = ev,
                           reclaimed_bytes = rc, removed_source_keys = ks\<rparr>,
                      s4\<lparr>store_db := d4\<rparr>))))))))"

section \<open>Deletion\<close>

definition target_rows :: "DeleteTarget \<Rightarrow> RecordRow \<Rightarrow> bool" where
  "target_rows t r =
     (case t of AllRecords \<Rightarrow> True | Group gid \<Rightarrow> r_group_id r = gid
      | Ids ids \<Rightarrow> r_id r \<in> set (map as_str ids))"

definition payload_paths_for :: "DeleteTarget \<Rightarrow> Db \<Rightarrow> string list" where
  "payload_paths_for t d = List.map_filter r_payload_path (filter (target_rows t) (crash_record d))"

definition delete_rows :: "DeleteTarget \<Rightarrow> Db \<Rightarrow> (nat \<times> nat) \<times> Db" where
  "delete_rows t d =
     (case t of
        AllRecords \<Rightarrow>
          ((length (crash_record d), length (crash_group d)), d\<lparr>crash_record := [], crash_group := []\<rparr>)
      | Group gid \<Rightarrow>
          ((length (filter (\<lambda>r. r_group_id r = gid) (crash_record d)),
            length (filter (\<lambda>g. g_group_id g = gid) (crash_group d))),
           d\<lparr>crash_record := filter (\<lambda>r. r_group_id r \<noteq> gid) (crash_record d),
             crash_group := filter (\<lambda>g. g_group_id g \<noteq> gid) (crash_group d)\<rparr>)
      | Ids ids \<Rightarrow>
          (if ids = [] then ((0, 0), d)
           else
             (let rs = filter (\<lambda>r. r_id r \<notin> set (map as_str ids)) (crash_record d);
                  gs = filter (\<lambda>g. g_group_id g \<in> set (map r_group_id rs)) (crash_group d)
              in ((length (crash_record d) - length rs, length (crash_group d) - length gs),
                  d\<lparr>crash_record := rs, crash_group := gs\<rparr>))))"

definition store_delete :: "World \<Rightarrow> DeleteTarget \<Rightarrow> Store \<Rightarrow> (StoreError + nat \<times> nat) \<times> Store" where
  "store_delete w t s =
     (case delete_files (w_faults w) (payload_paths_for t (store_db s)) (store_files s) of
        (Inl e, fs) \<Rightarrow> (Inl e, s\<lparr>store_files := fs\<rparr>)
      | (Inr _, fs) \<Rightarrow>
          if w_tx_fails w ''delete'' then (Inl Sqlite, s\<lparr>store_files := fs\<rparr>)
          else (let (counts, d) = delete_rows t (store_db s)
                in (Inr counts, s\<lparr>store_files := fs, store_db := d\<rparr>)))"

section \<open>Pages\<close>

definition group_matches :: "CrashFilter \<Rightarrow> GroupRow \<Rightarrow> bool" where
  "group_matches f g \<longleftrightarrow>
     (packages f \<noteq> [] \<longrightarrow> g_package_name g \<in> set (packages f)) \<and>
     (kinds f \<noteq> [] \<longrightarrow> g_kind g \<in> set (map kind_as_i64 (kinds f))) \<and>
     (user_ids f \<noteq> [] \<longrightarrow> g_user_id g \<in> set (user_ids f)) \<and>
     (case time_from_ms f of None \<Rightarrow> True | Some from_ms \<Rightarrow> g_last_seen_ms g \<ge> from_ms) \<and>
     (case time_to_ms f of None \<Rightarrow> True | Some to_ms \<Rightarrow> g_first_seen_ms g < to_ms) \<and>
     (\<not> flt_include_system_apps f \<longrightarrow> \<not> (g_is_system_app g \<and> g_package_installed g)) \<and>
     (\<not> include_system_processes f \<longrightarrow> g_package_installed g) \<and>
     (flt_only_main_process f \<longrightarrow> g_is_main_process g) \<and>
     (only_self_handled f \<longrightarrow> g_self_handled g) \<and>
     (case flt_query f of None \<Rightarrow> True
      | Some raw \<Rightarrow>
          (let q = trim raw
           in q = [] \<or>
              (let pattern = like_pattern q
               in sql_like pattern (g_package_name g) \<or>
                  sql_like pattern (unwrap_or (g_summary_class g) []) \<or>
                  sql_like pattern (unwrap_or (g_summary_text g) []))))"

text \<open>The sort column of a group, as the anchor of a cursor, and SQLite's order on it.\<close>

definition sort_value :: "SortKey \<Rightarrow> GroupRow \<Rightarrow> CursorAnchor" where
  "sort_value srt g =
     (case srt of LastSeenDesc \<Rightarrow> AInt (g_last_seen_ms g) | FirstSeenDesc \<Rightarrow> AInt (g_first_seen_ms g)
      | OccurrenceDesc \<Rightarrow> AInt (g_occurrence g) | PackageAsc \<Rightarrow> AText (g_package_name g))"

fun anchor_less :: "CursorAnchor \<Rightarrow> CursorAnchor \<Rightarrow> bool" where
  "anchor_less (AInt a) (AInt b) = (a < b)"
| "anchor_less (AText a) (AText b) = (a < b)"
| "anchor_less (AInt _) (AText _) = True"
| "anchor_less (AText _) (AInt _) = False"

definition key_less :: "CursorAnchor \<times> string \<Rightarrow> CursorAnchor \<times> string \<Rightarrow> bool" where
  "key_less a b \<longleftrightarrow> anchor_less (fst a) (fst b) \<or> (fst a = fst b \<and> snd a < snd b)"

text \<open>\<^verbatim>\<open>ORDER BY column dir, group_id dir\<close>: whether one key comes before another.\<close>

definition comes_before :: "SortKey \<Rightarrow> CursorAnchor \<times> string \<Rightarrow> CursorAnchor \<times> string \<Rightarrow> bool" where
  "comes_before srt a b = (if is_descending srt then key_less b a else key_less a b)"

definition group_sort_key :: "SortKey \<Rightarrow> GroupRow \<Rightarrow> CursorAnchor \<times> string" where
  "group_sort_key srt g = (sort_value srt g, g_group_id g)"

fun insort_by :: "('a \<Rightarrow> 'a \<Rightarrow> bool) \<Rightarrow> 'a \<Rightarrow> 'a list \<Rightarrow> 'a list" where
  "insort_by lt x [] = [x]"
| "insort_by lt x (y # ys) = (if lt y x then y # insort_by lt x ys else x # y # ys)"

definition order_by :: "('a \<Rightarrow> 'a \<Rightarrow> bool) \<Rightarrow> 'a list \<Rightarrow> 'a list" where
  "order_by lt xs = foldr (insort_by lt) xs []"

text \<open>The keyset predicate of a cursor.\<close>

definition cursor_predicate :: "Cursor \<Rightarrow> SortKey \<Rightarrow> WireError + (GroupRow \<Rightarrow> bool)" where
  "cursor_predicate c srt =
     (case validate_for c srt of
        Inl e \<Rightarrow> Inl e
      | Inr _ \<Rightarrow> Inr (\<lambda>g. comes_before srt (anchor c, tiebreak c) (group_sort_key srt g)))"

definition cursor_after :: "GroupSummary \<Rightarrow> SortKey \<Rightarrow> Cursor" where
  "cursor_after g srt =
     cursor_new srt
       (case srt of LastSeenDesc \<Rightarrow> AInt (gs_last_seen_ms g) | FirstSeenDesc \<Rightarrow> AInt (gs_first_seen_ms g)
        | OccurrenceDesc \<Rightarrow> AInt (gs_occurrence g) | PackageAsc \<Rightarrow> AText (gs_package_name g))
       (gs_group_id g)"

text \<open>One extra row is fetched to learn whether another page follows.\<close>

definition cut_page :: "nat \<Rightarrow> ('a \<Rightarrow> Cursor) \<Rightarrow> 'a list \<Rightarrow> 'a Page" where
  "cut_page limit after fetched =
     (if length fetched > limit
      then \<lparr>items = take limit fetched,
            next_cursor = (if take limit fetched = [] then None else Some (after (last (take limit fetched))))\<rparr>
      else \<lparr>items = fetched, next_cursor = None\<rparr>)"

definition list_groups :: "Db \<Rightarrow> PageRequest \<Rightarrow> StoreError + GroupSummary Page" where
  "list_groups d page =
     (case page_validate page of
        Inl e \<Rightarrow> Inl (RequestError e)
      | Inr _ \<Rightarrow>
          (let limit = nat (effective_limit page);
               srt = pr_sort page;
               run = (\<lambda>after_cursor.
                 cut_page limit (\<lambda>g. cursor_after g srt)
                   (map map_group
                      (take (limit + 1)
                         (order_by (\<lambda>a b. comes_before srt (group_sort_key srt a) (group_sort_key srt b))
                            (filter (\<lambda>g. group_matches (pr_filter page) g \<and> after_cursor g) (crash_group d))))))
           in case pr_cursor page of
                None \<Rightarrow> Inr (run (\<lambda>_. True))
              | Some c \<Rightarrow>
                  (case cursor_predicate c srt of
                     Inl e \<Rightarrow> Inl (RequestError e)
                   | Inr pred \<Rightarrow> Inr (run pred))))"

definition record_after :: "RecordSummary \<Rightarrow> Cursor" where
  "record_after r = cursor_new LastSeenDesc (AInt (rs_happened_at_ms r)) (as_str (rs_id r))"

definition list_records :: "Db \<Rightarrow> string \<Rightarrow> PageRequest \<Rightarrow> StoreError + RecordSummary Page" where
  "list_records d gid page =
     (let limit = nat (effective_limit page);
          run = (\<lambda>after_cursor.
            cut_page limit record_after
              (map map_record
                 (take (limit + 1)
                    (order_by (\<lambda>a b. record_key b < record_key a)
                       (filter (\<lambda>r. r_group_id r = gid \<and> after_cursor r) (crash_record d))))))
      in case pr_cursor page of
           None \<Rightarrow> Inr (run (\<lambda>_. True))
         | Some c \<Rightarrow>
             (case validate_for c LastSeenDesc of
                Inl e \<Rightarrow> Inl (RequestError e)
              | Inr _ \<Rightarrow>
                  (case anchor c of
                     AInt a \<Rightarrow> Inr (run (\<lambda>r. record_key r < (a, tiebreak c)))
                   | AText _ \<Rightarrow>
                       Inl (RequestError (wire_error CursorInvalidated ''record pages anchor on a timestamp'')))))"

section \<open>Lookups\<close>

definition get_group :: "Db \<Rightarrow> string \<Rightarrow> StoreError + GroupSummary" where
  "get_group d gid =
     (case find_group d gid of None \<Rightarrow> Inl (GroupNotFound gid) | Some g \<Rightarrow> Inr (map_group g))"

definition get_record :: "Db \<Rightarrow> RecordId \<Rightarrow> StoreError + RecordDetail" where
  "get_record d i =
     (case find_record d (as_str i) of
        None \<Rightarrow> Inl (RecordNotFound (as_str i))
      | Some r \<Rightarrow>
          (case find_group d (r_group_id r) of
             None \<Rightarrow> Inl Sqlite
           | Some g \<Rightarrow> Inr \<lparr>rd_record = map_record r, rd_group = map_group g\<rparr>))"

definition payload_location :: "Db \<Rightarrow> RecordId \<Rightarrow> StoreError + string \<times> PayloadCodec" where
  "payload_location d i =
     (case find_record d (as_str i) of
        None \<Rightarrow> Inl (RecordNotFound (as_str i))
      | Some r \<Rightarrow>
          (let readable = (case pstate_from_i64 (r_payload_state r) of None \<Rightarrow> False | Some st \<Rightarrow> is_readable st)
           in case r_payload_path r of
                Some path \<Rightarrow> if readable then Inr (path, codec_from_i64 (r_payload_codec r))
                             else Inl (PayloadUnavailable (as_str i))
              | None \<Rightarrow> Inl (PayloadUnavailable (as_str i))))"

definition read_payload_chunk ::
  "(u8 list \<Rightarrow> u8 list option) \<Rightarrow> Store \<Rightarrow> RecordId \<Rightarrow> nat \<Rightarrow> nat \<Rightarrow> StoreError + u8 list \<times> nat \<times> bool" where
  "read_payload_chunk unzstd s i offset len =
     (case payload_location (store_db s) i of
        Inl e \<Rightarrow> Inl e
      | Inr (path, cdc) \<Rightarrow> read_chunk unzstd (store_files s) path cdc offset len)"

definition storage_status :: "int \<Rightarrow> int \<Rightarrow> Store \<Rightarrow> StorageStatus" where
  "storage_status page_count page_size s =
     \<lparr>group_count = length (crash_group (store_db s)),
      record_count = length (crash_record (store_db s)),
      payload_bytes = int (disk_bytes (store_files s)),
      database_bytes = max 0 (page_count * page_size),
      evicted_payload_count =
        length (filter (\<lambda>r. r_payload_state r = pstate_as_i64 Evicted) (crash_record (store_db s)))\<rparr>"

end
