(* ===== verification/Store_Inv.thy ===== *)
theory Store_Inv
  imports Store_Ops
begin

text \<open>
  The invariant of the crash index: keys are unique, every record belongs to a group whose life span
  covers it, a group's occurrence count is at least the number of its rows, its byte counter accounts
  for the payloads of its rows, and a row's payload columns agree with each other.  Every operation of
  the store, failures included, preserves it.
\<close>

section \<open>The invariant\<close>

definition path_of :: "string \<Rightarrow> string" where
  "path_of i = take 2 i @ ''/'' @ i @ ''.zst''"

definition row_ok :: "RecordRow \<Rightarrow> bool" where
  "row_ok r \<longleftrightarrow>
     parse (r_id r) \<noteq> None \<and> 0 \<le> r_payload_bytes r \<and>
     (case r_payload_path r of
        None \<Rightarrow> r_payload_bytes r = 0 \<and> r_payload_state r \<in> {pstate_as_i64 Evicted, pstate_as_i64 Absent}
      | Some p \<Rightarrow> p = path_of (r_id r) \<and> r_payload_codec r = pcodec_as_i64 Zstd \<and>
                  r_payload_state r \<in> {pstate_as_i64 Present, pstate_as_i64 Truncated})"

definition rows_of :: "string \<Rightarrow> RecordRow list \<Rightarrow> RecordRow list" where
  "rows_of gid rs = filter (\<lambda>r. r_group_id r = gid) rs"

definition bytes_of :: "string \<Rightarrow> RecordRow list \<Rightarrow> int" where
  "bytes_of gid rs = sum_list (map r_payload_bytes (rows_of gid rs))"

text \<open>With the flag set the byte counter is exact, otherwise it is an upper bound.\<close>

definition bytes_ok :: "bool \<Rightarrow> RecordRow list \<Rightarrow> GroupRow \<Rightarrow> bool" where
  "bytes_ok exact rs g \<longleftrightarrow>
     bytes_of (g_group_id g) rs \<le> g_payload_bytes g \<and>
     (exact \<longrightarrow> bytes_of (g_group_id g) rs = g_payload_bytes g)"

definition group_ok :: "bool \<Rightarrow> RecordRow list \<Rightarrow> GroupRow \<Rightarrow> bool" where
  "group_ok exact rs g \<longleftrightarrow>
     1 \<le> g_occurrence g \<and> int (length (rows_of (g_group_id g) rs)) \<le> g_occurrence g \<and>
     g_first_seen_ms g \<le> g_last_seen_ms g \<and> bytes_ok exact rs g"

definition covers :: "GroupRow \<Rightarrow> RecordRow \<Rightarrow> bool" where
  "covers g r \<longleftrightarrow> g_group_id g = r_group_id r \<and> g_first_seen_ms g \<le> r_happened_at_ms r \<and>
     r_happened_at_ms r \<le> g_last_seen_ms g"

definition rows_ok :: "GroupRow list \<Rightarrow> RecordRow list \<Rightarrow> bool" where
  "rows_ok gs rs \<longleftrightarrow> (\<forall>r \<in> set rs. row_ok r \<and> (\<exists>g \<in> set gs. covers g r))"

definition db_inv :: "bool \<Rightarrow> Db \<Rightarrow> bool" where
  "db_inv exact d \<longleftrightarrow>
     distinct (map g_group_id (crash_group d)) \<and> distinct (map r_id (crash_record d)) \<and>
     distinct (map fst (ingested_source d)) \<and> rows_ok (crash_group d) (crash_record d) \<and>
     (\<forall>g \<in> set (crash_group d). group_ok exact (crash_record d) g)"

lemma db_invD:
  assumes "db_inv exact d"
  shows "distinct (map g_group_id (crash_group d))" "distinct (map r_id (crash_record d))"
    "distinct (map fst (ingested_source d))" "rows_ok (crash_group d) (crash_record d)"
    "\<And>g. g \<in> set (crash_group d) \<Longrightarrow> group_ok exact (crash_record d) g"
  using assms by (auto simp: db_inv_def)

lemma rows_okD:
  assumes "rows_ok gs rs" "r \<in> set rs"
  shows "row_ok r" "\<exists>g \<in> set gs. covers g r"
  using assms by (auto simp: rows_ok_def)

lemma db_inv_weaken: "db_inv exact d \<Longrightarrow> db_inv False d"
  by (auto simp: db_inv_def group_ok_def bytes_ok_def)

lemma empty_db_inv [simp]: "db_inv exact empty_db"
  by (simp add: db_inv_def empty_db_def rows_ok_def)

lemma covers_map:
  assumes "\<exists>g \<in> set gs. covers g r" "\<And>g. covers g r \<Longrightarrow> covers (f g) r"
  shows "\<exists>g \<in> set (map f gs). covers g r"
  using assms by auto

subsection \<open>Sums over the rows of a group\<close>

lemma rows_of_simps [simp]:
  "rows_of gid [] = []"
  "rows_of gid (r # rs) = (if r_group_id r = gid then [r] else []) @ rows_of gid rs"
  "rows_of gid (xs @ ys) = rows_of gid xs @ rows_of gid ys"
  by (simp_all add: rows_of_def)

lemma bytes_of_simps [simp]:
  "bytes_of gid [] = 0"
  "bytes_of gid (r # rs) = (if r_group_id r = gid then r_payload_bytes r else 0) + bytes_of gid rs"
  "bytes_of gid (xs @ ys) = bytes_of gid xs + bytes_of gid ys"
  by (simp_all add: bytes_of_def)

lemma bytes_of_nonneg: "\<forall>r \<in> set rs. 0 \<le> r_payload_bytes r \<Longrightarrow> 0 \<le> bytes_of gid rs"
  by (induction rs) auto

lemma rows_ok_nonneg: "rows_ok gs rs \<Longrightarrow> r \<in> set rs \<Longrightarrow> 0 \<le> r_payload_bytes r"
  by (auto simp: rows_ok_def row_ok_def)

lemma rows_of_fresh: "gid \<notin> r_group_id ` set rs \<Longrightarrow> rows_of gid rs = []"
  by (auto simp: rows_of_def filter_empty_conv)

lemma bytes_of_fresh: "gid \<notin> r_group_id ` set rs \<Longrightarrow> bytes_of gid rs = 0"
  by (simp add: bytes_of_def rows_of_fresh)

subsection \<open>Replacing one row\<close>

lemma split_row:
  assumes "r \<in> set rs" "distinct (map r_id rs)"
  obtains xs ys where "rs = xs @ r # ys" "r_id r \<notin> r_id ` (set xs \<union> set ys)"
proof -
  obtain xs ys where "rs = xs @ r # ys" using split_list [OF assms(1)] by blast
  then show ?thesis using that assms(2) by auto
qed

lemma update_split:
  assumes "i \<notin> r_id ` (set xs \<union> set ys)" "r_id r = i"
  shows "map (\<lambda>x. if r_id x = i then f x else x) (xs @ r # ys) = xs @ f r # ys"
    and "filter (\<lambda>x. r_id x \<noteq> i) (xs @ r # ys) = xs @ ys"
proof -
  have ne: "r_id x \<noteq> i" if "x \<in> set xs \<or> x \<in> set ys" for x using that assms(1) by blast
  have "map (\<lambda>x. if r_id x = i then f x else x) xs = xs" "map (\<lambda>x. if r_id x = i then f x else x) ys = ys"
    by (rule map_idI; simp add: ne)+
  then show "map (\<lambda>x. if r_id x = i then f x else x) (xs @ r # ys) = xs @ f r # ys"
    using assms(2) by simp
  have "filter (\<lambda>x. r_id x \<noteq> i) xs = xs" "filter (\<lambda>x. r_id x \<noteq> i) ys = ys"
    by (rule filter_True; simp add: ne)+
  then show "filter (\<lambda>x. r_id x \<noteq> i) (xs @ r # ys) = xs @ ys" using assms(2) by simp
qed

definition add_bytes :: "string \<Rightarrow> int \<Rightarrow> GroupRow list \<Rightarrow> GroupRow list" where
  "add_bytes gid n gs =
     map (\<lambda>g. if g_group_id g = gid then g\<lparr>g_payload_bytes := g_payload_bytes g + n\<rparr> else g) gs"

lemma add_bytes_ids [simp]: "map g_group_id (add_bytes gid n gs) = map g_group_id gs"
  by (simp add: add_bytes_def)

lemma add_bytes_zero [simp]: "add_bytes gid 0 gs = gs"
  by (simp add: add_bytes_def map_idI)

text \<open>A row may be dropped, or replaced by one with the same identity, when the group's counter moves
  by the difference of the payloads.\<close>

lemma db_inv_replace:
  assumes inv: "db_inv exact d" and rs: "crash_record d = xs @ r # ys"
    and new: "length ns \<le> 1" "\<And>r'. r' \<in> set ns \<Longrightarrow> row_ok r' \<and> r_id r' = r_id r \<and>
      r_group_id r' = r_group_id r \<and> r_happened_at_ms r' = r_happened_at_ms r"
    and n: "sum_list (map r_payload_bytes ns) - r_payload_bytes r \<le> n"
      "exact \<Longrightarrow> n = sum_list (map r_payload_bytes ns) - r_payload_bytes r"
  shows "db_inv exact (d\<lparr>crash_record := xs @ ns @ ys, crash_group := add_bytes (r_group_id r) n (crash_group d)\<rparr>)"
proof -
  note I = db_invD [OF inv]
  have ns: "ns = [] \<or> (\<exists>r'. ns = [r'])" using new(1) by (cases ns) auto
  have "group_ok exact (xs @ ns @ ys) g'" if g': "g' \<in> set (add_bytes (r_group_id r) n (crash_group d))" for g'
  proof -
    obtain g where g: "g \<in> set (crash_group d)"
      "g' = (if g_group_id g = r_group_id r then g\<lparr>g_payload_bytes := g_payload_bytes g + n\<rparr> else g)"
      using g' unfolding add_bytes_def set_map by blast
    have "group_ok exact (xs @ r # ys) g" using I(5) [OF g(1)] rs by simp
    then show ?thesis
      using ns new(2) n g(2) by (auto simp: group_ok_def bytes_ok_def)
  qed
  moreover have "rows_ok (add_bytes (r_group_id r) n (crash_group d)) (xs @ ns @ ys)"
    unfolding rows_ok_def
  proof
    fix x assume x: "x \<in> set (xs @ ns @ ys)"
    obtain y where y: "y \<in> set (xs @ r # ys)" "row_ok x" "r_id x = r_id y"
      "r_group_id x = r_group_id y" "r_happened_at_ms x = r_happened_at_ms y"
      using x new(2) rows_okD(1) [OF I(4)] rs by fastforce
    have "\<exists>g \<in> set (crash_group d). covers g x"
      using rows_okD(2) [OF I(4)] y rs by (simp add: covers_def)
    then have "\<exists>g \<in> set (add_bytes (r_group_id r) n (crash_group d)). covers g x"
      unfolding add_bytes_def by (rule covers_map) (simp add: covers_def)
    then show "row_ok x \<and> (\<exists>g \<in> set (add_bytes (r_group_id r) n (crash_group d)). covers g x)"
      using y(2) by simp
  qed
  moreover have "distinct (map r_id (xs @ ns @ ys))"
  proof -
    have "map r_id (xs @ ns @ ys) = map r_id (xs @ ys) \<or> map r_id (xs @ ns @ ys) = map r_id (xs @ r # ys)"
      using ns new(2) by auto
    moreover have "distinct (map r_id (xs @ r # ys))" "distinct (map r_id (xs @ ys))"
      using I(2) rs by auto
    ultimately show ?thesis by metis
  qed
  ultimately show ?thesis using I(1,3) by (simp add: db_inv_def)
qed

text \<open>Dropping a row and evicting its payload.\<close>

lemma less_group_bytes_eq:
  assumes "db_inv exact d" "r \<in> set (crash_record d)"
  shows "crash_group (less_group_bytes (r_group_id r) (r_payload_bytes r) d)
    = add_bytes (r_group_id r) (- r_payload_bytes r) (crash_group d)"
proof -
  note I = db_invD [OF assms(1)]
  have "r_payload_bytes r \<le> g_payload_bytes g"
    if "g \<in> set (crash_group d)" "g_group_id g = r_group_id r" for g
  proof -
    obtain xs ys where rs: "crash_record d = xs @ r # ys" using split_list [OF assms(2)] by blast
    have "0 \<le> bytes_of gid xs" "0 \<le> bytes_of gid ys" for gid
      using rows_ok_nonneg [OF I(4)] rs by (auto intro!: bytes_of_nonneg)
    then have "r_payload_bytes r \<le> bytes_of (g_group_id g) (crash_record d)"
      using that(2) by (simp add: rs add_increasing add_increasing2)
    then show ?thesis using I(5) [OF that(1)] by (simp add: group_ok_def bytes_ok_def)
  qed
  then show ?thesis by (auto simp: less_group_bytes_def update_groups_def add_bytes_def)
qed

lemma less_group_bytes_frame [simp]:
  "crash_record (less_group_bytes gid n d) = crash_record d"
  "ingested_source (less_group_bytes gid n d) = ingested_source d"
  "less_group_bytes gid n (d\<lparr>crash_record := rs\<rparr>) = less_group_bytes gid n d\<lparr>crash_record := rs\<rparr>"
  "less_group_bytes gid n (d\<lparr>ingested_source := ss\<rparr>) = less_group_bytes gid n d\<lparr>ingested_source := ss\<rparr>"
  by (simp_all add: less_group_bytes_def update_groups_def)

lemma remove_record_inv:
  assumes "db_inv exact d" "r \<in> set (crash_record d)"
  shows "db_inv exact (remove_record r d)"
proof -
  obtain xs ys where s: "crash_record d = xs @ r # ys" "r_id r \<notin> r_id ` (set xs \<union> set ys)"
    using split_row [OF assms(2)] db_invD(2) [OF assms(1)] by blast
  have "remove_record r d =
      d\<lparr>crash_record := xs @ [] @ ys, crash_group := add_bytes (r_group_id r) (- r_payload_bytes r) (crash_group d)\<rparr>"
    using less_group_bytes_eq [OF assms] update_split(2) [OF s(2) refl] s(1)
    by (simp add: remove_record_def delete_row_def less_group_bytes_def update_groups_def)
  then show ?thesis using db_inv_replace [OF assms(1) s(1), of "[]"] by simp
qed

lemma evict_row_inv:
  assumes "db_inv exact d" "r \<in> set (crash_record d)"
  shows "db_inv exact (evict_row r d)"
proof -
  let ?e = "\<lambda>x. x\<lparr>r_payload_path := None, r_payload_bytes := 0, r_payload_state := pstate_as_i64 Evicted\<rparr>"
  obtain xs ys where s: "crash_record d = xs @ r # ys" "r_id r \<notin> r_id ` (set xs \<union> set ys)"
    using split_row [OF assms(2)] db_invD(2) [OF assms(1)] by blast
  have ok: "row_ok r" using assms db_invD(4) rows_okD(1) by blast
  have "evict_row r d =
      d\<lparr>crash_record := xs @ [?e r] @ ys, crash_group := add_bytes (r_group_id r) (- r_payload_bytes r) (crash_group d)\<rparr>"
    using less_group_bytes_eq [OF assms] update_split(1) [OF s(2) refl] s(1)
    by (simp add: evict_row_def update_records_def less_group_bytes_def update_groups_def)
  then show ?thesis
    using db_inv_replace [OF assms(1) s(1), of "[?e r]"] ok by (simp add: row_ok_def)
qed

subsection \<open>Dropping many rows\<close>

lemma remove_record_records [simp]:
  "crash_record (remove_record r d) = filter (\<lambda>x. r_id x \<noteq> r_id r) (crash_record d)"
  "ingested_source (remove_record r d) = ingested_source d"
  by (simp_all add: remove_record_def delete_row_def)

lemma fold_remove_records:
  "crash_record (fold remove_record rs d) = filter (\<lambda>x. r_id x \<notin> r_id ` set rs) (crash_record d)"
  by (induction rs arbitrary: d) (auto intro!: filter_cong)

lemma fold_remove_inv:
  "db_inv exact d \<Longrightarrow> set rs \<subseteq> set (crash_record d) \<Longrightarrow> distinct (map r_id rs) \<Longrightarrow>
   db_inv exact (fold remove_record rs d)"
proof (induction rs arbitrary: d)
  case (Cons r rs)
  have "set rs \<subseteq> set (crash_record (remove_record r d))"
    using Cons.prems(2,3) by (auto simp: image_iff)
  moreover have "db_inv exact (remove_record r d)"
    by (rule remove_record_inv) (use Cons.prems in auto)
  ultimately show ?case using Cons.IH Cons.prems(3) by simp
qed simp

lemma distinct_map_filterI: "distinct (map f xs) \<Longrightarrow> distinct (map f (filter P xs))"
  by (induction xs) auto

text \<open>Dropping records without adjusting the counters keeps them upper bounds, and groups without
  records may go.\<close>

lemma bytes_of_filter:
  "\<forall>r \<in> set rs. 0 \<le> r_payload_bytes r \<Longrightarrow> bytes_of gid (filter P rs) \<le> bytes_of gid rs"
  by (induction rs) auto

lemma rows_of_filter: "length (rows_of gid (filter P rs)) \<le> length (rows_of gid rs)"
  by (induction rs) auto

lemma rows_of_filter_same: "(\<And>r. r_group_id r = gid \<Longrightarrow> P r) \<Longrightarrow> rows_of gid (filter P rs) = rows_of gid rs"
  by (induction rs) auto

lemma db_inv_filter:
  assumes inv: "db_inv exact d"
    and keep: "\<And>r. r \<in> set (crash_record d) \<Longrightarrow> P r \<Longrightarrow> (\<And>g. g_group_id g = r_group_id r \<Longrightarrow> Q g)"
    and ex: "\<And>g r. exact \<Longrightarrow> Q g \<Longrightarrow> r_group_id r = g_group_id g \<Longrightarrow> P r"
  shows "db_inv exact (d\<lparr>crash_record := filter P (crash_record d), crash_group := filter Q (crash_group d)\<rparr>)"
proof -
  note I = db_invD [OF inv]
  let ?rs = "crash_record d"
  have "group_ok exact (filter P ?rs) g" if "g \<in> set (crash_group d)" "Q g" for g
  proof -
    have "bytes_of (g_group_id g) (filter P ?rs) \<le> bytes_of (g_group_id g) ?rs"
      by (rule bytes_of_filter) (use rows_ok_nonneg [OF I(4)] in auto)
    moreover have "bytes_of (g_group_id g) (filter P ?rs) = bytes_of (g_group_id g) ?rs" if exact
      unfolding bytes_of_def by (subst rows_of_filter_same) (use ex \<open>Q g\<close> that in auto)
    ultimately show ?thesis
      using I(5) [OF that(1)] rows_of_filter [of "g_group_id g" P ?rs]
      by (auto simp: group_ok_def bytes_ok_def)
  qed
  moreover have "rows_ok (filter Q (crash_group d)) (filter P ?rs)"
    using I(4) keep by (fastforce simp: rows_ok_def covers_def)
  ultimately show ?thesis using I(1,2,3) by (simp add: db_inv_def distinct_map_filterI)
qed

lemma drop_empty_groups_inv:
  assumes "db_inv exact d" shows "db_inv exact (snd (drop_empty_groups_before cutoff d))"
proof -
  have "db_inv exact (d\<lparr>crash_record := filter (\<lambda>_. True) (crash_record d),
      crash_group := filter (\<lambda>g. \<not> (g_last_seen_ms g < cutoff \<and> g_group_id g \<notin> set (map r_group_id (crash_record d))))
        (crash_group d)\<rparr>)"
    by (rule db_inv_filter [OF assms]) auto
  then show ?thesis by (simp add: drop_empty_groups_before_def Let_def)
qed

definition counts_exactly :: "DeleteTarget \<Rightarrow> bool" where
  "counts_exactly t = (case t of Ids ids \<Rightarrow> ids = [] | _ \<Rightarrow> True)"

lemma delete_rows_inv:
  assumes "db_inv exact d"
  shows "db_inv (exact \<and> counts_exactly t) (snd (delete_rows t d))"
proof (cases t)
  case AllRecords
  then show ?thesis using assms by (auto simp: delete_rows_def db_inv_def rows_ok_def)
next
  case (Group gid)
  then show ?thesis
    using db_inv_filter [OF assms, of "\<lambda>r. r_group_id r \<noteq> gid" "\<lambda>g. g_group_id g \<noteq> gid"]
    by (simp add: delete_rows_def counts_exactly_def)
next
  case (Ids ids)
  show ?thesis
  proof (cases "ids = []")
    case True then show ?thesis using Ids assms by (simp add: delete_rows_def counts_exactly_def)
  next
    case False
    let ?P = "\<lambda>r. r_id r \<notin> as_str ` set ids"
    let ?Q = "\<lambda>g. g_group_id g \<in> set (map r_group_id (filter ?P (crash_record d)))"
    have "db_inv False (d\<lparr>crash_record := filter ?P (crash_record d), crash_group := filter ?Q (crash_group d)\<rparr>)"
      by (rule db_inv_filter [OF db_inv_weaken [OF assms]]) auto
    then show ?thesis using False Ids by (simp add: delete_rows_def counts_exactly_def Let_def)
  qed
qed

subsection \<open>Updating groups and source keys\<close>

lemma update_groups_inv:
  assumes "db_inv exact d"
    and f: "\<And>g. g_group_id (f g) = g_group_id g \<and> g_occurrence (f g) = g_occurrence g \<and>
      g_first_seen_ms (f g) = g_first_seen_ms g \<and> g_last_seen_ms (f g) = g_last_seen_ms g \<and>
      g_payload_bytes (f g) = g_payload_bytes g"
  shows "db_inv exact (update_groups P f d)"
proof -
  note I = db_invD [OF assms(1)]
  let ?h = "\<lambda>g. if P g then f g else g"
  have h: "g_group_id (?h g) = g_group_id g" "group_ok exact rs (?h g) = group_ok exact rs g"
    "covers (?h g) r = covers g r" for g rs r
    using f by (simp_all add: group_ok_def bytes_ok_def covers_def)
  have "map g_group_id (map ?h (crash_group d)) = map g_group_id (crash_group d)"
    using f by simp
  then have "distinct (map g_group_id (map ?h (crash_group d)))" using I(1) by argo
  moreover have "rows_ok (map ?h (crash_group d)) (crash_record d)"
    unfolding rows_ok_def
    using rows_okD [OF I(4)] covers_map [where f = ?h] h(3) by blast
  moreover have "group_ok exact (crash_record d) g" if "g \<in> set (map ?h (crash_group d))" for g
    using that I(5) h(2) unfolding set_map by blast
  ultimately show ?thesis
    using I(2,3) unfolding db_inv_def update_groups_def by (simp del: map_map set_map)
qed

lemma set_mute_inv: "db_inv exact d \<Longrightarrow> db_inv exact (snd (set_mute P u d))"
  by (simp add: set_mute_def update_groups_inv)

lemma apply_flags_inv: "db_inv exact d \<Longrightarrow> db_inv exact (snd (apply_flags flags d))"
proof (induction flags d rule: apply_flags.induct)
  case (2 name sys rest d)
  then show ?case by (simp add: Let_def case_prod_beta update_groups_inv)
qed simp

lemma insert_source_distinct:
  "distinct (map fst ss) \<Longrightarrow> distinct (map fst (insert_source at k ss))"
  by (auto simp: insert_source_def)

lemma insert_sources_distinct:
  "distinct (map fst ss) \<Longrightarrow> distinct (map fst (insert_sources at ks ss))"
  unfolding insert_sources_def by (induction ks arbitrary: ss) (auto intro: insert_source_distinct)

lemma set_insert_sources:
  "set (map fst (insert_sources at ks ss)) = set (map fst ss) \<union> set ks"
  unfolding insert_sources_def by (induction ks arbitrary: ss) (auto simp: insert_source_def)

lemma db_inv_sources:
  "db_inv exact d \<Longrightarrow> distinct (map fst ss) \<Longrightarrow> db_inv exact (d\<lparr>ingested_source := ss\<rparr>)"
  by (simp add: db_inv_def)

lemma mark_ingested_inv: "db_inv exact d \<Longrightarrow> db_inv exact (snd (mark_ingested k now d))"
  by (simp add: mark_ingested_def db_inv_sources insert_source_distinct db_invD(3))

lemma prune_inv: "db_inv exact d \<Longrightarrow> db_inv exact (snd (prune_ingested_sources now cutoff d))"
  by (simp add: prune_ingested_sources_def Let_def db_inv_sources distinct_map_filterI db_invD(3))



subsection \<open>Inserting a row\<close>

lemma upsert_group_eq:
  assumes "distinct (map g_group_id gs)"
  shows "upsert_group g gs =
    (if g_group_id g \<in> set (map g_group_id gs)
     then map (\<lambda>x. if g_group_id x = g_group_id g then on_conflict x g else x) gs
     else gs @ [g])"
  using assms
proof (induction gs)
  case (Cons x xs)
  show ?case
  proof (cases "g_group_id x = g_group_id g")
    case True
    then have "map (\<lambda>y. if g_group_id y = g_group_id g then on_conflict y g else y) xs = xs"
      using Cons.prems by (intro map_idI) (auto simp: image_iff)
    then show ?thesis using True by simp
  next
    case False
    then show ?thesis using Cons by simp
  qed
qed simp

lemma on_conflict_simps [simp]:
  "g_group_id (on_conflict x g) = g_group_id x"
  "g_occurrence (on_conflict x g) = g_occurrence x + 1"
  "g_first_seen_ms (on_conflict x g) = min (g_first_seen_ms x) (g_first_seen_ms g)"
  "g_last_seen_ms (on_conflict x g) = max (g_last_seen_ms x) (g_last_seen_ms g)"
  "g_payload_bytes (on_conflict x g) = g_payload_bytes x + g_payload_bytes g"
  by (simp_all add: on_conflict_def)

lemma upsert_group_ids:
  "set (map g_group_id (upsert_group g gs)) = insert (g_group_id g) (set (map g_group_id gs))"
  by (induction gs) auto

lemma upsert_group_distinct:
  "distinct (map g_group_id gs) \<Longrightarrow> distinct (map g_group_id (upsert_group g gs))"
proof (induction gs)
  case (Cons x xs)
  then show ?case using upsert_group_ids [of g xs] by auto
qed simp

lemma find_record_None: "find_record d i = None \<longleftrightarrow> i \<notin> r_id ` set (crash_record d)"
  by (auto simp: find_record_def find_None_iff)

text \<open>The pair of rows an insert adds, described by what the invariant needs of them.\<close>

definition fresh_pair :: "Db \<Rightarrow> GroupRow \<Rightarrow> RecordRow \<Rightarrow> bool" where
  "fresh_pair d g r \<longleftrightarrow>
     row_ok r \<and> r_id r \<notin> r_id ` set (crash_record d) \<and> g_group_id g = r_group_id r \<and>
     g_first_seen_ms g = r_happened_at_ms r \<and> g_last_seen_ms g = r_happened_at_ms r \<and>
     g_occurrence g = 1 \<and> g_payload_bytes g = r_payload_bytes r"

lemma insert_pair_inv:
  assumes inv: "db_inv exact d" and new: "fresh_pair d g r"
  shows "db_inv exact (d\<lparr>crash_group := upsert_group g (crash_group d), crash_record := crash_record d @ [r]\<rparr>)"
proof -
  note I = db_invD [OF inv]
  note N = new [unfolded fresh_pair_def]
  let ?gs = "upsert_group g (crash_group d)" and ?rs = "crash_record d @ [r]"
  have sub: "r_group_id x \<in> g_group_id ` set (crash_group d)" if "x \<in> set (crash_record d)" for x
    using rows_okD(2) [OF I(4) that] by (auto simp: covers_def) (metis image_eqI)
  have "group_ok exact ?rs g'" if g': "g' \<in> set ?gs" for g'
  proof (cases "g_group_id g \<in> set (map g_group_id (crash_group d))")
    case True
    have "g' \<in> (\<lambda>x. if g_group_id x = g_group_id g then on_conflict x g else x) ` set (crash_group d)"
      using g' True by (simp only: upsert_group_eq [OF I(1)] if_True set_map)
    then obtain x where x: "x \<in> set (crash_group d)"
      "g' = (if g_group_id x = g_group_id g then on_conflict x g else x)"
      by (rule imageE)
    show ?thesis using I(5) [OF x(1)] x(2) N by (auto simp: group_ok_def bytes_ok_def)
  next
    case False
    then have "rows_of (g_group_id g) (crash_record d) = []"
      using sub by (intro rows_of_fresh) auto
    moreover have "g' = g \<or> g' \<in> set (crash_group d) \<and> g_group_id g' \<noteq> g_group_id g"
      using g' False unfolding upsert_group_eq [OF I(1)] if_not_P [OF False] by auto (metis image_eqI)
    ultimately consider "g' = g" "rows_of (g_group_id g) (crash_record d) = []"
      | "g' \<in> set (crash_group d)" "g_group_id g' \<noteq> g_group_id g" by blast
    then show ?thesis
    proof cases
      case 1 then show ?thesis using N by (simp add: group_ok_def bytes_ok_def bytes_of_def)
    next
      case 2 then show ?thesis using I(5) [OF 2(1)] N by (simp add: group_ok_def bytes_ok_def)
    qed
  qed
  moreover have "rows_ok ?gs ?rs" unfolding rows_ok_def
  proof
    fix x assume x: "x \<in> set ?rs"
    have "\<exists>g' \<in> set ?gs. covers g' x"
    proof (cases "g_group_id g \<in> set (map g_group_id (crash_group d))")
      case True
      let ?h = "\<lambda>y. if g_group_id y = g_group_id g then on_conflict y g else y"
      have "\<exists>y \<in> set (crash_group d). covers (?h y) x"
      proof (cases "x = r")
        case True
        obtain y where "y \<in> set (crash_group d)" "g_group_id y = g_group_id g"
          using \<open>g_group_id g \<in> _\<close> by auto
        then show ?thesis using N True by (intro bexI [of _ y]) (auto simp: covers_def)
      next
        case False
        then obtain y where "y \<in> set (crash_group d)" "covers y x"
          using x rows_okD(2) [OF I(4), of x] by auto
        then show ?thesis by (intro bexI [of _ y]) (auto simp: covers_def)
      qed
      then show ?thesis using True unfolding upsert_group_eq [OF I(1)] by (auto simp only: if_True set_map)
    next
      case False
      then show ?thesis
        using x N rows_okD(2) [OF I(4), of x] unfolding upsert_group_eq [OF I(1)] if_not_P [OF False]
        by (auto simp: covers_def)
    qed
    then show "row_ok x \<and> (\<exists>g' \<in> set ?gs. covers g' x)"
      using x N rows_okD(1) [OF I(4), of x] by auto
  qed
  ultimately show ?thesis using I N upsert_group_distinct [OF I(1)] by (simp add: db_inv_def)
qed

subsection \<open>Whole operations\<close>

lemma relative_path_for_eq: "relative_path_for i = path_of (as_str i)"
  by (simp add: relative_path_for_def path_of_def)

text \<open>What a successful payload write hands to the index.\<close>

lemma payload_write_SomeD:
  assumes "payload_write rf z fl i src n fs = (Inr (Some w), fs')"
  shows "relative_path w = path_of (as_str i)" "written_codec w = Zstd"
    "written_state w = Present \<or> written_state w = Truncated"
    "\<exists>c. fs' = AList.update (path_of (as_str i)) c fs \<and> length c = stored_bytes w"
  using assms
  by (auto simp: payload_write_def Let_def relative_path_for_eq split: sum.splits if_splits option.splits)

definition written_ok :: "RecordId \<Rightarrow> WrittenPayload option \<Rightarrow> bool" where
  "written_ok i written \<longleftrightarrow>
     (case written of None \<Rightarrow> True
      | Some w \<Rightarrow> relative_path w = path_of (as_str i) \<and> written_codec w = Zstd \<and>
                  (written_state w = Present \<or> written_state w = Truncated))"

lemma payload_write_ok: "payload_write rf z fl i src n fs = (Inr written, fs') \<Longrightarrow> written_ok i written"
  using payload_write_SomeD(1-3) by (cases written) (simp_all add: written_ok_def)

lemma new_pair_fresh:
  assumes "written_ok i written" "parse (as_str i) \<noteq> None" "find_record d (as_str i) = None"
  shows "fresh_pair d
    (new_group_row gid r (case written of None \<Rightarrow> 0 | Some w \<Rightarrow> int (stored_bytes w)))
    (new_record_row (as_str i) gid r rep written)"
  using assms
  by (auto simp: fresh_pair_def new_group_row_def new_record_row_def row_ok_def find_record_None
      written_ok_def split: option.splits)

text \<open>The transaction either fails and changes nothing, or adds the pair and the source keys; the rows
  it reads back are always there.\<close>

definition inserted_db :: "string \<Rightarrow> RecordId \<Rightarrow> CrashRecord \<Rightarrow> WrittenPayload option \<Rightarrow> string list \<Rightarrow> int \<Rightarrow> Db \<Rightarrow> Db" where
  "inserted_db gid i r written keys at d =
     d\<lparr>crash_group :=
         upsert_group (new_group_row gid r (case written of None \<Rightarrow> 0 | Some w \<Rightarrow> int (stored_bytes w)))
           (crash_group d),
       crash_record := crash_record d @ [new_record_row (as_str i) gid r (find_group d gid \<noteq> None) written],
       ingested_source := insert_sources at keys (ingested_source d)\<rparr>"

lemma find_upsert: "find (\<lambda>x. g_group_id x = g_group_id g) (upsert_group g gs) \<noteq> None"
proof -
  have "g_group_id g \<in> g_group_id ` set (upsert_group g gs)" using upsert_group_ids [of g gs] by simp
  then show ?thesis by (auto simp: find_None_iff)
qed

lemma find_append: "find P (xs @ ys) = (case find P xs of None \<Rightarrow> find P ys | Some x \<Rightarrow> Some x)"
  by (induction xs) auto

lemma new_row_ids [simp]:
  "g_group_id (new_group_row gid r b) = gid" "r_id (new_record_row i gid r rep written) = i"
  by (simp_all add: new_group_row_def new_record_row_def)

lemma insert_rows_eq:
  "insert_rows sha fails i r written keys at d =
     (if fails \<or> find_record d (as_str i) \<noteq> None then (Inl Sqlite, d)
      else (let gid = record_group_id sha r; d' = inserted_db gid i r written keys at d
            in (Inr \<lparr>ins_record = map_record (new_record_row (as_str i) gid r (find_group d gid \<noteq> None) written),
                     ins_group = map_group (the (find_group d' gid)),
                     ins_is_new_group = (find_group d gid = None)\<rparr>, d')))"
proof -
  let ?gid = "record_group_id sha r"
  have "find_group (inserted_db ?gid i r written keys at d) ?gid \<noteq> None"
    using find_upsert [of "new_group_row ?gid r (case written of None \<Rightarrow> 0 | Some w \<Rightarrow> int (stored_bytes w))"]
    by (simp add: find_group_def inserted_db_def)
  then show ?thesis
    by (auto simp: insert_rows_def Let_def inserted_db_def find_record_def find_group_def find_append
        split: option.splits)
qed

lemma inserted_db_inv:
  assumes "db_inv exact d" "written_ok i written" "parse (as_str i) \<noteq> None" "find_record d (as_str i) = None"
  shows "db_inv exact (inserted_db gid i r written keys at d)"
proof -
  have "inserted_db gid i r written keys at d =
      d\<lparr>crash_group := crash_group (inserted_db gid i r written keys at d),
        crash_record := crash_record (inserted_db gid i r written keys at d)\<rparr>
       \<lparr>ingested_source := insert_sources at keys (ingested_source d)\<rparr>"
    by (simp add: inserted_db_def)
  then show ?thesis
    using insert_pair_inv [OF assms(1) new_pair_fresh [OF assms(2-4)]] db_inv_sources
      insert_sources_distinct [OF db_invD(3) [OF assms(1)]]
    by (simp add: inserted_db_def db_inv_sources)
qed

lemma insert_rows_inv:
  assumes "db_inv exact d" "written_ok i written" "parse (as_str i) \<noteq> None"
  shows "db_inv exact (snd (insert_rows sha fails i r written keys at d))"
  using assms inserted_db_inv by (auto simp: insert_rows_eq Let_def)

definition store_ok :: "bool \<Rightarrow> Store \<Rightarrow> bool" where
  "store_ok exact s \<longleftrightarrow> db_inv exact (store_db s)"

lemma parse_next_id: "parse (as_str (fst (Record_Id.next_id g now))) \<noteq> None"
  by (simp add: next_id_code)

lemma insert_with_sources_ok:
  assumes "store_ok exact s"
  shows "store_ok exact (snd (insert_with_sources w r retn keys at s))"
proof -
  obtain i s1 where n: "store_next_id s (happened_at_ms r) = (i, s1)" by fastforce
  have i: "parse (as_str i) \<noteq> None" and db: "store_db s1 = store_db s"
    using n parse_next_id [of "store_ids s" "u64_of (happened_at_ms r)"]
    by (auto simp: store_next_id_def split: prod.splits)
  have "db_inv exact d'"
    if "payload_write (w_read_file w) (w_zstd w) (w_faults w) i (payload r)
        (nat (max_payload_bytes_per_record retn)) (store_files s1) = (Inr written, fs)"
      "insert_rows (w_sha256 w) (w_tx_fails w (as_str i)) i r written keys at (store_db s1) = (x, d')" for written fs x d'
    using insert_rows_inv [OF assms [unfolded store_ok_def] payload_write_ok [OF that(1)] i] that(2) db
    by (metis snd_conv)
  then show ?thesis
    using assms
    by (auto simp: insert_with_sources_def store_ok_def n db split: prod.splits sum.splits option.splits)
qed

text \<open>Folding: the existing summary is that of a stored row.\<close>

lemma map_record_id: "row_ok rr \<Longrightarrow> as_str (rs_id (map_record rr)) = r_id rr"
  using parse_SomeD by (auto simp: row_ok_def map_record_def)

lemma map_record_absent:
  "row_ok rr \<Longrightarrow> rs_payload_state (map_record rr) = Absent \<Longrightarrow> r_payload_path rr = None \<and> r_payload_bytes rr = 0"
  by (auto simp: row_ok_def map_record_def pstate_from_i64_def split: option.splits)

lemma fold_rows_inv:
  assumes inv: "db_inv exact d" and rr: "rr \<in> set (crash_record d)" "existing = map_record rr"
    and ok: "written_ok (rs_id existing) adopted"
      "adopted \<noteq> None \<Longrightarrow> rs_payload_state existing = Absent"
  shows "db_inv exact (snd (fold_rows fails existing r adopted keys at d))"
proof -
  have row: "row_ok rr" using inv rr(1) db_invD(4) rows_okD(1) by blast
  note i = map_record_id [OF row, folded rr(2)]
  obtain xs ys where s: "crash_record d = xs @ rr # ys" "r_id rr \<notin> r_id ` (set xs \<union> set ys)"
    using split_row [OF rr(1)] db_invD(2) [OF inv] by blast
  let ?srcs = "uint (mask_union (rs_sources existing) (sources r))"
  let ?r1 = "rr\<lparr>r_source_bits := ?srcs\<rparr>"
  have "row_ok ?r1" using row by (auto simp: row_ok_def split: option.splits)
  then have inv1: "db_inv exact (d\<lparr>crash_record := xs @ [?r1] @ ys\<rparr>)"
    using db_inv_replace [OF inv s(1), of "[?r1]" 0] by simp
  have d1: "update_records (\<lambda>x. r_id x = as_str (rs_id existing)) (\<lambda>x. x\<lparr>r_source_bits := ?srcs\<rparr>) d
      = d\<lparr>crash_record := xs @ ?r1 # ys\<rparr>"
    using update_split(1) [OF s(2) refl] by (simp add: update_records_def i s(1))
  have inv2: "db_inv exact (case adopted of None \<Rightarrow> d\<lparr>crash_record := xs @ ?r1 # ys\<rparr>
      | Some w \<Rightarrow> adopt_payload existing w (d\<lparr>crash_record := xs @ ?r1 # ys\<rparr>))"
  proof (cases adopted)
    case None then show ?thesis using inv1 by simp
  next
    case (Some w)
    let ?f = "\<lambda>x. x\<lparr>r_payload_path := Some (relative_path w), r_payload_bytes := int (stored_bytes w),
        r_payload_codec := pcodec_as_i64 (written_codec w), r_payload_state := pstate_as_i64 (written_state w)\<rparr>"
    have empty: "r_payload_path rr = None \<and> r_payload_bytes rr = 0"
      using map_record_absent [OF row] ok(2) Some rr(2) by auto
    have "adopt_payload existing w (d\<lparr>crash_record := xs @ ?r1 # ys\<rparr>) =
        d\<lparr>crash_record := xs @ [?f ?r1] @ ys, crash_group := add_bytes (r_group_id ?r1) (int (stored_bytes w)) (crash_group d)\<rparr>"
      using update_split(1) [OF s(2), of ?r1 ?f] i rr(2)
      by (simp add: adopt_payload_def update_records_def update_groups_def add_bytes_def map_record_def)
    moreover have "row_ok (?f ?r1)"
      using row ok(1) Some i by (auto simp: row_ok_def written_ok_def)
    ultimately show ?thesis
      using db_inv_replace [OF inv1, of xs ?r1 ys "[?f ?r1]" "int (stored_bytes w)"] Some empty by simp
  qed
  show ?thesis
    using inv inv2 d1
    by (auto simp: fold_rows_def Let_def db_inv_sources insert_sources_distinct db_invD(3) split: option.splits)
qed

lemma fold_into_record_ok:
  assumes "store_ok exact s" "rr \<in> set (crash_record (store_db s))"
  shows "store_ok exact (snd (fold_into_record w (map_record rr) r retn keys at s))"
proof -
  let ?e = "map_record rr"
  have "db_inv exact d'"
    if "(if rs_payload_state ?e = Absent
         then payload_write (w_read_file w) (w_zstd w) (w_faults w) (rs_id ?e) (payload r)
                (nat (max_payload_bytes_per_record retn)) (store_files s)
         else (Inr None, store_files s)) = (Inr adopt, fs)"
      "fold_rows (w_tx_fails w (as_str (rs_id ?e))) ?e r adopt keys at (store_db s) = (x, d')" for adopt fs x d'
  proof -
    have "written_ok (rs_id ?e) adopt" "adopt \<noteq> None \<Longrightarrow> rs_payload_state ?e = Absent"
      using that(1) payload_write_ok by (auto simp: written_ok_def split: if_splits)
    then show ?thesis
      using fold_rows_inv [OF assms(1) [unfolded store_ok_def] assms(2) refl, of adopt] that(2)
      by (metis snd_conv)
  qed
  then show ?thesis
    using assms(1) unfolding fold_into_record_def
    by (auto simp: store_ok_def split: prod.splits sum.splits option.splits)
qed

lemma delete_records_where_ok:
  assumes "store_ok exact s"
  shows "store_ok exact (snd (delete_records_where w name P s))"
proof -
  have "db_inv exact (fold remove_record (filter P (crash_record (store_db s))) (store_db s))"
    using assms by (auto simp: store_ok_def db_invD(2) distinct_map_filterI intro!: fold_remove_inv)
  then show ?thesis
    using assms by (auto simp: delete_records_where_def Let_def store_ok_def split: prod.splits sum.splits)
qed

lemma evict_row_keeps:
  "x \<in> set (crash_record d) \<Longrightarrow> r_id x \<noteq> r_id r \<Longrightarrow> x \<in> set (crash_record (evict_row r d))"
  by (force simp: evict_row_def update_records_def)

lemma evict_loop_ok:
  "store_ok exact s \<Longrightarrow> set rs \<subseteq> set (crash_record (store_db s)) \<Longrightarrow> distinct (map r_id rs) \<Longrightarrow>
   store_ok exact (snd (evict_loop w over_by rs ev rc s))"
proof (induction w over_by rs ev rc s rule: evict_loop.induct)
  case (2 w over_by r rs ev rc s)
  have "db_inv exact (evict_row r (store_db s))"
    using 2(2,3) by (auto simp: store_ok_def intro: evict_row_inv)
  moreover have "set rs \<subseteq> set (crash_record (evict_row r (store_db s)))"
    using 2(3,4) by (auto simp: image_iff intro!: evict_row_keeps)
  ultimately show ?case
    using 2 by (auto simp: Let_def store_ok_def split: prod.splits sum.splits)
qed simp

lemma distinct_oldest_first:
  "distinct (map r_id rs) \<Longrightarrow> distinct (map r_id (oldest_first (filter P rs)))"
proof -
  assume "distinct (map r_id rs)"
  then have "distinct (map r_id (filter P rs))" by (rule distinct_map_filterI)
  moreover have "mset (map r_id (oldest_first (filter P rs))) = mset (map r_id (filter P rs))"
    by (simp add: oldest_first_def)
  ultimately show ?thesis by (metis mset_eq_imp_distinct_iff)
qed

lemma evict_payloads_ok: "store_ok exact s \<Longrightarrow> store_ok exact (snd (evict_payloads w n s))"
  unfolding evict_payloads_def Let_def
  by (auto simp: store_ok_def oldest_first_def db_invD(2) intro!: evict_loop_ok [unfolded store_ok_def]
      distinct_oldest_first [unfolded oldest_first_def])

lemma snd_bind_store:
  assumes "P (snd m)" "\<And>x s. P s \<Longrightarrow> P (snd (f x s))"
  shows "P (snd (bind_store m f))"
  using assms by (auto simp: bind_store_def split: prod.splits sum.splits)

text \<open>A sweep keeps what its stages keep.\<close>

lemma sweep_preserves:
  assumes init: "I s"
    and del: "\<And>name P s. I s \<Longrightarrow> I (snd (delete_records_where w name P s))"
    and evict: "\<And>n s. I s \<Longrightarrow> I (snd (evict_payloads w n s))"
    and groups: "\<And>c s. I s \<Longrightarrow> I (s\<lparr>store_db := snd (drop_empty_groups_before c (store_db s))\<rparr>)"
    and prune: "\<And>s. I s \<Longrightarrow> I (s\<lparr>store_db := snd (prune_ingested_sources now (sweep_cutoff now (clamped retn)) (store_db s))\<rparr>)"
  shows "I (snd (sweep w now retn s))"
proof -
  have trims: "I (snd (trim_each_group w k s))" "I (snd (trim_total w k s))" if "I s" for k s
    using that del by (auto simp: trim_each_group_def trim_total_def Let_def)
  note B = snd_bind_store [where P = I]
  show ?thesis
    unfolding sweep_def Let_def case_prod_beta
    apply (rule B [OF del [OF init]])
    apply (rule B [OF trims(1)], assumption)
    apply (rule B [OF trims(2)], assumption)
    apply (simp only: snd_conv if_distrib [of snd] split: if_split)
    apply (intro conjI impI TrueI)
    apply (rule B [OF evict [OF groups]], assumption)
    by (simp add: prune)
qed

lemma sweep_ok: "store_ok exact s \<Longrightarrow> store_ok exact (snd (sweep w now retn s))"
  by (rule sweep_preserves)
    (simp_all add: delete_records_where_ok evict_payloads_ok, simp_all add: store_ok_def drop_empty_groups_inv prune_inv)

lemma store_delete_ok:
  "store_ok exact s \<Longrightarrow> store_ok (exact \<and> counts_exactly t) (snd (store_delete w t s))"
  using delete_rows_inv [of exact "store_db s" t] db_inv_weaken [of exact "store_db s"]
  by (cases exact; cases "counts_exactly t")
    (auto simp: store_delete_def store_ok_def split: prod.splits sum.splits)

section \<open>Runs of the store\<close>

text \<open>One call of the store's interface.  \<^term>\<open>OpFold\<close> looks up the companion and folds into it, as
  \<^verbatim>\<open>DaemonCore::ingest_with_sources\<close> does; \<^term>\<open>OpReopen\<close> is a restart of the daemon.\<close>

datatype StoreOp =
  OpInsert World CrashRecord RetentionPolicy "string list" int
| OpFold World CrashRecord int RetentionPolicy "string list" int
| OpSweep World int RetentionPolicy
| OpDelete World DeleteTarget
| OpMark string int
| OpGroupMute string "int option"
| OpPackageMute string "int option"
| OpClearMutes
| OpFlags bool "(string \<times> bool) list"
| OpReopen FsFaults

fun store_step :: "StoreOp \<Rightarrow> Store \<Rightarrow> Store" where
  "store_step (OpInsert w r retn keys at) s = snd (insert_with_sources w r retn keys at s)"
| "store_step (OpFold w r window retn keys at) s =
     (case companion_record (store_db s) r window of
        None \<Rightarrow> s
      | Some existing \<Rightarrow> snd (fold_into_record w existing r retn keys at s))"
| "store_step (OpSweep w now retn) s = snd (sweep w now retn s)"
| "store_step (OpDelete w t) s = snd (store_delete w t s)"
| "store_step (OpMark k now) s = s\<lparr>store_db := snd (mark_ingested k now (store_db s))\<rparr>"
| "store_step (OpGroupMute gid u) s = s\<lparr>store_db := snd (set_group_mute gid u (store_db s))\<rparr>"
| "store_step (OpPackageMute p u) s = s\<lparr>store_db := snd (set_package_mute p u (store_db s))\<rparr>"
| "store_step OpClearMutes s = s\<lparr>store_db := snd (clear_all_mutes (store_db s))\<rparr>"
| "store_step (OpFlags fails flags) s =
     s\<lparr>store_db := snd (apply_package_system_flags fails flags (store_db s))\<rparr>"
| "store_step (OpReopen faults) s =
     (case store_open faults SCHEMA_VERSION (store_db s) (store_files s) of Inl _ \<Rightarrow> s | Inr s' \<Rightarrow> s')"

definition fresh_store :: Store where
  "fresh_store = \<lparr>store_db = empty_db, store_files = [], store_ids = new_generator\<rparr>"

text \<open>Only a deletion by ids leaves the byte counters inexact.\<close>

fun keeps_exact :: "StoreOp \<Rightarrow> bool" where
  "keeps_exact (OpDelete w t) = counts_exactly t"
| "keeps_exact _ = True"

lemma companion_record_stored:
  "companion_record d r window = Some e \<Longrightarrow> \<exists>rr \<in> set (crash_record d). e = map_record rr"
  by (auto simp: companion_record_def split: if_splits dest!: min_by_key_in)

lemma set_group_mute_snd: "snd (set_group_mute gid u d) = snd (set_mute (\<lambda>g. g_group_id g = gid) u d)"
  by (simp add: set_group_mute_def case_prod_beta)

lemma store_step_ok:
  assumes "store_ok exact s" shows "store_ok (exact \<and> keeps_exact op) (store_step op s)"
proof (cases op)
  case (OpInsert w r retn keys at)
  then show ?thesis using insert_with_sources_ok [OF assms] by simp
next
  case (OpFold w r window retn keys at)
  then show ?thesis
    using assms fold_into_record_ok [OF assms] companion_record_stored [of "store_db s" r window]
    by (auto split: option.splits)
next
  case (OpSweep w now retn)
  then show ?thesis using sweep_ok [OF assms] by simp
next
  case (OpDelete w t)
  then show ?thesis using store_delete_ok [OF assms] by simp
next
  case (OpFlags fails flags)
  then show ?thesis
    using assms apply_flags_inv [of exact "store_db s" flags]
    by (auto simp: store_ok_def apply_package_system_flags_def case_prod_beta)
next
  case (OpReopen faults)
  then show ?thesis using assms by (simp add: store_ok_def store_open_def initialize_def)
qed (use assms in \<open>simp_all add: store_ok_def mark_ingested_inv set_mute_inv set_group_mute_snd
      set_package_mute_def clear_all_mutes_def\<close>)

interpretation store_run: graded_invariant store_step store_ok "\<lambda>op exact. exact \<and> keeps_exact op" "\<lambda>_ _. True"
  by standard (rule store_step_ok)

lemma store_run_all_allowed [simp]: "store_run.all_allowed ops exact"
  by (induction ops arbitrary: exact) simp_all

lemma fold_keeps_exact: "fold (\<lambda>op exact. exact \<and> keeps_exact op) ops b = (b \<and> list_all keeps_exact ops)"
  by (induction ops arbitrary: b) auto

text \<open>C2: after any sequence of store operations on a fresh store, whatever fails on the way (file system,
  compressor, SQLite transactions, restarts in between), the index is well formed: group ids, record
  ids and source keys are unique; every record belongs to a group whose first/last span covers it; a
  group's occurrence count is at least one and at least the number of its rows; its byte counter is at
  least the bytes of its rows' payloads, and exactly that unless records were deleted by id; and a row
  has a payload path exactly when its state says that it can be read.\<close>
theorem store_invariant:
  "db_inv (list_all keeps_exact ops) (store_db (fold store_step ops fresh_store))"
  using store_run.run_inv [of True fresh_store ops]
  by (simp add: store_ok_def fresh_store_def fold_keeps_exact)

text \<open>deleting records by id removes exactly those rows and the groups left without any row, and does not
  adjust the byte counters of the groups that stay: each of them keeps counting the bytes of the
  rows that were deleted from it.\<close>
theorem delete_ids_keeps_byte_counters:
  assumes "db_inv True d" and "ids \<noteq> []"
  shows "let d' = snd (delete_rows (Ids ids) d) in
     crash_record d' = filter (\<lambda>r. r_id r \<notin> as_str ` set ids) (crash_record d) \<and>
     crash_group d' = filter (\<lambda>g. rows_of (g_group_id g) (crash_record d') \<noteq> []) (crash_group d) \<and>
     (\<forall>g \<in> set (crash_group d'). g_payload_bytes g =
        bytes_of (g_group_id g) (crash_record d') +
        bytes_of (g_group_id g) (filter (\<lambda>r. r_id r \<in> as_str ` set ids) (crash_record d)))"
proof -
  let ?rs = "filter (\<lambda>r. r_id r \<notin> as_str ` set ids) (crash_record d)"
  let ?gone = "filter (\<lambda>r. r_id r \<in> as_str ` set ids) (crash_record d)"
  have split: "bytes_of gid rs = bytes_of gid (filter (\<lambda>r. r_id r \<notin> as_str ` set ids) rs) +
      bytes_of gid (filter (\<lambda>r. r_id r \<in> as_str ` set ids) rs)" for gid rs
    by (induction rs) auto
  have rows: "gid \<in> r_group_id ` set rs \<longleftrightarrow> rows_of gid rs \<noteq> []" for gid rs
    by (auto simp: rows_of_def filter_empty_conv)
  have d': "snd (delete_rows (Ids ids) d) = d\<lparr>crash_record := ?rs,
      crash_group := filter (\<lambda>g. rows_of (g_group_id g) ?rs \<noteq> []) (crash_group d)\<rparr>"
    using assms(2) by (simp add: delete_rows_def Let_def flip: rows)
  have "g_payload_bytes g = bytes_of (g_group_id g) ?rs + bytes_of (g_group_id g) ?gone"
    if "g \<in> set (crash_group d)" for g
    using db_invD(5) [OF assms(1) that] split [of "g_group_id g" "crash_record d"] by (simp add: group_ok_def bytes_ok_def)
  then show ?thesis unfolding d' Let_def by simp
qed

definition sample_group :: GroupRow where
  "sample_group = \<lparr>g_group_id = ''g'', g_package_name = ''p'', g_process_name = ''p'', g_user_id = 0, g_kind = 1,
     g_is_system_app = False, g_package_installed = True, g_is_main_process = True, g_self_handled = False,
     g_summary_class = None, g_summary_text = None, g_occurrence = 2, g_first_seen_ms = 1, g_last_seen_ms = 2,
     g_payload_bytes = 10, g_muted_until_ms = None\<rparr>"

definition sample_row :: "128 word \<Rightarrow> int \<Rightarrow> int \<Rightarrow> RecordRow" where
  "sample_row i at bytes = \<lparr>r_id = as_str (encode i), r_group_id = ''g'', r_happened_at_ms = at, r_record_pid = 7,
     r_source_bits = 1, r_app_version_name = None, r_app_version_code = None, r_is_foreground = None,
     r_is_repeating = False, r_dropped_count = None, r_payload_path = Some (path_of (as_str (encode i))),
     r_payload_bytes = bytes, r_payload_codec = 1, r_payload_state = 0\<rparr>"

definition sample_db :: Db where
  "sample_db = \<lparr>crash_group = [sample_group], crash_record = [sample_row 1 1 4, sample_row 2 2 6], ingested_source = []\<rparr>"

lemma sample_ids_differ [simp]: "as_str (encode 1) \<noteq> as_str (encode 2)" "as_str (encode 2) \<noteq> as_str (encode 1)"
  using id_codec.enc_inject [of 1 2] by (auto dest: RecordId.expand)

lemma sample_db_inv: "db_inv True sample_db"
  by (simp add: db_inv_def sample_db_def sample_group_def sample_row_def rows_ok_def row_ok_def covers_def
      group_ok_def bytes_ok_def)

theorem delete_ids_keeps_byte_counters_witness:
  "let d' = snd (delete_rows (Ids [encode 1]) sample_db) in
     bytes_of ''g'' (crash_record d') = 6 \<and> (\<forall>g \<in> set (crash_group d'). g_payload_bytes g = 6 + 4)"
  using delete_ids_keeps_byte_counters [OF sample_db_inv, of "[encode 1]"]
  by (simp add: Let_def sample_db_def sample_row_def sample_group_def)

end
