(* ===== verification/Store_Files.thy ===== *)
theory Store_Files
  imports Store_Inv
begin

text \<open>
  Two invariants of the store that span its parts: the id generator stays ahead of every stored id,
  also across restarts, so an insert cannot collide; and the payload files the index refers to exist
  and have the size the index says.
\<close>

section \<open>Ids\<close>

definition ids_of :: "Db \<Rightarrow> string set" where
  "ids_of d = r_id ` set (crash_record d)"

text \<open>\<^term>\<open>n\<close> bounds the sequence numbers used so far.\<close>

definition issued :: "nat \<Rightarrow> RecordIdGenerator \<Rightarrow> string \<Rightarrow> bool" where
  "issued n g i \<longleftrightarrow> (\<exists>v. i = as_str (encode v) \<and> v \<le> gen_code g \<and> unat v mod 2 ^ 80 \<le> n)"

definition id_inv :: "nat \<Rightarrow> Store \<Rightarrow> bool" where
  "id_inv n s \<longleftrightarrow>
     gen_wf (store_ids s) \<and> unat (sequence (store_ids s)) \<le> n \<and>
     (\<forall>i \<in> ids_of (store_db s). issued n (store_ids s) i)"

lemma id_inv_shrink:
  assumes "id_inv n s" "store_ids s' = store_ids s" "ids_of (store_db s') \<subseteq> ids_of (store_db s)"
  shows "id_inv (Suc n) s'"
proof -
  have "issued (Suc n) g i" if "issued n g i" for g i
    using that by (auto simp: issued_def intro: le_SucI)
  then show ?thesis using assms by (auto simp: id_inv_def)
qed

lemma issued_less: "as_str (encode v) < as_str (encode w) \<longleftrightarrow> v < w"
  using encode_less_iff [of v w] by (simp add: less_RecordId_def)

lemma as_str_encode_inject [simp]: "as_str (encode v) = as_str (encode w) \<longleftrightarrow> v = w"
  using issued_less [of v w] issued_less [of w v] by (metis less_irrefl linorder_neqE)

subsection \<open>What each operation does to the ids\<close>

lemma ids_of_filter: "ids_of (d\<lparr>crash_record := filter P (crash_record d)\<rparr>) \<subseteq> ids_of d"
  by (auto simp: ids_of_def)

lemma ids_of_update_groups [simp]: "ids_of (update_groups P f d) = ids_of d"
  by (simp add: ids_of_def update_groups_def)

lemma ids_of_update_records:
  "(\<And>r. r_id (f r) = r_id r) \<Longrightarrow> ids_of (update_records P f d) = ids_of d"
proof -
  assume "\<And>r. r_id (f r) = r_id r"
  then have "map r_id (map (\<lambda>r. if P r then f r else r) rs) = map r_id rs" for rs by simp
  then have "r_id ` set (map (\<lambda>r. if P r then f r else r) rs) = r_id ` set rs" for rs by (metis set_map)
  then show ?thesis unfolding ids_of_def update_records_def by (simp del: set_map)
qed

lemma ids_of_less_group_bytes [simp]: "ids_of (less_group_bytes gid n d) = ids_of d"
  by (simp add: ids_of_def)

lemma ids_of_evict_row [simp]: "ids_of (evict_row r d) = ids_of d"
  by (simp add: evict_row_def ids_of_update_records)

lemma ids_of_fold_remove: "ids_of (fold remove_record rs d) \<subseteq> ids_of d"
  by (auto simp: ids_of_def fold_remove_records)

lemma ids_of_sources [simp]: "ids_of (d\<lparr>ingested_source := ss\<rparr>) = ids_of d"
  by (simp add: ids_of_def)

lemma ids_of_groups [simp]: "ids_of (d\<lparr>crash_group := gs\<rparr>) = ids_of d"
  by (simp add: ids_of_def)

lemma ids_of_fold_rows: "ids_of (snd (fold_rows fails e r ad keys at d)) = ids_of d"
proof -
  have "ids_of (adopt_payload e w d) = ids_of d" for w d
    by (simp add: adopt_payload_def ids_of_update_records)
  then show ?thesis
    by (auto simp: fold_rows_def Let_def ids_of_update_records split: option.splits)
qed

lemma ids_of_delete_rows: "ids_of (snd (delete_rows t d)) \<subseteq> ids_of d"
  by (auto simp: delete_rows_def ids_of_def Let_def split: DeleteTarget.splits if_splits)

lemma ids_of_apply_flags [simp]: "ids_of (snd (apply_flags flags d)) = ids_of d"
  by (induction flags d rule: apply_flags.induct) (simp_all add: Let_def case_prod_beta)

text \<open>The operations other than an insert and a restart keep the generator and add no id.\<close>

definition no_new_ids :: "Store \<Rightarrow> Store \<Rightarrow> bool" where
  "no_new_ids s s' \<longleftrightarrow> store_ids s' = store_ids s \<and> ids_of (store_db s') \<subseteq> ids_of (store_db s)"

lemma no_new_ids_refl [simp]: "no_new_ids s s"
  by (simp add: no_new_ids_def)

lemma no_new_ids_trans: "no_new_ids s t \<Longrightarrow> no_new_ids t u \<Longrightarrow> no_new_ids s u"
  by (auto simp: no_new_ids_def)

lemma delete_where_no_new_ids: "no_new_ids s (snd (delete_records_where w name P s))"
  using ids_of_fold_remove
  by (auto simp: delete_records_where_def Let_def no_new_ids_def split: prod.splits sum.splits)

lemma evict_loop_no_new_ids: "no_new_ids s (snd (evict_loop w ov rs ev rc s))"
proof (induction w ov rs ev rc s rule: evict_loop.induct)
  case (2 w over_by r rs ev rc s)
  then show ?case by (auto simp: Let_def no_new_ids_def split: prod.splits sum.splits)
qed simp

lemma sweep_no_new_ids: "no_new_ids s (snd (sweep w now retn s))"
proof (rule sweep_preserves)
  fix name P t n c assume t: "no_new_ids s t"
  show "no_new_ids s (snd (delete_records_where w name P t))"
    using no_new_ids_trans [OF t delete_where_no_new_ids] .
  have "no_new_ids t (snd (evict_payloads w n t))" by (simp add: evict_payloads_def Let_def evict_loop_no_new_ids)
  then show "no_new_ids s (snd (evict_payloads w n t))" by (rule no_new_ids_trans [OF t])
  show "no_new_ids s (t\<lparr>store_db := snd (drop_empty_groups_before c (store_db t))\<rparr>)"
    "no_new_ids s (t\<lparr>store_db := snd (prune_ingested_sources now c (store_db t))\<rparr>)"
    using t by (simp_all add: no_new_ids_def drop_empty_groups_before_def prune_ingested_sources_def Let_def)
qed simp

lemma step_no_new_ids:
  assumes "\<not> (\<exists>w r retn keys at. op = OpInsert w r retn keys at)" "\<not> (\<exists>fl. op = OpReopen fl)"
  shows "no_new_ids s (store_step op s)"
proof (cases op)
  case (OpFold w r window retn keys at)
  have "no_new_ids s (snd (fold_into_record w e r retn keys at s))" for e
    using ids_of_fold_rows
    by (auto simp: fold_into_record_def no_new_ids_def split: prod.splits sum.splits option.splits)
      (metis snd_conv)+
  then show ?thesis using OpFold by (auto split: option.splits)
next
  case (OpSweep w now retn)
  then show ?thesis by (simp add: sweep_no_new_ids)
next
  case (OpDelete w t)
  then show ?thesis using ids_of_delete_rows [of t "store_db s"]
    by (auto simp: store_delete_def no_new_ids_def split: prod.splits sum.splits)
next
  case (OpFlags fails flags)
  then show ?thesis
    by (auto simp: no_new_ids_def apply_package_system_flags_def case_prod_beta)
qed (use assms in \<open>auto simp: no_new_ids_def mark_ingested_def set_group_mute_snd
      set_mute_def set_package_mute_def clear_all_mutes_def\<close>)

subsection \<open>The generator stays ahead\<close>

text \<open>A record's time, clamped at zero, has to fit the 48 bits of a record id.\<close>

definition clock_ok :: "CrashRecord \<Rightarrow> bool" where
  "clock_ok r \<longleftrightarrow> happened_at_ms r < 2 ^ 48"

lemma clock_ok_unat: "clock_ok r \<Longrightarrow> unat (u64_of (happened_at_ms r)) < 2 ^ 48"
proof -
  assume "clock_ok r"
  then have "uint (u64_of (happened_at_ms r)) = max 0 (happened_at_ms r)"
    by (auto simp: u64_of_def clock_ok_def unsigned_of_int take_bit_int_eq_self_iff)
  then show ?thesis using \<open>clock_ok r\<close> by (simp add: unat_eq_nat_uint clock_ok_def)
qed

lemma next_id_fresh:
  assumes "id_inv n s" "n < 2 ^ 80 - 1" "clock_ok r"
  defines "g' \<equiv> snd (Record_Id.next_id (store_ids s) (u64_of (happened_at_ms r)))"
  shows "gen_wf g'" "gen_code (store_ids s) < gen_code g'" "unat (sequence g') \<le> Suc n"
    "as_str (encode (gen_code g')) \<notin> ids_of (store_db s)"
proof -
  have g: "gen_wf (store_ids s)" "0 < sequence_left (store_ids s)"
    using assms(1,2) by (auto simp: id_inv_def sequence_left_def)
  note S = next_id_step [OF g(1) clock_ok_unat [OF assms(3)] g(2)]
  show wf: "gen_wf g'" unfolding g'_def by (rule next_id_wf [OF g(1)])
  show lt: "gen_code (store_ids s) < gen_code g'" unfolding g'_def by (rule S(1))
  have "unat (sequence (store_ids s)) < 2 ^ 80 - 1" using g(2) by (simp add: sequence_left_def)
  then show "unat (sequence g') \<le> Suc n"
    using S(2) [folded g'_def] assms(1,2) wf unfolding sequence_left_def id_inv_def gen_wf_def
    by linarith
  show "as_str (encode (gen_code g')) \<notin> ids_of (store_db s)"
    using assms(1) lt by (fastforce simp: id_inv_def issued_def)
qed

lemma insert_shape:
  assumes "insert_with_sources w r retn keys at s = (res, s')"
  defines "g' \<equiv> snd (Record_Id.next_id (store_ids s) (u64_of (happened_at_ms r)))"
  shows "store_ids s' = g'"
    "store_db s' = store_db s \<or>
     (\<exists>written gid rep. crash_record (store_db s') =
        crash_record (store_db s) @ [new_record_row (as_str (encode (gen_code g'))) gid r rep written])"
proof -
  define i where "i = fst (Record_Id.next_id (store_ids s) (u64_of (happened_at_ms r)))"
  have n: "store_next_id s (happened_at_ms r) = (i, s\<lparr>store_ids := g'\<rparr>)"
    by (simp add: store_next_id_def i_def g'_def case_prod_beta)
  have i: "i = encode (gen_code g')" by (simp add: i_def g'_def next_id_code)
  show "store_ids s' = g'"
    using assms(1) by (auto simp: insert_with_sources_def n split: prod.splits sum.splits option.splits)
  have R: "d' = d \<or> (\<exists>gid rep. crash_record d' = crash_record d @ [new_record_row (as_str i) gid r rep wr])"
    if "insert_rows sha fails i r wr keys at d = (x, d')" for sha fails wr d x d'
  proof (cases "fails \<or> find_record d (as_str i) \<noteq> None")
    case True then show ?thesis using that by (simp add: insert_rows_eq)
  next
    case False
    then have "d' = inserted_db (record_group_id sha r) i r wr keys at d"
      using that by (simp add: insert_rows_eq Let_def)
    then show ?thesis by (simp add: inserted_db_def) blast
  qed
  show "store_db s' = store_db s \<or>
     (\<exists>written gid rep. crash_record (store_db s') =
        crash_record (store_db s) @ [new_record_row (as_str (encode (gen_code g'))) gid r rep written])"
    using assms(1) R
    by (auto simp: insert_with_sources_def n simp flip: i split: prod.splits sum.splits option.splits)
      blast+
qed

lemma insert_id_inv:
  assumes "id_inv n s" "n < 2 ^ 80 - 1" "clock_ok r"
  shows "id_inv (Suc n) (snd (insert_with_sources w r retn keys at s))"
proof -
  obtain res s' where e: "insert_with_sources w r retn keys at s = (res, s')" by fastforce
  let ?g = "store_ids s'"
  note S = insert_shape [OF e]
  note F = next_id_fresh [OF assms, folded S(1)]
  have seq: "unat (gen_code ?g) mod 2 ^ 80 \<le> Suc n"
    using F(1,3) unat_gen_code [OF F(1)] by (simp add: gen_wf_def)
  have old: "issued (Suc n) ?g i" if "i \<in> ids_of (store_db s)" for i
    using that assms(1) F(2) unfolding id_inv_def issued_def by (meson le_SucI less_imp_le order_trans)
  have "issued (Suc n) ?g (as_str (encode (gen_code ?g)))" using seq by (auto simp: issued_def)
  moreover have "ids_of (store_db s') \<subseteq> insert (as_str (encode (gen_code ?g))) (ids_of (store_db s))"
    using S(2) [folded S(1)] by (auto simp: ids_of_def)
  ultimately show ?thesis using F(1,3) old e by (auto simp: id_inv_def)
qed

text \<open>A restart takes the generator to the greatest stored id.\<close>

lemma reopen_id_inv:
  assumes "id_inv n s" shows "id_inv (Suc n) (store_step (OpReopen faults) s)"
proof -
  let ?d = "store_db s" and ?s' = "store_step (OpReopen faults) s"
  have s': "store_db ?s' = ?d" "store_ids ?s' = resume_ids ?d new_generator"
    by (simp_all add: store_open_def initialize_def)
  show ?thesis
  proof (cases "crash_record ?d = []")
    case True
    then show ?thesis using s' by (simp add: id_inv_def ids_of_def resume_ids_def max_id_def)
      (simp add: new_generator_def)
  next
    case False
    let ?m = "Max (ids_of ?d)"
    have fin: "finite (ids_of ?d)" "ids_of ?d \<noteq> {}" using False by (simp_all add: ids_of_def)
    then have "?m \<in> ids_of ?d" by (rule Max_in)
    then obtain v where v: "?m = as_str (encode v)" "unat v mod 2 ^ 80 \<le> n"
      using assms by (auto simp: id_inv_def issued_def)
    have g: "store_ids ?s' = resume_after new_generator (encode v)"
      unfolding s'(2) using False v(1) by (simp add: resume_ids_def max_id_def ids_of_def)
    have code: "gen_code (store_ids ?s') = v" and wf: "gen_wf (store_ids ?s')"
      unfolding g using resume_after_encode [OF new_generator_wf, of v]
      by (simp_all add: gen_code_def new_generator_def)
    have "unat (sequence (store_ids ?s')) = unat v mod 2 ^ 80"
      using unat_gen_code [OF wf] wf code by (simp add: gen_wf_def)
    moreover have "issued (Suc n) (store_ids ?s') i" if i: "i \<in> ids_of ?d" for i
    proof -
      obtain u where u: "i = as_str (encode u)" "unat u mod 2 ^ 80 \<le> n"
        using assms i by (auto simp: id_inv_def issued_def)
      have "i \<le> ?m" using fin(1) i by simp
      then have "u \<le> v" using u(1) v(1) issued_less [of v u] by (simp add: not_less [symmetric])
      then show ?thesis using u code by (auto simp: issued_def intro: le_SucI)
    qed
    ultimately show ?thesis using v(2) wf s'(1) by (simp add: id_inv_def)
  qed
qed

text \<open>How many ids can share one timestamp.\<close>

definition id_budget :: nat where "id_budget = 2 ^ 80 - 1"

fun op_clock_ok :: "StoreOp \<Rightarrow> bool" where
  "op_clock_ok (OpInsert w r retn keys at) = clock_ok r"
| "op_clock_ok _ = True"

interpretation id_run: graded_invariant store_step id_inv "\<lambda>_ n. Suc n"
  "\<lambda>op n. op_clock_ok op \<and> n < id_budget"
proof
  fix n s op assume a: "id_inv n s" "op_clock_ok op \<and> n < id_budget"
  show "id_inv (Suc n) (store_step op s)"
  proof (cases "(\<exists>w r retn keys at. op = OpInsert w r retn keys at) \<or> (\<exists>fl. op = OpReopen fl)")
    case True then show ?thesis using a insert_id_inv reopen_id_inv by (auto simp: id_budget_def simp del: store_step.simps(10))
  next
    case False then show ?thesis
      using id_inv_shrink [OF a(1)] step_no_new_ids by (simp add: no_new_ids_def)
  qed
qed

lemma id_run_allowed:
  "list_all op_clock_ok ops \<Longrightarrow> n + length ops \<le> id_budget \<Longrightarrow> id_run.all_allowed ops n"
  by (induction ops arbitrary: n) auto

lemma fold_Suc: "fold (\<lambda>_ n. Suc n) ops n = n + length ops"
  by (induction ops arbitrary: n) auto

lemma fresh_store_id_inv: "id_inv 0 fresh_store"
  by (simp add: id_inv_def fresh_store_def ids_of_def empty_db_def new_generator_def gen_wf_def)

lemma run_id_inv:
  assumes "list_all op_clock_ok ops" "length ops \<le> id_budget"
  shows "id_inv (length ops) (fold store_step ops fresh_store)"
  using id_run.run_inv [OF fresh_store_id_inv id_run_allowed, of ops] assms by (simp add: fold_Suc)

section \<open>Payload files\<close>

definition files_inv :: "Store \<Rightarrow> bool" where
  "files_inv s \<longleftrightarrow>
     (\<forall>r \<in> set (crash_record (store_db s)). \<forall>p. r_payload_path r = Some p \<longrightarrow>
        (\<exists>c. map_of (store_files s) p = Some c \<and> int (length c) = r_payload_bytes r))"

text \<open>Neither a transaction nor an unlink fails.\<close>

definition quiet :: "World \<Rightarrow> bool" where
  "quiet w \<longleftrightarrow> fs_unlink_fails (w_faults w) = [] \<and> (\<forall>name. \<not> w_tx_fails w name)"

lemma parse_length: "parse i \<noteq> None \<Longrightarrow> length i = 26"
  using parse_SomeD by blast

lemma path_of_inject:
  assumes "parse i \<noteq> None" "parse j \<noteq> None" "path_of i = path_of j" shows "i = j"
proof -
  have "length (take 2 i) = length (take 2 j)" using assms(1,2) parse_length by simp
  then show ?thesis using assms(3) unfolding path_of_def by (metis append_eq_append_conv append_same_eq)
qed

lemma resolve_path_of:
  assumes "parse i \<noteq> None" shows "\<exists>c. resolve root (path_of i) = Inr c"
proof -
  obtain j where j: "parse i = Some j" using assms by blast
  then have "path_of i = relative_path_for j" using parse_SomeD [OF j] by (simp add: relative_path_for_eq)
  then show ?thesis using resolve_relative_path [OF j] by simp
qed

lemma row_path: "row_ok r \<Longrightarrow> r_payload_path r = Some p \<Longrightarrow> p = path_of (r_id r) \<and> parse (r_id r) \<noteq> None"
  by (simp add: row_ok_def)

text \<open>A file at the path of an id no row with a payload has can change freely.\<close>

lemma files_inv_other:
  assumes "store_ok exact s" "files_inv s" "parse i \<noteq> None"
    and "\<And>r. r \<in> set (crash_record (store_db s)) \<Longrightarrow> r_id r = i \<Longrightarrow> r_payload_path r = None"
    and "\<And>p. p \<noteq> path_of i \<Longrightarrow> map_of fs p = map_of (store_files s) p"
    and "r \<in> set (crash_record (store_db s))" "r_payload_path r = Some p"
  shows "\<exists>c. map_of fs p = Some c \<and> int (length c) = r_payload_bytes r"
proof -
  have "row_ok r" using assms(1,6) rows_okD(1) [OF db_invD(4)] by (auto simp: store_ok_def)
  then have p: "p = path_of (r_id r)" "parse (r_id r) \<noteq> None" using row_path [OF _ assms(7)] by auto
  have "r_id r \<noteq> i" using assms(4,6,7) by auto
  then have "p \<noteq> path_of i" using path_of_inject [OF p(2) assms(3)] p(1) by auto
  then show ?thesis using assms(2,5,6,7) by (auto simp: files_inv_def)
qed

lemma payload_write_files:
  assumes "payload_write rf z fl i src n fs = (res, fs')" "p \<noteq> path_of (as_str i)"
  shows "map_of fs' p = map_of fs p"
  using assms
  by (auto simp: payload_write_def Let_def relative_path_for_eq update_conv split: sum.splits if_splits option.splits)

lemma payload_delete_files: "p \<noteq> q \<Longrightarrow> map_of (snd (payload_delete fl q fs)) p = map_of fs p"
  by (auto simp: payload_delete_def delete_conv split: sum.splits)

lemma insert_files_inv:
  assumes "store_ok exact s" "id_inv n s" "n < 2 ^ 80 - 1" "clock_ok r" "files_inv s"
  shows "files_inv (snd (insert_with_sources w r retn keys at s))"
proof -
  define i where "i = fst (Record_Id.next_id (store_ids s) (u64_of (happened_at_ms r)))"
  obtain s1 where n: "store_next_id s (happened_at_ms r) = (i, s1)" and s1: "store_db s1 = store_db s" "store_files s1 = store_files s"
    by (simp add: store_next_id_def i_def case_prod_beta)
  have i: "parse (as_str i) \<noteq> None" "as_str i \<notin> ids_of (store_db s)"
    using next_id_fresh(4) [OF assms(2-4)] by (simp_all add: i_def next_id_code)
  have nr: "\<And>r. r \<in> set (crash_record (store_db s)) \<Longrightarrow> r_id r = as_str i \<Longrightarrow> r_payload_path r = None"
    using i(2) unfolding ids_of_def by (metis image_eqI)
  note O = files_inv_other [OF assms(1,5) i(1) nr]
  have same: "files_inv s2"
    if "store_db s2 = store_db s" "\<And>p. p \<noteq> path_of (as_str i) \<Longrightarrow> map_of (store_files s2) p = map_of (store_files s) p" for s2
    using O [of "store_files s2"] that by (simp add: files_inv_def)
  obtain res fs' where pw: "payload_write (w_read_file w) (w_zstd w) (w_faults w) i (payload r)
      (nat (max_payload_bytes_per_record retn)) (store_files s) = (res, fs')" by fastforce
  note F = payload_write_files [OF pw]
  show ?thesis
  proof (cases res)
    case (Inl e) then show ?thesis
      using pw same [of "s1\<lparr>store_files := fs'\<rparr>"] F by (simp add: insert_with_sources_def n s1)
  next
    case (Inr written)
    obtain res2 d' where ir: "insert_rows (w_sha256 w) (w_tx_fails w (as_str i)) i r written keys at (store_db s) = (res2, d')"
      by fastforce
    show ?thesis
    proof (cases res2)
      case (Inl e)
      then have "d' = store_db s" using ir by (auto simp: insert_rows_eq Let_def split: if_splits)
      then show ?thesis
        using F pw ir Inl \<open>res = Inr written\<close>
          payload_delete_files [of _ "path_of (as_str i)"] payload_write_SomeD(1) [of _ _ _ i]
        by (intro same) (auto simp: insert_with_sources_def n s1 split: option.splits)
    next
      case (Inr ins)
      then have d': "d' = inserted_db (record_group_id (w_sha256 w) r) i r written keys at (store_db s)"
        using ir by (auto simp: insert_rows_eq Let_def split: if_splits)
      have new: "\<exists>c. map_of fs' p = Some c \<and> length c = stored_bytes wp"
        if "written = Some wp" "p = relative_path wp" for wp p
        using payload_write_SomeD(1,4) [OF pw [unfolded \<open>res = Inr written\<close> that(1)]] that(2)
        by (auto simp: update_conv)
      have "snd (insert_with_sources w r retn keys at s) = s1\<lparr>store_files := fs', store_db := d'\<rparr>"
        using pw ir Inr \<open>res = Inr written\<close> by (simp add: insert_with_sources_def n s1)
      then show ?thesis
        using new O [of fs'] F i(2)
        by (auto simp: files_inv_def d' inserted_db_def new_record_row_def ids_of_def split: option.splits)
    qed
  qed
qed

definition same_payload :: "RecordRow \<Rightarrow> RecordRow \<Rightarrow> bool" where
  "same_payload a b \<longleftrightarrow> r_id a = r_id b \<and> r_payload_path a = r_payload_path b \<and> r_payload_bytes a = r_payload_bytes b"

lemma same_payload_simps [simp]: "same_payload r r" "same_payload (r\<lparr>r_source_bits := b\<rparr>) r"
  by (simp_all add: same_payload_def)

lemma fold_rows_rows:
  assumes "fold_rows fails e r adopted keys at d = (x, d')" "r' \<in> set (crash_record d')"
  shows "(\<exists>r0 \<in> set (crash_record d). same_payload r' r0) \<or>
    (\<exists>w. adopted = Some w \<and> r_payload_path r' = Some (relative_path w) \<and> r_payload_bytes r' = int (stored_bytes w))"
proof (cases "d' = d")
  case True then show ?thesis using assms(2) same_payload_simps(1) by blast
next
  case False
  show ?thesis
  proof (cases adopted)
    case None
    then have "crash_record d' = map (\<lambda>x. if r_id x = as_str (rs_id e)
        then x\<lparr>r_source_bits := uint (mask_union (rs_sources e) (sources r))\<rparr> else x) (crash_record d)"
      using assms(1) False by (auto simp: fold_rows_def Let_def update_records_def split: if_splits option.splits)
    then obtain r0 where "r0 \<in> set (crash_record d)" "r' = r0 \<or> (\<exists>b. r' = r0\<lparr>r_source_bits := b\<rparr>)"
      using assms(2) by (auto split: if_splits)
    then show ?thesis using same_payload_simps by blast
  next
    case (Some w)
    then have "crash_record d' = map (\<lambda>x. if r_id x = as_str (rs_id e)
        then x\<lparr>r_payload_path := Some (relative_path w), r_payload_bytes := int (stored_bytes w),
               r_payload_codec := pcodec_as_i64 (written_codec w), r_payload_state := pstate_as_i64 (written_state w)\<rparr>
        else x) (map (\<lambda>x. if r_id x = as_str (rs_id e)
        then x\<lparr>r_source_bits := uint (mask_union (rs_sources e) (sources r))\<rparr> else x) (crash_record d))"
      using assms(1) False
      by (auto simp: fold_rows_def Let_def update_records_def adopt_payload_def update_groups_def
          split: if_splits option.splits)
    then obtain r0 where "r0 \<in> set (crash_record d)" "r' = r0 \<or> (r_payload_path r' = Some (relative_path w) \<and>
        r_payload_bytes r' = int (stored_bytes w))"
      using assms(2) by (auto split: if_splits)
    then show ?thesis using Some same_payload_simps(1) by blast
  qed
qed

lemma fold_rows_fail: "fold_rows fails e r adopted keys at d = (Inl x, d') \<Longrightarrow> d' = d"
  by (auto simp: fold_rows_def Let_def split: if_splits option.splits)

lemma fold_files_inv:
  assumes "store_ok exact s" "files_inv s" "rr \<in> set (crash_record (store_db s))"
  shows "files_inv (snd (fold_into_record w (map_record rr) r retn keys at s))"
proof -
  let ?e = "map_record rr"
  have row: "row_ok rr" using assms(1,3) rows_okD(1) [OF db_invD(4)] by (auto simp: store_ok_def)
  have uniq: "x = rr" if "x \<in> set (crash_record (store_db s))" "r_id x = r_id rr" for x
    using that assms(1,3) db_invD(2) by (auto simp: store_ok_def distinct_map dest: inj_onD)
  note e = map_record_id [OF row]
  obtain res fs' where pw: "(if rs_payload_state ?e = Absent
       then payload_write (w_read_file w) (w_zstd w) (w_faults w) (rs_id ?e) (payload r)
              (nat (max_payload_bytes_per_record retn)) (store_files s)
       else (Inr None, store_files s)) = (res, fs')" by fastforce
  have F: "map_of fs' p = map_of (store_files s) p" if "p \<noteq> path_of (r_id rr) \<or> rs_payload_state ?e \<noteq> Absent" for p
    using pw payload_write_files that e by (auto split: if_splits)
  have O: "\<exists>c. map_of fs p = Some c \<and> int (length c) = r_payload_bytes x"
    if "\<And>p. p \<noteq> path_of (r_id rr) \<or> rs_payload_state ?e \<noteq> Absent \<Longrightarrow> map_of fs p = map_of (store_files s) p"
      "x \<in> set (crash_record (store_db s))" "r_payload_path x = Some p" for fs x p
  proof (cases "rs_payload_state ?e = Absent")
    case True
    show ?thesis
      by (rule files_inv_other [OF assms(1,2) _ _ _ that(2,3)])
        (use row uniq map_record_absent [OF row True] that(1) in \<open>auto simp: row_ok_def\<close>)
  next
    case False then show ?thesis using that assms(2) by (auto simp: files_inv_def)
  qed
  have same: "files_inv s2" if "store_db s2 = store_db s"
    "\<And>p. p \<noteq> path_of (r_id rr) \<or> rs_payload_state ?e \<noteq> Absent \<Longrightarrow> map_of (store_files s2) p = map_of (store_files s) p" for s2
    using O [of "store_files s2"] that by (simp add: files_inv_def)
  show ?thesis
  proof (cases res)
    case (Inl err) then show ?thesis
      using pw F by (intro same) (simp_all add: fold_into_record_def)
  next
    case (Inr adopt)
    obtain res2 d' where fr: "fold_rows (w_tx_fails w (as_str (rs_id ?e))) ?e r adopt keys at (store_db s) = (res2, d')"
      by fastforce
    have A: "rs_payload_state ?e = Absent \<and> relative_path wp = path_of (r_id rr) \<and>
      (\<exists>c. map_of fs' (relative_path wp) = Some c \<and> length c = stored_bytes wp)" if "adopt = Some wp" for wp
    proof -
      have a: "rs_payload_state ?e = Absent" using pw Inr that by (auto split: if_splits)
      have "payload_write (w_read_file w) (w_zstd w) (w_faults w) (rs_id ?e) (payload r)
          (nat (max_payload_bytes_per_record retn)) (store_files s) = (Inr (Some wp), fs')"
        using pw a Inr that by simp
      from payload_write_SomeD(1,4) [OF this] show ?thesis using a e by (auto simp: update_conv)
    qed
    show ?thesis
    proof (cases res2)
      case (Inl err)
      have "d' = store_db s" using fold_rows_fail fr Inl by blast
      then show ?thesis
        using pw F fr Inl \<open>res = Inr adopt\<close> A payload_delete_files [of _ "path_of (r_id rr)"]
        by (intro same) (auto simp: fold_into_record_def split: option.splits)
    next
      case (Inr x)
      have "snd (fold_into_record w ?e r retn keys at s) = s\<lparr>store_files := fs', store_db := d'\<rparr>"
        using pw fr Inr \<open>res = Inr adopt\<close> by (simp add: fold_into_record_def)
      moreover have "\<exists>c. map_of fs' p = Some c \<and> int (length c) = r_payload_bytes y"
        if "y \<in> set (crash_record d')" "r_payload_path y = Some p" for y p
        using fold_rows_rows [OF fr that(1)] O [of fs', OF F] A that(2) by (auto simp: same_payload_def)
      ultimately show ?thesis by (simp add: files_inv_def)
    qed
  qed
qed

subsection \<open>Unlinking without failures\<close>

lemma payload_delete_quiet:
  "quiet w \<Longrightarrow> parse i \<noteq> None \<Longrightarrow>
   payload_delete (w_faults w) (path_of i) fs = (Inr (), AList.delete (path_of i) fs)"
  using resolve_path_of [of i "[]"] by (auto simp: payload_delete_def quiet_def)

lemma delete_files_quiet:
  "quiet w \<Longrightarrow> (\<And>p. p \<in> set ps \<Longrightarrow> \<exists>i. parse i \<noteq> None \<and> p = path_of i) \<Longrightarrow>
   delete_files (w_faults w) ps fs = (Inr (), fold AList.delete ps fs)"
proof (induction ps arbitrary: fs)
  case (Cons p ps)
  obtain i where "parse i \<noteq> None" "p = path_of i" using Cons.prems(2) [of p] by auto
  then show ?case using Cons payload_delete_quiet [OF Cons.prems(1)] by (simp del: not_None_eq)
qed simp

lemma map_of_fold_delete:
  "map_of (fold AList.delete ps fs) p = (if p \<in> set ps then None else map_of fs p)"
  by (induction ps arbitrary: fs) (auto simp: delete_conv)

definition paths_of :: "RecordRow list \<Rightarrow> string list" where
  "paths_of rs = List.map_filter r_payload_path rs"

lemma set_paths_of: "p \<in> set (paths_of rs) \<longleftrightarrow> (\<exists>r \<in> set rs. r_payload_path r = Some p)"
  by (induction rs) (auto simp: paths_of_def List.map_filter_simps split: option.splits)

lemma stored_row_path:
  "store_ok exact s \<Longrightarrow> r \<in> set (crash_record (store_db s)) \<Longrightarrow> r_payload_path r = Some p \<Longrightarrow>
   p = path_of (r_id r) \<and> parse (r_id r) \<noteq> None"
  using rows_okD(1) [OF db_invD(4)] row_path by (auto simp: store_ok_def)

lemma delete_stored_files:
  assumes "store_ok exact s" "quiet w" "set rs \<subseteq> set (crash_record (store_db s))"
  shows "delete_files (w_faults w) (paths_of rs) fs = (Inr (), fold AList.delete (paths_of rs) fs)"
proof (rule delete_files_quiet [OF assms(2)])
  fix p assume "p \<in> set (paths_of rs)"
  then show "\<exists>i. parse i \<noteq> None \<and> p = path_of i"
    using assms(1,3) stored_row_path unfolding set_paths_of by (meson subsetD)
qed

lemma delete_where_quiet:
  assumes "store_ok exact s" "quiet w"
  shows "delete_records_where w name P s =
     (let rs = filter P (crash_record (store_db s))
      in (Inr (length rs), s\<lparr>store_files := fold AList.delete (paths_of rs) (store_files s),
                             store_db := fold remove_record rs (store_db s)\<rparr>))"
  using delete_stored_files [OF assms, of "filter P (crash_record (store_db s))"] assms(2)
  by (auto simp: delete_records_where_def Let_def quiet_def paths_of_def List.map_filter_simps)

text \<open>Removing rows together with their files, and nothing else.\<close>

lemma files_inv_remove:
  assumes "store_ok exact s" "files_inv s" "set rs \<subseteq> set (crash_record (store_db s))"
    and "\<And>r. r \<in> set (crash_record (store_db s')) \<Longrightarrow> r_payload_path r \<noteq> None \<Longrightarrow>
      r \<in> set (crash_record (store_db s)) \<and> r_id r \<notin> r_id ` set rs"
    and "\<And>p. p \<notin> set (paths_of rs) \<Longrightarrow> map_of (store_files s') p = map_of (store_files s) p"
  shows "files_inv s'"
  unfolding files_inv_def
proof (intro ballI allI impI)
  fix r p assume r: "r \<in> set (crash_record (store_db s'))" "r_payload_path r = Some p"
  have old: "r \<in> set (crash_record (store_db s))" "r_id r \<notin> r_id ` set rs" using assms(4) r by auto
  have "p \<notin> set (paths_of rs)"
  proof
    assume "p \<in> set (paths_of rs)"
    then obtain x where x: "x \<in> set rs" "r_payload_path x = Some p" by (auto simp: set_paths_of)
    have px: "p = path_of (r_id x) \<and> parse (r_id x) \<noteq> None"
      using stored_row_path [OF assms(1) subsetD [OF assms(3) x(1)] x(2)] .
    have pr: "p = path_of (r_id r) \<and> parse (r_id r) \<noteq> None"
      using stored_row_path [OF assms(1) old(1) r(2)] .
    have "r_id x = r_id r"
      by (rule path_of_inject) (use px pr in \<open>simp_all del: not_None_eq\<close>)
    then show False using old(2) x(1) by (metis image_eqI)
  qed
  then show "\<exists>c. map_of (store_files s') p = Some c \<and> int (length c) = r_payload_bytes r"
    using assms(2,5) old(1) r(2) by (auto simp: files_inv_def)
qed

lemma delete_where_files:
  assumes "store_ok exact s" "quiet w" "files_inv s"
  shows "files_inv (snd (delete_records_where w name P s))"
  by (rule files_inv_remove [OF assms(1,3), of "filter P (crash_record (store_db s))"])
    (auto simp: delete_where_quiet [OF assms(1,2)] Let_def fold_remove_records map_of_fold_delete)

lemma store_delete_files:
  assumes "store_ok exact s" "quiet w" "files_inv s"
  shows "files_inv (snd (store_delete w t s))"
proof (rule files_inv_remove [OF assms(1,3), of "filter (target_rows t) (crash_record (store_db s))"])
  let ?rs = "filter (target_rows t) (crash_record (store_db s))"
  have e: "store_delete w t s = (Inr (fst (delete_rows t (store_db s))),
      s\<lparr>store_files := fold AList.delete (paths_of ?rs) (store_files s), store_db := snd (delete_rows t (store_db s))\<rparr>)"
    using delete_stored_files [OF assms(1,2), of ?rs] assms(2)
    by (simp add: store_delete_def payload_paths_for_def paths_of_def quiet_def case_prod_beta)
  show "map_of (store_files (snd (store_delete w t s))) p = map_of (store_files s) p"
    if "p \<notin> set (paths_of ?rs)" for p
    using that by (simp add: e map_of_fold_delete)
  have d: "distinct (map r_id (crash_record (store_db s)))" using assms(1) db_invD(2) by (auto simp: store_ok_def)
  show "r \<in> set (crash_record (store_db s)) \<and> r_id r \<notin> r_id ` set ?rs"
    if "r \<in> set (crash_record (store_db (snd (store_delete w t s))))" for r
  proof -
    have "r \<in> set (crash_record (store_db s)) \<and> \<not> target_rows t r"
      using that by (auto simp: e delete_rows_def target_rows_def Let_def split: DeleteTarget.splits if_splits)
    then show ?thesis using d by (auto simp: distinct_map dest: inj_onD)
  qed
qed auto

subsection \<open>Evicting without failures\<close>

text \<open>The rows the eviction loop reaches: the shortest prefix that frees enough.\<close>

fun evict_take :: "int \<Rightarrow> RecordRow list \<Rightarrow> RecordRow list" where
  "evict_take over_by [] = []"
| "evict_take over_by (r # rs) =
     (if over_by = 0 then [] else r # evict_take (max 0 (over_by - max 0 (r_payload_bytes r))) rs)"

lemma evict_loop_quiet:
  assumes "quiet w" "\<And>r. r \<in> set rs \<Longrightarrow> r_payload_path r = Some (path_of (r_id r)) \<and> parse (r_id r) \<noteq> None"
  shows "evict_loop w over_by rs ev rc s =
     (let t = evict_take over_by rs
      in (Inr (ev + length t, rc + sum_list (map (\<lambda>r. max 0 (r_payload_bytes r)) t)),
          s\<lparr>store_files := fold AList.delete (paths_of t) (store_files s), store_db := fold evict_row t (store_db s)\<rparr>))"
  using assms
proof (induction w over_by rs ev rc s rule: evict_loop.induct)
  case (1 w over_by ev rc s)
  then show ?case by (simp add: paths_of_def List.map_filter_simps)
next
  case (2 w over_by r rs ev rc s)
  have r: "r_payload_path r = Some (path_of (r_id r))" "parse (r_id r) \<noteq> None" using "2.prems"(2) [of r] by auto
  note pd = payload_delete_quiet [OF "2.prems"(1) r(2), of "store_files s"]
  show ?case
  proof (cases "over_by = 0")
    case True then show ?thesis by (simp add: paths_of_def List.map_filter_simps)
  next
    case False
    show ?thesis
      using False r pd "2.prems" "2.IH"
      by (simp add: Let_def quiet_def paths_of_def List.map_filter_simps algebra_simps)
  qed
qed

lemma evict_take_prefix: "\<exists>rest. rs = evict_take over_by rs @ rest"
  by (induction over_by rs rule: evict_take.induct) auto

lemma set_evict_take: "set (evict_take over_by rs) \<subseteq> set rs"
  using evict_take_prefix [of rs over_by] by (metis Un_iff set_append subsetI)

lemma fold_evict_records:
  "crash_record (fold evict_row t d) =
     map (\<lambda>x. if r_id x \<in> r_id ` set t
              then x\<lparr>r_payload_path := None, r_payload_bytes := 0, r_payload_state := pstate_as_i64 Evicted\<rparr> else x)
       (crash_record d)"
  by (induction t arbitrary: d) (auto simp: evict_row_def update_records_def)

section \<open>Inserting\<close>

text \<open>Nothing outside the store fails for this record.\<close>

definition accepts :: "World \<Rightarrow> CrashRecord \<Rightarrow> bool" where
  "accepts w r \<longleftrightarrow>
     \<not> fs_mkdir_fails (w_faults w) \<and> \<not> fs_create_fails (w_faults w) \<and> fs_write_fails (w_faults w) = None \<and>
     (case read_source (w_read_file w) (payload r) of Inl _ \<Rightarrow> False
      | Inr raw \<Rightarrow> \<forall>n. w_zstd w (truncate_utf8 raw n) \<noteq> None) \<and>
     (\<forall>name. \<not> w_tx_fails w name)"

lemma truncate_all: "length b \<le> n \<Longrightarrow> truncate_utf8 b n = b"
  by (simp add: truncate_utf8_def)

lemma accepts_write:
  assumes "accepts w r"
  shows "\<exists>wr fs'. payload_write (w_read_file w) (w_zstd w) (w_faults w) i (payload r) n fs = (Inr wr, fs')"
proof -
  obtain raw where raw: "read_source (w_read_file w) (payload r) = Inr raw"
    "\<And>n. w_zstd w (truncate_utf8 raw n) \<noteq> None"
    using assms by (auto simp: accepts_def split: sum.splits)
  obtain c where "w_zstd w (truncate_utf8 raw n) = Some c" using raw(2) by blast
  then have "w_zstd w (if length raw > n then truncate_utf8 raw n else raw) = Some c"
    using truncate_all [of raw n] by auto
  then show ?thesis
    using assms raw(1) unfolding accepts_def
    by (simp add: payload_write_def Let_def case_prod_beta if_distrib [of fst] split: if_splits)
qed

lemma insert_accepted:
  assumes "accepts w r" and i: "i = fst (Record_Id.next_id (store_ids s) (u64_of (happened_at_ms r)))"
    and fresh: "as_str i \<notin> ids_of (store_db s)"
  shows "\<exists>ins s' written. insert_with_sources w r retn keys at s = (Inr ins, s') \<and>
     store_db s' = inserted_db (record_group_id (w_sha256 w) r) i r written keys at (store_db s) \<and>
     ins_is_new_group ins = (find_group (store_db s) (record_group_id (w_sha256 w) r) = None)"
proof -
  obtain wr fs' where pw: "payload_write (w_read_file w) (w_zstd w) (w_faults w) i (payload r)
      (nat (max_payload_bytes_per_record retn)) (store_files s) = (Inr wr, fs')"
    using accepts_write [OF assms(1)] by blast
  have "find_record (store_db s) (as_str i) = None" using fresh by (simp add: find_record_None ids_of_def)
  then show ?thesis
    using assms(1) pw
    by (simp add: insert_with_sources_def store_next_id_def case_prod_beta i accepts_def insert_rows_eq Let_def)
      blast
qed

lemma find_group_upsert:
  assumes "distinct (map g_group_id gs)"
  shows "find (\<lambda>x. g_group_id x = gid) (upsert_group g gs) =
     (if gid = g_group_id g
      then Some (case find (\<lambda>x. g_group_id x = gid) gs of None \<Rightarrow> g | Some x \<Rightarrow> on_conflict x g)
      else find (\<lambda>x. g_group_id x = gid) gs)"
  using assms by (induction gs) auto

lemma inserted_db_groups:
  assumes "db_inv exact d"
  shows "map_option g_occurrence (find_group (inserted_db gid i r written keys at d) h) =
     (if h = gid then Some (case find_group d gid of None \<Rightarrow> 1 | Some g \<Rightarrow> g_occurrence g + 1)
      else map_option g_occurrence (find_group d h))"
  using db_invD(1) [OF assms]
  by (simp add: find_group_def inserted_db_def find_group_upsert new_group_row_def split: option.split)

lemma inserted_db_sources:
  "was_ingested (inserted_db gid i r written keys at d) k \<longleftrightarrow> was_ingested d k \<or> k \<in> set keys"
  using set_insert_sources [of at keys "ingested_source d"] by (simp add: was_ingested_def inserted_db_def)

section \<open>Sample inputs\<close>

definition sample_record :: "int \<Rightarrow> CrashRecord" where
  "sample_record at =
     \<lparr>kind = Anr, package_name = ''a'', process_name = ''a'', user_id = 0, pid = 7, happened_at_ms = at,
      app_version_name = None, app_version_code = None, is_system_app = False, package_installed = True,
      is_foreground = None, self_handled = False, dropped_count = None, sources = DROPBOX,
      summary = \<lparr>class_name = None, summary_text = None\<rparr>,
      fingerprint = \<lparr>fp_kind = Anr, primary = ''x'', frames = []\<rparr>, payload = Inline [1, 2, 3]\<rparr>"

definition sample_world :: World where
  "sample_world = \<lparr>w_read_file = (\<lambda>_. None), w_zstd = Some, w_sha256 = id, w_faults = no_faults,
                   w_tx_fails = (\<lambda>_. False)\<rparr>"

lemma sample_accepts [simp]: "accepts sample_world (sample_record at)"
  by (simp add: accepts_def sample_world_def no_faults_def sample_record_def read_source_def)

lemma sample_clock_ok [simp]: "clock_ok (sample_record at) \<longleftrightarrow> at < 2 ^ 48"
  by (simp add: clock_ok_def sample_record_def)

section \<open>Properties\<close>

text \<open>C4: a store that has gone through any run of operations with failures and restarts accepts every
  further record for which nothing outside fails: the record gets an id no stored row has, exactly one
  row is added, the record's group (and no other) counts one occurrence more, or is created with
  one, and the source keys become known, all in that one transaction.\<close>
theorem insert_always_accepted:
  assumes "list_all op_clock_ok ops" and "length ops < id_budget" and "clock_ok r" and "accepts w r"
  shows "let s = fold store_step ops fresh_store; gid = record_group_id (w_sha256 w) r in
     \<exists>ins s' row. insert_with_sources w r retn keys at s = (Inr ins, s') \<and>
       crash_record (store_db s') = crash_record (store_db s) @ [row] \<and>
       r_id row \<notin> r_id ` set (crash_record (store_db s)) \<and>
       r_group_id row = gid \<and> r_happened_at_ms row = happened_at_ms r \<and>
       (\<forall>h. map_option g_occurrence (find_group (store_db s') h) =
          (if h = gid then Some (case find_group (store_db s) gid of None \<Rightarrow> 1 | Some g \<Rightarrow> g_occurrence g + 1)
           else map_option g_occurrence (find_group (store_db s) h))) \<and>
       (\<forall>k. was_ingested (store_db s') k \<longleftrightarrow> was_ingested (store_db s) k \<or> k \<in> set keys)"
proof -
  define s where "s = fold store_step ops fresh_store"
  define gid where "gid = record_group_id (w_sha256 w) r"
  have inv: "db_inv False (store_db s)"
    using store_run.run_inv [of False fresh_store ops]
    by (simp add: s_def store_ok_def fresh_store_def fold_keeps_exact)
  let ?i = "fst (Record_Id.next_id (store_ids s) (u64_of (happened_at_ms r)))"
  have fresh: "as_str ?i \<notin> ids_of (store_db s)"
    using next_id_fresh(4) [OF run_id_inv [OF assms(1)] _ assms(3)] assms(2)
    by (simp add: s_def next_id_code id_budget_def)
  obtain ins s' wr where I: "insert_with_sources w r retn keys at s = (Inr ins, s')"
    "store_db s' = inserted_db gid ?i r wr keys at (store_db s)"
    using insert_accepted [OF assms(4) refl fresh] unfolding gid_def by blast
  have "crash_record (store_db s') =
      crash_record (store_db s) @ [new_record_row (as_str ?i) gid r (find_group (store_db s) gid \<noteq> None) wr]"
    by (simp add: I(2) inserted_db_def)
  then show ?thesis
    unfolding Let_def s_def [symmetric] gid_def [symmetric]
    using I(1) fresh inserted_db_groups [OF inv, of gid ?i r wr keys at]
      inserted_db_sources [of gid ?i r wr keys at "store_db s"]
    by (intro exI [of _ ins] exI [of _ s'] exI conjI allI) (auto simp: I(2) ids_of_def new_record_row_def)
qed

theorem insert_always_accepted_witness:
  "\<exists>ins s'. insert_with_sources sample_world (sample_record 9) retention_default [''k''] 0
     (fold store_step [OpInsert sample_world (sample_record 5) retention_default [] 0, OpReopen no_faults]
        fresh_store) = (Inr ins, s') \<and> was_ingested (store_db s') ''k''"
proof -
  let ?ops = "[OpInsert sample_world (sample_record 5) retention_default [] 0, OpReopen no_faults]"
  have a: "list_all op_clock_ok ?ops" and b: "length ?ops < id_budget" and c: "clock_ok (sample_record 9)"
    by (simp_all add: id_budget_def)
  obtain ins s' where
    "insert_with_sources sample_world (sample_record 9) retention_default [''k''] 0 (fold store_step ?ops fresh_store)
       = (Inr ins, s')"
    "\<forall>k. was_ingested (store_db s') k \<longleftrightarrow>
       was_ingested (store_db (fold store_step ?ops fresh_store)) k \<or> k \<in> set [''k'']"
    using insert_always_accepted [OF a b c sample_accepts, of retention_default "[''k'']" 0, unfolded Let_def]
    by (elim exE conjE)
  then show ?thesis by (intro exI [of _ ins] exI [of _ s']) simp
qed

end
