(* ===== verification/Store_Sweep.thy ===== *)
theory Store_Sweep
  imports Store_Files
begin

text \<open>
  Retention: what a sweep that meets no failure leaves behind.  The four ceilings hold together at the
  end, each tier drops the oldest first, and the history of a group (its occurrence count and first
  sighting) is never rewritten.
\<close>

section \<open>Trims\<close>

lemma record_key_inject:
  "distinct (map r_id rs) \<Longrightarrow> x \<in> set rs \<Longrightarrow> y \<in> set rs \<Longrightarrow> record_key x = record_key y \<Longrightarrow> x = y"
  by (auto simp: record_key_def distinct_map dest: inj_onD)

lemma length_filter_mono:
  "(\<And>x. x \<in> set xs \<Longrightarrow> P x \<Longrightarrow> Q x) \<Longrightarrow> length (filter P xs) \<le> length (filter Q xs)"
  by (induction xs) (auto intro: le_SucI)

lemma length_filter_strict:
  "(\<And>x. x \<in> set xs \<Longrightarrow> P x \<Longrightarrow> Q x) \<Longrightarrow> y \<in> set xs \<Longrightarrow> Q y \<Longrightarrow> \<not> P y \<Longrightarrow>
   length (filter P xs) < length (filter Q xs)"
proof (induction xs)
  case (Cons x xs)
  have le: "length (filter P xs) \<le> length (filter Q xs)"
    by (rule length_filter_mono) (use Cons.prems(1) in auto)
  then show ?case using Cons by (cases "y = x") auto
qed simp

lemma row_number_antimono:
  assumes "x \<in> set (crash_record d)" "y \<in> set (crash_record d)" "r_group_id x = r_group_id y"
    and "record_key x < record_key y"
  shows "row_number d y < row_number d x"
  unfolding row_number_def
  by (intro Suc_mono length_filter_strict [where y = y]) (use assms in auto)

lemma row_number_inj:
  assumes "distinct (map r_id (crash_record d))"
  shows "inj_on (row_number d) (set (rows_of gid (crash_record d)))"
proof (rule inj_onI)
  fix x y assume a: "x \<in> set (rows_of gid (crash_record d))" "y \<in> set (rows_of gid (crash_record d))"
    "row_number d x = row_number d y"
  then have "record_key x = record_key y"
    using row_number_antimono [of x d y] row_number_antimono [of y d x]
    by (cases "record_key x" "record_key y" rule: linorder_cases) (auto simp: rows_of_def)
  then show "x = y" using record_key_inject [OF assms] a by (auto simp: rows_of_def)
qed

lemma trimmed_group_size:
  assumes "distinct (map r_id (crash_record d))"
  shows "length (rows_of gid (filter (\<lambda>r. row_number d r \<le> k) (crash_record d))) \<le> k"
proof -
  let ?rs = "rows_of gid (filter (\<lambda>r. row_number d r \<le> k) (crash_record d))"
  have sub: "set ?rs \<subseteq> set (rows_of gid (crash_record d))" by (auto simp: rows_of_def)
  have "distinct (crash_record d)" using assms by (auto simp: distinct_map)
  then have "distinct ?rs" by (simp add: rows_of_def)
  then have "length ?rs = card (set ?rs)" by (rule distinct_card [symmetric])
  also have "\<dots> = card (row_number d ` set ?rs)"
    by (rule card_image [symmetric, OF inj_on_subset [OF row_number_inj [OF assms] sub]])
  also have "\<dots> \<le> card {1..k}"
    by (rule card_mono) (auto simp: rows_of_def row_number_def)
  finally show ?thesis by simp
qed

lemma id_in_filter:
  assumes "distinct (map r_id rs)" "x \<in> set rs"
  shows "r_id x \<in> set (map r_id (filter P rs)) \<longleftrightarrow> P x"
proof -
  have "y = x" if "y \<in> set rs" "r_id y = r_id x" for y
    using assms that by (auto simp: distinct_map dest: inj_onD)
  then show ?thesis using assms(2) by auto
qed

lemma removed_rows:
  assumes "distinct (map r_id (crash_record d))"
  shows "crash_record (fold remove_record (filter P (crash_record d)) d) = filter (\<lambda>r. \<not> P r) (crash_record d)"
  unfolding fold_remove_records
  by (intro filter_cong) (use assms in \<open>auto simp: distinct_map dest: inj_onD\<close>)

text \<open>The rows the total ceiling keeps are those after the cut in the order of age.\<close>

lemma kept_after_cut:
  assumes "distinct (map r_id rs)"
  shows "mset (filter (\<lambda>r. r_id r \<notin> set (map r_id (take n (oldest_first rs)))) rs) = mset (drop n (oldest_first rs))"
proof -
  let ?o = "oldest_first rs"
  have d: "distinct (map r_id ?o)" using distinct_oldest_first [OF assms, of "\<lambda>_. True"] by simp
  have m: "mset rs = mset ?o" by (simp add: oldest_first_def)
  let ?P = "\<lambda>r. r_id r \<notin> set (map r_id (take n ?o))"
  have dd: "distinct (map r_id (take n ?o) @ map r_id (drop n ?o))"
    using d by (simp flip: map_append)
  have "filter ?P (take n ?o) = []" by (auto simp: filter_empty_conv)
  moreover have "filter ?P (drop n ?o) = drop n ?o"
    using dd by (intro filter_True) (auto simp: disjoint_iff)
  ultimately have "filter ?P ?o = drop n ?o"
    by (metis append_take_drop_id filter_append append_Nil)
  then show ?thesis by (metis m mset_filter)
qed

lemma kept_is_younger:
  assumes "x \<in> set (take n (oldest_first rs))" "y \<in> set (drop n (oldest_first rs))"
  shows "record_key x \<le> record_key y"
proof -
  have "sorted (map record_key (take n (oldest_first rs) @ drop n (oldest_first rs)))"
    by (simp add: oldest_first_def)
  then show ?thesis using assms unfolding map_append sorted_append by auto
qed

lemma cut_reason:
  assumes "mset r3 = mset (drop (length r2 - k) (oldest_first r2))" "r \<in> set r2" "r_id r \<notin> r_id ` set r3"
  shows "length r3 = k \<and> record_key ` set r3 \<subseteq> {x. record_key r \<le> x}"
proof -
  let ?n = "length r2 - k"
  have set3: "set r3 = set (drop ?n (oldest_first r2))" by (rule mset_eq_setD [OF assms(1)])
  have "r \<in> set (take ?n (oldest_first r2) @ drop ?n (oldest_first r2))"
    using assms(2) by (simp only: append_take_drop_id) (simp add: oldest_first_def)
  moreover have "r \<notin> set r3" using assms(3) by (metis image_eqI)
  ultimately have cut: "r \<in> set (take ?n (oldest_first r2))" unfolding set3 set_append by blast
  then have "?n \<noteq> 0" by (cases ?n) auto
  moreover have "length r3 = length r2 - ?n"
    using arg_cong [OF assms(1), of size] by (simp add: oldest_first_def)
  ultimately have "length r3 = k" by linarith
  then show ?thesis using kept_is_younger [OF cut] set3 by blast
qed

section \<open>Eviction\<close>

lemma sum_list_map_mset_cong: "mset xs = mset ys \<Longrightarrow> sum_list (map f xs) = sum_list (map f ys)"
  for f :: "'a \<Rightarrow> int"
proof -
  assume "mset xs = mset ys"
  then have "mset (map f xs) = mset (map f ys)" by simp
  then show ?thesis by (metis sum_mset_sum_list)
qed

lemma evict_take_enough:
  assumes "0 \<le> n" "\<And>r. r \<in> set rs \<Longrightarrow> 0 \<le> r_payload_bytes r" "n \<le> sum_list (map r_payload_bytes rs)"
  shows "n \<le> sum_list (map r_payload_bytes (evict_take n rs))"
  using assms
proof (induction n rs rule: evict_take.induct)
  case (2 n r rs)
  have b: "0 \<le> r_payload_bytes r" using 2(3) by simp
  have s: "0 \<le> sum_list (map r_payload_bytes (evict_take m rs))" for m
    using 2(3) set_evict_take [of m rs] by (intro sum_list_nonneg) auto
  show ?case
  proof (cases "n = 0")
    case False
    have "max 0 (n - r_payload_bytes r) \<le> sum_list (map r_payload_bytes (evict_take (max 0 (n - r_payload_bytes r)) rs))"
      using 2(1) [OF False] 2(2-4) b s by (cases "r_payload_bytes r \<le> n") auto
    then show ?thesis using False b by auto
  qed simp
qed simp

text \<open>Without the last of them it would not have been enough.\<close>

lemma evict_take_minimal:
  assumes "0 \<le> n" "\<And>r. r \<in> set rs \<Longrightarrow> 0 \<le> r_payload_bytes r" "evict_take n rs \<noteq> []"
  shows "sum_list (map r_payload_bytes (butlast (evict_take n rs))) < n"
  using assms
proof (induction n rs rule: evict_take.induct)
  case (2 n r rs)
  let ?m = "max 0 (n - max 0 (r_payload_bytes r))"
  have b: "0 \<le> r_payload_bytes r" "n \<noteq> 0" using 2(3,4) by (auto split: if_splits)
  show ?case
  proof (cases "evict_take ?m rs = []")
    case True then show ?thesis using 2(2) b by simp
  next
    case False
    then have "?m \<noteq> 0" by (cases rs) auto
    moreover have "sum_list (map r_payload_bytes (butlast (evict_take ?m rs))) < ?m"
      by (rule 2(1)) (use False 2(3) b in auto)
    ultimately show ?thesis using False b by simp
  qed
qed simp

section \<open>A sweep in stages\<close>

definition history :: "Db \<Rightarrow> (string \<times> int \<times> int \<times> int) list" where
  "history d = map (\<lambda>g. (g_group_id g, g_occurrence g, g_first_seen_ms g, g_last_seen_ms g)) (crash_group d)"

lemma history_less_group_bytes [simp]: "history (less_group_bytes gid n d) = history d"
  by (simp add: history_def less_group_bytes_def update_groups_def)

lemma history_records [simp]: "history (d\<lparr>crash_record := rs\<rparr>) = history d"
  by (simp add: history_def)

lemma history_sources [simp]: "history (d\<lparr>ingested_source := ss\<rparr>) = history d"
  by (simp add: history_def)

lemma history_fold_remove [simp]: "history (fold remove_record rs d) = history d"
  by (induction rs arbitrary: d) (simp_all add: remove_record_def delete_row_def)

lemma history_fold_evict [simp]: "history (fold evict_row rs d) = history d"
  by (induction rs arbitrary: d) (simp_all add: evict_row_def update_records_def)

lemma store_ok_distinct: "store_ok exact s \<Longrightarrow> distinct (map r_id (crash_record (store_db s)))"
  using db_invD(2) by (auto simp: store_ok_def)

lemma delete_where_stage:
  assumes "store_ok exact s" "quiet w"
  obtains s' where "delete_records_where w name P s = (Inr (length (filter P (crash_record (store_db s)))), s')"
    "store_ok exact s'" "crash_record (store_db s') = filter (\<lambda>r. \<not> P r) (crash_record (store_db s))"
    "history (store_db s') = history (store_db s)"
  using delete_where_quiet [OF assms, of name P] delete_records_where_ok [OF assms(1), of w name P]
    removed_rows [OF store_ok_distinct [OF assms(1)], of P]
  by (simp add: Let_def)

lemma trim_each_group_stage:
  assumes "store_ok exact s" "quiet w"
  obtains n s' where "trim_each_group w k s = (Inr n, s')" "store_ok exact s'"
    "crash_record (store_db s') = filter (\<lambda>r. row_number (store_db s) r \<le> k) (crash_record (store_db s))"
    "history (store_db s') = history (store_db s)"
proof -
  let ?rs = "crash_record (store_db s)"
  let ?P = "\<lambda>r. r_id r \<in> set (map r_id (filter (\<lambda>x. row_number (store_db s) x > k) ?rs))"
  obtain s' where s': "delete_records_where w ''group'' ?P s = (Inr (length (filter ?P ?rs)), s')"
    "store_ok exact s'" "crash_record (store_db s') = filter (\<lambda>r. \<not> ?P r) ?rs"
    "history (store_db s') = history (store_db s)"
    by (rule delete_where_stage [OF assms])
  have "filter (\<lambda>r. \<not> ?P r) ?rs = filter (\<lambda>r. row_number (store_db s) r \<le> k) ?rs"
    by (intro filter_cong refl) (subst id_in_filter [OF store_ok_distinct [OF assms(1)]], simp_all add: not_less)
  then show ?thesis
    using s' by (intro that [of "length (filter ?P ?rs)" s']) (simp_all add: trim_each_group_def)
qed

lemma trim_total_stage:
  assumes "store_ok exact s" "quiet w"
  obtains n s' where "trim_total w k s = (Inr n, s')" "store_ok exact s'"
    "mset (crash_record (store_db s')) =
       mset (drop (length (crash_record (store_db s)) - k) (oldest_first (crash_record (store_db s))))"
    "set (crash_record (store_db s')) \<subseteq> set (crash_record (store_db s))"
    "history (store_db s') = history (store_db s)"
    "\<exists>P. crash_record (store_db s') = filter P (crash_record (store_db s))"
proof (cases "length (crash_record (store_db s)) \<le> k")
  case True
  then show ?thesis
    using assms(1) by (intro that [of 0 s]) (auto simp: trim_total_def oldest_first_def intro!: exI [of _ "\<lambda>_. True"])
next
  case False
  let ?rs = "crash_record (store_db s)"
  let ?P = "\<lambda>r. r_id r \<in> set (map r_id (take (length ?rs - k) (oldest_first ?rs)))"
  obtain s' where s': "delete_records_where w ''total'' ?P s = (Inr (length (filter ?P ?rs)), s')"
    "store_ok exact s'" "crash_record (store_db s') = filter (\<lambda>r. \<not> ?P r) ?rs"
    "history (store_db s') = history (store_db s)"
    by (rule delete_where_stage [OF assms])
  show ?thesis
    using s' False kept_after_cut [OF store_ok_distinct [OF assms(1)]]
    by (intro that [of "length (filter ?P ?rs)" s']) (auto simp: trim_total_def Let_def)
qed

lemma filter_evicted:
  "filter (\<lambda>r. r_payload_path r \<noteq> None)
     (map (\<lambda>x. if r_id x \<in> A
               then x\<lparr>r_payload_path := None, r_payload_bytes := 0, r_payload_state := st\<rparr> else x) rs) =
   filter (\<lambda>r. r_id r \<notin> A) (filter (\<lambda>r. r_payload_path r \<noteq> None) rs)"
  by (induction rs) auto

text \<open>In a well-formed index the eviction candidates are exactly the rows with a payload file.\<close>

lemma evict_stage:
  assumes ok: "store_ok exact s" and q: "quiet w" and n: "0 \<le> n"
  obtains ev rc s' t where "evict_payloads w n s = (Inr (ev, rc), s')" "store_ok exact s'"
    "crash_record (store_db s') = crash_record (fold evict_row t (store_db s))"
    "history (store_db s') = history (store_db s)"
    "payload_bytes_in_index (store_db s') \<le> n"
    "t = [] \<longleftrightarrow> payload_bytes_in_index (store_db s) \<le> n"
    "\<exists>rest. oldest_first (filter (\<lambda>r. r_payload_path r \<noteq> None) (crash_record (store_db s))) = t @ rest"
    "payload_bytes_in_index (store_db s) - n > sum_list (map r_payload_bytes (butlast t)) \<or> t = []"
proof (cases "payload_bytes_in_index (store_db s) \<le> n")
  case True
  then show ?thesis using ok
    by (intro that [of 0 0 s "[]"]) (auto simp: evict_payloads_def)
next
  case False
  let ?d = "store_db s"
  let ?rs = "filter (\<lambda>r. r_payload_path r \<noteq> None) (crash_record ?d)"
  let ?c = "oldest_first ?rs"
  let ?over = "payload_bytes_in_index ?d - n"
  let ?t = "evict_take ?over ?c"
  have row: "row_ok r" if "r \<in> set (crash_record ?d)" for r
    using that ok rows_okD(1) [OF db_invD(4)] by (auto simp: store_ok_def)
  have cand: "filter (\<lambda>r. r_payload_path r \<noteq> None \<and> r_payload_state r \<noteq> pstate_as_i64 Evicted) (crash_record ?d) = ?rs"
    by (intro filter_cong refl) (auto dest!: row simp: row_ok_def)
  have setc: "set ?c = set ?rs" by (simp add: oldest_first_def)
  have path: "r_payload_path r = Some (path_of (r_id r)) \<and> parse (r_id r) \<noteq> None" if "r \<in> set ?c" for r
    using that setc row [of r] by (auto simp: row_ok_def split: option.splits)
  have nn: "0 \<le> r_payload_bytes r" if "r \<in> set ?c" for r using that setc row [of r] by (auto simp: row_ok_def)
  have mc: "mset ?c = mset ?rs" by (simp add: oldest_first_def)
  have sumc: "sum_list (map r_payload_bytes ?c) = sum_list (map r_payload_bytes ?rs)"
    by (rule sum_list_map_mset_cong [OF mc])
  have nnr: "0 \<le> sum_list (map r_payload_bytes ?rs)" using nn setc by (intro sum_list_nonneg) auto
  then have tot: "payload_bytes_in_index ?d = sum_list (map r_payload_bytes ?rs)"
    by (simp add: payload_bytes_in_index_def)
  obtain s' where s': "evict_payloads w n s =
      (Inr (length ?t, sum_list (map (\<lambda>r. max 0 (r_payload_bytes r)) ?t)), s')"
    "store_db s' = fold evict_row ?t ?d"
    using evict_loop_quiet [OF q path, of ?c ?over 0 0 s] False cand
    by (simp add: evict_payloads_def Let_def)
  have enough: "?over \<le> sum_list (map r_payload_bytes ?t)"
  proof (rule evict_take_enough)
    show "?over \<le> sum_list (map r_payload_bytes ?c)" using n unfolding sumc tot by linarith
  qed (use False nn in \<open>simp_all del: not_None_eq\<close>)
  have dis: "distinct (map r_id ?c)" by (rule distinct_oldest_first [OF store_ok_distinct [OF ok]])
  obtain rest where rest: "?c = ?t @ rest" using evict_take_prefix [of ?c ?over] by blast
  have after: "filter (\<lambda>r. r_payload_path r \<noteq> None) (crash_record (fold evict_row ?t ?d)) =
      filter (\<lambda>r. r_id r \<notin> r_id ` set ?t) ?rs"
    unfolding fold_evict_records by (rule filter_evicted)
  have "filter (\<lambda>r. r_id r \<notin> r_id ` set ?t) ?c = rest"
  proof -
    have d2: "distinct (map r_id ?t @ map r_id rest)" using dis rest by (metis map_append)
    have "filter (\<lambda>r. r_id r \<notin> r_id ` set ?t) ?t = []" by (auto simp: filter_empty_conv)
    moreover have "filter (\<lambda>r. r_id r \<notin> r_id ` set ?t) rest = rest"
      using d2 by (intro filter_True) (auto simp: disjoint_iff)
    ultimately show ?thesis by (metis filter_append rest append_Nil)
  qed
  then have "mset (filter (\<lambda>r. r_id r \<notin> r_id ` set ?t) ?rs) = mset rest" by (metis mc mset_filter)
  then have "sum_list (map r_payload_bytes (filter (\<lambda>r. r_id r \<notin> r_id ` set ?t) ?rs)) =
      sum_list (map r_payload_bytes rest)" by (rule sum_list_map_mset_cong)
  also have "\<dots> = sum_list (map r_payload_bytes ?c) - sum_list (map r_payload_bytes ?t)"
    using arg_cong [OF rest, of "\<lambda>z. sum_list (map r_payload_bytes z)"]
    by (simp only: map_append sum_list_append add_diff_cancel_left')
  also have "\<dots> \<le> n" using enough tot sumc by linarith
  finally have "payload_bytes_in_index (store_db s') \<le> n"
    using n after by (simp add: s'(2) payload_bytes_in_index_def)
  moreover have "?t \<noteq> []"
  proof
    assume "?t = []"
    then have "?over \<le> 0" using enough by (metis list.map(1) sum_list.Nil)
    then show False using False by simp
  qed
  moreover have "?over > sum_list (map r_payload_bytes (butlast ?t))"
    using False calculation(2) nn by (intro evict_take_minimal) auto
  moreover have "store_ok exact s'" using evict_payloads_ok [OF ok, of w n] s'(1) by simp
  ultimately show ?thesis
    using s' rest False by (intro that [OF s'(1)]) auto
qed

definition newer_in_group :: "RecordRow list \<Rightarrow> RecordRow \<Rightarrow> RecordRow list" where
  "newer_in_group rs r = filter (\<lambda>x. r_group_id x = r_group_id r \<and> record_key r < record_key x) rs"

lemma row_number_newer: "row_number d r = Suc (length (newer_in_group (crash_record d) r))"
  by (simp add: row_number_def newer_in_group_def)

definition kept_group :: "int \<Rightarrow> RecordRow list \<Rightarrow> string \<times> int \<times> int \<times> int \<Rightarrow> bool" where
  "kept_group cutoff rs h \<longleftrightarrow> (case h of (gid, _, _, seen) \<Rightarrow> cutoff \<le> seen \<or> gid \<in> r_group_id ` set rs)"

lemma drop_empty_stage:
  "history (snd (drop_empty_groups_before cutoff d)) = filter (kept_group cutoff (crash_record d)) (history d)"
  "crash_record (snd (drop_empty_groups_before cutoff d)) = crash_record d"
proof -
  have "filter (kept_group cutoff (crash_record d)) (history d) =
      map (\<lambda>g. (g_group_id g, g_occurrence g, g_first_seen_ms g, g_last_seen_ms g))
        (filter (\<lambda>g. cutoff \<le> g_last_seen_ms g \<or> g_group_id g \<in> r_group_id ` set (crash_record d)) (crash_group d))"
    by (simp add: history_def filter_map comp_def kept_group_def)
  also have "\<dots> = history (snd (drop_empty_groups_before cutoff d))"
    by (simp add: history_def drop_empty_groups_before_def Let_def not_less)
  finally show "history (snd (drop_empty_groups_before cutoff d)) = filter (kept_group cutoff (crash_record d)) (history d)" ..
qed (simp add: drop_empty_groups_before_def Let_def)

lemma bind_store_Inr [simp]: "bind_store (Inr x, s) f = f x s"
  by (simp add: bind_store_def)

lemma sweep_stages:
  fixes w :: World and retn :: RetentionPolicy and now :: int
  assumes ok: "store_ok exact s" and q: "quiet w"
  defines "p \<equiv> clamped retn"
  defines "c \<equiv> sweep_cutoff now p"
  defines "r1 \<equiv> filter (\<lambda>r. c \<le> r_happened_at_ms r) (crash_record (store_db s))"
  defines "r2 \<equiv> filter (\<lambda>r. length (newer_in_group r1 r) < nat (max_records_per_group p)) r1"
  obtains out s' r3 t where "sweep w now retn s = (Inr out, s')" "store_ok exact s'"
    "mset r3 = mset (drop (length r2 - nat (max_records_total p)) (oldest_first r2))"
    "\<exists>P. r3 = filter P r2"
    "crash_record (store_db s') = map (\<lambda>x. if r_id x \<in> r_id ` set t
        then x\<lparr>r_payload_path := None, r_payload_bytes := 0, r_payload_state := pstate_as_i64 Evicted\<rparr> else x) r3"
    "payload_bytes_in_index (store_db s') \<le> max_payload_bytes_total p"
    "\<exists>rest. oldest_first (filter (\<lambda>r. r_payload_path r \<noteq> None) r3) = t @ rest"
    "sum_list (map r_payload_bytes (filter (\<lambda>r. r_payload_path r \<noteq> None) r3)) - max_payload_bytes_total p
       > sum_list (map r_payload_bytes (butlast t)) \<or> t = []"
    "history (store_db s') = filter (kept_group c r3) (history (store_db s))"
proof -
  let ?q = "max_payload_bytes_total p" and ?kg = "nat (max_records_per_group p)" and ?kt = "nat (max_records_total p)"
  have q0: "0 \<le> ?q" using policy.norm_ok [of retn] unfolding p_def
    by (simp add: policy_ok_def MIN_PAYLOAD_BYTES_TOTAL_def)
  obtain s1 where s1: "delete_records_where w ''age'' (\<lambda>r. r_happened_at_ms r < c) s
      = (Inr (length (filter (\<lambda>r. r_happened_at_ms r < c) (crash_record (store_db s)))), s1)" "store_ok exact s1"
    "crash_record (store_db s1) = r1" "history (store_db s1) = history (store_db s)"
    using delete_where_stage [OF ok q, of "''age''" "\<lambda>r. r_happened_at_ms r < c"] unfolding r1_def not_less by blast
  obtain n2 s2 where s2: "trim_each_group w ?kg s1 = (Inr n2, s2)" "store_ok exact s2"
    "crash_record (store_db s2) = r2" "history (store_db s2) = history (store_db s)"
    using trim_each_group_stage [OF s1(2) q, of ?kg] unfolding r2_def row_number_newer s1(3,4) Suc_le_eq by blast
  obtain n3 s3 where s3': "trim_total w ?kt s2 = (Inr n3, s3)" "store_ok exact s3"
    "mset (crash_record (store_db s3)) =
       mset (drop (length (crash_record (store_db s2)) - ?kt) (oldest_first (crash_record (store_db s2))))"
    "set (crash_record (store_db s3)) \<subseteq> set (crash_record (store_db s2))"
    "history (store_db s3) = history (store_db s2)"
    "\<exists>P. crash_record (store_db s3) = filter P (crash_record (store_db s2))"
    by (rule trim_total_stage [OF s2(2) q])
  note s3 = s3'(1,2) s3'(3,5,6) [unfolded s2(3,4)]
  let ?r3 = "crash_record (store_db s3)"
  let ?d4 = "snd (drop_empty_groups_before c (store_db s3))"
  have ok4: "store_ok exact (s3\<lparr>store_db := ?d4\<rparr>)" using s3(2) by (simp add: store_ok_def drop_empty_groups_inv)
  obtain ev rc s5 t where s5': "evict_payloads w ?q (s3\<lparr>store_db := ?d4\<rparr>) = (Inr (ev, rc), s5)" "store_ok exact s5"
    "crash_record (store_db s5) = crash_record (fold evict_row t (store_db (s3\<lparr>store_db := ?d4\<rparr>)))"
    "history (store_db s5) = history (store_db (s3\<lparr>store_db := ?d4\<rparr>))"
    "payload_bytes_in_index (store_db s5) \<le> ?q"
    "t = [] \<longleftrightarrow> payload_bytes_in_index (store_db (s3\<lparr>store_db := ?d4\<rparr>)) \<le> ?q"
    "\<exists>rest. oldest_first (filter (\<lambda>r. r_payload_path r \<noteq> None) (crash_record (store_db (s3\<lparr>store_db := ?d4\<rparr>)))) = t @ rest"
    "payload_bytes_in_index (store_db (s3\<lparr>store_db := ?d4\<rparr>)) - ?q > sum_list (map r_payload_bytes (butlast t)) \<or> t = []"
    by (rule evict_stage [OF ok4 q q0])
  note s5 = s5'(1-5) s5'(7,8)
  note s5 = s5 [unfolded Store.simps drop_empty_stage(2)]
  have bytes: "payload_bytes_in_index ?d4 = sum_list (map r_payload_bytes (filter (\<lambda>r. r_payload_path r \<noteq> None) ?r3))"
    using rows_ok_nonneg [OF db_invD(4)] s3(2) unfolding payload_bytes_in_index_def drop_empty_stage(2)
    by (intro max_absorb2 sum_list_nonneg) (auto simp: store_ok_def)
  let ?d6 = "snd (prune_ingested_sources now c (store_db s5))"
  have d6: "crash_record ?d6 = crash_record (store_db s5)" "history ?d6 = history (store_db s5)"
    by (simp_all add: prune_ingested_sources_def Let_def)
  have "\<exists>out. sweep w now retn s = (Inr out, s5\<lparr>store_db := ?d6\<rparr>)"
    using q s1(1) s2(1) s3(1) s5(1)
    by (simp add: sweep_def Let_def c_def p_def quiet_def case_prod_beta)
  then obtain out where "sweep w now retn s = (Inr out, s5\<lparr>store_db := ?d6\<rparr>)" ..
  then show ?thesis
  proof (rule that [where t = t])
    show "store_ok exact (s5\<lparr>store_db := ?d6\<rparr>)" using s5(2) by (simp add: store_ok_def prune_inv)
    show "payload_bytes_in_index (store_db (s5\<lparr>store_db := ?d6\<rparr>)) \<le> ?q"
      using s5(5) by (simp add: payload_bytes_in_index_def d6(1))
    show "history (store_db (s5\<lparr>store_db := ?d6\<rparr>)) = filter (kept_group c ?r3) (history (store_db s))"
      by (simp add: d6(2) s5(4) drop_empty_stage(1) s3(4))
  qed (use s3(3,5) s5(3,6,7) bytes in \<open>simp_all add: d6(1) fold_evict_records drop_empty_stage(2)\<close>)
qed

section \<open>Properties\<close>

lemma sample_quiet [simp]: "quiet sample_world"
  by (simp add: quiet_def sample_world_def no_faults_def)

lemma rows_of_filter_le: "length (rows_of gid (filter P rs)) \<le> length (rows_of gid rs)"
  by (rule rows_of_filter)

lemma evicted_rows:
  assumes "crash_record d = map (\<lambda>x. if r_id x \<in> A
      then x\<lparr>r_payload_path := None, r_payload_bytes := 0, r_payload_state := st\<rparr> else x) rs"
  shows "length (rows_of gid (crash_record d)) = length (rows_of gid rs)"
    "r_happened_at_ms ` set (crash_record d) = r_happened_at_ms ` set rs"
    "record_key ` set (crash_record d) = record_key ` set rs" "length (crash_record d) = length rs"
    "r_id ` set (crash_record d) = r_id ` set rs" "r_group_id ` set (crash_record d) = r_group_id ` set rs"
proof -
  define f where "f = (\<lambda>x :: RecordRow. if r_id x \<in> A
      then x\<lparr>r_payload_path := None, r_payload_bytes := 0, r_payload_state := st\<rparr> else x)"
  have f: "r_happened_at_ms (f x) = r_happened_at_ms x" "r_id (f x) = r_id x" "record_key (f x) = record_key x"
    "r_group_id (f x) = r_group_id x" for x
    by (simp_all add: f_def record_key_def)
  have e: "crash_record d = map f rs" using assms by (simp add: f_def)
  show "length (rows_of gid (crash_record d)) = length (rows_of gid rs)"
    by (simp add: e rows_of_def filter_map comp_def f)
  show "r_happened_at_ms ` set (crash_record d) = r_happened_at_ms ` set rs"
    "record_key ` set (crash_record d) = record_key ` set rs" "length (crash_record d) = length rs"
    "r_id ` set (crash_record d) = r_id ` set rs" "r_group_id ` set (crash_record d) = r_group_id ` set rs"
    by (simp_all add: e image_image f)
qed

text \<open>C6: a sweep over a well-formed index that meets no failure returns, and afterwards all four ceilings
  of the clamped policy hold at once: no record is older than the window, no group has more than its
  share of records, there are at most the allowed number of records, and the payload bytes fit
  the quota.\<close>
theorem sweep_within_limits:
  assumes "db_inv exact (store_db s)" and "quiet w"
  shows "\<exists>out s'. sweep w now retn s = (Inr out, s') \<and> db_inv exact (store_db s') \<and>
     set (crash_record (store_db s')) \<subseteq> {r. sweep_cutoff now (clamped retn) \<le> r_happened_at_ms r} \<and>
     (\<forall>gid. length (rows_of gid (crash_record (store_db s'))) \<le> nat (max_records_per_group (clamped retn))) \<and>
     length (crash_record (store_db s')) \<le> nat (max_records_total (clamped retn)) \<and>
     payload_bytes_in_index (store_db s') \<le> max_payload_bytes_total (clamped retn)"
proof -
  have ok: "store_ok exact s" using assms(1) by (simp add: store_ok_def)
  let ?p = "clamped retn"
  let ?r1 = "filter (\<lambda>r. sweep_cutoff now ?p \<le> r_happened_at_ms r) (crash_record (store_db s))"
  let ?r2 = "filter (\<lambda>r. length (newer_in_group ?r1 r) < nat (max_records_per_group ?p)) ?r1"
  obtain out s' r3 t where S: "sweep w now retn s = (Inr out, s')" "store_ok exact s'"
    "mset r3 = mset (drop (length ?r2 - nat (max_records_total ?p)) (oldest_first ?r2))" "\<exists>P. r3 = filter P ?r2"
    "crash_record (store_db s') = map (\<lambda>x. if r_id x \<in> r_id ` set t
        then x\<lparr>r_payload_path := None, r_payload_bytes := 0, r_payload_state := pstate_as_i64 Evicted\<rparr> else x) r3"
    "payload_bytes_in_index (store_db s') \<le> max_payload_bytes_total ?p"
    "\<exists>rest. oldest_first (filter (\<lambda>r. r_payload_path r \<noteq> None) r3) = t @ rest"
    "sum_list (map r_payload_bytes (filter (\<lambda>r. r_payload_path r \<noteq> None) r3)) - max_payload_bytes_total ?p
       > sum_list (map r_payload_bytes (butlast t)) \<or> t = []"
    "history (store_db s') = filter (kept_group (sweep_cutoff now ?p) r3) (history (store_db s))"
    by (rule sweep_stages [OF ok assms(2)])
  note E = evicted_rows [OF S(5)]
  obtain P where P: "r3 = filter P ?r2" using S(4) by blast
  have "r_happened_at_ms ` set (crash_record (store_db s')) \<subseteq> {sweep_cutoff now ?p ..}"
    unfolding E(2) P by auto
  moreover have "length (rows_of gid (crash_record (store_db s'))) \<le> nat (max_records_per_group ?p)" for gid
  proof -
    have "distinct (map r_id (crash_record ((store_db s)\<lparr>crash_record := ?r1\<rparr>)))"
      using store_ok_distinct [OF ok] by (simp add: distinct_map_filterI)
    from trimmed_group_size [OF this, of gid "nat (max_records_per_group ?p)"]
    have "length (rows_of gid ?r2) \<le> nat (max_records_per_group ?p)"
      unfolding row_number_newer Suc_le_eq by simp
    then show ?thesis unfolding E(1) P using rows_of_filter_le order_trans by blast
  qed
  moreover have "length (crash_record (store_db s')) \<le> nat (max_records_total ?p)"
  proof -
    have "length r3 = length ?r2 - (length ?r2 - nat (max_records_total ?p))"
      using arg_cong [OF S(3), of size] by (simp add: oldest_first_def)
    then show ?thesis unfolding E(4) by linarith
  qed
  ultimately show ?thesis
    using S(1,2,6) by (intro exI [of _ out] exI [of _ s'] conjI) (auto simp: store_ok_def)
qed

theorem sweep_within_limits_witness:
  "\<exists>out s'. sweep sample_world 0 retention_default fresh_store = (Inr out, s') \<and>
     payload_bytes_in_index (store_db s') \<le> max_payload_bytes_total (clamped retention_default)"
proof -
  have "db_inv True (store_db fresh_store)" by (simp add: fresh_store_def)
  from sweep_within_limits [OF this sample_quiet, of 0 retention_default] show ?thesis by blast
qed

text \<open>C7: a sweep never removes a record without a reason: a record it removes was older than the window, or
  had at least as many newer records (inside the window) in its own group as the group may keep, or
  the index is full to the total ceiling with records that are all newer.  A group's occurrence count,
  first and last sighting are never touched; a group row goes only when it is older than the window and has no
  record left.\<close>
theorem sweep_removes_only_surplus:
  assumes "db_inv exact (store_db s)" and "quiet w"
  shows "\<exists>out s'. sweep w now retn s = (Inr out, s') \<and>
     r_id ` set (crash_record (store_db s')) \<subseteq> r_id ` set (crash_record (store_db s)) \<and>
     {r \<in> set (crash_record (store_db s)). r_id r \<notin> r_id ` set (crash_record (store_db s'))} \<subseteq>
       {r. r_happened_at_ms r < sweep_cutoff now (clamped retn) \<or>
           nat (max_records_per_group (clamped retn)) \<le>
             length (filter (\<lambda>x. sweep_cutoff now (clamped retn) \<le> r_happened_at_ms x \<and>
               r_group_id x = r_group_id r \<and> record_key r < record_key x) (crash_record (store_db s))) \<or>
           length (crash_record (store_db s')) = nat (max_records_total (clamped retn)) \<and>
             record_key ` set (crash_record (store_db s')) \<subseteq> {k. record_key r \<le> k}} \<and>
     history (store_db s') =
       filter (\<lambda>(gid, _, _, seen). sweep_cutoff now (clamped retn) \<le> seen \<or>
                 gid \<in> r_group_id ` set (crash_record (store_db s'))) (history (store_db s))"
proof -
  have ok: "store_ok exact s" using assms(1) by (simp add: store_ok_def)
  let ?p = "clamped retn" and ?rs = "crash_record (store_db s)"
  let ?kt = "nat (max_records_total ?p)" and ?kg = "nat (max_records_per_group ?p)"
  let ?r1 = "filter (\<lambda>r. sweep_cutoff now ?p \<le> r_happened_at_ms r) ?rs"
  let ?r2 = "filter (\<lambda>r. length (newer_in_group ?r1 r) < ?kg) ?r1"
  obtain out s' r3 t where S: "sweep w now retn s = (Inr out, s')" "store_ok exact s'"
    "mset r3 = mset (drop (length ?r2 - ?kt) (oldest_first ?r2))" "\<exists>P. r3 = filter P ?r2"
    "crash_record (store_db s') = map (\<lambda>x. if r_id x \<in> r_id ` set t
        then x\<lparr>r_payload_path := None, r_payload_bytes := 0, r_payload_state := pstate_as_i64 Evicted\<rparr> else x) r3"
    "payload_bytes_in_index (store_db s') \<le> max_payload_bytes_total ?p"
    "\<exists>rest. oldest_first (filter (\<lambda>r. r_payload_path r \<noteq> None) r3) = t @ rest"
    "sum_list (map r_payload_bytes (filter (\<lambda>r. r_payload_path r \<noteq> None) r3)) - max_payload_bytes_total ?p
       > sum_list (map r_payload_bytes (butlast t)) \<or> t = []"
    "history (store_db s') = filter (kept_group (sweep_cutoff now ?p) r3) (history (store_db s))"
    by (rule sweep_stages [OF ok assms(2)])
  note E = evicted_rows [OF S(5)]
  have "r_happened_at_ms r < sweep_cutoff now ?p \<or> ?kg \<le> length (newer_in_group ?r1 r) \<or>
      length r3 = ?kt \<and> record_key ` set r3 \<subseteq> {k. record_key r \<le> k}"
    if r: "r \<in> set ?rs" "r_id r \<notin> r_id ` set r3" for r
  proof (cases "r \<in> set ?r2")
    case True
    from cut_reason [OF S(3) True r(2)] show ?thesis by blast
  next
    case False then show ?thesis using r(1) by (simp add: not_less) linarith
  qed
  moreover have "r_id ` set r3 \<subseteq> r_id ` set ?rs" using S(4) by auto
  ultimately show ?thesis
    using S(1,9) unfolding newer_in_group_def kept_group_def filter_filter
    by (intro exI [of _ out] exI [of _ s'] conjI; (simp only: E(3,4,5,6))?; blast)
qed

theorem sweep_removes_only_surplus_witness:
  "\<exists>out s'. sweep sample_world 0 retention_default fresh_store = (Inr out, s') \<and>
     r_id ` set (crash_record (store_db s')) \<subseteq> r_id ` set (crash_record (store_db fresh_store))"
proof -
  have "db_inv True (store_db fresh_store)" by (simp add: fresh_store_def)
  from sweep_removes_only_surplus [OF this sample_quiet, of 0 retention_default] show ?thesis by blast
qed

end
