(* ===== verification/Store_Payloads.thy ===== *)
theory Store_Payloads
  imports Store_Sweep
begin

text \<open>
  The index and the payload directory together: along every run in which retention and deletion meet
  no failure, each row with a payload path has its file, of the size the row says, and what was
  written is what a client reads through the daemon.
\<close>

section \<open>Retention keeps index and files in step\<close>

lemma evict_files_inv:
  assumes ok: "store_ok exact s" and q: "quiet w" and f: "files_inv s"
  shows "files_inv (snd (evict_payloads w n s))"
proof (cases "payload_bytes_in_index (store_db s) \<le> n")
  case True then show ?thesis using f by (simp add: evict_payloads_def)
next
  case False
  let ?c = "oldest_first (filter (\<lambda>r. r_payload_path r \<noteq> None \<and> r_payload_state r \<noteq> pstate_as_i64 Evicted)
      (crash_record (store_db s)))"
  let ?t = "evict_take (payload_bytes_in_index (store_db s) - n) ?c"
  have c: "set ?c \<subseteq> set (crash_record (store_db s))" "\<And>r. r \<in> set ?c \<Longrightarrow> r_payload_path r \<noteq> None"
    by (auto simp: oldest_first_def)
  have path: "r_payload_path r = Some (path_of (r_id r)) \<and> parse (r_id r) \<noteq> None" if r: "r \<in> set ?c" for r
  proof -
    obtain p where p: "r_payload_path r = Some p" using c(2) r by blast
    show ?thesis using stored_row_path [OF ok subsetD [OF c(1) r] p] p by blast
  qed
  have e: "snd (evict_payloads w n s) = s\<lparr>store_files := fold AList.delete (paths_of ?t) (store_files s),
      store_db := fold evict_row ?t (store_db s)\<rparr>"
    using evict_loop_quiet [OF q path, of ?c "payload_bytes_in_index (store_db s) - n" 0 0 s] False
    by (simp add: evict_payloads_def Let_def)
  show ?thesis unfolding e
  proof (rule files_inv_remove [OF ok f, of ?t])
    show "set ?t \<subseteq> set (crash_record (store_db s))" using set_evict_take c(1) by blast
  qed (auto simp: fold_evict_records map_of_fold_delete split: if_splits)
qed

lemma sweep_files_inv:
  assumes ok: "store_ok exact s" and q: "quiet w" and f: "files_inv s"
  shows "files_inv (snd (sweep w now retn s))"
proof -
  have "store_ok exact (snd (sweep w now retn s)) \<and> files_inv (snd (sweep w now retn s))"
  proof (rule sweep_preserves)
    fix name P t n c assume t: "store_ok exact t \<and> files_inv t"
    show "store_ok exact (snd (delete_records_where w name P t)) \<and> files_inv (snd (delete_records_where w name P t))"
      using t delete_where_files [OF _ q] delete_records_where_ok by blast
    show "store_ok exact (snd (evict_payloads w n t)) \<and> files_inv (snd (evict_payloads w n t))"
      using t evict_files_inv [OF _ q] evict_payloads_ok by blast
  qed (use ok f drop_empty_groups_inv prune_inv in
      \<open>auto simp: store_ok_def files_inv_def drop_empty_stage(2) prune_ingested_sources_def Let_def\<close>)
  then show ?thesis ..
qed

lemma reopen_files_inv:
  assumes "files_inv s" shows "files_inv (store_step (OpReopen faults) s)"
proof -
  let ?ref = "referenced_payload_paths (store_db s)"
  have "map_of (filter (\<lambda>(rel, _). rel \<in> set ?ref \<or> rel \<in> set (fs_unlink_fails faults)) fs) p = map_of fs p"
    if "p \<in> set ?ref" for p and fs :: files
    using that by (induction fs) auto
  note keep = this
  have s': "store_db (store_step (OpReopen faults) s) = store_db s"
    "store_files (store_step (OpReopen faults) s) =
       filter (\<lambda>(rel, _). rel \<in> set ?ref \<or> rel \<in> set (fs_unlink_fails faults)) (store_files s)"
    by (simp_all add: store_open_def initialize_def remove_orphans_def Let_def)
  have ref: "p \<in> set ?ref" if "r \<in> set (crash_record (store_db s))" "r_payload_path r = Some p" for r p
    using that set_paths_of [of p "crash_record (store_db s)"]
    unfolding referenced_payload_paths_def paths_of_def by blast
  show ?thesis
    unfolding files_inv_def s'
  proof (intro ballI allI impI)
    fix r p assume r: "r \<in> set (crash_record (store_db s))" "r_payload_path r = Some p"
    show "\<exists>c. map_of (filter (\<lambda>(rel, _). rel \<in> set ?ref \<or> rel \<in> set (fs_unlink_fails faults)) (store_files s)) p
        = Some c \<and> int (length c) = r_payload_bytes r"
      unfolding keep [OF ref [OF r]] using assms r by (auto simp: files_inv_def)
  qed
qed

section \<open>Runs\<close>

fun op_quiet :: "StoreOp \<Rightarrow> bool" where
  "op_quiet (OpSweep w now retn) = quiet w"
| "op_quiet (OpDelete w t) = quiet w"
| "op_quiet _ = True"

definition full_inv :: "nat \<Rightarrow> Store \<Rightarrow> bool" where
  "full_inv n s \<longleftrightarrow> store_ok False s \<and> id_inv n s \<and> files_inv s"

lemma step_files_inv:
  assumes "full_inv n s" "op_clock_ok op" "n < id_budget" "op_quiet op"
  shows "files_inv (store_step op s)"
proof -
  have ok: "store_ok False s" and ids: "id_inv n s" and f: "files_inv s" using assms(1) by (auto simp: full_inv_def)
  have same: "files_inv s'" if "store_files s' = store_files s" "crash_record (store_db s') = crash_record (store_db s)" for s'
    using f that by (simp add: files_inv_def)
  show ?thesis
  proof (cases op)
    case (OpInsert w r retn keys at)
    then show ?thesis using insert_files_inv [OF ok ids _ _ f] assms(2,3) by (simp add: id_budget_def)
  next
    case (OpFold w r window retn keys at)
    then show ?thesis
      using f fold_files_inv [OF ok f] companion_record_stored [of "store_db s" r window] by (auto split: option.splits)
  next
    case (OpSweep w now retn) then show ?thesis using sweep_files_inv [OF ok _ f] assms(4) by simp
  next
    case (OpDelete w t) then show ?thesis using store_delete_files [OF ok _ f] assms(4) by simp
  next
    case (OpFlags fails flags)
    have "crash_record (snd (apply_flags fl d)) = crash_record d" for fl d
      by (induction fl d rule: apply_flags.induct) (simp_all add: Let_def case_prod_beta update_groups_def)
    then show ?thesis using OpFlags by (intro same) (auto simp: apply_package_system_flags_def case_prod_beta)
  next
    case (OpReopen faults) then show ?thesis using reopen_files_inv [OF f] by simp
  qed (auto intro!: same simp: mark_ingested_def set_group_mute_snd set_mute_def set_package_mute_def
        clear_all_mutes_def update_groups_def)
qed

interpretation full_run: graded_invariant store_step full_inv "\<lambda>_ n. Suc n"
  "\<lambda>op n. op_clock_ok op \<and> n < id_budget \<and> op_quiet op"
proof
  fix n s op assume a: "full_inv n s" "op_clock_ok op \<and> n < id_budget \<and> op_quiet op"
  show "full_inv (Suc n) (store_step op s)"
    using a step_files_inv [OF a(1)] id_run.step_inv [of n s op] store_step_ok [of False s op]
    by (simp add: full_inv_def)
qed

lemma full_run_allowed:
  "list_all (\<lambda>op. op_clock_ok op \<and> op_quiet op) ops \<Longrightarrow> n + length ops \<le> id_budget \<Longrightarrow> full_run.all_allowed ops n"
  by (induction ops arbitrary: n) auto

lemma run_full_inv:
  assumes "list_all (\<lambda>op. op_clock_ok op \<and> op_quiet op) ops" "length ops \<le> id_budget"
  shows "full_inv (length ops) (fold store_step ops fresh_store)"
proof -
  have "full_inv 0 fresh_store"
    using fresh_store_id_inv by (simp add: full_inv_def store_ok_def files_inv_def fresh_store_def empty_db_def)
      (simp add: empty_db_def [symmetric])
  from full_run.run_inv [OF this full_run_allowed, of ops] assms show ?thesis by (simp add: fold_Suc)
qed

section \<open>Reading through the index\<close>

lemma find_record_Some:
  "find_record d i = Some r \<Longrightarrow> r \<in> set (crash_record d) \<and> r_id r = i"
  by (auto simp: find_record_def find_Some_iff)

lemma payload_location_row:
  assumes "db_inv exact d" "payload_location d i = Inr (path, cdc)"
  obtains r where "r \<in> set (crash_record d)" "r_id r = as_str i" "r_payload_path r = Some path"
    "path = relative_path_for i" "cdc = Zstd"
proof -
  obtain r where r: "find_record d (as_str i) = Some r" "r_payload_path r = Some path"
    "cdc = codec_from_i64 (r_payload_codec r)"
    using assms(2) by (auto simp: payload_location_def Let_def split: option.splits if_splits)
  have "row_ok r" using find_record_Some [OF r(1)] rows_okD(1) [OF db_invD(4) [OF assms(1)]] by blast
  then have "path = relative_path_for i" "cdc = Zstd"
    using r find_record_Some [OF r(1)]
    by (simp_all add: row_ok_def relative_path_for_eq codec_from_i64_def pcodec_from_i64_def)
  then show ?thesis using that find_record_Some [OF r(1)] r(2) by blast
qed

text \<open>What a stored row means for a reader depends only on the row and its file.\<close>

lemma read_payload_chunk_cong:
  assumes "find_record (store_db s') (as_str i) = find_record (store_db s) (as_str i)"
    and "map_of (store_files s') (path_of (as_str i)) = map_of (store_files s) (path_of (as_str i))"
    and "db_inv exact (store_db s)"
  shows "read_payload_chunk unz s' i off len = read_payload_chunk unz s i off len"
proof -
  have "payload_location (store_db s') i = payload_location (store_db s) i"
    using assms(1) by (simp add: payload_location_def)
  moreover have "path = path_of (as_str i)" if "payload_location (store_db s) i = Inr (path, cdc)" for path cdc
    using payload_location_row [OF assms(3) that] by (metis relative_path_for_eq)
  ultimately show ?thesis
    using assms(2) by (auto simp: read_payload_chunk_def read_chunk_def payload_read_bytes_def
        split: sum.splits prod.splits)
qed

lemma inserted_row_readable:
  assumes "written = Some wp" "written_ok i written" "find_record d (as_str i) = None"
  shows "payload_location (inserted_db gid i r written keys at d) i = Inr (relative_path wp, Zstd)"
proof -
  have "find_record (inserted_db gid i r written keys at d) (as_str i) =
      Some (new_record_row (as_str i) gid r (find_group d gid \<noteq> None) written)"
    using assms(3) by (simp add: find_record_def inserted_db_def find_append)
  then show ?thesis
    using assms(1,2)
    by (auto simp: payload_location_def Let_def new_record_row_def written_ok_def codec_from_i64_def pcodec_from_i64_def
        pstate_from_i64_def)
qed

text \<open>The write of a non-empty payload leaves the collected bytes, cut at the limit, readable.\<close>

lemma payload_write_reads:
  assumes "payload_write rf z fl i pl cap fs = (Inr wr, fs')" and "read_source rf pl = Inr raw" and "raw \<noteq> []"
    and "\<And>b c. z b = Some c \<Longrightarrow> unz c = Some b" and "parse (as_str i) = Some i"
  obtains wp where "wr = Some wp" "payload_read_bytes unz fs' (relative_path wp) Zstd = Inr (truncate_utf8 raw cap)"
proof -
  let ?bytes = "if length raw > cap then truncate_utf8 raw cap else raw"
  have ne: "truncate_utf8 raw cap = ?bytes" using truncate_all [of raw cap] by auto
  obtain wp c where c: "wr = Some wp" "z ?bytes = Some c" "fs' = AList.update (relative_path_for i) c fs"
    "relative_path wp = relative_path_for i"
    using assms(1-3) by (auto simp: payload_write_def Let_def split: if_splits option.splits)
  have "payload_read_bytes unz fs' (relative_path wp) Zstd = Inr (truncate_utf8 raw cap)"
    using c(3,4) assms(4) [OF c(2)] resolve_relative_path [OF assms(5), of "[]"]
    by (subst ne) (simp add: payload_read_bytes_def update_conv)
  then show ?thesis using that c(1) by blast
qed

text \<open>An insert does not disturb what other records read.\<close>

lemma insert_keeps_other_reads:
  assumes pw: "payload_write rf z fl i pl cap (store_files s) = (Inr wr, fs')"
    and inv: "db_inv exact (store_db s)" and pi: "parse (as_str i) = Some i" and j: "as_str j \<noteq> as_str i"
    and s': "store_files s' = fs'" "store_db s' = inserted_db gid i r wr keys at (store_db s)"
  shows "read_payload_chunk unz s' j off len = read_payload_chunk unz s j off len"
proof (cases "find_record (store_db s) (as_str j)")
  case None
  then have "find_record (store_db s') (as_str j) = None"
    using j s' by (simp add: find_record_def inserted_db_def find_append)
  then show ?thesis using None by (simp add: read_payload_chunk_def payload_location_def)
next
  case (Some x)
  have "row_ok x" using find_record_Some [OF Some] rows_okD(1) [OF db_invD(4) [OF inv]] by blast
  then have "parse (as_str j) \<noteq> None" using find_record_Some [OF Some] unfolding row_ok_def by metis
  then have "path_of (as_str j) \<noteq> path_of (as_str i)" using path_of_inject j pi by blast
  then have "map_of fs' (path_of (as_str j)) = map_of (store_files s) (path_of (as_str j))"
    by (rule payload_write_files [OF pw])
  moreover have "find_record (store_db s') (as_str j) = find_record (store_db s) (as_str j)"
    using Some s' by (simp add: find_record_def inserted_db_def find_append)
  ultimately show ?thesis using s' by (intro read_payload_chunk_cong [OF _ _ inv]) simp_all
qed

section \<open>Properties\<close>


definition sample_ops :: "StoreOp list" where
  "sample_ops = [OpInsert sample_world (sample_record 5) retention_default [] 0]"



text \<open>what a client reads back is what the collector delivered.  After a record with a non-empty payload was
  inserted into a store that went through any admissible run, reading it through the index returns, for
  every offset and length, the corresponding chunk of the collected bytes (cut at a character
  boundary below the per-record limit when they exceed it), and every other record reads as before;
  for any compressor whose output decompresses to its input.\<close>
theorem insert_then_read:
  assumes "list_all (\<lambda>op. op_clock_ok op \<and> op_quiet op) ops" and "length ops < id_budget"
    and "clock_ok r" and "accepts w r"
    and "read_source (w_read_file w) (payload r) = Inr raw" and "raw \<noteq> []"
    and "\<And>b c. w_zstd w b = Some c \<Longrightarrow> unz c = Some b"
  shows "\<exists>ins s' i. insert_with_sources w r retn keys at (fold store_step ops fresh_store) = (Inr ins, s') \<and>
     as_str i = as_str (rs_id (ins_record ins)) \<and>
     (\<forall>off len. read_payload_chunk unz s' i off len =
        Inr (chunk_of (truncate_utf8 raw (nat (max_payload_bytes_per_record retn))) off len)) \<and>
     (\<forall>j off len. as_str j \<noteq> as_str i \<longrightarrow>
        read_payload_chunk unz s' j off len = read_payload_chunk unz (fold store_step ops fresh_store) j off len)"
proof -
  define s where "s = fold store_step ops fresh_store"
  define cap where "cap = nat (max_payload_bytes_per_record retn)"
  define i where "i = fst (Record_Id.next_id (store_ids s) (u64_of (happened_at_ms r)))"
  define s1 where "s1 = snd (store_next_id s (happened_at_ms r))"
  have n: "store_next_id s (happened_at_ms r) = (i, s1)" and s1: "store_db s1 = store_db s" "store_files s1 = store_files s"
    by (simp_all add: store_next_id_def i_def s1_def case_prod_beta)
  have inv: "db_inv False (store_db s)" and ids: "id_inv (length ops) s"
    using run_full_inv [OF assms(1)] assms(2) by (auto simp: full_inv_def store_ok_def s_def)
  have fresh: "as_str i \<notin> ids_of (store_db s)" and pi: "parse (as_str i) = Some i"
    using next_id_fresh(4) [OF ids _ assms(3)] assms(2) by (simp_all add: i_def next_id_code id_budget_def)
  have none: "find_record (store_db s) (as_str i) = None" using fresh by (simp add: find_record_None ids_of_def)
  obtain wr fs' where pw: "payload_write (w_read_file w) (w_zstd w) (w_faults w) i (payload r) cap (store_files s) = (Inr wr, fs')"
    using accepts_write [OF assms(4)] by blast
  obtain wp where wp: "wr = Some wp" and rd: "payload_read_bytes unz fs' (relative_path wp) Zstd = Inr (truncate_utf8 raw cap)"
    by (rule payload_write_reads [OF pw assms(5,6,7) pi])
  let ?gid = "record_group_id (w_sha256 w) r"
  let ?d = "inserted_db ?gid i r wr keys at (store_db s)"
  let ?s' = "s1\<lparr>store_files := fs', store_db := ?d\<rparr>"
  have "\<exists>ins. insert_with_sources w r retn keys at s = (Inr ins, ?s') \<and>
      rs_id (ins_record ins) = rs_id (map_record (new_record_row (as_str i) ?gid r (find_group (store_db s) ?gid \<noteq> None) wr))"
    using assms(4) pw none by (simp add: insert_with_sources_def n s1 cap_def insert_rows_eq Let_def accepts_def)
  then obtain ins where ins: "insert_with_sources w r retn keys at s = (Inr ins, ?s')"
    "rs_id (ins_record ins) = rs_id (map_record (new_record_row (as_str i) ?gid r (find_group (store_db s) ?gid \<noteq> None) wr))"
    by blast
  have id: "as_str (rs_id (ins_record ins)) = as_str i"
    using ins(2) pi by (simp add: map_record_def new_record_row_def)
  have "read_payload_chunk unz ?s' i off len = Inr (chunk_of (truncate_utf8 raw cap) off len)" for off len
    using inserted_row_readable [OF wp payload_write_ok [OF pw] none] rd
    by (simp add: read_payload_chunk_def read_chunk_def)
  moreover have "read_payload_chunk unz ?s' j off len = read_payload_chunk unz s j off len"
    if "as_str j \<noteq> as_str i" for j off len
    by (rule insert_keeps_other_reads [OF pw inv pi that]) simp_all
  ultimately show ?thesis
    unfolding s_def [symmetric] cap_def [symmetric]
    using ins(1) id by (intro exI [of _ ins] exI [of _ ?s'] exI [of _ i]) auto
qed

theorem insert_then_read_witness:
  "\<exists>ins s'. insert_with_sources sample_world (sample_record 9) retention_default [] 0
       (fold store_step sample_ops fresh_store) = (Inr ins, s') \<and>
     read_payload_chunk Some s' (rs_id (ins_record ins)) 0 2 = Inr ([1, 2], 2, False)"
proof -
  have a: "list_all (\<lambda>op. op_clock_ok op \<and> op_quiet op) sample_ops" and b: "length sample_ops < id_budget"
    and c: "clock_ok (sample_record 9)"
    and d: "read_source (w_read_file sample_world) (payload (sample_record 9)) = Inr [1, 2, 3]"
    by (simp_all add: sample_ops_def id_budget_def sample_record_def clock_ok_def read_source_def)
  have z: "w_zstd sample_world x = Some y \<Longrightarrow> Some y = Some x" for x y by (simp add: sample_world_def)
  have t: "chunk_of (truncate_utf8 [1, 2, 3] (nat (max_payload_bytes_per_record retention_default))) 0 2 = ([1, 2], 2, False)"
  proof -
    have "truncate_utf8 [1, 2, 3 :: u8] (nat (max_payload_bytes_per_record retention_default)) = [1, 2, 3]"
      by (rule truncate_all) (simp add: retention_default_def)
    moreover have "chunk_of [1, 2, 3 :: u8] 0 2 = ([1, 2], 2, False)" by code_simp
    ultimately show ?thesis by simp
  qed
  obtain ins s' i where "insert_with_sources sample_world (sample_record 9) retention_default [] 0
      (fold store_step sample_ops fresh_store) = (Inr ins, s')" "as_str i = as_str (rs_id (ins_record ins))"
    "\<forall>off len. read_payload_chunk Some s' i off len =
        Inr (chunk_of (truncate_utf8 [1, 2, 3] (nat (max_payload_bytes_per_record retention_default))) off len)"
    using insert_then_read [OF a b c sample_accepts d, where unz = Some and retn = retention_default
        and keys = "[]" and at = 0] z by blast
  moreover from this(2) have "i = rs_id (ins_record ins)" by (rule RecordId.expand)
  ultimately show ?thesis using t by (intro exI [of _ ins] exI [of _ s']) simp
qed

end
