(* ===== verification/Store_Pages.thy ===== *)
theory Store_Pages
  imports Store_Sweep
begin

text \<open>
  Queries: a client that follows the cursors of a listing sees every matching row exactly once and in
  order, and a search text is matched as a substring, whatever characters it contains.
\<close>

section \<open>Keyset pagination\<close>

text \<open>The contract of a listing: rows carry a key, the keys are strictly and totally ordered, and a page
  resumes behind the key of the last row that was sent.\<close>

locale keyset =
  fixes before :: "'k \<Rightarrow> 'k \<Rightarrow> bool" and key :: "'a \<Rightarrow> 'k"
  assumes irrefl: "\<not> before k k"
    and trans: "before k l \<Longrightarrow> before l m \<Longrightarrow> before k m"
    and total: "k \<noteq> l \<Longrightarrow> before k l \<or> before l k"
begin

definition row_before :: "'a \<Rightarrow> 'a \<Rightarrow> bool" where
  "row_before a b = before (key a) (key b)"

lemma insort_mset: "mset (insort_by row_before x ys) = add_mset x (mset ys)"
  by (induction ys) auto

lemma order_mset: "mset (order_by row_before xs) = mset xs"
  by (induction xs) (simp_all add: order_by_def insort_mset)

lemma insort_sorted:
  assumes "sorted_wrt row_before ys" "key x \<notin> key ` set ys"
  shows "sorted_wrt row_before (insort_by row_before x ys)"
  using assms
proof (induction ys)
  case (Cons y ys)
  have x: "row_before y x \<or> row_before x y" using Cons.prems(2) total [of "key x" "key y"] by (auto simp: row_before_def)
  have set: "set (insort_by row_before x zs) = insert x (set zs)" for zs
    using insort_mset [of x zs] by (metis set_mset_add_mset_insert set_mset_mset)
  show ?case
  proof (cases "row_before y x")
    case True then show ?thesis using Cons by (auto simp: set)
  next
    case False
    then have "row_before x y" using x by blast
    moreover have "row_before x z" if "row_before y z" for z
      using \<open>row_before x y\<close> that trans unfolding row_before_def by blast
    ultimately show ?thesis using False Cons.prems(1) by auto
  qed
qed simp

lemma set_order: "set (order_by row_before xs) = set xs"
  using order_mset [of xs] by (metis set_mset_mset)

lemma order_sorted: "distinct (map key xs) \<Longrightarrow> sorted_wrt row_before (order_by row_before xs)"
proof (induction xs)
  case (Cons x xs)
  then show ?case using insort_sorted [of "order_by row_before xs" x] set_order [of xs] by (simp add: order_by_def)
qed (simp add: order_by_def)

lemma sorted_distinct: "sorted_wrt row_before xs \<Longrightarrow> distinct xs"
  using irrefl by (induction xs) (auto simp: row_before_def)

lemma sorted_unique:
  "sorted_wrt row_before xs \<Longrightarrow> sorted_wrt row_before ys \<Longrightarrow> set xs = set ys \<Longrightarrow> xs = ys"
proof (induction xs arbitrary: ys)
  case (Cons x xs)
  then obtain y ys' where ys: "ys = y # ys'" by (cases ys) auto
  have asym: "\<not> (row_before a b \<and> row_before b a)" for a b
    using trans irrefl unfolding row_before_def by blast
  have "x = y"
  proof (rule ccontr)
    assume "x \<noteq> y"
    then have "row_before x y" "row_before y x" using Cons.prems ys by (auto simp: set_eq_iff)
    then show False using asym by blast
  qed
  moreover have "set xs = set ys'"
    using Cons.prems ys \<open>x = y\<close> sorted_distinct [of "x # xs"] sorted_distinct [of ys] by auto
  ultimately show ?case using Cons.IH [of ys'] Cons.prems ys by simp
qed simp

lemma order_filter:
  assumes "distinct (map key xs)"
  shows "order_by row_before (filter P xs) = filter P (order_by row_before xs)"
  using order_sorted [OF assms] order_sorted [of "filter P xs"] assms
  by (intro sorted_unique) (simp_all add: distinct_map_filterI sorted_wrt_filter set_order)

lemma resume_behind:
  assumes "sorted_wrt row_before (ys @ x # zs)"
  shows "filter (\<lambda>a. before (key x) (key a)) (ys @ x # zs) = zs"
proof -
  have "\<not> before (key x) (key a)" if "a \<in> set ys \<or> a = x" for a
  proof
    assume b: "before (key x) (key a)"
    have "a = x \<or> before (key a) (key x)" using that assms by (auto simp: sorted_wrt_append row_before_def)
    then show False using b irrefl trans [OF b] by blast
  qed
  then have "filter (\<lambda>a. before (key x) (key a)) (ys @ [x]) = []" by (auto simp: filter_empty_conv)
  moreover have "filter (\<lambda>a. before (key x) (key a)) zs = zs"
    using assms by (intro filter_True) (auto simp: sorted_wrt_append row_before_def)
  ultimately show ?thesis using irrefl by simp
qed

end

section \<open>Following the cursors\<close>

text \<open>A client asks for pages until one has no cursor; it gives up after \<^term>\<open>n\<close> requests or on an error.\<close>

fun walk_pages :: "nat \<Rightarrow> (Cursor option \<Rightarrow> 'e + 'b Page) \<Rightarrow> Cursor option \<Rightarrow> 'b list option" where
  "walk_pages 0 fetch c = None"
| "walk_pages (Suc n) fetch c =
     (case fetch c of
        Inl _ \<Rightarrow> None
      | Inr page \<Rightarrow>
          (case next_cursor page of
             None \<Rightarrow> Some (items page)
           | Some c' \<Rightarrow> map_option (\<lambda>rest. items page @ rest) (walk_pages n fetch (Some c'))))"

context keyset
begin

text \<open>The server's side of the contract: the first request gets the head of the ordered list, a request with
  the cursor of a row gets what follows that row.\<close>

definition serves :: "nat \<Rightarrow> ('a \<Rightarrow> 'b) \<Rightarrow> ('b \<Rightarrow> Cursor) \<Rightarrow> 'a list \<Rightarrow> (Cursor option \<Rightarrow> 'e + 'b Page) \<Rightarrow> bool" where
  "serves k view after rows fetch \<longleftrightarrow>
     fetch None = Inr (cut_page k after (map view (take (k + 1) rows))) \<and>
     (\<forall>x \<in> set rows. fetch (Some (after (view x))) =
        Inr (cut_page k after (map view (take (k + 1) (filter (\<lambda>a. before (key x) (key a)) rows)))))"

lemma walk_step:
  assumes "fetch c = Inr (cut_page k after (map view (take (k + 1) zs)))" "0 < k"
  shows "walk_pages (Suc n) fetch c =
     (if length zs \<le> k then Some (map view zs)
      else map_option (\<lambda>rest. map view (take k zs) @ rest) (walk_pages n fetch (Some (after (view (zs ! (k - 1)))))))"
proof (cases "length zs \<le> k")
  case True then show ?thesis using assms(1) by (simp add: cut_page_def)
next
  case False
  have "take k (map view (take (k + 1) zs)) = map view (take k zs)" by (simp add: take_map min_def)
  moreover have "last (map view (take k zs)) = view (zs ! (k - 1))"
    by (subst last_conv_nth) (use False assms(2) in auto)
  ultimately show ?thesis using assms False by (auto simp: cut_page_def min_def)
qed

lemma walk_complete:
  assumes k: "0 < k" and sorted: "sorted_wrt row_before rows" and serve: "serves k view after rows fetch"
    and n: "length rows < n"
  shows "walk_pages n fetch None = Some (map view rows)"
proof -
  have rest: "walk_pages n fetch (Some (after (view x))) = Some (map view zs)"
    if "rows = ys @ x # zs" "length zs < n" for ys x zs n
    using that
  proof (induction zs arbitrary: ys x n rule: length_induct)
    case (1 zs)
    obtain m where m: "n = Suc m" using 1(3) by (cases n) auto
    have f: "fetch (Some (after (view x))) = Inr (cut_page k after (map view (take (k + 1) zs)))"
    proof -
      have "x \<in> set rows" using 1(2) by simp
      moreover have "filter (\<lambda>a. before (key x) (key a)) rows = zs"
        using resume_behind [of ys x zs] sorted 1(2) by blast
      ultimately show ?thesis using serve unfolding serves_def by metis
    qed
    show ?case
    proof (cases "length zs \<le> k")
      case True then show ?thesis unfolding m walk_step [where fetch = fetch, OF f k] by simp
    next
      case False
      let ?x = "zs ! (k - 1)"
      have "zs = take (k - 1) zs @ ?x # drop k zs"
        using False k id_take_nth_drop [of "k - 1" zs] by simp
      then have split: "rows = (ys @ x # take (k - 1) zs) @ ?x # drop k zs" using 1(2) by simp
      have "walk_pages m fetch (Some (after (view ?x))) = Some (map view (drop k zs))"
      proof -
        have "length (drop k zs) < length zs" "length (drop k zs) < m" using False k 1(3) m by simp_all
        then show ?thesis using 1(1) split by blast
      qed
      then show ?thesis
        using False unfolding m walk_step [where fetch = fetch, OF f k]
        by (simp flip: map_append)
    qed
  qed
  obtain m where m: "n = Suc m" using n by (cases n) auto
  have f: "fetch None = Inr (cut_page k after (map view (take (k + 1) rows)))" using serve by (simp add: serves_def)
  show ?thesis
  proof (cases "length rows \<le> k")
    case True then show ?thesis unfolding m walk_step [where fetch = fetch, OF f k] by simp
  next
    case False
    have "rows = take (k - 1) rows @ rows ! (k - 1) # drop k rows"
      using False k id_take_nth_drop [of "k - 1" rows] by simp
    then have "walk_pages m fetch (Some (after (view (rows ! (k - 1))))) = Some (map view (drop k rows))"
      by (rule rest) (use False k n m in simp)
    then show ?thesis
      using False unfolding m walk_step [where fetch = fetch, OF f k] by (simp flip: map_append)
  qed
qed

end

section \<open>The two listings\<close>

lemma anchor_less_order:
  "\<not> anchor_less a a" "anchor_less a b \<Longrightarrow> anchor_less b c \<Longrightarrow> anchor_less a c"
  "a \<noteq> b \<Longrightarrow> anchor_less a b \<or> anchor_less b a"
  by (cases a; cases b; cases c; auto)+

lemma key_less_order:
  "\<not> key_less a a" "key_less a b \<Longrightarrow> key_less b c \<Longrightarrow> key_less a c" "a \<noteq> b \<Longrightarrow> key_less a b \<or> key_less b a"
proof -
  show "\<not> key_less a a" using anchor_less_order(1) by (simp add: key_less_def)
  show "key_less a b \<Longrightarrow> key_less b c \<Longrightarrow> key_less a c"
    using anchor_less_order(2) [of "fst a" "fst b" "fst c"] by (auto simp: key_less_def)
  show "a \<noteq> b \<Longrightarrow> key_less a b \<or> key_less b a"
    using anchor_less_order(3) [of "fst a" "fst b"] by (cases "fst a = fst b") (auto simp: key_less_def prod_eq_iff)
qed

interpretation group_pages: keyset "comes_before srt" "group_sort_key srt" for srt
proof
  show "\<not> comes_before srt k k" for k by (simp add: comes_before_def key_less_order(1))
  show "comes_before srt k m" if "comes_before srt k l" "comes_before srt l m" for k l m
    using that key_less_order(2) [of k l m] key_less_order(2) [of m l k] by (simp add: comes_before_def split: if_splits)
  show "comes_before srt k l \<or> comes_before srt l k" if "k \<noteq> l" for k l
    using key_less_order(3) [OF that] by (auto simp: comes_before_def)
qed

interpretation record_pages: keyset "\<lambda>a b. b < a" record_key
  by standard auto

definition group_rows :: "CrashFilter \<Rightarrow> SortKey \<Rightarrow> Db \<Rightarrow> GroupRow list" where
  "group_rows f srt d = order_by (group_pages.row_before srt) (filter (group_matches f) (crash_group d))"

lemma cursor_after_row:
  "0 \<le> g_occurrence g \<Longrightarrow> cursor_after (map_group g) srt = cursor_new srt (sort_value srt g) (g_group_id g)"
  by (cases srt) (simp_all add: cursor_after_def map_group_def sort_value_def)

lemma validate_row_cursor [simp]: "validate_for (cursor_new srt (sort_value srt g) t) srt = Inr ()"
  by (cases srt) (simp_all add: validate_for_def cursor_new_def sort_value_def)

lemma effective_limit_pos: "0 \<le> pr_limit p \<Longrightarrow> 0 < nat (effective_limit p)"
  by (simp add: effective_limit_def DEFAULT_PAGE_LIMIT_def MAX_PAGE_LIMIT_def)

lemma group_keys_distinct:
  assumes "db_inv exact d" shows "distinct (map (group_sort_key srt) (crash_group d))"
proof -
  have "distinct (map snd (map (group_sort_key srt) (crash_group d)))"
    using db_invD(1) [OF assms] by (simp add: group_sort_key_def comp_def)
  then show ?thesis by (metis distinct_map)
qed

lemma list_groups_serves:
  assumes inv: "db_inv exact d" and f: "filter_validate (pr_filter p) = Inr ()"
  shows "group_pages.serves (pr_sort p) (nat (effective_limit p)) map_group (\<lambda>g. cursor_after g (pr_sort p))
     (group_rows (pr_filter p) (pr_sort p) d) (\<lambda>c. list_groups d (p\<lparr>pr_cursor := c\<rparr>))"
proof -
  let ?srt = "pr_sort p" and ?f = "pr_filter p"
  have lim: "effective_limit (p\<lparr>pr_cursor := c\<rparr>) = effective_limit p" for c by (simp add: effective_limit_def)
  have occ: "0 \<le> g_occurrence g" if "g \<in> set (crash_group d)" for g
    using db_invD(5) [OF inv that] by (simp add: group_ok_def)
  have rb: "(\<lambda>a b. comes_before ?srt (group_sort_key ?srt a) (group_sort_key ?srt b)) = group_pages.row_before ?srt"
    by (simp add: fun_eq_iff group_pages.row_before_def)
  have sub: "order_by (group_pages.row_before ?srt) (filter (\<lambda>g. group_matches ?f g \<and> P g) (crash_group d)) =
      filter P (group_rows ?f ?srt d)" for P
  proof -
    have "filter (\<lambda>g. group_matches ?f g \<and> P g) (crash_group d) = filter P (filter (group_matches ?f) (crash_group d))"
      by (simp add: conj_commute)
    then show ?thesis
      using group_pages.order_filter [of ?srt "filter (group_matches ?f) (crash_group d)" P]
        distinct_map_filterI [OF group_keys_distinct [OF inv]]
      by (simp add: group_rows_def)
  qed
  have "list_groups d (p\<lparr>pr_cursor := None\<rparr>) = Inr (cut_page (nat (effective_limit p)) (\<lambda>g. cursor_after g ?srt)
      (map map_group (take (nat (effective_limit p) + 1) (group_rows ?f ?srt d))))"
    using sub [of "\<lambda>_. True"] f by (simp add: list_groups_def page_validate_def lim Let_def rb)
  moreover have "list_groups d (p\<lparr>pr_cursor := Some (cursor_after (map_group x) ?srt)\<rparr>) =
      Inr (cut_page (nat (effective_limit p)) (\<lambda>g. cursor_after g ?srt) (map map_group (take (nat (effective_limit p) + 1)
        (filter (\<lambda>a. comes_before ?srt (group_sort_key ?srt x) (group_sort_key ?srt a)) (group_rows ?f ?srt d)))))"
    if x: "x \<in> set (group_rows ?f ?srt d)" for x
  proof -
    have "x \<in> set (crash_group d)" using x by (auto simp: group_rows_def group_pages.set_order)
    then have c: "cursor_after (map_group x) ?srt = cursor_new ?srt (sort_value ?srt x) (g_group_id x)"
      using occ cursor_after_row by blast
    have pred: "cursor_predicate (cursor_after (map_group x) ?srt) ?srt =
        Inr (\<lambda>g. comes_before ?srt (group_sort_key ?srt x) (group_sort_key ?srt g))"
      unfolding c cursor_predicate_def validate_row_cursor by (simp add: cursor_new_def group_sort_key_def)
    show ?thesis
      using sub [of "\<lambda>g. comes_before ?srt (group_sort_key ?srt x) (group_sort_key ?srt g)"] f pred
      by (simp add: list_groups_def page_validate_def lim Let_def rb c)
  qed
  ultimately show ?thesis unfolding group_pages.serves_def by blast
qed

definition record_rows :: "string \<Rightarrow> Db \<Rightarrow> RecordRow list" where
  "record_rows gid d = order_by record_pages.row_before (filter (\<lambda>r. r_group_id r = gid) (crash_record d))"

lemma list_records_serves:
  assumes inv: "db_inv exact d"
  shows "record_pages.serves (nat (effective_limit p)) map_record record_after (record_rows gid d)
     (\<lambda>c. list_records d gid (p\<lparr>pr_cursor := c\<rparr>))"
proof -
  have lim: "effective_limit (p\<lparr>pr_cursor := c\<rparr>) = effective_limit p" for c by (simp add: effective_limit_def)
  have rb: "(\<lambda>a b. record_key b < record_key a) = record_pages.row_before"
    by (simp add: fun_eq_iff record_pages.row_before_def)
  have keys: "distinct (map record_key (filter Q (crash_record d)))" for Q
  proof -
    have "distinct (map snd (map record_key (crash_record d)))"
      using db_invD(2) [OF inv] by (simp add: record_key_def comp_def)
    then have "distinct (map record_key (crash_record d))" by (metis distinct_map)
    then show ?thesis by (rule distinct_map_filterI)
  qed
  have sub: "order_by record_pages.row_before (filter (\<lambda>r. r_group_id r = gid \<and> P r) (crash_record d)) =
      filter P (record_rows gid d)" for P
  proof -
    have "filter (\<lambda>r. r_group_id r = gid \<and> P r) (crash_record d) = filter P (filter (\<lambda>r. r_group_id r = gid) (crash_record d))"
      by (simp add: conj_commute)
    then show ?thesis using record_pages.order_filter [OF keys] by (simp add: record_rows_def)
  qed
  have after: "record_after (map_record x) = cursor_new LastSeenDesc (AInt (r_happened_at_ms x)) (r_id x)"
    if "x \<in> set (record_rows gid d)" for x
  proof -
    have "row_ok x" using that rows_okD(1) [OF db_invD(4) [OF inv]] by (auto simp: record_rows_def record_pages.set_order)
    then show ?thesis using map_record_id by (simp add: record_after_def) (simp add: map_record_def)
  qed
  show ?thesis
    unfolding record_pages.serves_def
    using sub [of "\<lambda>_. True"] sub
    by (simp add: list_records_def lim Let_def rb after validate_for_def cursor_new_def record_key_def [symmetric])
qed

section \<open>Search\<close>

lemma like_tokens_pattern: "like_tokens (like_pattern q) = None # map Some q @ [None]"
proof -
  have "like_tokens (concat (map (\<lambda>c. if c \<in> {CHR 0x5C, CHR ''%'', CHR ''_''} then [CHR 0x5C, c] else [c]) q) @ ''%'')
      = map Some q @ [None]"
    by (induction q) auto
  then show ?thesis by (simp add: like_pattern_def)
qed

lemma like_match_wild: "like_match (None # ts) s \<longleftrightarrow> (\<exists>pre suf. s = pre @ suf \<and> like_match ts suf)"
proof (induction s)
  case (Cons c s)
  have "(\<exists>pre suf. c # s = pre @ suf \<and> like_match ts suf) \<longleftrightarrow>
      like_match ts (c # s) \<or> (\<exists>pre suf. s = pre @ suf \<and> like_match ts suf)"
    by (auto simp: Cons_eq_append_conv)
  then show ?case using Cons by simp
qed simp

lemma like_match_literal:
  "like_match (map Some q @ [None]) s \<longleftrightarrow> (\<exists>mid suf. s = mid @ suf \<and> list_all2 same_ci q mid)"
proof (induction q arbitrary: s)
  case Nil then show ?case using like_match_wild [of "[]" s] by auto
next
  case (Cons t q)
  then show ?case by (cases s) (auto simp: list_all2_Cons1 Cons_eq_append_conv)
qed

section \<open>Properties\<close>

text \<open>a client that starts without a cursor and follows the cursors of \<^verbatim>\<open>list_groups\<close> gets, within as many
  requests as there are groups, every group that matches the filter exactly once, in the
  requested order (ties broken by group id), for every sort key and page size, and never an error.\<close>
theorem group_pages_complete:
  assumes "db_inv exact d" and "filter_validate (pr_filter p) = Inr ()" and "0 \<le> pr_limit p"
    and "length (crash_group d) < n"
  shows "\<exists>rows. walk_pages n (\<lambda>c. list_groups d (p\<lparr>pr_cursor := c\<rparr>)) None = Some (map map_group rows) \<and>
     mset rows = mset (filter (group_matches (pr_filter p)) (crash_group d)) \<and>
     sorted_wrt (\<lambda>a b. comes_before (pr_sort p) (group_sort_key (pr_sort p) a) (group_sort_key (pr_sort p) b)) rows"
proof -
  let ?rows = "group_rows (pr_filter p) (pr_sort p) d"
  have m: "mset ?rows = mset (filter (group_matches (pr_filter p)) (crash_group d))"
    by (simp add: group_rows_def group_pages.order_mset)
  have s: "sorted_wrt (group_pages.row_before (pr_sort p)) ?rows"
    unfolding group_rows_def
    by (rule group_pages.order_sorted) (rule distinct_map_filterI [OF group_keys_distinct [OF assms(1)]])
  have "length ?rows < n"
    using assms(4) mset_eq_length [OF m] length_filter_le [of "group_matches (pr_filter p)" "crash_group d"] by linarith
  then have "walk_pages n (\<lambda>c. list_groups d (p\<lparr>pr_cursor := c\<rparr>)) None = Some (map map_group ?rows)"
    by (rule group_pages.walk_complete [OF effective_limit_pos [OF assms(3)] s list_groups_serves [OF assms(1,2)]])
  then show ?thesis using m s unfolding group_pages.row_before_def [abs_def] by blast
qed

theorem group_pages_complete_witness:
  "\<exists>rows. walk_pages 2 (\<lambda>c. list_groups sample_db
       \<lparr>pr_filter = filter_default, pr_sort = PackageAsc, pr_cursor = c, pr_limit = 1\<rparr>) None = Some (map map_group rows) \<and>
     mset rows = {#sample_group#}"
proof -
  let ?p = "\<lparr>pr_filter = filter_default, pr_sort = PackageAsc, pr_cursor = None, pr_limit = 1\<rparr>"
  have "filter_validate (pr_filter ?p) = Inr ()" by (simp add: filter_validate_def filter_default_def)
  moreover have "length (crash_group sample_db) < 2" by (simp add: sample_db_def)
  moreover have "filter (group_matches filter_default) (crash_group sample_db) = [sample_group]"
    by (simp add: sample_db_def sample_group_def group_matches_def filter_default_def)
  ultimately show ?thesis using group_pages_complete [OF sample_db_inv, of ?p 2] by auto
qed

text \<open>C18: the same for the occurrences of one group: following the cursors of \<^verbatim>\<open>list_records\<close> yields every record of
  the group exactly once, newest first.\<close>
theorem record_pages_complete:
  assumes "db_inv exact d" and "0 \<le> pr_limit p" and "length (crash_record d) < n"
  shows "\<exists>rows. walk_pages n (\<lambda>c. list_records d gid (p\<lparr>pr_cursor := c\<rparr>)) None = Some (map map_record rows) \<and>
     mset rows = mset (filter (\<lambda>r. r_group_id r = gid) (crash_record d)) \<and>
     sorted_wrt (\<lambda>a b. record_key b < record_key a) rows"
proof -
  let ?rows = "record_rows gid d"
  have m: "mset ?rows = mset (filter (\<lambda>r. r_group_id r = gid) (crash_record d))"
    by (simp add: record_rows_def record_pages.order_mset)
  have "distinct (map snd (map record_key (crash_record d)))"
    using db_invD(2) [OF assms(1)] by (simp add: record_key_def comp_def)
  then have "distinct (map record_key (crash_record d))" by (metis distinct_map)
  then have s: "sorted_wrt record_pages.row_before ?rows"
    unfolding record_rows_def by (intro record_pages.order_sorted distinct_map_filterI)
  have "length ?rows < n"
    using assms(3) mset_eq_length [OF m] length_filter_le [of "\<lambda>r. r_group_id r = gid" "crash_record d"] by linarith
  then have "walk_pages n (\<lambda>c. list_records d gid (p\<lparr>pr_cursor := c\<rparr>)) None = Some (map map_record ?rows)"
    by (rule record_pages.walk_complete [OF effective_limit_pos [OF assms(2)] s list_records_serves [OF assms(1)]])
  then show ?thesis using m s unfolding record_pages.row_before_def [abs_def] by blast
qed

theorem record_pages_complete_witness:
  "\<exists>rows. walk_pages 3 (\<lambda>c. list_records sample_db ''g''
       \<lparr>pr_filter = filter_default, pr_sort = LastSeenDesc, pr_cursor = c, pr_limit = 1\<rparr>) None = Some (map map_record rows) \<and>
     mset rows = {#sample_row 1 1 4, sample_row 2 2 6#}"
proof -
  let ?p = "\<lparr>pr_filter = filter_default, pr_sort = LastSeenDesc, pr_cursor = None, pr_limit = 1\<rparr>"
  have "length (crash_record sample_db) < 3" by (simp add: sample_db_def)
  moreover have "filter (\<lambda>r. r_group_id r = ''g'') (crash_record sample_db) = [sample_row 1 1 4, sample_row 2 2 6]"
    by (simp add: sample_db_def sample_row_def)
  ultimately show ?thesis using record_pages_complete [OF sample_db_inv, of ?p 3 "''g''"] by auto
qed

text \<open>the search box matches substrings: the \<^verbatim>\<open>LIKE\<close> pattern built from a search text matches a column exactly when
  the column contains the text, ASCII letters compared without case; percent signs, underscores
  and backslashes in the text stand for themselves.\<close>
theorem search_is_substring:
  "sql_like (like_pattern q) column \<longleftrightarrow>
     (\<exists>pre mid post. column = pre @ mid @ post \<and> list_all2 (\<lambda>a b. ascii_lower a = ascii_lower b) q mid)"
proof -
  have "same_ci = (\<lambda>a b. ascii_lower a = ascii_lower b)" by (simp add: fun_eq_iff same_ci_def)
  then show ?thesis
    unfolding sql_like_def like_tokens_pattern like_match_wild like_match_literal by auto
qed

end
