(* ===== verification/Store_Stats.thy ===== *)
theory Store_Stats
  imports Store_Sweep
begin

text \<open>
  \<^verbatim>\<open>cch_store/src/read.rs\<close>: the aggregate queries behind the statistics page and the app list.

  \<^verbatim>\<open>GROUP BY\<close> is the sorted list of the distinct keys with their rows; where the query leaves the order of
  rows with equal counts open, the model keeps them in key order.
\<close>

section \<open>Grouping\<close>

definition group_counts :: "('r \<Rightarrow> 'k::linorder) \<Rightarrow> 'r list \<Rightarrow> ('k \<times> nat) list" where
  "group_counts key rows = map (\<lambda>k. (k, length (filter (\<lambda>r. key r = k) rows))) (sort (remdups (map key rows)))"

definition by_count_desc :: "('k \<times> nat) list \<Rightarrow> ('k \<times> nat) list" where
  "by_count_desc counts = sort_key (\<lambda>kc. - int (snd kc)) counts"

section \<open>Statistics\<close>

record KindCount =
  kc_kind :: CrashKind
  kc_count :: nat

record PackageCount =
  pkc_package_name :: string
  pkc_label :: "string option"
  pkc_count :: nat

record ExceptionCount =
  ec_class_name :: string
  ec_count :: nat

record TrendBucket =
  tb_from_ms :: int
  tb_count :: nat

record Stats =
  st_total :: nat
  st_by_kind :: "KindCount list"
  st_top_packages :: "PackageCount list"
  st_top_exceptions :: "ExceptionCount list"
  st_trend :: "TrendBucket list"
  st_crashed_app_count :: nat
  st_installed_app_count :: nat

definition DEFAULT_TREND_BUCKETS :: int where "DEFAULT_TREND_BUCKETS = 24"

definition in_window :: "int \<Rightarrow> int \<Rightarrow> RecordRow list \<Rightarrow> RecordRow list" where
  "in_window from_ms to_ms rows = filter (\<lambda>r. from_ms \<le> r_happened_at_ms r \<and> r_happened_at_ms r < to_ms) rows"

text \<open>\<^verbatim>\<open>crash_record JOIN crash_group\<close>: the groups of the records, one per record.\<close>

definition joined_groups :: "Db \<Rightarrow> RecordRow list \<Rightarrow> GroupRow list" where
  "joined_groups d rows = List.map_filter (\<lambda>r. find_group d (r_group_id r)) rows"

definition trend :: "Db \<Rightarrow> int \<Rightarrow> int \<Rightarrow> int \<Rightarrow> TrendBucket list" where
  "trend d from_ms to_ms bucket_ms =
     (let rows = in_window from_ms to_ms (crash_record d); times = map r_happened_at_ms rows
      in if rows = [] then []
         else
           (let start = Min (set times); finish = Max (set times);
                span = max (finish - start) 1;
                width = (if bucket_ms > 0 then bucket_ms else max (span div DEFAULT_TREND_BUCKETS) 1)
            in map (\<lambda>(index, count). \<lparr>tb_from_ms = start + index * width, tb_count = count\<rparr>)
                 (group_counts (\<lambda>r. (r_happened_at_ms r - start) div width) rows)))"

definition store_stats :: "Db \<Rightarrow> int option \<Rightarrow> int option \<Rightarrow> int \<Rightarrow> Stats" where
  "store_stats d time_from time_to bucket_ms =
     (let from_ms = unwrap_or time_from i64_min; to_ms = unwrap_or time_to i64_max;
          rows = in_window from_ms to_ms (crash_record d);
          groups = joined_groups d rows
      in \<lparr>st_total = length rows,
          st_by_kind = List.map_filter (\<lambda>(k, c). map_option (\<lambda>kd. \<lparr>kc_kind = kd, kc_count = c\<rparr>) (kind_from_i64 k))
                         (by_count_desc (group_counts g_kind groups)),
          st_top_packages = map (\<lambda>(p, c). \<lparr>pkc_package_name = p, pkc_label = None, pkc_count = c\<rparr>)
                              (take 10 (by_count_desc (group_counts g_package_name groups))),
          st_top_exceptions = map (\<lambda>(p, c). \<lparr>ec_class_name = p, ec_count = c\<rparr>)
                              (take 10 (by_count_desc (group_counts (\<lambda>g. unwrap_or (g_summary_class g) [])
                                 (filter (\<lambda>g. g_summary_class g \<noteq> None) groups)))),
          st_trend = trend d from_ms to_ms bucket_ms,
          st_crashed_app_count = length (remdups (map g_package_name groups)),
          st_installed_app_count = 0\<rparr>)"

section \<open>The app list\<close>

record PackageRollup =
  ru_package_name :: string
  ru_user_id :: int
  ru_is_system_app :: bool
  ru_package_installed :: bool
  ru_group_count :: nat
  ru_occurrence :: int
  ru_last_seen_ms :: int

definition rollup_of :: "GroupRow list \<Rightarrow> string \<times> int \<Rightarrow> PackageRollup" where
  "rollup_of rows pu =
     (let gs = filter (\<lambda>g. (g_package_name g, g_user_id g) = pu) rows
      in \<lparr>ru_package_name = fst pu, ru_user_id = snd pu,
          ru_is_system_app = list_ex g_is_system_app gs,
          ru_package_installed = list_all g_package_installed gs,
          ru_group_count = length gs,
          ru_occurrence = max 0 (sum_list (map g_occurrence gs)),
          ru_last_seen_ms = Max (set (map g_last_seen_ms gs))\<rparr>)"

definition package_rollups :: "Db \<Rightarrow> bool \<Rightarrow> bool \<Rightarrow> int \<Rightarrow> PackageRollup list" where
  "package_rollups d include_sys include_proc limit =
     (let effective = (if limit = 0 then MAX_PAGE_LIMIT else min limit MAX_PAGE_LIMIT);
          rows = filter (\<lambda>g. (include_sys \<or> \<not> (g_is_system_app g \<and> g_package_installed g)) \<and>
                             (include_proc \<or> g_package_installed g)) (crash_group d);
          keys = sort (remdups (map (\<lambda>g. (g_package_name g, g_user_id g)) rows))
      in take (nat effective) (sort_key (\<lambda>u. - ru_last_seen_ms u) (map (rollup_of rows) keys)))"


section \<open>Lemmas on grouping\<close>

lemma sum_group_counts: "sum_list (map snd (group_counts key rows)) = length rows"
proof -
  have c: "length (filter (\<lambda>r. key r = k) rows) = count_list (map key rows) k" for k
    by (induction rows) auto
  have "sum_list (map snd (group_counts key rows)) = (\<Sum>k \<in> set (map key rows). count_list (map key rows) k)"
    by (simp add: group_counts_def comp_def c sum_list_distinct_conv_sum_set distinct_sort)
  also have "\<dots> = length rows" by (subst sum_count_set) simp_all
  finally show ?thesis .
qed

lemma group_counts_pos: "kc \<in> set (group_counts key rows) \<Longrightarrow> 0 < snd kc"
  by (auto simp: group_counts_def filter_empty_conv)

lemma group_counts_keys: "map fst (group_counts key rows) = sort (remdups (map key rows))"
  by (simp add: group_counts_def comp_def)

lemma mset_by_count [simp]: "mset (by_count_desc kcs) = mset kcs"
  by (simp add: by_count_desc_def)

lemma set_by_count [simp]: "set (by_count_desc kcs) = set kcs"
  by (simp add: by_count_desc_def)

lemma sum_by_count: "sum_list (map f (by_count_desc kcs)) = sum_list (map f kcs)" for f :: "_ \<Rightarrow> nat"
  by (metis mset_by_count mset_map sum_mset_sum_list)

lemma by_count_sorted: "sorted_wrt (\<lambda>a b. snd b \<le> snd a) (by_count_desc kcs)"
  using sorted_sort_key [of "\<lambda>kc. - int (snd kc)" kcs]
  by (simp add: by_count_desc_def sorted_wrt_map)

lemma joined_length:
  assumes "rows_ok gs rs" and "gs = crash_group d" and "set rows \<subseteq> set rs"
  shows "length (joined_groups d rows) = length rows" and "set (joined_groups d rows) \<subseteq> set gs"
proof -
  have f: "\<exists>g. find_group d (r_group_id r) = Some g \<and> g \<in> set gs" if "r \<in> set rows" for r
  proof -
    have "\<exists>g \<in> set gs. g_group_id g = r_group_id r" using rows_okD(2) [OF assms(1)] assms(3) that by (auto simp: covers_def)
    then have "find_group d (r_group_id r) \<noteq> None" using assms(2) by (auto simp: find_group_def find_None_iff)
    then show ?thesis using assms(2) by (auto simp: find_group_def find_Some_iff)
  qed
  then show "length (joined_groups d rows) = length rows" "set (joined_groups d rows) \<subseteq> set gs"
    by (induction rows) (force simp: joined_groups_def map_filter_simps)+
qed

lemma sum_known_kinds:
  "list_all (\<lambda>kc. kind_from_i64 (fst kc) \<noteq> None) kcs \<Longrightarrow>
   sum_list (map kc_count (List.map_filter (\<lambda>(k, c). map_option (\<lambda>kd. \<lparr>kc_kind = kd, kc_count = c\<rparr>) (kind_from_i64 k)) kcs)) =
   sum_list (map snd kcs)"
  by (induction kcs) (auto simp: map_filter_simps)

section \<open>The trend\<close>

text \<open>The width the daemon chooses leaves at most twice the intended number of buckets.\<close>

lemma default_width:
  assumes "0 \<le> x" "x \<le> span"
  shows "x div max (span div 24) 1 < (48 :: int)"
proof (cases "span < 24")
  case True
  then show ?thesis using assms by (simp add: max_def)
next
  case False
  let ?w = "span div 24"
  have w: "1 \<le> ?w" "span < 24 * ?w + 24" using False by linarith+
  then have "x < 48 * ?w" using assms by linarith
  moreover have "x div ?w * ?w \<le> x" using div_mult_mod_eq [of x ?w] pos_mod_sign [of ?w x] w(1) by linarith
  ultimately have "x div ?w * ?w < 48 * ?w" by linarith
  then have "x div ?w < 48" using w(1) by (simp add: mult_less_cancel_right)
  then show ?thesis using w(1) by (simp add: max_def)
qed

lemma trend_shape:
  assumes "rows = in_window from_ms to_ms (crash_record d)" and "rows \<noteq> []"
  obtains start width where "\<forall>r \<in> set rows. start \<le> r_happened_at_ms r" "0 < width"
    "bucket_ms > 0 \<longrightarrow> width = bucket_ms"
    "bucket_ms \<le> 0 \<longrightarrow> (\<forall>r \<in> set rows. (r_happened_at_ms r - start) div width < 48)"
    "trend d from_ms to_ms bucket_ms = map (\<lambda>(index, count). \<lparr>tb_from_ms = start + index * width, tb_count = count\<rparr>)
       (group_counts (\<lambda>r. (r_happened_at_ms r - start) div width) rows)"
proof -
  let ?ts = "set (map r_happened_at_ms rows)"
  define start where "start = Min ?ts"
  define span where "span = max (Max ?ts - start) 1"
  define width where "width = (if bucket_ms > 0 then bucket_ms else max (span div 24) 1)"
  have b: "start \<le> r_happened_at_ms r \<and> r_happened_at_ms r - start \<le> span" if "r \<in> set rows" for r
  proof -
    have "r_happened_at_ms r \<le> Max ?ts" "start \<le> r_happened_at_ms r" using that by (auto simp: start_def)
    then show ?thesis by (simp add: span_def)
  qed
  have "trend d from_ms to_ms bucket_ms = map (\<lambda>(index, count). \<lparr>tb_from_ms = start + index * width, tb_count = count\<rparr>)
       (group_counts (\<lambda>r. (r_happened_at_ms r - start) div width) rows)"
    using assms(2) by (simp add: trend_def Let_def assms(1) [symmetric] start_def span_def width_def DEFAULT_TREND_BUCKETS_def)
  moreover have "0 < width" by (simp add: width_def less_max_iff_disj)
  moreover have "bucket_ms \<le> 0 \<longrightarrow> (\<forall>r \<in> set rows. (r_happened_at_ms r - start) div width < 48)"
    using b by (simp add: width_def default_width)
  ultimately show ?thesis using that [of start width] b by (simp add: width_def)
qed


lemma trend_facts:
  assumes "\<forall>r \<in> set rows. start \<le> r_happened_at_ms r" and "0 < width"
    and "tr = map (\<lambda>(index, count). \<lparr>tb_from_ms = start + index * width, tb_count = count\<rparr>)
         (group_counts (\<lambda>r. (r_happened_at_ms r - start) div width) rows)"
  shows "sum_list (map tb_count tr) = length rows" "sorted_wrt (\<lambda>a b. tb_from_ms a < tb_from_ms b) tr"
    "list_all (\<lambda>b. 0 < tb_count b) tr"
    "\<forall>r \<in> set rows. (r_happened_at_ms r - start) div width < 48 \<Longrightarrow> length tr \<le> 48"
proof -
  let ?key = "\<lambda>r. (r_happened_at_ms r - start) div width"
  let ?ks = "sort (remdups (map ?key rows))"
  show "sum_list (map tb_count tr) = length rows"
    using sum_group_counts [of ?key rows] by (simp add: assms(3) comp_def case_prod_beta)
  show "list_all (\<lambda>b. 0 < tb_count b) tr"
    using group_counts_pos [of _ ?key rows] by (auto simp: assms(3) list_all_iff)
  have "sorted_wrt (<) ?ks" by (simp add: strict_sorted_iff distinct_sort)
  then have "sorted_wrt (\<lambda>a b. fst a < fst b) (group_counts ?key rows)"
    unfolding group_counts_keys [symmetric] sorted_wrt_map .
  then show "sorted_wrt (\<lambda>a b. tb_from_ms a < tb_from_ms b) tr"
    using assms(2) by (simp add: assms(3) sorted_wrt_map case_prod_beta)
  assume small: "\<forall>r \<in> set rows. ?key r < 48"
  have "set ?ks \<subseteq> {0..<48}" using small assms(1,2) by (auto simp: pos_imp_zdiv_nonneg_iff)
  then have "card (set ?ks) \<le> 48" using card_mono [of "{0..<48 :: int}" "set ?ks"] by simp
  then show "length tr \<le> 48"
    using distinct_card [of ?ks] by (simp add: assms(3) group_counts_def distinct_sort)
qed

section \<open>Properties\<close>

text \<open>the statistics account for every record of the window: the counts per kind and the buckets of the trend both add
  up to the total; the trend is in time order without empty buckets, and at most 48 buckets long when the
  daemon chooses the width; the package ranking has at most ten entries, most crashes first.\<close>
theorem stats_account_for_window:
  assumes "db_inv exact d" and "list_all (\<lambda>g. kind_from_i64 (g_kind g) \<noteq> None) (crash_group d)"
  shows "let s = store_stats d time_from time_to bucket_ms in
    st_total s = length (in_window (unwrap_or time_from i64_min) (unwrap_or time_to i64_max) (crash_record d)) \<and>
    sum_list (map kc_count (st_by_kind s)) = st_total s \<and>
    sum_list (map tb_count (st_trend s)) = st_total s \<and>
    sorted_wrt (\<lambda>a b. tb_from_ms a < tb_from_ms b) (st_trend s) \<and> list_all (\<lambda>b. 0 < tb_count b) (st_trend s) \<and>
    (bucket_ms > 0 \<or> length (st_trend s) \<le> 48) \<and>
    length (st_top_packages s) \<le> 10 \<and> sorted_wrt (\<lambda>a b. pkc_count b \<le> pkc_count a) (st_top_packages s)"
proof -
  let ?rows = "in_window (unwrap_or time_from i64_min) (unwrap_or time_to i64_max) (crash_record d)"
  let ?s = "store_stats d time_from time_to bucket_ms" and ?gs = "joined_groups d ?rows"
  have j: "length ?gs = length ?rows" "set ?gs \<subseteq> set (crash_group d)"
    using joined_length [OF db_invD(4) [OF assms(1)] refl] by (auto simp: in_window_def)
  have "list_all (\<lambda>kc. kind_from_i64 (fst kc) \<noteq> None) (by_count_desc (group_counts g_kind ?gs))"
    using assms(2) j(2) by (auto simp: list_all_iff group_counts_def)
  then have k: "sum_list (map kc_count (st_by_kind ?s)) = st_total ?s"
    by (simp add: store_stats_def Let_def sum_known_kinds sum_by_count sum_group_counts j(1))
  have t: "sum_list (map tb_count (st_trend ?s)) = st_total ?s \<and>
      sorted_wrt (\<lambda>a b. tb_from_ms a < tb_from_ms b) (st_trend ?s) \<and> list_all (\<lambda>b. 0 < tb_count b) (st_trend ?s) \<and>
      (bucket_ms > 0 \<or> length (st_trend ?s) \<le> 48)"
  proof (cases "?rows = []")
    case True
    then show ?thesis by (simp add: store_stats_def Let_def trend_def)
  next
    case False
    obtain start width where w: "\<forall>r \<in> set ?rows. start \<le> r_happened_at_ms r" "0 < width"
      "bucket_ms \<le> 0 \<longrightarrow> (\<forall>r \<in> set ?rows. (r_happened_at_ms r - start) div width < 48)"
      "st_trend ?s = map (\<lambda>(index, count). \<lparr>tb_from_ms = start + index * width, tb_count = count\<rparr>)
         (group_counts (\<lambda>r. (r_happened_at_ms r - start) div width) ?rows)"
      by (rule trend_shape [OF refl False, of bucket_ms]) (simp add: store_stats_def Let_def)
    show ?thesis using trend_facts [OF w(1,2,4)] w(3) by (auto simp: store_stats_def Let_def)
  qed
  have "sorted_wrt (\<lambda>a b. pkc_count b \<le> pkc_count a) (st_top_packages ?s)"
    using sorted_wrt_take [OF by_count_sorted, of 10 "group_counts g_package_name ?gs"]
    by (simp add: store_stats_def Let_def sorted_wrt_map case_prod_beta)
  then show ?thesis using k t by (simp add: store_stats_def Let_def)
qed


theorem stats_account_for_window_witness:
  "sum_list (map tb_count (st_trend (store_stats sample_db None None 0))) = 2 \<and>
   length (st_trend (store_stats sample_db None None 0)) \<le> 48"
proof -
  have "list_all (\<lambda>g. kind_from_i64 (g_kind g) \<noteq> None) (crash_group sample_db)"
    by (simp add: sample_db_def sample_group_def kind_from_i64_def)
  moreover have "length (in_window i64_min i64_max (crash_record sample_db)) = 2"
    by (simp add: in_window_def sample_db_def sample_row_def i64_min_def i64_max_def)
  ultimately show ?thesis
    using stats_account_for_window [OF sample_db_inv, of None None 0] by (simp add: Let_def)
qed

end
