(* ===== verification/Packages.thy ===== *)
theory Packages
  imports Prelude
begin

text \<open>
  \<^verbatim>\<open>cch_packages\<close> and \<^verbatim>\<open>cch_daemond/src/packages.rs\<close>: the package index.  The UID list
  (\<^verbatim>\<open>packages.list\<close>) is parsed line by line and joined with the APK paths and the system flags that
  PackageManager reports; the files and command outputs are arguments.  A \<^verbatim>\<open>PathBuf\<close> is its text.
  The map of code paths \<^verbatim>\<open>build\<close> takes may also come from the textual \<^verbatim>\<open>packages.xml\<close>, see \<open>Package_Xml\<close>.
\<close>

section \<open>Texts and paths\<close>

definition is_ascii_ws :: "char \<Rightarrow> bool" where
  "is_ascii_ws c \<longleftrightarrow> c \<in> {CHR 0x09, CHR 0x0A, CHR 0x0C, CHR 0x0D, CHR 0x20}"

fun ascii_words :: "string \<Rightarrow> string \<Rightarrow> string list" where
  "ascii_words acc [] = (if acc = [] then [] else [rev acc])"
| "ascii_words acc (c # cs) =
     (if is_ascii_ws c then (if acc = [] then [] else [rev acc]) @ ascii_words [] cs
      else ascii_words (c # acc) cs)"

definition split_ascii_whitespace :: "string \<Rightarrow> string list" where
  "split_ascii_whitespace s = ascii_words [] s"

definition is_ascii_alphanumeric :: "char \<Rightarrow> bool" where
  "is_ascii_alphanumeric c \<longleftrightarrow>
     in_range 48 (of_char c) 57 \<or> in_range 65 (of_char c) 90 \<or> in_range 97 (of_char c) 122"

text \<open>\<^verbatim>\<open>Path::file_name\<close> and \<^verbatim>\<open>Path::extension\<close> on Unix paths.\<close>

definition last_component :: "string \<Rightarrow> string option" where
  "last_component p =
     (case filter (\<lambda>c. c \<noteq> [] \<and> c \<noteq> ''.'') (split_on CHR ''/'' p) of
        [] \<Rightarrow> None
      | cs \<Rightarrow> if last cs = ''..'' then None else Some (last cs))"

definition path_extension :: "string \<Rightarrow> string option" where
  "path_extension p =
     (case last_component p of None \<Rightarrow> None
      | Some name \<Rightarrow>
          (case rsplit_once CHR ''.'' name of
             None \<Rightarrow> None
           | Some (stem, ext) \<Rightarrow> if stem = [] then None else Some ext))"

definition trim_end_slashes :: "string \<Rightarrow> string" where
  "trim_end_slashes s = rev (dropWhile (\<lambda>c. c = CHR ''/'') (rev s))"

definition android_path_is_absolute :: "string \<Rightarrow> bool" where
  "android_path_is_absolute p \<longleftrightarrow> prefix ''/'' p"

definition code_path_is_under_data_app :: "string \<Rightarrow> bool" where
  "code_path_is_under_data_app p \<longleftrightarrow> prefix ''/data/app/'' p"

definition looks_like_system_path :: "string option \<Rightarrow> bool" where
  "looks_like_system_path path =
     (case path of None \<Rightarrow> False
      | Some p \<Rightarrow>
          list_ex (\<lambda>pre. prefix pre p)
            [''/system/'', ''/system_ext/'', ''/product/'', ''/vendor/'', ''/odm/'', ''/oem/'', ''/apex/''])"

definition is_safe_package_name :: "string \<Rightarrow> bool" where
  "is_safe_package_name name \<longleftrightarrow> name \<noteq> [] \<and> length name \<le> 255 \<and>
     list_all (\<lambda>b. is_ascii_alphanumeric b \<or> b \<in> {CHR ''.'', CHR ''_''}) name"

definition is_safe_settings_key :: "string \<Rightarrow> bool" where
  "is_safe_settings_key name \<longleftrightarrow> name \<noteq> [] \<and> length name \<le> 255 \<and> \<not> contains_str ''..'' name \<and>
     list_all (\<lambda>b. is_ascii_alphanumeric b \<or>
       b \<in> {CHR ''.'', CHR ''_'', CHR '':'', CHR ''/'', CHR ''@'', CHR ''+'', CHR ''-''}) name"

section \<open>Entries\<close>

definition ANDROID_UID_USER_RANGE :: int where "ANDROID_UID_USER_RANGE = 100000"

record PackageEntry =
  pe_name :: string
  pe_uid :: int
  pe_debuggable :: bool
  pe_data_dir :: string
  pe_seinfo :: string
  pe_gids :: "int list"
  pe_profileable_from_shell :: "bool option"
  pe_version_code :: "int option"
  pe_code_path :: "string option"
  pe_is_system :: bool

definition pe_user_id :: "PackageEntry \<Rightarrow> int" where
  "pe_user_id e = pe_uid e div ANDROID_UID_USER_RANGE"

definition pe_app_id :: "PackageEntry \<Rightarrow> int" where
  "pe_app_id e = pe_uid e mod ANDROID_UID_USER_RANGE"

definition base_apk_path :: "PackageEntry \<Rightarrow> string option" where
  "base_apk_path e =
     (case pe_code_path e of None \<Rightarrow> None
      | Some p \<Rightarrow> if path_extension p = Some ''apk'' then Some p
                  else Some (trim_end_slashes p @ ''/base.apk''))"

datatype PackageError = TooFewFields nat | InvalidField nat string | InvalidXml string

definition pkg_field :: "(string \<Rightarrow> 'a option) \<Rightarrow> string \<Rightarrow> nat \<Rightarrow> string \<Rightarrow> PackageError + 'a" where
  "pkg_field parser v line name =
     (case parser v of None \<Rightarrow> Inl (InvalidField line name) | Some x \<Rightarrow> Inr x)"

definition pkg_flag :: "string \<Rightarrow> nat \<Rightarrow> string \<Rightarrow> PackageError + bool" where
  "pkg_flag v line name =
     (if v = ''0'' then Inr False else if v = ''1'' then Inr True else Inl (InvalidField line name))"

text \<open>\<^verbatim>\<open>collect::<Result<_, _>>\<close>, \<^verbatim>\<open>transpose\<close> and the \<^verbatim>\<open>?\<close> operator.\<close>

fun collect_results :: "('a \<Rightarrow> 'e + 'b) \<Rightarrow> 'a list \<Rightarrow> 'e + 'b list" where
  "collect_results f [] = Inr []"
| "collect_results f (x # xs) =
     (case f x of Inl e \<Rightarrow> Inl e
      | Inr y \<Rightarrow> (case collect_results f xs of Inl e \<Rightarrow> Inl e | Inr ys \<Rightarrow> Inr (y # ys)))"

definition bind_result :: "'e + 'a \<Rightarrow> ('a \<Rightarrow> 'e + 'b) \<Rightarrow> 'e + 'b" where
  "bind_result r f = (case r of Inl e \<Rightarrow> Inl e | Inr x \<Rightarrow> f x)"

lemma bind_result_Inr: "bind_result r f = Inr y \<longleftrightarrow> (\<exists>x. r = Inr x \<and> f x = Inr y)"
  by (cases r) (simp_all add: bind_result_def)

lemma bind_result_InrE: "bind_result r f = Inr y \<Longrightarrow> (\<And>x. r = Inr x \<Longrightarrow> f x = Inr y \<Longrightarrow> P) \<Longrightarrow> P"
  by (cases r) (auto simp: bind_result_def)

lemma collect_results_Inr:
  "collect_results f xs = Inr ys \<longleftrightarrow> list_all2 (\<lambda>x y. f x = Inr y) xs ys"
proof (induction xs arbitrary: ys)
  case (Cons x xs)
  show ?case
  proof (cases "f x")
    case (Inr y)
    then show ?thesis
      by (cases "collect_results f xs") (auto simp: list_all2_Cons1 simp flip: Cons.IH)
  qed (auto simp: list_all2_Cons1)
qed auto

definition optional_field :: "(string \<Rightarrow> 'e + 'a) \<Rightarrow> string list \<Rightarrow> nat \<Rightarrow> 'e + 'a option" where
  "optional_field read f i =
     (if i < length f then bind_result (read (f ! i)) (\<lambda>x. Inr (Some x)) else Inr None)"

definition parse_line :: "string \<Rightarrow> nat \<Rightarrow> PackageError + PackageEntry" where
  "parse_line line n =
     (let f = split_ascii_whitespace line
      in if length f < 6 then Inl (TooFewFields n)
         else if f ! 0 = [] \<or> CHR ''/'' \<in> set (f ! 0) then Inl (InvalidField n ''package name'')
         else
           bind_result (if f ! 5 = ''none'' then Inr []
                        else collect_results (\<lambda>v. pkg_field (parse_unsigned is_u32) v n ''gids'')
                               (split_on CHR '','' (f ! 5))) (\<lambda>gids.
           bind_result (pkg_field (parse_unsigned is_u32) (f ! 1) n ''uid'') (\<lambda>uid.
           bind_result (pkg_flag (f ! 2) n ''debuggable'') (\<lambda>dbg.
           bind_result (optional_field (\<lambda>v. pkg_flag v n ''profileable_from_shell'') f 6) (\<lambda>prof.
           bind_result (optional_field (\<lambda>v. pkg_field (parse_signed is_i64) v n ''version_code'') f 7) (\<lambda>vc.
             Inr \<lparr>pe_name = f ! 0, pe_uid = uid, pe_debuggable = dbg, pe_data_dir = f ! 3,
                  pe_seinfo = f ! 4, pe_gids = gids, pe_profileable_from_shell = prof,
                  pe_version_code = vc, pe_code_path = None, pe_is_system = False\<rparr>))))))"

section \<open>The index\<close>

record PackageIndex =
  ix_entries :: "PackageEntry list"
  ix_by_uid :: "int \<rightharpoonup> nat list"
  ix_by_name :: "string \<rightharpoonup> nat"
  ix_system_flags_known :: bool

definition empty_index :: PackageIndex where
  "empty_index = \<lparr>ix_entries = [], ix_by_uid = Map.empty, ix_by_name = Map.empty, ix_system_flags_known = False\<rparr>"

text \<open>The entries of the lines numbered from \<^term>\<open>n\<close>; the first bad line fails the whole index.\<close>

definition join_entry :: "(string \<rightharpoonup> string) \<Rightarrow> string set \<Rightarrow> PackageEntry \<Rightarrow> PackageEntry" where
  "join_entry code_paths system_packages e =
     (let path = code_paths (pe_name e)
      in e\<lparr>pe_code_path := path,
           pe_is_system := (if system_packages = {} then looks_like_system_path path
                            else pe_name e \<in> system_packages)\<rparr>)"

fun build_entries ::
  "(string \<rightharpoonup> string) \<Rightarrow> string set \<Rightarrow> nat \<Rightarrow> string list \<Rightarrow> PackageError + PackageEntry list" where
  "build_entries code_paths system_packages n [] = Inr []"
| "build_entries code_paths system_packages n (raw # rest) =
     (let line = trim raw
      in if line = [] then build_entries code_paths system_packages (Suc n) rest
         else bind_result (parse_line line n) (\<lambda>e.
              bind_result (build_entries code_paths system_packages (Suc n) rest) (\<lambda>es.
                Inr (join_entry code_paths system_packages e # es))))"

definition index_entry :: "PackageEntry \<times> nat \<Rightarrow> PackageIndex \<Rightarrow> PackageIndex" where
  "index_entry ei ix =
     (case ei of (e, i) \<Rightarrow>
        ix\<lparr>ix_by_uid := (ix_by_uid ix)(pe_uid e \<mapsto> unwrap_or (ix_by_uid ix (pe_uid e)) [] @ [i]),
           ix_by_name := (ix_by_name ix)(pe_name e \<mapsto> i)\<rparr>)"

definition build :: "string \<Rightarrow> (string \<rightharpoonup> string) \<Rightarrow> string set \<Rightarrow> PackageError + PackageIndex" where
  "build list_text code_paths system_packages =
     bind_result (build_entries code_paths system_packages 1 (lines list_text)) (\<lambda>entries.
       Inr (fold index_entry (zip entries [0..<length entries])
              \<lparr>ix_entries = entries, ix_by_uid = Map.empty, ix_by_name = Map.empty,
               ix_system_flags_known = (system_packages \<noteq> {})\<rparr>))"

definition entry_at :: "PackageIndex \<Rightarrow> nat \<Rightarrow> PackageEntry option" where
  "entry_at ix i = (if i < length (ix_entries ix) then Some (ix_entries ix ! i) else None)"

definition by_uid :: "PackageIndex \<Rightarrow> int \<Rightarrow> PackageEntry list" where
  "by_uid ix uid = List.map_filter (entry_at ix) (unwrap_or (ix_by_uid ix uid) [])"

definition by_name :: "PackageIndex \<Rightarrow> string \<Rightarrow> PackageEntry option" where
  "by_name ix name = Option.bind (ix_by_name ix name) (entry_at ix)"

definition index_is_empty :: "PackageIndex \<Rightarrow> bool" where
  "index_is_empty ix \<longleftrightarrow> ix_entries ix = []"

definition inherit_system_flags :: "PackageIndex \<Rightarrow> PackageIndex \<Rightarrow> PackageIndex" where
  "inherit_system_flags ix previous =
     (if ix_system_flags_known ix \<or> \<not> ix_system_flags_known previous then ix
      else ix\<lparr>ix_entries :=
                 map (\<lambda>e. case by_name previous (pe_name e) of
                            Some known \<Rightarrow> e\<lparr>pe_is_system := pe_is_system known\<rparr>
                          | None \<Rightarrow> e) (ix_entries ix),
               ix_system_flags_known := True\<rparr>)"

section \<open>The output of PackageManager\<close>

definition pm_line :: "string \<Rightarrow> (string \<times> string) option" where
  "pm_line line =
     (case strip_prefix ''package:'' (trim line) of None \<Rightarrow> None
      | Some body \<Rightarrow>
          (case rsplit_once CHR ''='' body of None \<Rightarrow> None
           | Some (path, name) \<Rightarrow>
               if is_safe_package_name name \<and> android_path_is_absolute path then Some (name, path) else None))"

definition parse_pm_code_paths :: "string \<Rightarrow> string \<rightharpoonup> string" where
  "parse_pm_code_paths output =
     fold (\<lambda>(name, path) m. m(name \<mapsto> path)) (List.map_filter pm_line (lines output)) Map.empty"

text \<open>\<^verbatim>\<open>packages.rs\<close>: each command gives its output, or nothing when it could not be run, failed or was
  not UTF-8.\<close>

definition read_system_packages :: "string option \<Rightarrow> string set" where
  "read_system_packages output =
     (case output of None \<Rightarrow> {}
      | Some text \<Rightarrow>
          set (filter (\<lambda>name. name \<noteq> [])
                 (List.map_filter (\<lambda>line. strip_prefix ''package:'' (trim line)) (lines text))))"

definition read_code_paths :: "string option \<Rightarrow> string \<rightharpoonup> string" where
  "read_code_paths output = (case output of None \<Rightarrow> Map.empty | Some text \<Rightarrow> parse_pm_code_paths text)"

datatype PackageIndexError = ListError | ParseError PackageError

record PackageSources =
  ps_list :: "string option"
  ps_pm_paths :: "string option"
  ps_pm_system :: "string option"

definition load_package_index :: "PackageSources \<Rightarrow> PackageIndexError + PackageIndex" where
  "load_package_index ps =
     (case ps_list ps of None \<Rightarrow> Inl ListError
      | Some list_text \<Rightarrow>
          (case build list_text (read_code_paths (ps_pm_paths ps)) (read_system_packages (ps_pm_system ps)) of
             Inl e \<Rightarrow> Inl (ParseError e) | Inr ix \<Rightarrow> Inr ix))"


section \<open>The index is its entry list\<close>

text \<open>What a client may rely on: both lookups are searches of the entry list; of two entries with one
  name the later one is found.\<close>

locale package_lookup =
  fixes entries :: "'ix \<Rightarrow> PackageEntry list"
    and uid_lookup :: "'ix \<Rightarrow> int \<Rightarrow> PackageEntry list"
    and name_lookup :: "'ix \<Rightarrow> string \<Rightarrow> PackageEntry option"
    and ok :: "'ix \<Rightarrow> bool"
  assumes uid_exact: "ok ix \<Longrightarrow> uid_lookup ix u = filter (\<lambda>e. pe_uid e = u) (entries ix)"
    and name_exact: "ok ix \<Longrightarrow> name_lookup ix n = find (\<lambda>e. pe_name e = n) (rev (entries ix))"
begin

lemma name_found: "ok ix \<Longrightarrow> name_lookup ix n = Some e \<Longrightarrow> e \<in> set (entries ix) \<and> pe_name e = n"
  by (auto simp: name_exact find_Some_iff in_set_conv_nth rev_nth)
    (metis diff_Suc_less length_greater_0_conv list.size(3) not_less_zero)

lemma name_missing: "ok ix \<Longrightarrow> name_lookup ix n = None \<longleftrightarrow> n \<notin> pe_name ` set (entries ix)"
  by (auto simp: name_exact find_None_iff)

lemma uid_found: "ok ix \<Longrightarrow> e \<in> set (uid_lookup ix u) \<longleftrightarrow> e \<in> set (entries ix) \<and> pe_uid e = u"
  by (auto simp: uid_exact)

end

definition uid_rows :: "PackageEntry list \<Rightarrow> int \<Rightarrow> nat list" where
  "uid_rows es u = filter (\<lambda>i. pe_uid (es ! i) = u) [0..<length es]"

definition name_row :: "PackageEntry list \<Rightarrow> string \<Rightarrow> nat option" where
  "name_row es n = find (\<lambda>i. pe_name (es ! i) = n) (rev [0..<length es])"

definition index_ok :: "PackageIndex \<Rightarrow> bool" where
  "index_ok ix \<longleftrightarrow> (\<forall>u. unwrap_or (ix_by_uid ix u) [] = uid_rows (ix_entries ix) u) \<and>
     ix_by_name ix = name_row (ix_entries ix)"

lemma rows_snoc:
  "uid_rows (es @ [e]) u = uid_rows es u @ (if pe_uid e = u then [length es] else [])"
  "name_row (es @ [e]) n = (if pe_name e = n then Some (length es) else name_row es n)"
proof -
  have "filter (\<lambda>i. pe_uid ((es @ [e]) ! i) = u) [0..<length es] = uid_rows es u"
    unfolding uid_rows_def by (rule filter_cong) (simp_all add: nth_append)
  then show "uid_rows (es @ [e]) u = uid_rows es u @ (if pe_uid e = u then [length es] else [])"
    by (simp add: uid_rows_def)
  have "find (\<lambda>i. pe_name ((es @ [e]) ! i) = n) (rev [0..<length es]) = name_row es n"
    unfolding name_row_def by (rule find_cong) (simp_all add: nth_append)
  then show "name_row (es @ [e]) n = (if pe_name e = n then Some (length es) else name_row es n)"
    by (simp add: name_row_def)
qed

lemma index_fold:
  assumes "ix_by_uid ix = Map.empty" "ix_by_name ix = Map.empty"
  defines "r \<equiv> \<lambda>es. fold index_entry (zip es [0..<length es]) ix"
  shows "ix_entries (r es) = ix_entries ix" "ix_system_flags_known (r es) = ix_system_flags_known ix"
    "unwrap_or (ix_by_uid (r es) u) [] = uid_rows es u" "ix_by_name (r es) n = name_row es n"
proof (induction es arbitrary: u n rule: rev_induct)
  case Nil
  { case 1 show ?case by (simp add: r_def) next case 2 show ?case by (simp add: r_def)
  next case 3 show ?case by (simp add: r_def uid_rows_def assms)
  next case 4 show ?case by (simp add: r_def name_row_def assms) }
next
  case (snoc e es)
  have r: "r (es @ [e]) = index_entry (e, length es) (r es)" by (simp add: r_def)
  { case 1 show ?case using snoc by (simp add: r index_entry_def)
  next case 2 show ?case using snoc by (simp add: r index_entry_def)
  next case 3 show ?case using snoc(3) by (simp add: r index_entry_def rows_snoc)
  next case 4 show ?case using snoc(4) by (simp add: r index_entry_def rows_snoc) }
qed

lemma map_filter_nth:
  "List.map_filter (\<lambda>i. if i < length es then Some (es ! i) else None) (uid_rows es u) = filter (\<lambda>e. pe_uid e = u) es"
proof -
  have "List.map_filter (\<lambda>i. if i < length es then Some (es ! i) else None) (uid_rows es u) = map ((!) es) (uid_rows es u)"
    unfolding List.map_filter_def by (subst filter_True) (auto simp: uid_rows_def)
  also have "\<dots> = filter (\<lambda>e. pe_uid e = u) (map ((!) es) [0..<length es])"
    by (simp add: uid_rows_def filter_map comp_def)
  finally show ?thesis by (simp add: map_nth)
qed

lemma name_row_nth: "Option.bind (name_row es n) (\<lambda>i. if i < length es then Some (es ! i) else None) = find (\<lambda>e. pe_name e = n) (rev es)"
proof (induction es rule: rev_induct)
  case Nil then show ?case by (simp add: name_row_def)
next
  case (snoc e es)
  have "i < length es" if "name_row es n = Some i" for i
    using that by (auto simp: name_row_def find_Some_iff rev_nth)
  then show ?case using snoc by (cases "name_row es n") (auto simp: rows_snoc nth_append)
qed

interpretation lookup: package_lookup ix_entries by_uid by_name index_ok
proof (standard, goal_cases)
  case (1 ix u)
  then show ?case using map_filter_nth [of "ix_entries ix" u] by (simp add: by_uid_def index_ok_def entry_at_def [abs_def])
next
  case (2 ix n)
  then show ?case using name_row_nth [of "ix_entries ix" n] by (simp add: by_name_def index_ok_def entry_at_def [abs_def])
qed

lemma build_index_ok: "build t cp sp = Inr ix \<Longrightarrow> index_ok ix"
  by (auto simp: build_def bind_result_def index_ok_def index_fold split: sum.splits)

lemma build_flags: "build t cp sp = Inr ix \<Longrightarrow> ix_system_flags_known ix \<longleftrightarrow> sp \<noteq> {}"
  by (auto simp: build_def bind_result_def index_fold split: sum.splits)

lemma build_entries_of: "build t cp sp = Inr ix \<Longrightarrow> build_entries cp sp 1 (lines t) = Inr (ix_entries ix)"
  by (auto simp: build_def bind_result_def index_fold split: sum.splits)

lemma load_index_ok: "load_package_index ps = Inr ix \<Longrightarrow> index_ok ix"
  by (auto simp: load_package_index_def dest: build_index_ok split: option.splits sum.splits)

lemma inherit_index_ok: "index_ok ix \<Longrightarrow> index_ok (inherit_system_flags ix prev)"
proof -
  assume ok: "index_ok ix"
  define f :: "PackageEntry \<Rightarrow> PackageEntry" where "f = (\<lambda>e. case by_name prev (pe_name e) of
      Some known \<Rightarrow> e\<lparr>pe_is_system := pe_is_system known\<rparr> | None \<Rightarrow> e)"
  have f: "pe_uid (f e) = pe_uid e" "pe_name (f e) = pe_name e" for e by (simp_all add: f_def split: option.split)
  have "uid_rows (map f es) = uid_rows es" "name_row (map f es) = name_row es" for es
    by (auto simp: fun_eq_iff uid_rows_def name_row_def f intro!: filter_cong find_cong)
  then show ?thesis using ok unfolding inherit_system_flags_def f_def [symmetric] by (simp add: index_ok_def)
qed


text \<open>Lines a program prints one by one are read back one by one.\<close>

lemma lines_printed:
  assumes "list_all (\<lambda>l. CHR 0x0A \<notin> set l \<and> (l = [] \<or> last l \<noteq> CHR 0x0D)) ls"
  shows "lines (concat (map (\<lambda>l. l @ [CHR 0x0A]) ls)) = ls"
proof -
  have "split_on CHR 0x0A (concat (map (\<lambda>l. l @ [CHR 0x0A]) ls)) = ls @ [[]]"
    using assms by (induction ls) (simp_all add: split_on_append)
  moreover have "map strip_cr ls = ls" using assms by (induction ls) (auto simp: strip_cr_def)
  ultimately show ?thesis by (simp add: lines_def)
qed

definition pm_print :: "string \<times> string \<Rightarrow> string" where
  "pm_print np = ''package:'' @ snd np @ ''='' @ fst np"

lemma safe_name_chars:
  assumes "is_safe_package_name n"
  shows "CHR ''='' \<notin> set n" "CHR 0x0A \<notin> set n" "graph_char (last n)" "last n \<noteq> CHR 0x0D" "n \<noteq> []"
proof -
  have n: "n \<noteq> []" and ok: "\<And>c. c \<in> set n \<Longrightarrow> is_ascii_alphanumeric c \<or> c \<in> {CHR ''.'', CHR ''_''}"
    using assms by (auto simp: is_safe_package_name_def list_all_iff)
  then have "is_ascii_alphanumeric (last n) \<or> last n \<in> {CHR ''.'', CHR ''_''}" by simp
  then show "graph_char (last n)" "last n \<noteq> CHR 0x0D"
    by (auto simp: graph_char_def is_ascii_alphanumeric_def in_range_def)
  show "CHR ''='' \<notin> set n" "CHR 0x0A \<notin> set n"
    using ok [of "CHR ''=''"] ok [of "CHR 0x0A"] by (auto simp: is_ascii_alphanumeric_def in_range_def)
  show "n \<noteq> []" by (rule n)
qed

lemma pm_line_print:
  assumes "is_safe_package_name n" and "android_path_is_absolute p"
  shows "pm_line (pm_print (n, p)) = Some (n, p)"
proof -
  note sn = safe_name_chars [OF assms(1)]
  have "trim (pm_print (n, p)) = pm_print (n, p)"
    by (rule trim_graph) (use sn in \<open>simp add: pm_print_def graph_char_def in_range_def\<close>)
  moreover have "strip_prefix ''package:'' (pm_print (n, p)) = Some (p @ CHR ''='' # n)"
    using strip_prefix_append [of "''package:''" "p @ CHR ''='' # n"] by (simp add: pm_print_def)
  ultimately show ?thesis using assms sn(1) by (simp add: pm_line_def rsplit_once_append)
qed

lemma parse_unsigned_ok: "parse_unsigned ok s = Some x \<Longrightarrow> ok x"
  by (auto simp: parse_unsigned_def split: option.splits if_splits list.splits)

lemma parse_line_ok: "parse_line l n = Inr e \<Longrightarrow> is_u32 (pe_uid e) \<and> CHR ''/'' \<notin> set (pe_name e)"
  by (auto simp: parse_line_def Let_def bind_result_def pkg_field_def dest: parse_unsigned_ok
      split: if_splits sum.splits option.splits)

lemma build_entries_ok:
  "build_entries cp sp n ls = Inr es \<Longrightarrow>
   \<forall>e \<in> set es. is_u32 (pe_uid e) \<and> CHR ''/'' \<notin> set (pe_name e) \<and> pe_code_path e = cp (pe_name e) \<and>
     pe_is_system e = (if sp = {} then looks_like_system_path (pe_code_path e) else pe_name e \<in> sp)"
proof (induction ls arbitrary: n es)
  case (Cons l ls)
  show ?case
  proof (cases "trim l = []")
    case True
    then show ?thesis using Cons by simp
  next
    case False
    obtain e es' where e: "parse_line (trim l) n = Inr e" "build_entries cp sp (Suc n) ls = Inr es'"
      "es = join_entry cp sp e # es'"
      using Cons.prems False by (auto simp: Let_def bind_result_def split: sum.splits)
    then show ?thesis using Cons.IH [OF e(2)] parse_line_ok [OF e(1)] by (auto simp: join_entry_def Let_def)
  qed
qed simp

section \<open>Properties\<close>

text \<open>the package index is a faithful join: looking up a UID gives exactly the listed packages with it, in file
  order, looking up a name gives the last line with it, UIDs are 32-bit numbers, and every entry carries the APK
  path PackageManager reported and its system flag (the path rule only where PackageManager gave no
  answer at all).\<close>
theorem package_index_exact:
  assumes "build list_text code_paths system_packages = Inr ix"
  shows "by_uid ix u = filter (\<lambda>e. pe_uid e = u) (ix_entries ix) \<and>
    by_name ix n = find (\<lambda>e. pe_name e = n) (rev (ix_entries ix)) \<and>
    list_all (\<lambda>e. is_u32 (pe_uid e) \<and> CHR ''/'' \<notin> set (pe_name e) \<and>
        pe_code_path e = code_paths (pe_name e) \<and>
        pe_is_system e = (if system_packages = {} then looks_like_system_path (pe_code_path e)
                          else pe_name e \<in> system_packages)) (ix_entries ix)"
  using lookup.uid_exact [OF build_index_ok [OF assms]] lookup.name_exact [OF build_index_ok [OF assms]]
    build_entries_ok [OF build_entries_of [OF assms]] by (simp add: list_all_iff)

definition sample_list :: string where
  "sample_list = ''a.b 10001 0 /d s none'' @ [CHR 0x0A] @ ''c.d 10002 1 /e t 1,2 1 7'' @ [CHR 0x0A]"

definition sample_paths :: "string \<rightharpoonup> string" where
  "sample_paths = [''c.d'' \<mapsto> ''/system/c'']"

definition sample_index :: "string set \<Rightarrow> PackageIndex" where
  "sample_index sp = (case build sample_list sample_paths sp of Inr ix \<Rightarrow> ix | Inl _ \<Rightarrow> empty_index)"

lemma sample_lines: "lines sample_list = [''a.b 10001 0 /d s none'', ''c.d 10002 1 /e t 1,2 1 7'']"
  by code_simp

definition sample_ab :: PackageEntry where
  "sample_ab = \<lparr>pe_name = ''a.b'', pe_uid = 10001, pe_debuggable = False,
     pe_data_dir = ''/d'', pe_seinfo = ''s'', pe_gids = [], pe_profileable_from_shell = None, pe_version_code = None,
     pe_code_path = None, pe_is_system = False\<rparr>"

definition sample_cd :: PackageEntry where
  "sample_cd = \<lparr>pe_name = ''c.d'', pe_uid = 10002, pe_debuggable = True,
     pe_data_dir = ''/e'', pe_seinfo = ''t'', pe_gids = [1, 2], pe_profileable_from_shell = Some True, pe_version_code = Some 7,
     pe_code_path = None, pe_is_system = False\<rparr>"

lemma sample_parse:
  "parse_line ''a.b 10001 0 /d s none'' (Suc 0) = Inr sample_ab"
  "parse_line ''c.d 10002 1 /e t 1,2 1 7'' (Suc (Suc 0)) = Inr sample_cd"
  by code_simp+

lemma sample_build_entries:
  "build_entries sample_paths sp 1 (lines sample_list) =
   Inr [join_entry sample_paths sp sample_ab, join_entry sample_paths sp sample_cd]"
proof -
  have "trim ''a.b 10001 0 /d s none'' = ''a.b 10001 0 /d s none''"
    "trim ''c.d 10002 1 /e t 1,2 1 7'' = ''c.d 10002 1 /e t 1,2 1 7''"
    by (rule trim_graph; simp add: graph_char_def in_range_def)+
  then show ?thesis by (simp add: sample_lines sample_parse bind_result_def)
qed

lemma sample_build: "build sample_list sample_paths sp = Inr (sample_index sp)"
  unfolding sample_index_def build_def sample_build_entries by (simp add: bind_result_def)

lemma sample_entries:
  "ix_entries (sample_index sp) = [join_entry sample_paths sp sample_ab, join_entry sample_paths sp sample_cd]"
  using build_entries_of [OF sample_build, of sp] by (simp only: sample_build_entries sum.inject)

lemmas sample_index_simps = sample_entries join_entry_def sample_ab_def sample_cd_def sample_paths_def Let_def

theorem package_index_exact_witness:
  "\<exists>e. by_name (sample_index {}) ''c.d'' = Some e \<and> pe_uid e = 10002 \<and> pe_is_system e \<and>
     by_uid (sample_index {}) 10002 = [e]"
  using package_index_exact [OF sample_build [of "{}"], of 10002 "''c.d''"]
  by (simp add: sample_index_simps looks_like_system_path_def)

text \<open>a reload that PackageManager did not answer for forgets nothing: the new list decides which packages exist, a
  package known before keeps its established system flag, a new one gets the flag its path implies, and the
  flags stay established.\<close>
theorem reload_keeps_system_flags:
  assumes "build list_text code_paths {} = Inr ix" and "index_ok previous" and "ix_system_flags_known previous"
  shows "ix_system_flags_known (inherit_system_flags ix previous) \<and>
    by_name (inherit_system_flags ix previous) n =
      map_option (\<lambda>e. e\<lparr>pe_is_system := (case by_name previous n of Some known \<Rightarrow> pe_is_system known
          | None \<Rightarrow> looks_like_system_path (code_paths n))\<rparr>) (by_name ix n)"
proof -
  note ok = build_index_ok [OF assms(1)]
  have k: "\<not> ix_system_flags_known ix" using build_flags [OF assms(1)] by simp
  have e: "e\<lparr>pe_is_system := looks_like_system_path (code_paths (pe_name e))\<rparr> = e" if "e \<in> set (ix_entries ix)" for e
    using build_entries_ok [OF build_entries_of [OF assms(1)]] that by simp
  have "find (\<lambda>e. pe_name e = n) (map f xs) = map_option f (find (\<lambda>e. pe_name e = n) xs)"
    if "\<And>e. pe_name (f e) = pe_name e" for f :: "PackageEntry \<Rightarrow> PackageEntry" and xs
    using that by (induction xs) simp_all
  then have "by_name (inherit_system_flags ix previous) n =
      map_option (\<lambda>e. case by_name previous (pe_name e) of
          Some known \<Rightarrow> e\<lparr>pe_is_system := pe_is_system known\<rparr> | None \<Rightarrow> e) (by_name ix n)"
    unfolding lookup.name_exact [OF inherit_index_ok [OF ok]] lookup.name_exact [OF ok]
    using k assms(3) by (simp add: inherit_system_flags_def rev_map split: option.split)
  then show ?thesis
    using lookup.name_found [OF ok, of n] e k assms(3)
    by (cases "by_name ix n") (auto simp: inherit_system_flags_def split: option.splits)
qed

theorem reload_keeps_system_flags_witness:
  "\<exists>e. by_name (inherit_system_flags (sample_index {}) (sample_index {''a.b''})) ''c.d'' = Some e \<and> \<not> pe_is_system e"
proof -
  have k: "ix_system_flags_known (sample_index {''a.b''})" using build_flags [OF sample_build] by simp
  show ?thesis
    using reload_keeps_system_flags [OF sample_build build_index_ok [OF sample_build] k, of "''c.d''"]
    by (simp add: lookup.name_exact [OF build_index_ok [OF sample_build]] sample_index_simps)
qed

text \<open>the code paths are read from PackageManager's output without loss: for any printed list of packages with safe names
  and absolute paths (which may contain equals signs, as installed APK directories do), the parsed map
  gives each name the path of its last line and knows no other name.\<close>
theorem pm_output_round_trip:
  assumes "list_all (\<lambda>(n, p). is_safe_package_name n \<and> android_path_is_absolute p \<and> CHR 0x0A \<notin> set p) pkgs"
  shows "parse_pm_code_paths (concat (map (\<lambda>np. pm_print np @ [CHR 0x0A]) pkgs)) = map_of (rev pkgs)"
proof -
  have "lines (concat (map (\<lambda>np. pm_print np @ [CHR 0x0A]) pkgs)) = map pm_print pkgs"
  proof -
    have "CHR 0x0A \<notin> set (pm_print np) \<and> (pm_print np = [] \<or> last (pm_print np) \<noteq> CHR 0x0D)" if "np \<in> set pkgs" for np
      using assms that safe_name_chars [of "fst np"] by (fastforce simp: list_all_iff pm_print_def case_prod_beta)
    then show ?thesis using lines_printed [of "map pm_print pkgs"] by (simp add: list_all_iff comp_def)
  qed
  moreover have "List.map_filter pm_line (map pm_print pkgs) = pkgs"
    using assms by (induction pkgs) (auto simp: map_filter_simps pm_line_print)
  moreover have "fold (\<lambda>(n, p) m. m(n \<mapsto> p)) xs m = m ++ map_of (rev xs)"
    for xs :: "(string \<times> string) list" and m
    by (induction xs arbitrary: m) (auto simp: fun_eq_iff map_add_def map_of_append split: option.splits)
  ultimately show ?thesis by (simp add: parse_pm_code_paths_def)
qed

theorem pm_output_round_trip_witness:
  "parse_pm_code_paths (pm_print (''a.b'', ''/data/app/~~x==/base.apk'') @ [CHR 0x0A]) ''a.b'' = Some ''/data/app/~~x==/base.apk''"
  using pm_output_round_trip [of "[(''a.b'', ''/data/app/~~x==/base.apk'')]"]
  by (simp add: is_safe_package_name_def is_ascii_alphanumeric_def in_range_def android_path_is_absolute_def)

end
