(* ===== verification/Auth.thy ===== *)
theory Auth
  imports Packages Fingerprint
begin

text \<open>
  \<^verbatim>\<open>cch_auth\<close>: which socket peers are the manager.  The pin is a SHA-256 certificate digest; reading the
  certificates of an APK is a parameter here (\<open>Apk_Sig\<close> models \<^verbatim>\<open>cch_apk_sig\<close>), and so are the
  metadata and the content of the pin file.
\<close>

section \<open>The pin\<close>

datatype AuthError =
  InvalidPin string | PinIo | UnknownUid int | MissingApkPath int | SignatureMismatch int
| CertificateRead string

definition hex_value :: "char \<Rightarrow> nat option" where
  "hex_value c =
     (let n = of_char c in
      if in_range 48 n 57 then Some (n - 48)
      else if in_range 97 n 102 then Some (n - 87)
      else if in_range 65 n 70 then Some (n - 55)
      else None)"

definition is_ascii_hexdigit :: "char \<Rightarrow> bool" where
  "is_ascii_hexdigit c \<longleftrightarrow> hex_value c \<noteq> None"

text \<open>\<^verbatim>\<open>u8::from_str_radix(.., 16)\<close> on the two characters at \<^term>\<open>2 * i\<close>, already known to be digits.\<close>

definition pin_byte :: "string \<Rightarrow> nat \<Rightarrow> AuthError + u8" where
  "pin_byte value i =
     (if i * 2 + 2 \<le> length value
      then (case (hex_value (value ! (i * 2)), hex_value (value ! (i * 2 + 1))) of
              (Some a, Some b) \<Rightarrow> Inr (word_of_nat (16 * a + b))
            | _ \<Rightarrow> Inl (InvalidPin ''invalid hexadecimal''))
      else Inl (InvalidPin ''pin byte is truncated''))"

definition pin_parse :: "string \<Rightarrow> AuthError + u8 list" where
  "pin_parse text =
     (let value = trim text
      in if length value \<noteq> 64 \<or> \<not> list_all is_ascii_hexdigit value
         then Inl (InvalidPin ''pin must be exactly 64 hexadecimal characters'')
         else
           bind_result (collect_results (pin_byte value) [0..<32]) (\<lambda>digest.
             if list_all (\<lambda>b. b = 0) digest then Inl (InvalidPin ''all-zero pins are forbidden'')
             else Inr digest))"

text \<open>What \<^verbatim>\<open>symlink_metadata\<close> says of the pin file (\<^const>\<open>None\<close> when the call fails).\<close>

record PinMetadata =
  pin_is_file :: bool
  pin_uid :: int
  pin_gid :: int
  pin_mode :: "32 word"
  pin_len :: nat

unbundle bit_operations_syntax

definition validate_metadata :: "PinMetadata \<Rightarrow> AuthError + unit" where
  "validate_metadata m =
     (if pin_uid m \<noteq> 0 \<or> pin_gid m \<noteq> 0 then Inl (InvalidPin ''pin file must be owned by root:root'')
      else if pin_mode m AND 18 \<noteq> 0 then Inl (InvalidPin ''pin file must not be group/world writable'')
      else Inr ())"

definition pin_load :: "PinMetadata option \<Rightarrow> string option \<Rightarrow> AuthError + u8 list" where
  "pin_load metadata content =
     (case metadata of None \<Rightarrow> Inl PinIo
      | Some m \<Rightarrow>
          if \<not> pin_is_file m then Inl (InvalidPin ''pin path must be a regular file'')
          else bind_result (validate_metadata m) (\<lambda>_.
               if pin_len m > 256 then Inl (InvalidPin ''pin file is unexpectedly large'')
               else (case content of None \<Rightarrow> Inl PinIo | Some text \<Rightarrow> pin_parse text)))"

section \<open>The peer\<close>

record AuthenticatedManager =
  am_uid :: int
  am_package_name :: string
  am_apk_path :: string

definition constant_time_eq :: "u8 list \<Rightarrow> u8 list \<Rightarrow> bool" where
  "constant_time_eq a b = (fold (\<lambda>(x, y) d. d OR (x XOR y)) (zip a b) 0 = 0)"

text \<open>The loop over the candidates, with \<^verbatim>\<open>had_path\<close> and \<^verbatim>\<open>last_error\<close> as accumulators.\<close>

fun check_candidates ::
  "(string \<Rightarrow> string + u8 list list) \<Rightarrow> u8 list \<Rightarrow> int \<Rightarrow> PackageEntry list \<Rightarrow> bool \<Rightarrow> string option \<Rightarrow>
   AuthError + AuthenticatedManager" where
  "check_candidates certs pin uid [] had_path last_error =
     (if \<not> had_path then Inl (MissingApkPath uid)
      else (case last_error of Some e \<Rightarrow> Inl (CertificateRead e) | None \<Rightarrow> Inl (SignatureMismatch uid)))"
| "check_candidates certs pin uid (p # ps) had_path last_error =
     (case base_apk_path p of
        None \<Rightarrow> check_candidates certs pin uid ps had_path last_error
      | Some path \<Rightarrow>
          if \<not> android_path_is_absolute path then check_candidates certs pin uid ps had_path last_error
          else (case certs path of
                  Inr digests \<Rightarrow>
                    if list_ex (\<lambda>d. constant_time_eq d pin) digests
                    then Inr \<lparr>am_uid = uid, am_package_name = pe_name p, am_apk_path = path\<rparr>
                    else check_candidates certs pin uid ps True last_error
                | Inl e \<Rightarrow> check_candidates certs pin uid ps True (Some e)))"

definition candidates :: "PackageIndex \<Rightarrow> int \<Rightarrow> PackageEntry list" where
  "candidates ix uid =
     (let app_id = uid mod ANDROID_UID_USER_RANGE; exact = by_uid ix uid
      in if exact = [] \<and> app_id \<noteq> uid then by_uid ix app_id else exact)"

definition authenticate_uid ::
  "(string \<Rightarrow> string + u8 list list) \<Rightarrow> u8 list \<Rightarrow> PackageIndex \<Rightarrow> int \<Rightarrow> AuthError + AuthenticatedManager" where
  "authenticate_uid certs pin ix uid =
     (let cs = candidates ix uid
      in if cs = [] then Inl (UnknownUid uid) else check_candidates certs pin uid cs False None)"

fun may_be_stale_package_index :: "AuthError \<Rightarrow> bool" where
  "may_be_stale_package_index (UnknownUid _) = True"
| "may_be_stale_package_index (MissingApkPath _) = True"
| "may_be_stale_package_index (CertificateRead _) = True"
| "may_be_stale_package_index _ = False"


section \<open>Comparison and parsing\<close>

lemma word_or_zero: "(a :: 'a::len word) OR b = 0 \<longleftrightarrow> a = 0 \<and> b = 0"
  by (auto simp: word_bits_eq_iff bit_simps)

lemma word_xor_zero: "(a :: 'a::len word) XOR b = 0 \<longleftrightarrow> a = b"
  by (metis bit.xor_cancel_right bit.xor_self xor.assoc xor.left_neutral xor_self_eq)

lemma fold_or_zero:
  "length a = length b \<Longrightarrow> fold (\<lambda>(x, y) d. d OR (x XOR y)) (zip a b) acc = 0 \<longleftrightarrow> acc = 0 \<and> a = (b :: u8 list)"
  by (induction a b arbitrary: acc rule: list_induct2) (auto simp: word_or_zero word_xor_zero)

lemma constant_time_eq_iff: "length a = length b \<Longrightarrow> constant_time_eq a b \<longleftrightarrow> a = b"
  by (simp add: constant_time_eq_def fold_or_zero)

lemma hex_value_digit: "d < 16 \<Longrightarrow> hex_value (hex_digit d) = Some d"
proof -
  have "\<forall>d \<in> set [0..<16]. hex_value (hex_digit d) = Some d" by code_simp
  then show "d < 16 \<Longrightarrow> ?thesis" by simp
qed

lemma hex_encode_nth:
  assumes "i < length bs"
  shows "hex_encode bs ! (i * 2) = hex_digit (unat (bs ! i) div 16)"
    "hex_encode bs ! (i * 2 + 1) = hex_digit (unat (bs ! i) mod 16)"
proof -
  have "hex_encode bs ! (i * 2) = hex_digit (unat (bs ! i) div 16) \<and>
      hex_encode bs ! (i * 2 + 1) = hex_digit (unat (bs ! i) mod 16)"
    using assms by (induction bs arbitrary: i) (auto simp: hex_encode_def nth_Cons' less_Suc_eq_0_disj)
  then show "hex_encode bs ! (i * 2) = hex_digit (unat (bs ! i) div 16)"
    "hex_encode bs ! (i * 2 + 1) = hex_digit (unat (bs ! i) mod 16)" by auto
qed

lemma length_hex_encode: "length (hex_encode bs) = 2 * length bs"
  by (induction bs) (simp_all add: hex_encode_def)

lemma pin_byte_encode: "i < length bs \<Longrightarrow> pin_byte (hex_encode bs) i = Inr (bs ! i)"
proof -
  assume i: "i < length bs"
  have "unat (bs ! i) div 16 < 16" using unat_u8_lt [of "bs ! i"] by linarith
  moreover have "16 * (unat (bs ! i) div 16) + unat (bs ! i) mod 16 = unat (bs ! i)" by simp
  ultimately show ?thesis
    using i hex_encode_nth [OF i] by (simp add: pin_byte_def length_hex_encode hex_value_digit)
qed


lemma hex_encode_chars:
  assumes "c \<in> set (hex_encode d)"
  shows "graph_char c" "is_ascii_hexdigit c"
proof -
  obtain b :: u8 where "c = hex_digit (unat b div 16) \<or> c = hex_digit (unat b mod 16)"
    using assms by (auto simp: hex_encode_def)
  moreover have "unat b div 16 < 16" using unat_u8_lt [of b] by linarith
  moreover have "unat b mod 16 < 16" by simp
  moreover have "\<forall>k \<in> set [0..<16]. graph_char (hex_digit k)" by code_simp
  ultimately show "graph_char c" "is_ascii_hexdigit c"
    by (auto simp: is_ascii_hexdigit_def hex_value_digit)
qed

lemma pin_parse_encode:
  assumes "length d = 32" and "\<not> list_all (\<lambda>b. b = 0) d"
  shows "pin_parse (hex_encode d) = Inr d"
proof -
  have ne: "hex_encode d \<noteq> []" using assms(1) length_hex_encode [of d] by auto
  then have "trim (hex_encode d) = hex_encode d" by (intro trim_graph) (use hd_in_set last_in_set hex_encode_chars(1) in blast)
  moreover have "list_all is_ascii_hexdigit (hex_encode d)" by (simp add: list_all_iff hex_encode_chars)
  moreover have "collect_results (pin_byte (hex_encode d)) [0..<32] = Inr d"
    using assms(1) by (simp add: collect_results_Inr list_all2_conv_all_nth pin_byte_encode)
  ultimately show ?thesis
    using assms by (simp add: pin_parse_def length_hex_encode bind_result_def Let_def)
qed

lemma pin_parse_length: "pin_parse t = Inr d \<Longrightarrow> length d = 32 \<and> \<not> list_all (\<lambda>b. b = 0) d"
  by (auto simp: pin_parse_def Let_def bind_result_def collect_results_Inr dest: list_all2_lengthD
      split: if_splits sum.splits)

lemma pin_load_Inr:
  "pin_load md t = Inr d \<Longrightarrow> \<exists>m text. md = Some m \<and> t = Some text \<and> pin_is_file m \<and> pin_uid m = 0 \<and> pin_gid m = 0 \<and>
     pin_mode m AND 18 = 0 \<and> pin_parse text = Inr d"
  by (auto simp: pin_load_def bind_result_def validate_metadata_def split: option.splits if_splits sum.splits)

section \<open>The candidate loop\<close>

definition certified :: "(string \<Rightarrow> string + u8 list list) \<Rightarrow> u8 list \<Rightarrow> PackageEntry \<Rightarrow> bool" where
  "certified certs pin e \<longleftrightarrow>
     (\<exists>path ds. base_apk_path e = Some path \<and> android_path_is_absolute path \<and> certs path = Inr ds \<and> pin \<in> set ds)"

lemma check_candidates_Inr:
  assumes "\<And>path ds d. certs path = Inr ds \<Longrightarrow> d \<in> set ds \<Longrightarrow> length d = length pin"
  shows "check_candidates certs pin uid cs hp le = Inr m \<longleftrightarrow>
    (\<exists>e. find (certified certs pin) cs = Some e \<and> am_uid m = uid \<and> am_package_name m = pe_name e \<and>
       Some (am_apk_path m) = base_apk_path e)"
proof (induction cs arbitrary: hp le)
  case Nil
  show ?case by (simp split: option.split)
next
  case (Cons c cs)
  show ?case
  proof (cases "base_apk_path c")
    case (Some path)
    have d: "list_ex (\<lambda>d. constant_time_eq d pin) ds \<longleftrightarrow> pin \<in> set ds" if "certs path = Inr ds" for ds
      using assms [OF that] by (auto simp: list_ex_iff constant_time_eq_iff)
    show ?thesis
      using Some Cons d by (cases "certs path") (auto simp: certified_def)
  qed (use Cons in \<open>simp add: certified_def\<close>)
qed

section \<open>Properties\<close>

text \<open>C17: authentication lets exactly the pinned manager in.  With a pin read from a root-owned file that others cannot
  write, a peer is accepted if and only if one of the packages of its UID (of its app id, when the list
  has no package under the full UID) has an APK at an absolute path whose certificates could be read
  and contain the pinned digest; the first such package is the one reported.\<close>
theorem authentication_exact:
  assumes "build list_text code_paths system_packages = Inr ix" and "pin_load metadata content = Inr pin"
    and "\<And>path ds d. certs path = Inr ds \<Longrightarrow> d \<in> set ds \<Longrightarrow> length d = 32"
  shows "authenticate_uid certs pin ix uid = Inr m \<longleftrightarrow>
    (\<exists>e. find (certified certs pin)
           (let rows = (\<lambda>u. filter (\<lambda>e. pe_uid e = u) (ix_entries ix))
            in if rows uid = [] then rows (uid mod 100000) else rows uid) = Some e \<and>
       am_uid m = uid \<and> am_package_name m = pe_name e \<and> Some (am_apk_path m) = base_apk_path e)"
proof -
  have len: "length pin = 32" using pin_load_Inr [OF assms(2)] pin_parse_length by blast
  let ?rows = "\<lambda>u. filter (\<lambda>e. pe_uid e = u) (ix_entries ix)"
  have c: "candidates ix uid = (if ?rows uid = [] then ?rows (uid mod 100000) else ?rows uid)"
    using lookup.uid_exact [OF build_index_ok [OF assms(1)]]
    by (auto simp: candidates_def Let_def ANDROID_UID_USER_RANGE_def)
  show ?thesis
    using check_candidates_Inr [of certs pin uid "candidates ix uid" False None m] assms(3) len
    by (auto simp: authenticate_uid_def Let_def c)
qed

definition sample_pin :: "u8 list" where "sample_pin = 171 # replicate 31 0"

lemma sample_pin_load:
  "pin_load (Some \<lparr>pin_is_file = True, pin_uid = 0, pin_gid = 0, pin_mode = 384, pin_len = 64\<rparr>)
     (Some (hex_encode sample_pin)) = Inr sample_pin"
  by (simp add: pin_load_def validate_metadata_def bind_result_def pin_parse_encode sample_pin_def)

definition sample_certs :: "string \<Rightarrow> string + u8 list list" where
  "sample_certs path = (if path = ''/system/c/base.apk'' then Inr [sample_pin] else Inl ''missing'')"

theorem authentication_exact_witness:
  "authenticate_uid sample_certs sample_pin (sample_index {}) 1010002 =
     Inr \<lparr>am_uid = 1010002, am_package_name = ''c.d'', am_apk_path = ''/system/c/base.apk''\<rparr>"
proof -
  have l: "\<And>path ds d. sample_certs path = Inr ds \<Longrightarrow> d \<in> set ds \<Longrightarrow> length d = 32"
    by (auto simp: sample_certs_def sample_pin_def split: if_splits)
  have p: "path_extension ''/system/c'' = None" "trim_end_slashes ''/system/c'' = ''/system/c''" by code_simp+
  show ?thesis
    using authentication_exact [OF sample_build [of "{}"] sample_pin_load, of sample_certs 1010002
        "\<lparr>am_uid = 1010002, am_package_name = ''c.d'', am_apk_path = ''/system/c/base.apk''\<rparr>"] l
    by (simp add: sample_index_simps certified_def base_apk_path_def sample_certs_def p android_path_is_absolute_def)
qed

text \<open>a pin written as hexadecimal text is read back, and whatever text is accepted stands for 32 bytes that are not
  all zero.\<close>
theorem pin_text_exact:
  "(length d = 32 \<and> \<not> list_all (\<lambda>b. b = 0) d \<longrightarrow> pin_parse (hex_encode d) = Inr d) \<and>
   (pin_parse t = Inr d \<longrightarrow> length d = 32 \<and> \<not> list_all (\<lambda>b. b = 0) d)"
  using pin_parse_encode pin_parse_length by blast

theorem pin_text_exact_witness: "pin_parse (hex_encode sample_pin) = Inr sample_pin"
  using pin_text_exact [of sample_pin] by (simp add: sample_pin_def)

end
