(* ===== verification/Diagnostics.thy ===== *)
theory Diagnostics
  imports Wire "HOL-Library.Product_Lexorder"
begin

text \<open>
  \<^verbatim>\<open>cch_daemond\<close>: the rolling log file (\<^verbatim>\<open>logsink.rs\<close>) and the reader of the log directory
  (\<^verbatim>\<open>diagnostics.rs\<close>).  File contents are byte strings; what the operating system answers to an open, a
  rename or a write is an argument.
\<close>

section \<open>Lossy decoding\<close>

text \<open>\<^verbatim>\<open>String::from_utf8_lossy\<close>: every maximal part of an ill-formed sequence becomes the replacement
  character.\<close>

definition second_ok :: "nat \<Rightarrow> nat \<Rightarrow> bool" where
  "second_ok b0 b1 \<longleftrightarrow> is_cont b1 \<and>
     (b0 = 0xE0 \<longrightarrow> 0xA0 \<le> b1) \<and> (b0 = 0xED \<longrightarrow> b1 \<le> 0x9F) \<and>
     (b0 = 0xF0 \<longrightarrow> 0x90 \<le> b1) \<and> (b0 = 0xF4 \<longrightarrow> b1 \<le> 0x8F)"

definition error_len :: "string \<Rightarrow> nat" where
  "error_len s =
     (let b0 = byte_at s 0; b1 = byte_at s 1; b2 = byte_at s 2
      in if \<not> in_range 0xE0 b0 0xF4 \<or> \<not> second_ok b0 b1 then 1
         else if in_range 0xF0 b0 0xF4 \<and> is_cont b2 then 3 else 2)"

definition REPLACEMENT :: string where "REPLACEMENT = [CHR 0xEF, CHR 0xBF, CHR 0xBD]"

function from_utf8_lossy :: "string \<Rightarrow> string" where
  "from_utf8_lossy s =
     (if s = [] then []
      else (case utf8_width s of
              Some w \<Rightarrow> take (max w 1) s @ from_utf8_lossy (drop (max w 1) s)
            | None \<Rightarrow> REPLACEMENT @ from_utf8_lossy (drop (error_len s) s)))"
  by pat_completeness auto
termination by (relation "measure length") (auto simp: error_len_def Let_def)

declare from_utf8_lossy.simps [simp del]

section \<open>The rolling log\<close>

definition MAX_LOG_FILE_BYTES :: nat where "MAX_LOG_FILE_BYTES = 4 * 1024 * 1024"
definition MAX_LOG_FILES :: nat where "MAX_LOG_FILES = 8"
definition LOG_FILE_NAME :: string where "LOG_FILE_NAME = ''daemon.log''"

text \<open>File 0 is the live file, file \<^term>\<open>i\<close> its copy with the suffix \<^term>\<open>i\<close>.\<close>

record RollingLog =
  rl_max_bytes :: nat
  rl_max_files :: nat
  rl_files :: "nat \<rightharpoonup> string"
  rl_written :: nat
  rl_at_line_start :: bool

definition with_limits :: "(nat \<rightharpoonup> string) \<Rightarrow> nat \<Rightarrow> nat \<Rightarrow> RollingLog" where
  "with_limits fs max_bytes max_files =
     \<lparr>rl_max_bytes = max_bytes, rl_max_files = max max_files 1,
      rl_files = fs(0 \<mapsto> unwrap_or (fs 0) []),
      rl_written = length (unwrap_or (fs 0) []), rl_at_line_start = True\<rparr>"

definition log_open :: "(nat \<rightharpoonup> string) \<Rightarrow> RollingLog" where
  "log_open fs = with_limits fs MAX_LOG_FILE_BYTES MAX_LOG_FILES"

record LogFaults =
  remove_refused :: bool
  rename_refused :: "nat \<Rightarrow> bool"
  reopen_refused :: bool

definition log_rename :: "LogFaults \<Rightarrow> nat \<Rightarrow> (nat \<rightharpoonup> string) \<Rightarrow> (nat \<rightharpoonup> string)" where
  "log_rename lf i fs =
     (case fs i of None \<Rightarrow> fs
      | Some content \<Rightarrow> if rename_refused lf i then fs else fs(i := None, Suc i := Some content))"

text \<open>Errors of the removal and of the renames are ignored; the live file is opened for appending,
  whatever is there.\<close>

definition rotate_files :: "LogFaults \<Rightarrow> nat \<Rightarrow> (nat \<rightharpoonup> string) \<Rightarrow> (nat \<rightharpoonup> string)" where
  "rotate_files lf max_files fs0 =
     (let fs1 = (if remove_refused lf then fs0 else fs0(max_files := None));
          fs2 = fold (log_rename lf) (rev [1..<max_files]) fs1
      in log_rename lf 0 fs2)"

definition log_rotate :: "LogFaults \<Rightarrow> RollingLog \<Rightarrow> bool \<times> RollingLog" where
  "log_rotate lf l =
     (let fs = rotate_files lf (rl_max_files l) (rl_files l)
      in if reopen_refused lf then (False, l\<lparr>rl_files := fs\<rparr>)
         else (True, l\<lparr>rl_files := fs(0 \<mapsto> unwrap_or (fs 0) []), rl_written := 0\<rparr>))"

definition NEWLINE :: char where "NEWLINE = CHR 0x0A"

text \<open>\<^verbatim>\<open>write\<close>; \<^term>\<open>accepted\<close> is what the operating system does with the buffer: an error, or the number of
  bytes taken.\<close>

definition log_append :: "nat option \<Rightarrow> string \<Rightarrow> RollingLog \<Rightarrow> nat option \<times> RollingLog" where
  "log_append accepted buffer l =
     (case accepted of None \<Rightarrow> (None, l)
      | Some n \<Rightarrow>
          (let written = min n (length buffer)
           in (Some written,
               l\<lparr>rl_files := (rl_files l)(0 \<mapsto> unwrap_or (rl_files l 0) [] @ take written buffer),
                 rl_written := rl_written l + written,
                 rl_at_line_start := (if written > 0 then buffer ! (written - 1) = NEWLINE else rl_at_line_start l)\<rparr>)))"

definition log_write :: "LogFaults \<Rightarrow> nat option \<Rightarrow> string \<Rightarrow> RollingLog \<Rightarrow> nat option \<times> RollingLog" where
  "log_write lf accepted buffer l =
     (if rl_max_bytes l \<le> rl_written l \<and> rl_at_line_start l
      then (case log_rotate lf l of (False, l') \<Rightarrow> (None, l') | (True, l') \<Rightarrow> log_append accepted buffer l')
      else log_append accepted buffer l)"

section \<open>Reading the logs\<close>

definition DEFAULT_LOG_BYTES :: nat where "DEFAULT_LOG_BYTES = 128 * 1024"
definition MAX_LOG_BYTES :: nat where "MAX_LOG_BYTES = 512 * 1024"
definition OLD_DIRECTORY :: string where "OLD_DIRECTORY = ''old''"
definition STDERR_FILE_NAME :: string where "STDERR_FILE_NAME = ''daemon.stderr.log''"
definition SERVICE_FILE_NAME :: string where "SERVICE_FILE_NAME = ''service.log''"

datatype TailFault = NoTailFault | OpenFails | ReadFails

record DirEntry =
  de_name :: string
  de_is_file :: bool
  de_content :: string
  de_modified_ms :: int
  de_fault :: TailFault

text \<open>The directories \<^verbatim>\<open>logs\<close> and \<^verbatim>\<open>logs/old\<close>; a directory that cannot be listed is empty.\<close>

record LogTree =
  lt_logs :: "DirEntry list"
  lt_old :: "DirEntry list"

record RuntimeLogFile =
  lf_name :: string
  lf_bytes :: nat
  lf_modified_ms :: int

record RuntimeLog =
  log_name :: string
  log_text :: string
  log_truncated :: bool
  log_total_bytes :: nat
  log_files :: "RuntimeLogFile list"

definition log_collect :: "string option \<Rightarrow> DirEntry list \<Rightarrow> RuntimeLogFile list" where
  "log_collect pre entries =
     map (\<lambda>e. \<lparr>lf_name = (case pre of Some p \<Rightarrow> p @ ''/'' @ de_name e | None \<Rightarrow> de_name e),
               lf_bytes = length (de_content e), lf_modified_ms = de_modified_ms e\<rparr>)
       (filter (\<lambda>e. de_is_file e \<and> \<not> prefix ''.'' (de_name e)) entries)"

definition rank :: "string \<Rightarrow> nat \<times> nat \<times> int \<times> string" where
  "rank name =
     (let (boot, file) = (case split_once CHR ''/'' name of
                            Some (d, f) \<Rightarrow> if d = OLD_DIRECTORY then (1, f) else (0, name)
                          | None \<Rightarrow> (0, name));
          (kind, index) =
            (if file = LOG_FILE_NAME then (0, 0)
             else if file = STDERR_FILE_NAME then (2, 0)
             else if file = SERVICE_FILE_NAME then (3, 0)
             else (case Option.bind (strip_prefix LOG_FILE_NAME file) (strip_prefix ''.'') of
                     None \<Rightarrow> (4, 0)
                   | Some number \<Rightarrow>
                       (case parse_unsigned is_u32 number of Some n \<Rightarrow> (1, n) | None \<Rightarrow> (4, 0))))
      in (boot, kind, index, file))"

definition list_files :: "LogTree \<Rightarrow> RuntimeLogFile list" where
  "list_files t =
     sort_key (\<lambda>f. rank (lf_name f)) (log_collect None (lt_logs t) @ log_collect (Some OLD_DIRECTORY) (lt_old t))"

definition log_resolve :: "LogTree \<Rightarrow> string \<Rightarrow> DirEntry option" where
  "log_resolve t name =
     (case split_once CHR ''/'' name of
        Some (d, f) \<Rightarrow> if d = OLD_DIRECTORY then find (\<lambda>e. de_name e = f) (lt_old t) else None
      | None \<Rightarrow> find (\<lambda>e. de_name e = name) (lt_logs t))"

record Tail =
  tail_text :: string
  tail_truncated :: bool
  tail_total_bytes :: nat

definition read_tail :: "DirEntry option \<Rightarrow> nat \<Rightarrow> Tail" where
  "read_tail entry budget =
     (case entry of None \<Rightarrow> \<lparr>tail_text = [], tail_truncated = False, tail_total_bytes = 0\<rparr>
      | Some e \<Rightarrow>
          if de_fault e = OpenFails then \<lparr>tail_text = [], tail_truncated = False, tail_total_bytes = 0\<rparr>
          else
            (let total = length (de_content e); truncated = total > budget
             in if de_fault e = ReadFails then \<lparr>tail_text = [], tail_truncated = False, tail_total_bytes = total\<rparr>
                else
                  (let bytes = drop (total - budget) (de_content e); text = from_utf8_lossy bytes
                   in \<lparr>tail_text = (if truncated
                                    then (case find_char NEWLINE text of Some i \<Rightarrow> drop (Suc i) text | None \<Rightarrow> [])
                                    else text),
                       tail_truncated = truncated, tail_total_bytes = total\<rparr>)))"

definition read_runtime_log :: "LogTree \<Rightarrow> string option \<Rightarrow> nat \<Rightarrow> RuntimeLog" where
  "read_runtime_log t name max_bytes =
     (let files = list_files t;
          selected = opt_or (case name of None \<Rightarrow> None | Some n \<Rightarrow> find (\<lambda>f. lf_name f = n) files)
                       (case files of [] \<Rightarrow> None | f # _ \<Rightarrow> Some f)
      in case selected of
           None \<Rightarrow> \<lparr>log_name = [], log_text = ''(no logs yet)'' @ [NEWLINE], log_truncated = False,
                    log_total_bytes = 0, log_files = files\<rparr>
         | Some f \<Rightarrow>
             (let budget = min (max max_bytes (4 * 1024)) MAX_LOG_BYTES;
                  tail = read_tail (log_resolve t (lf_name f)) budget
              in \<lparr>log_name = lf_name f,
                  log_text = (if trim (tail_text tail) = [] then ''(empty)'' @ [NEWLINE] else tail_text tail),
                  log_truncated = tail_truncated tail, log_total_bytes = tail_total_bytes tail,
                  log_files = files\<rparr>))"


section \<open>Rotation\<close>

definition no_log_faults :: LogFaults where
  "no_log_faults = \<lparr>remove_refused = False, rename_refused = (\<lambda>_. False), reopen_refused = False\<rparr>"

lemma shift_files:
  assumes "k \<le> m" and "fs m = None"
  shows "fold (log_rename no_log_faults) (rev [k..<m]) fs =
    (\<lambda>i. if i = k then None else if k < i \<and> i \<le> m then fs (i - 1) else fs i)"
  using assms
proof (induction m arbitrary: fs)
  case (Suc m)
  show ?case
  proof (cases "k = Suc m")
    case False
    let ?fs = "fs(m := None, Suc m := fs m)"
    have "log_rename no_log_faults m fs = ?fs"
      using Suc.prems by (auto simp: log_rename_def no_log_faults_def fun_eq_iff split: option.split)
    then have "fold (log_rename no_log_faults) (rev [k..<Suc m]) fs = fold (log_rename no_log_faults) (rev [k..<m]) ?fs"
      using False Suc.prems by simp
    also have "\<dots> = (\<lambda>i. if i = k then None else if k < i \<and> i \<le> m then ?fs (i - 1) else ?fs i)"
      using False Suc.prems by (intro Suc.IH) auto
    also have "\<dots> = (\<lambda>i. if i = k then None else if k < i \<and> i \<le> Suc m then fs (i - 1) else fs i)"
      using False Suc.prems by (intro ext) (auto simp: le_Suc_eq)
    finally show ?thesis .
  qed (use Suc.prems in auto)
qed auto

lemma rotate_files_eq:
  assumes "0 < m"
  shows "rotate_files no_log_faults m fs = (\<lambda>i. if i = 0 then None else if i \<le> m then fs (i - 1) else fs i)"
proof -
  let ?g = "fold (log_rename no_log_faults) (rev [1..<m]) (fs(m := None))"
  have g: "?g = (\<lambda>i. if i = 1 then None else if 1 < i \<and> i \<le> m then (fs(m := None)) (i - 1) else (fs(m := None)) i)"
    by (rule shift_files) (use assms in simp_all)
  have g1: "?g 1 = None" and g0: "?g 0 = fs 0" unfolding g using assms by simp_all
  have "log_rename no_log_faults 0 h = h(0 := None, 1 := h 0)" if "h 1 = None" for h
    using that by (cases "h 0") (simp_all add: log_rename_def no_log_faults_def fun_upd_idem)
  from this [of ?g, OF g1] have "rotate_files no_log_faults m fs = ?g(0 := None, 1 := ?g 0)"
    by (simp add: rotate_files_def no_log_faults_def Let_def)
  also have "\<dots> = (\<lambda>i. if i = 0 then None else if i \<le> m then fs (i - 1) else fs i)"
    unfolding g0 unfolding g using assms by (intro ext) auto
  finally show ?thesis .
qed

definition file_text :: "RollingLog \<Rightarrow> nat \<Rightarrow> string" where
  "file_text l i = unwrap_or (rl_files l i) []"

text \<open>Everything that can still be read, oldest first.\<close>

definition log_history :: "RollingLog \<Rightarrow> string" where
  "log_history l = concat (map (file_text l) (rev [0..<Suc (rl_max_files l)]))"

definition log_inv :: "RollingLog \<Rightarrow> bool" where
  "log_inv l \<longleftrightarrow> 0 < rl_max_files l \<and>
     (\<forall>i. 0 < i \<or> rl_at_line_start l \<longrightarrow> file_text l i = [] \<or> last (file_text l i) = NEWLINE)"

lemma log_rotate_eq:
  assumes "0 < rl_max_files l" and "log_rotate no_log_faults l = (ok, l')"
  shows "ok" "rl_max_files l' = rl_max_files l" "rl_max_bytes l' = rl_max_bytes l" "rl_at_line_start l' = rl_at_line_start l"
    "file_text l' i = (if i = 0 then [] else if i \<le> rl_max_files l then file_text l (i - 1) else file_text l i)"
    "rl_written l' = 0"
proof -
  have r: "reopen_refused no_log_faults = False" by (simp add: no_log_faults_def)
  have l': "ok" "l' = l\<lparr>rl_files := (rotate_files no_log_faults (rl_max_files l) (rl_files l))(0 \<mapsto> []), rl_written := 0\<rparr>"
    using assms(2) by (simp_all add: log_rotate_def Let_def r rotate_files_eq [OF assms(1)])
  then show "ok" "rl_max_files l' = rl_max_files l" "rl_max_bytes l' = rl_max_bytes l" "rl_at_line_start l' = rl_at_line_start l"
    "file_text l' i = (if i = 0 then [] else if i \<le> rl_max_files l then file_text l (i - 1) else file_text l i)"
    "rl_written l' = 0"
    by (simp_all add: rotate_files_eq [OF assms(1)] file_text_def)
qed

lemma log_rotate_history:
  assumes "0 < rl_max_files l" and "log_rotate no_log_faults l = (ok, l')"
  shows "log_history l = file_text l (rl_max_files l) @ log_history l'"
proof -
  note r = log_rotate_eq [OF assms]
  have "concat (map (file_text l') (rev [0..<Suc (rl_max_files l)])) =
      concat (map (\<lambda>i. file_text l' (Suc i)) (rev [0..<rl_max_files l])) @ file_text l' 0"
    by (simp add: upt_conv_Cons map_Suc_upt [symmetric] rev_map comp_def del: upt_Suc)
  also have "map (\<lambda>i. file_text l' (Suc i)) (rev [0..<rl_max_files l]) = map (file_text l) (rev [0..<rl_max_files l])"
    by (rule map_cong) (auto simp: r(5))
  finally have "log_history l' = concat (map (file_text l) (rev [0..<rl_max_files l]))"
    unfolding log_history_def r(2) using r(5) [of 0] by (simp del: upt_Suc)
  then show ?thesis by (simp add: log_history_def)
qed

lemma log_append_facts:
  assumes "log_append (Some n) b l = (res, l')"
  shows "log_history l' = log_history l @ take n b" "rl_max_files l' = rl_max_files l" "log_inv l \<Longrightarrow> log_inv l'"
    "rl_max_bytes l' = rl_max_bytes l"
    "file_text l' i = (if i = 0 then file_text l 0 @ take n b else file_text l i)"
    "rl_written l' = rl_written l + min n (length b)"
    "n = length b \<Longrightarrow> b \<noteq> [] \<Longrightarrow> last b = NEWLINE \<Longrightarrow> rl_at_line_start l'"
proof -
  let ?w = "min n (length b)"
  have l': "l' = l\<lparr>rl_files := (rl_files l)(0 \<mapsto> file_text l 0 @ take n b), rl_written := rl_written l + ?w,
      rl_at_line_start := (if ?w > 0 then b ! (?w - 1) = NEWLINE else rl_at_line_start l)\<rparr>"
    using assms by (auto simp: log_append_def Let_def file_text_def min_def split: if_splits)
  show ft: "file_text l' i = (if i = 0 then file_text l 0 @ take n b else file_text l i)" for i
    by (simp add: l' file_text_def)
  show "rl_max_files l' = rl_max_files l" "rl_max_bytes l' = rl_max_bytes l" "rl_written l' = rl_written l + ?w"
    by (simp_all add: l')
  show "log_history l' = log_history l @ take n b"
  proof -
    have h: "log_history k = concat (map (file_text k) (rev [1..<Suc (rl_max_files k)])) @ file_text k 0" for k
      by (simp add: log_history_def upt_conv_Cons del: upt_Suc)
    have "map (file_text l') (rev [1..<Suc (rl_max_files l)]) = map (file_text l) (rev [1..<Suc (rl_max_files l)])"
      by (rule map_cong) (auto simp: ft)
    moreover have "rl_max_files l' = rl_max_files l" by (simp add: l')
    ultimately show ?thesis unfolding h [of l'] h [of l] using ft [of 0] by (simp del: upt_Suc map_eq_conv)
  qed
  have last: "last (take n b) = b ! (?w - 1)" if "0 < ?w"
  proof -
    have "take n b \<noteq> []" "length (take n b) = ?w" using that by auto
    moreover have "?w - 1 < n" using that by linarith
    ultimately show ?thesis by (simp add: last_conv_nth)
  qed
  show "log_inv l \<Longrightarrow> log_inv l'"
    using ft last by (auto simp: log_inv_def l' last_append split: if_splits)
  show "n = length b \<Longrightarrow> b \<noteq> [] \<Longrightarrow> last b = NEWLINE \<Longrightarrow> rl_at_line_start l'"
    by (simp add: l' last_conv_nth)
qed

text \<open>A run of writes the operating system accepts, each possibly in part.\<close>

definition log_run :: "(nat \<times> string) list \<Rightarrow> RollingLog \<Rightarrow> RollingLog" where
  "log_run ws l = fold (\<lambda>(n, b) l. snd (log_write no_log_faults (Some n) b l)) ws l"

lemma log_write_cases:
  assumes "0 < rl_max_files l"
  obtains (append) "log_write no_log_faults (Some n) b l = log_append (Some n) b l"
      "rl_written l < rl_max_bytes l \<or> \<not> rl_at_line_start l"
  | (rotate) l1 where "log_rotate no_log_faults l = (True, l1)" "rl_at_line_start l"
      "log_write no_log_faults (Some n) b l = log_append (Some n) b l1"
proof (cases "rl_max_bytes l \<le> rl_written l \<and> rl_at_line_start l")
  case True
  obtain ok l1 where r: "log_rotate no_log_faults l = (ok, l1)" by fastforce
  then show ?thesis using rotate log_rotate_eq(1) [OF assms r] True by (simp add: log_write_def)
qed (use append in \<open>auto simp: log_write_def\<close>)

lemma log_write_facts:
  assumes "log_inv l"
  shows "log_inv (snd (log_write no_log_faults (Some n) b l))"
    "\<exists>gone. gone @ log_history (snd (log_write no_log_faults (Some n) b l)) = log_history l @ take n b"
proof -
  have m: "0 < rl_max_files l" using assms by (simp add: log_inv_def)
  have "log_inv (snd (log_write no_log_faults (Some n) b l)) \<and>
    (\<exists>gone. gone @ log_history (snd (log_write no_log_faults (Some n) b l)) = log_history l @ take n b)"
  proof (rule log_write_cases [OF m, of n b], goal_cases)
    case 1
    then show ?thesis
      using log_append_facts(1,3) [of n b l] assms by (metis append_Nil prod.collapse)
  next
    case rotate: (2 l1)
    have i: "log_inv l1"
      using assms rotate(2) log_rotate_eq [OF m rotate(1)] by (auto simp: log_inv_def)
    show ?thesis
      using log_append_facts(1,3) [of n b l1 _ "snd (log_append (Some n) b l1)"] i rotate(3) log_rotate_history [OF m rotate(1)]
      by (metis append.assoc prod.collapse)
  qed
  then show "log_inv (snd (log_write no_log_faults (Some n) b l))"
    "\<exists>gone. gone @ log_history (snd (log_write no_log_faults (Some n) b l)) = log_history l @ take n b" by auto
qed


lemma log_run_facts:
  "log_inv l \<Longrightarrow> log_inv (log_run ws l) \<and>
     (\<exists>gone. gone @ log_history (log_run ws l) = log_history l @ concat (map (\<lambda>(n, b). take n b) ws))"
proof (induction ws arbitrary: l)
  case (Cons w ws)
  let ?l = "snd (log_write no_log_faults (Some (fst w)) (snd w) l)"
  have r: "log_run (w # ws) l = log_run ws ?l" by (simp add: log_run_def case_prod_beta)
  note f = log_write_facts [OF Cons.prems, of "fst w" "snd w"]
  obtain g1 g2 where "g1 @ log_history ?l = log_history l @ take (fst w) (snd w)"
    "g2 @ log_history (log_run ws ?l) = log_history ?l @ concat (map (\<lambda>(n, b). take n b) ws)"
    using f(2) Cons.IH [OF f(1)] by blast
  then have "(g1 @ g2) @ log_history (log_run ws ?l) = log_history l @ take (fst w) (snd w) @ concat (map (\<lambda>(n, b). take n b) ws)"
    by (metis append.assoc)
  then have "(g1 @ g2) @ log_history (log_run ws ?l) = log_history l @ concat (map (\<lambda>(n, b). take n b) (w # ws))"
    by (simp add: case_prod_beta)
  then show ?case unfolding r using Cons.IH [OF f(1)] by blast
qed (simp add: log_run_def)

text \<open>Whole lines of bounded length keep every file bounded.\<close>

definition whole_line :: "nat \<Rightarrow> nat \<times> string \<Rightarrow> bool" where
  "whole_line len w \<longleftrightarrow> fst w = length (snd w) \<and> snd w \<noteq> [] \<and> last (snd w) = NEWLINE \<and> length (snd w) \<le> len"

definition size_inv :: "nat \<Rightarrow> RollingLog \<Rightarrow> bool" where
  "size_inv len l \<longleftrightarrow> 0 < rl_max_files l \<and> rl_at_line_start l \<and> rl_written l = length (file_text l 0) \<and>
     (\<forall>i. length (file_text l i) \<le> rl_max_bytes l + len) \<and> (\<forall>i > rl_max_files l. file_text l i = [])"

lemma size_step:
  assumes "size_inv len l" and "whole_line len w"
  shows "size_inv len (snd (log_write no_log_faults (Some (fst w)) (snd w) l)) \<and>
    rl_max_files (snd (log_write no_log_faults (Some (fst w)) (snd w) l)) = rl_max_files l \<and>
    rl_max_bytes (snd (log_write no_log_faults (Some (fst w)) (snd w) l)) = rl_max_bytes l"
proof -
  have m: "0 < rl_max_files l" using assms by (simp add: size_inv_def)
  have app: "size_inv len l2 \<and> rl_max_files l2 = rl_max_files k \<and> rl_max_bytes l2 = rl_max_bytes k"
    if k: "size_inv len k" "rl_written k < rl_max_bytes k \<or> rl_written k = 0"
      and l2: "log_append (Some (fst w)) (snd w) k = (res, l2)" for k res l2
  proof -
    note f = log_append_facts [OF l2]
    show ?thesis using k assms(2) f(2,4,5,6,7) by (auto simp: size_inv_def whole_line_def)
  qed
  show ?thesis
  proof (rule log_write_cases [OF m, of "fst w" "snd w"], goal_cases)
    case 1
    have "rl_at_line_start l" using assms(1) by (simp add: size_inv_def)
    then show ?case using app [OF assms(1)] 1 by (metis prod.collapse)
  next
    case (2 l1)
    note r = log_rotate_eq [OF m 2(1)]
    have "size_inv len l1" using assms(1) r by (auto simp: size_inv_def)
    then show ?case using app [of l1] r(2,3,6) 2(3) by (metis prod.collapse)
  qed
qed

lemma size_run:
  "size_inv len l \<Longrightarrow> list_all (whole_line len) ws \<Longrightarrow>
   size_inv len (log_run ws l) \<and> rl_max_files (log_run ws l) = rl_max_files l \<and> rl_max_bytes (log_run ws l) = rl_max_bytes l"
proof (induction ws arbitrary: l)
  case (Cons w ws)
  then show ?case using size_step [of len l w] by (simp add: log_run_def case_prod_beta)
qed (simp add: log_run_def)

section \<open>Lossy text\<close>

lemma error_len_pos: "0 < error_len s"
  by (simp add: error_len_def Let_def)

lemma lossy_valid: "valid_utf8 s \<Longrightarrow> from_utf8_lossy s = s"
proof (induction s rule: valid_utf8.induct)
  case (1 s)
  show ?case
  proof (cases "s = []")
    case False
    then obtain w where w: "utf8_width s = Some w" "w \<noteq> 0" "valid_utf8 (drop w s)"
      using 1(2) by (auto simp: valid_utf8.simps [of s] split: option.splits if_splits)
    moreover have "max w 1 = w" using w(2) by simp
    ultimately show ?thesis using 1(1) [OF False w(1,2,3)] False by (subst from_utf8_lossy.simps) simp
  qed (simp add: from_utf8_lossy.simps)
qed

lemma lossy_length: "length (from_utf8_lossy s) \<le> 3 * length s"
proof (induction s rule: from_utf8_lossy.induct)
  case (1 s)
  show ?case
  proof (cases "s = []")
    case False
    show ?thesis
    proof (cases "utf8_width s")
      case None
      have "length (drop (error_len s) s) + 1 \<le> length s" using False error_len_pos [of s] by (cases s) auto
      then show ?thesis using 1(1) [OF False None] False None
        by (subst from_utf8_lossy.simps) (simp add: REPLACEMENT_def)
    next
      case (Some w)
      have "length (take (max w 1) s) + length (drop (max w 1) s) = length s" by simp
      then show ?thesis using 1(2) [OF False Some] False Some
        by (subst from_utf8_lossy.simps) (simp del: length_take length_drop)
    qed
  qed (simp add: from_utf8_lossy.simps)
qed

lemma lossy_bad_bytes: "from_utf8_lossy (replicate n CHR 0xFF) = concat (replicate n REPLACEMENT)"
proof (induction n)
  case (Suc n)
  let ?s = "replicate (Suc n) (CHR 0xFF)"
  have "utf8_width ?s = None" "error_len ?s = 1"
    by (simp_all add: utf8_width_def byte_at_def utf8_lead_width_def in_range_def error_len_def Let_def)
  then show ?case using Suc by (subst from_utf8_lossy.simps) simp
qed (simp add: from_utf8_lossy.simps)

lemma trim_bad_text: "0 < n \<Longrightarrow> trim (concat (replicate n REPLACEMENT)) = concat (replicate n REPLACEMENT)"
proof -
  assume n: "0 < n"
  let ?t = "concat (replicate n REPLACEMENT)"
  obtain m where m: "n = Suc m" using n by (cases n) auto
  have f: "hd ?t = CHR 0xEF" by (simp add: m REPLACEMENT_def)
  have b: "hd (rev ?t) = CHR 0xBD"
  proof -
    have "?t = concat (replicate m REPLACEMENT) @ REPLACEMENT"
      unfolding m by (induction m) simp_all
    then show ?thesis by (simp add: REPLACEMENT_def)
  qed
  have "strip_front white_space ?t = ?t" by (rule strip_front_fresh) (simp add: f white_space_def)
  moreover have "strip_front (map rev white_space) (rev ?t) = rev ?t" by (rule strip_front_fresh) (simp add: b white_space_def)
  ultimately show ?thesis by (simp add: trim_def trim_start_def trim_end_def)
qed

section \<open>Properties\<close>

text \<open>rotation never loses the newest log text and never splits a line: whatever is written, in whatever pieces the operating
  system accepts it, what can be read from the files, oldest first, is a suffix of everything written,
  and every rotated file ends with a complete line.\<close>
theorem log_rotation_keeps_newest:
  "(\<exists>gone. gone @ log_history (log_run ws (with_limits Map.empty max_bytes max_files)) = concat (map (\<lambda>(n, b). take n b) ws)) \<and>
   (file_text (log_run ws (with_limits Map.empty max_bytes max_files)) (Suc i) = [] \<or>
    last (file_text (log_run ws (with_limits Map.empty max_bytes max_files)) (Suc i)) = NEWLINE)"
proof -
  let ?l = "with_limits Map.empty max_bytes max_files"
  have "log_inv ?l" "log_history ?l = []"
    by (simp_all add: with_limits_def log_inv_def file_text_def log_history_def concat_eq_Nil_conv)
  then show ?thesis using log_run_facts [of ?l ws] by (auto simp: log_inv_def)
qed

text \<open>the log stays within its budget: when whole lines of at most \<^term>\<open>len\<close> bytes are written, there are at most
  \<^term>\<open>max max_files 1\<close> rotated files and each file holds at most \<^term>\<open>max_bytes + len\<close> bytes.\<close>
theorem log_size_bounded:
  assumes "list_all (whole_line len) ws"
  shows "length (file_text (log_run ws (with_limits Map.empty max_bytes max_files)) i) \<le>
    (if i \<le> max max_files 1 then max_bytes + len else 0)"
proof -
  have "size_inv len (with_limits Map.empty max_bytes max_files)"
    by (simp add: size_inv_def with_limits_def file_text_def)
  from size_run [OF this assms] show ?thesis by (auto simp: size_inv_def with_limits_def)
qed

theorem log_size_bounded_witness:
  "length (file_text (log_run (replicate 9 (4, ''abc'' @ [NEWLINE])) (with_limits Map.empty 8 2)) 0) \<le> 12"
  using log_size_bounded [of 4 "replicate 9 (4, ''abc'' @ [NEWLINE])" 8 2 0]
  by (simp add: list_all_length whole_line_def NEWLINE_def)


text \<open>the size ceiling on a log request does not keep the answer within a frame: a log file of 512 KiB of bytes that
  are not UTF-8 is answered with three times as much text, more than a frame may carry.\<close>
theorem runtime_log_exceeds_frame:
  "let content = replicate MAX_LOG_BYTES CHR 0xFF;
       tree = \<lparr>lt_logs = [\<lparr>de_name = LOG_FILE_NAME, de_is_file = True, de_content = content, de_modified_ms = 0,
                         de_fault = NoTailFault\<rparr>], lt_old = []\<rparr>
   in length (log_text (read_runtime_log tree None MAX_LOG_BYTES)) = 3 * MAX_LOG_BYTES \<and>
      MAX_FRAME_BODY_BYTES < 3 * MAX_LOG_BYTES"
proof -
  define content where "content = replicate MAX_LOG_BYTES (CHR 0xFF)"
  define e where "e = \<lparr>de_name = LOG_FILE_NAME, de_is_file = True, de_content = content, de_modified_ms = 0,
      de_fault = NoTailFault\<rparr>"
  define tree where "tree = \<lparr>lt_logs = [e], lt_old = []\<rparr>"
  have files: "list_files tree = [\<lparr>lf_name = LOG_FILE_NAME, lf_bytes = length content, lf_modified_ms = 0\<rparr>]"
    by (simp add: list_files_def tree_def log_collect_def e_def LOG_FILE_NAME_def)
  have e: "log_resolve tree LOG_FILE_NAME = Some e"
  proof -
    have "split_once CHR ''/'' LOG_FILE_NAME = None" by (simp add: split_once_None LOG_FILE_NAME_def)
    then show ?thesis by (simp add: log_resolve_def tree_def e_def)
  qed
  have len: "length content = MAX_LOG_BYTES" by (simp add: content_def)
  have t: "tail_text (read_tail (Some e) MAX_LOG_BYTES) = concat (replicate MAX_LOG_BYTES REPLACEMENT)"
    by (simp add: read_tail_def e_def len Let_def) (simp add: content_def lossy_bad_bytes)
  have pos: "0 < MAX_LOG_BYTES" by (simp add: MAX_LOG_BYTES_def)
  have "min (max MAX_LOG_BYTES (4 * 1024)) MAX_LOG_BYTES = MAX_LOG_BYTES" by simp
  then have "log_text (read_runtime_log tree None MAX_LOG_BYTES) = concat (replicate MAX_LOG_BYTES REPLACEMENT)"
    using trim_bad_text [OF pos] pos by (simp add: read_runtime_log_def Let_def files e t) (simp add: REPLACEMENT_def)
  moreover have "length (concat (replicate n REPLACEMENT)) = 3 * n" for n by (induction n) (simp_all add: REPLACEMENT_def)
  ultimately show ?thesis
    by (simp add: Let_def tree_def [symmetric] e_def [symmetric] content_def [symmetric] MAX_FRAME_BODY_BYTES_def)
      (simp add: tree_def e_def content_def MAX_LOG_BYTES_def)
qed

end
