(* ===== verification/Settings.thy ===== *)
theory Settings
  imports Packages
begin

text \<open>
  \<^verbatim>\<open>cch_settings\<close>: the adapter around Android's \<^verbatim>\<open>settings\<close> command.  The command is a parameter
  \<^term>\<open>run\<close>: arguments and the state of the device to an error or an output, and the state afterwards.

  The lemmas show that a name taken from outside never reaches the command unchecked, and that on a device
  whose settings keep what is put into them the dialog takeover does what its status says.
\<close>

section \<open>The command\<close>

definition HIDE :: string where "HIDE = ''hide_error_dialogs''"
definition ANR_BG :: string where "ANR_BG = ''anr_show_background''"
definition MIN_SDK :: int where "MIN_SDK = 28"

record CommandOutput =
  co_success :: bool
  co_stdout :: string
  co_stderr :: string

text \<open>\<^verbatim>\<open>DialogTakeoverStatus\<close> of this crate; the wire type of the same name is built from it.\<close>

record SettingsTakeoverStatus =
  ts_supported :: bool
  ts_requested :: bool
  ts_effective :: bool
  ts_anr_show_background :: bool
  ts_anr_override_needs_clear :: bool

datatype SettingsError =
  UnsupportedSdk int
| InvalidSettingsName string
| InvalidValue string string string
| CommandIo string
| CommandFailed "string list" string

type_synonym 'd command = "string list \<Rightarrow> 'd \<Rightarrow> (string + CommandOutput) \<times> 'd"

text \<open>A step on the device that may fail; \<^verbatim>\<open>?\<close> ends the operation but not what was done before.\<close>

type_synonym ('d, 'a) on_device = "'d \<Rightarrow> (SettingsError + 'a) \<times> 'd"

definition then_on :: "('d, 'a) on_device \<Rightarrow> ('a \<Rightarrow> ('d, 'b) on_device) \<Rightarrow> ('d, 'b) on_device" where
  "then_on m f d = (case m d of (Inl e, d1) \<Rightarrow> (Inl e, d1) | (Inr x, d1) \<Rightarrow> f x d1)"

definition give :: "SettingsError + 'a \<Rightarrow> ('d, 'a) on_device" where
  "give r d = (r, d)"

section \<open>Names\<close>

definition validate_namespace :: "string \<Rightarrow> SettingsError + unit" where
  "validate_namespace v = (if v = ''global'' \<or> v = ''secure'' then Inr () else Inl (InvalidSettingsName ''namespace''))"

definition validate_key :: "string \<Rightarrow> SettingsError + unit" where
  "validate_key v =
     (if v \<noteq> [] \<and> length v \<le> 160 \<and>
         list_all (\<lambda>b. is_ascii_alphanumeric b \<or> b \<in> {CHR ''_'', CHR '':'', CHR ''.''}) v
      then Inr () else Inl (InvalidSettingsName ''key''))"

definition validate_tag :: "string \<Rightarrow> SettingsError + unit" where
  "validate_tag v =
     (if v \<noteq> [] \<and> length v \<le> 100 \<and> list_all (\<lambda>b. is_ascii_alphanumeric b \<or> b = CHR ''_'') v
      then Inr () else Inl (InvalidSettingsName ''dropbox tag''))"

section \<open>Reading and writing\<close>

definition settings_exec :: "'d command \<Rightarrow> string list \<Rightarrow> ('d, CommandOutput) on_device" where
  "settings_exec run args d =
     (case run args d of
        (Inl e, d1) \<Rightarrow> (Inl (CommandIo e), d1)
      | (Inr o1, d1) \<Rightarrow>
          if co_success o1 then (Inr o1, d1) else (Inl (CommandFailed args (trim (co_stderr o1))), d1))"

definition settings_get :: "'d command \<Rightarrow> string \<Rightarrow> string \<Rightarrow> ('d, string option) on_device" where
  "settings_get run ns key =
     then_on (give (validate_namespace ns)) (\<lambda>_.
     then_on (give (validate_key key)) (\<lambda>_.
     then_on (settings_exec run [''get'', ns, key]) (\<lambda>o1.
       let v = trim (co_stdout o1)
       in give (Inr (if v = [] \<or> eq_ignore_ascii_case v ''null'' then None else Some v)))))"

definition settings_get_i64 :: "'d command \<Rightarrow> string \<Rightarrow> string \<Rightarrow> ('d, int option) on_device" where
  "settings_get_i64 run ns key =
     then_on (settings_get run ns key) (\<lambda>found. give
       (case found of
          None \<Rightarrow> Inr None
        | Some v \<Rightarrow>
            (case parse_signed is_i64 v of None \<Rightarrow> Inl (InvalidValue ns key v) | Some i \<Rightarrow> Inr (Some i))))"

definition settings_put_i64 :: "'d command \<Rightarrow> string \<Rightarrow> string \<Rightarrow> int \<Rightarrow> ('d, unit) on_device" where
  "settings_put_i64 run ns key v =
     then_on (give (validate_namespace ns)) (\<lambda>_.
     then_on (give (validate_key key)) (\<lambda>_.
     then_on (settings_exec run [''put'', ns, key, int_to_dec v]) (\<lambda>_. give (Inr ()))))"

section \<open>The dialog takeover\<close>

definition dialog_takeover_status :: "'d command \<Rightarrow> int \<Rightarrow> ('d, SettingsTakeoverStatus) on_device" where
  "dialog_takeover_status run sdk =
     then_on (settings_get_i64 run ''global'' HIDE) (\<lambda>h.
     then_on (settings_get_i64 run ''secure'' ANR_BG) (\<lambda>b.
       let supported = MIN_SDK \<le> sdk; requested = unwrap_or h 0 \<noteq> 0; bg = unwrap_or b 0 \<noteq> 0
       in give (Inr \<lparr>ts_supported = supported, ts_requested = requested,
                     ts_effective = (supported \<and> requested \<and> \<not> bg), ts_anr_show_background = bg,
                     ts_anr_override_needs_clear = (requested \<and> bg)\<rparr>)))"

definition settings_set_takeover :: "'d command \<Rightarrow> int \<Rightarrow> bool \<Rightarrow> ('d, SettingsTakeoverStatus) on_device" where
  "settings_set_takeover run sdk on =
     (if on \<and> sdk < MIN_SDK then give (Inl (UnsupportedSdk sdk))
      else
        then_on (if on then settings_put_i64 run ''secure'' ANR_BG 0 else give (Inr ())) (\<lambda>_.
        then_on (settings_put_i64 run ''global'' HIDE (if on then 1 else 0)) (\<lambda>_.
          dialog_takeover_status run sdk)))"

definition dropbox_tag_enabled :: "'d command \<Rightarrow> string \<Rightarrow> ('d, bool) on_device" where
  "dropbox_tag_enabled run tag =
     then_on (give (validate_tag tag)) (\<lambda>_.
     then_on (settings_get run ''global'' (''dropbox:'' @ tag)) (\<lambda>v.
       give (Inr (\<not> (case v of None \<Rightarrow> False | Some x \<Rightarrow> eq_ignore_ascii_case x ''disabled'')))))"

section \<open>What reaches the command\<close>

text \<open>Arguments made of the verb, one of the two namespaces, a key of safe characters and, for a write, a number.\<close>

definition safe_key :: "string \<Rightarrow> bool" where
  "safe_key k \<longleftrightarrow> validate_key k = Inr ()"

definition safe_arguments :: "string list \<Rightarrow> bool" where
  "safe_arguments args \<longleftrightarrow>
     (case args of
        [verb, ns, key] \<Rightarrow> verb = ''get'' \<and> validate_namespace ns = Inr () \<and> safe_key key
      | [verb, ns, key, v] \<Rightarrow> verb = ''put'' \<and> validate_namespace ns = Inr () \<and> safe_key key \<and> (\<exists>i. v = int_to_dec i)
      | _ \<Rightarrow> False)"

text \<open>The command with every other argument list refused.\<close>

definition guarded :: "'d command \<Rightarrow> 'd command" where
  "guarded run args d = (if safe_arguments args then run args d else (Inl ''refused'', d))"

lemma then_on_give [simp]: "then_on (give (Inr x)) f = f x" "then_on (give (Inl e)) f = give (Inl e)"
  by (simp_all add: then_on_def give_def fun_eq_iff)

lemma exec_guarded: "safe_arguments args \<Longrightarrow> settings_exec (guarded run) args = settings_exec run args"
  by (simp add: settings_exec_def guarded_def fun_eq_iff)

lemma give_cases: "(r = Inr () \<Longrightarrow> f () = g ()) \<Longrightarrow> then_on (give r) f = then_on (give r) g"
  by (cases r) simp_all

lemma get_guarded: "settings_get (guarded run) ns key = settings_get run ns key"
  unfolding settings_get_def
  by (intro give_cases) (simp add: exec_guarded safe_arguments_def safe_key_def)

lemma put_guarded: "settings_put_i64 (guarded run) ns key v = settings_put_i64 run ns key v"
  unfolding settings_put_i64_def
  by (intro give_cases, subst exec_guarded) (auto simp: safe_arguments_def safe_key_def)

text \<open>whatever key, namespace or tag an operation is given, no argument reaches the settings command except a verb, one
  of two namespaces, a key of letters, digits, \<^verbatim>\<open>_\<close>, \<^verbatim>\<open>:\<close> and \<^verbatim>\<open>.\<close>, and a number: every operation
  behaves as with a command that refuses everything else.\<close>
theorem settings_arguments_are_safe:
  "settings_get (guarded run) ns key = settings_get run ns key \<and>
   settings_get_i64 (guarded run) ns key = settings_get_i64 run ns key \<and>
   settings_put_i64 (guarded run) ns key v = settings_put_i64 run ns key v \<and>
   dropbox_tag_enabled (guarded run) tag = dropbox_tag_enabled run tag \<and>
   settings_set_takeover (guarded run) sdk on = settings_set_takeover run sdk on"
  by (simp add: settings_get_i64_def dropbox_tag_enabled_def settings_set_takeover_def dialog_takeover_status_def
      get_guarded put_guarded)

section \<open>A device that keeps its settings\<close>

text \<open>What Android documents of the command: \<^verbatim>\<open>put\<close> stores a value, \<^verbatim>\<open>get\<close> prints it with a line feed,
  or \<^verbatim>\<open>null\<close> when there is none; other settings do not change.\<close>

definition keeps_settings :: "'d command \<Rightarrow> ('d \<Rightarrow> string \<Rightarrow> string \<Rightarrow> string option) \<Rightarrow> bool" where
  "keeps_settings run setting \<longleftrightarrow>
     (\<forall>d ns key. \<exists>err. run [''get'', ns, key] d =
        (Inr \<lparr>co_success = True, co_stdout = unwrap_or (setting d ns key) ''null'' @ [CHR 0x0A], co_stderr = err\<rparr>, d)) \<and>
     (\<forall>d ns key v. \<exists>out err d1. run [''put'', ns, key, v] d = (Inr \<lparr>co_success = True, co_stdout = out, co_stderr = err\<rparr>, d1) \<and>
        setting d1 = (setting d)(ns := (setting d ns)(key \<mapsto> v)))"

lemma trim_line: "s \<noteq> [] \<Longrightarrow> graph_char (hd s) \<Longrightarrow> graph_char (last s) \<Longrightarrow> trim (s @ [CHR 0x0A]) = s"
proof -
  assume s: "s \<noteq> []" "graph_char (hd s)" "graph_char (last s)"
  have front: "strip_front white_space (s @ [CHR 0x0A]) = s @ [CHR 0x0A]"
    by (rule strip_front_fresh) (use s graph_not_white in simp)
  have "match_len (map rev white_space) (CHR 0x0A # rev s) = 1" by (simp add: match_len_def white_space_def)
  then have "strip_front (map rev white_space) (CHR 0x0A # rev s) = strip_front (map rev white_space) (rev s)"
    by (simp add: strip_front.simps [of _ "CHR 0x0A # rev s"])
  also have "\<dots> = rev s" by (rule strip_front_fresh) (use s graph_not_white in \<open>simp add: hd_rev\<close>)
  finally show ?thesis by (simp add: trim_def trim_start_def trim_end_def front)
qed

lemma safe_names [simp]: "validate_namespace ''global'' = Inr ()" "validate_namespace ''secure'' = Inr ()"
  "validate_key HIDE = Inr ()" "validate_key ANR_BG = Inr ()"
  by code_simp+

lemma get_kept_flag:
  assumes "keeps_settings run setting" and "validate_namespace ns = Inr ()" and "validate_key key = Inr ()"
    and "setting d ns key = Some (if on then ''1'' else ''0'')"
  shows "settings_get_i64 run ns key d = (Inr (Some (if on then 1 else 0)), d)"
proof -
  have "trim ((if on then ''1'' else ''0'') @ [CHR 0x0A]) = (if on then ''1'' else ''0'')"
    by (rule trim_line) (simp_all add: graph_char_def in_range_def)
  moreover have "\<not> eq_ignore_ascii_case ''1'' ''null''" "\<not> eq_ignore_ascii_case ''0'' ''null''" by code_simp+
  moreover have "parse_signed is_i64 ''1'' = Some 1" "parse_signed is_i64 ''0'' = Some 0" by code_simp+
  moreover obtain err where "run [''get'', ns, key] d =
      (Inr \<lparr>co_success = True, co_stdout = (if on then ''1'' else ''0'') @ [CHR 0x0A], co_stderr = err\<rparr>, d)"
    using assms(1,4) unfolding keeps_settings_def by (metis unwrap_or.simps(1))
  ultimately show ?thesis
    using assms(2,3) by (cases on) (simp_all add: settings_get_i64_def settings_get_def settings_exec_def then_on_def give_def)
qed

lemma put_kept:
  assumes "keeps_settings run setting" and "validate_namespace ns = Inr ()" and "validate_key key = Inr ()"
  obtains d1 where "settings_put_i64 run ns key v d = (Inr (), d1)"
    and "setting d1 = (setting d)(ns := (setting d ns)(key \<mapsto> int_to_dec v))"
proof -
  obtain out err d1 where r: "run [''put'', ns, key, int_to_dec v] d = (Inr \<lparr>co_success = True, co_stdout = out, co_stderr = err\<rparr>, d1)"
    "setting d1 = (setting d)(ns := (setting d ns)(key \<mapsto> int_to_dec v))"
    using assms(1) unfolding keeps_settings_def by blast
  have "settings_put_i64 run ns key v d = (Inr (), d1)"
    using assms(2,3) r(1) by (simp add: settings_put_i64_def settings_exec_def then_on_def give_def)
  then show ?thesis using r(2) by (rule that)
qed

text \<open>on a device that keeps its settings, taking over the error dialogs is effective as soon as Android is new enough,
  whatever the two settings held before, and the status says so.\<close>
theorem dialog_takeover_effective:
  assumes "keeps_settings run setting" and "MIN_SDK \<le> sdk"
  shows "\<exists>d1. settings_set_takeover run sdk True d =
       (Inr \<lparr>ts_supported = True, ts_requested = True, ts_effective = True, ts_anr_show_background = False,
             ts_anr_override_needs_clear = False\<rparr>, d1) \<and>
     setting d1 ''global'' HIDE = Some ''1'' \<and> setting d1 ''secure'' ANR_BG = Some ''0''"
proof -
  obtain d1 where d1: "settings_put_i64 run ''secure'' ANR_BG 0 d = (Inr (), d1)"
      "setting d1 = (setting d)(''secure'' := (setting d ''secure'')(ANR_BG \<mapsto> int_to_dec 0))"
    using put_kept [OF assms(1)] by (metis safe_names(2,4))
  obtain d2 where d2: "settings_put_i64 run ''global'' HIDE 1 d1 = (Inr (), d2)"
      "setting d2 = (setting d1)(''global'' := (setting d1 ''global'')(HIDE \<mapsto> int_to_dec 1))"
    using put_kept [OF assms(1)] by (metis safe_names(1,3))
  have "int_to_dec 0 = ''0''" "int_to_dec 1 = ''1''" by code_simp+
  then have s: "setting d2 ''global'' HIDE = Some (if True then ''1'' else ''0'')"
    "setting d2 ''secure'' ANR_BG = Some (if False then ''1'' else ''0'')"
    using d1(2) d2(2) by simp_all
  have g: "settings_get_i64 run ''global'' HIDE d2 = (Inr (Some 1), d2)" "settings_get_i64 run ''secure'' ANR_BG d2 = (Inr (Some 0), d2)"
    using get_kept_flag [of run setting "''global''" HIDE d2 True] get_kept_flag [of run setting "''secure''" ANR_BG d2 False]
      assms(1) s by simp_all
  have "settings_set_takeover run sdk True d = dialog_takeover_status run sdk d2"
    using assms(2) by (simp add: settings_set_takeover_def then_on_def d1(1) d2(1))
  also have "\<dots> = (Inr \<lparr>ts_supported = True, ts_requested = True, ts_effective = True, ts_anr_show_background = False,
             ts_anr_override_needs_clear = False\<rparr>, d2)"
    using assms(2) by (simp add: dialog_takeover_status_def then_on_def g give_def)
  finally show ?thesis using s by simp
qed

text \<open>The command of the crate's own tests: a map in memory.\<close>

definition fake_run :: "(string \<Rightarrow> string \<Rightarrow> string option) command" where
  "fake_run a v =
     (case a of
        [verb, ns, key] \<Rightarrow>
          if verb = ''get''
          then (Inr \<lparr>co_success = True, co_stdout = unwrap_or (v ns key) ''null'' @ [CHR 0x0A], co_stderr = []\<rparr>, v)
          else (Inl ''bad fake'', v)
      | [verb, ns, key, x] \<Rightarrow>
          if verb = ''put''
          then (Inr \<lparr>co_success = True, co_stdout = [], co_stderr = []\<rparr>, v(ns := (v ns)(key \<mapsto> x)))
          else (Inl ''bad fake'', v)
      | _ \<Rightarrow> (Inl ''bad fake'', v))"

theorem dialog_takeover_effective_witness:
  "\<exists>d1 s. settings_set_takeover fake_run 35 True (\<lambda>_. [ANR_BG \<mapsto> ''1'']) = (Inr s, d1) \<and> ts_effective s"
proof -
  have "keeps_settings fake_run (\<lambda>d. d)" by (simp add: keeps_settings_def fake_run_def)
  moreover have "MIN_SDK \<le> 35" by (simp add: MIN_SDK_def)
  ultimately show ?thesis
    using dialog_takeover_effective [of fake_run "\<lambda>d. d" 35 "\<lambda>_. [ANR_BG \<mapsto> ''1'']"] by auto
qed

end
