(* ===== verification/Bridge.thy ===== *)
theory Bridge
  imports Wire
begin

text \<open>
  The daemon's side of the privileged bridge: the messages of \<^verbatim>\<open>cch_wire/bridge.rs\<close>, the broker of
  \<^verbatim>\<open>cch_daemond/bridge_broker.rs\<close> that pairs replies with the requests waiting for them, and the
  restart policy of \<^verbatim>\<open>cch_bridge_supervisor\<close>.

  The broker is shared by threads and each of its fields is behind a lock or an atomic of its own, so a
  request is not one step: it is a sequence of steps, one for every lock it takes, between which any
  other thread may run.  \<open>bridge_step\<close> is this interleaving.  A channel is what is left of it here: whether its
  receiver is alive, and what it carried; a poisoned lock (a thread that panicked) is not modelled.
\<close>

section \<open>Messages\<close>

record BridgeHello =
  bh_android_sdk :: int
  bh_bridge_version :: string

record BridgePackageInfo =
  bp_package_name :: string
  bp_user_id :: int
  bp_version_name :: "string option"
  bp_version_code :: "int option"
  bp_target_sdk :: "int option"
  bp_min_sdk :: "int option"
  bp_primary_abi :: "string option"
  bp_label :: "string option"
  bp_is_system_app :: bool

datatype BridgeAction = OpenDetails | ReopenAppAction | AppInfo | MuteUntilUnlock | MuteUntilRestart

record NotificationSpec =
  ns_record_id :: RecordId
  ns_package_name :: string
  ns_user_id :: int
  ns_title :: string
  ns_body :: string
  ns_actions :: "(string \<times> BridgeAction) list"

record IntentSpec =
  is_action :: string
  is_package_name :: "string option"
  is_component :: "string option"
  is_extras :: "(string \<times> string) list"

type_synonym request_id = "64 word"

datatype BridgeCommand =
  PostNotificationCmd request_id NotificationSpec
| CancelNotificationCmd request_id RecordId
| QueryPackageInfoCmd request_id string int
| StartActivityCmd request_id IntentSpec int

datatype BridgeEvent =
  HelloEvent BridgeHello
| PackageInfoResult request_id "BridgePackageInfo option" "string option"
| ActivityResult request_id bool "string option"
| NotificationResult request_id bool "string option"
| ForegroundChanged "string option" "int option"

fun command_id :: "BridgeCommand \<Rightarrow> request_id" where
  "command_id (PostNotificationCmd i _) = i"
| "command_id (CancelNotificationCmd i _) = i"
| "command_id (QueryPackageInfoCmd i _ _) = i"
| "command_id (StartActivityCmd i _ _) = i"

fun reply_id :: "BridgeEvent \<Rightarrow> request_id option" where
  "reply_id (PackageInfoResult i _ _) = Some i"
| "reply_id (ActivityResult i _ _) = Some i"
| "reply_id (NotificationResult i _ _) = Some i"
| "reply_id _ = None"

section \<open>The broker\<close>

text \<open>A pending entry holds the sending half of the reply channel of one call; it is named by the call.  The
  command sender is named by its channel.\<close>

record BridgeBroker =
  bb_connected :: bool
  bb_next_request_id :: request_id
  bb_command_sender :: "nat option"
  bb_pending :: "request_id \<rightharpoonup> nat"
  bb_package_cache :: "string \<times> int \<rightharpoonup> BridgePackageInfo"
  bb_hello :: "BridgeHello option"

definition broker_default :: BridgeBroker where
  "broker_default =
     \<lparr>bb_connected = False, bb_next_request_id = 1, bb_command_sender = None, bb_pending = Map.empty,
      bb_package_cache = Map.empty, bb_hello = None\<rparr>"

definition broker_attach :: "nat \<Rightarrow> BridgeBroker \<Rightarrow> BridgeBroker" where
  "broker_attach channel b = b\<lparr>bb_command_sender := Some channel, bb_connected := False\<rparr>"

definition broker_detach :: "BridgeBroker \<Rightarrow> BridgeBroker" where
  "broker_detach b = b\<lparr>bb_connected := False, bb_command_sender := None, bb_pending := Map.empty\<rparr>"

definition remove_pending :: "request_id \<Rightarrow> BridgeBroker \<Rightarrow> BridgeBroker" where
  "remove_pending i b = b\<lparr>bb_pending := (bb_pending b)(i := None)\<rparr>"

text \<open>The call an event is sent to, if any, and the broker afterwards.\<close>

definition finish_request :: "request_id \<Rightarrow> BridgeEvent \<Rightarrow> BridgeBroker \<Rightarrow> (nat \<times> BridgeEvent) option \<times> BridgeBroker" where
  "finish_request i ev b = (map_option (\<lambda>c. (c, ev)) (bb_pending b i), remove_pending i b)"

definition cache_package :: "BridgePackageInfo option \<Rightarrow> BridgeBroker \<Rightarrow> BridgeBroker" where
  "cache_package package b =
     (case package of
        None \<Rightarrow> b
      | Some p \<Rightarrow> b\<lparr>bb_package_cache := (bb_package_cache b)((bp_package_name p, bp_user_id p) \<mapsto> p)\<rparr>)"

fun handle_event :: "BridgeEvent \<Rightarrow> BridgeBroker \<Rightarrow> (nat \<times> BridgeEvent) option \<times> BridgeBroker" where
  "handle_event (HelloEvent h) b = (None, b\<lparr>bb_connected := True, bb_hello := Some h\<rparr>)"
| "handle_event (PackageInfoResult i package e) b = finish_request i (PackageInfoResult i package e) (cache_package package b)"
| "handle_event (ActivityResult i l e) b = finish_request i (ActivityResult i l e) b"
| "handle_event (NotificationResult i p e) b = finish_request i (NotificationResult i p e) b"
| "handle_event (ForegroundChanged _ _) b = (None, b)"

definition cached_package :: "BridgeBroker \<Rightarrow> string \<Rightarrow> int \<Rightarrow> BridgePackageInfo option" where
  "cached_package b name user = bb_package_cache b (name, user)"

definition bridge_next_id :: "BridgeBroker \<Rightarrow> request_id \<times> BridgeBroker" where
  "bridge_next_id b = (bb_next_request_id b, b\<lparr>bb_next_request_id := bb_next_request_id b + 1\<rparr>)"

definition unavailable :: "string \<Rightarrow> WireError" where "unavailable m = wire_error Unavailable m"

definition not_connected :: WireError where "not_connected = unavailable ''system bridge is not connected''"
definition channel_closed :: WireError where "channel_closed = unavailable ''system bridge command channel closed''"
definition timed_out :: WireError where "timed_out = unavailable ''system bridge reply timed out''"
definition wrong_reply :: WireError where "wrong_reply = wire_error Internal ''bridge returned the wrong reply type''"

section \<open>Requests\<close>

text \<open>The four public requests, the command each sends, and what each makes of the reply.\<close>

datatype BridgeRequest =
  AskPackage string int
| AskActivity IntentSpec int
| AskPost NotificationSpec
| AskCancel RecordId

fun command_of :: "request_id \<Rightarrow> BridgeRequest \<Rightarrow> BridgeCommand" where
  "command_of i (AskPackage name user) = QueryPackageInfoCmd i name user"
| "command_of i (AskActivity intent user) = StartActivityCmd i intent user"
| "command_of i (AskPost spec) = PostNotificationCmd i spec"
| "command_of i (AskCancel r) = CancelNotificationCmd i r"

fun answered_from_cache :: "BridgeBroker \<Rightarrow> BridgeRequest \<Rightarrow> bool" where
  "answered_from_cache b (AskPackage name user) \<longleftrightarrow> cached_package b name user \<noteq> None"
| "answered_from_cache b _ \<longleftrightarrow> False"

definition or_unavailable :: "string option \<Rightarrow> 'a \<Rightarrow> WireError + 'a" where
  "or_unavailable e v = (case e of Some err \<Rightarrow> Inl (unavailable err) | None \<Rightarrow> Inr v)"

definition query_package_result :: "WireError + BridgeEvent \<Rightarrow> WireError + BridgePackageInfo option" where
  "query_package_result r =
     (case r of
        Inl e \<Rightarrow> Inl e
      | Inr (PackageInfoResult _ package err) \<Rightarrow> or_unavailable err package
      | Inr _ \<Rightarrow> Inl wrong_reply)"

definition start_activity_result :: "WireError + BridgeEvent \<Rightarrow> WireError + bool" where
  "start_activity_result r =
     (case r of
        Inl e \<Rightarrow> Inl e
      | Inr (ActivityResult _ launched err) \<Rightarrow> or_unavailable err launched
      | Inr _ \<Rightarrow> Inl wrong_reply)"

definition notification_result :: "WireError + BridgeEvent \<Rightarrow> WireError + bool" where
  "notification_result r =
     (case r of
        Inl e \<Rightarrow> Inl e
      | Inr (NotificationResult _ posted err) \<Rightarrow> or_unavailable err posted
      | Inr _ \<Rightarrow> Inl wrong_reply)"

section \<open>Calls in progress\<close>

text \<open>Where a call of \<^verbatim>\<open>request\<close> stands: it has its id; it has seen the bridge connected; it has registered its
  reply channel; it has sent its command and waits; it failed and is about to remove its entry; it has
  returned.\<close>

datatype CallPhase =
  Begun | Checked | Registered | Waiting
| Abandoning WireError
| Returned "WireError + BridgeEvent"

record BridgeCall =
  bc_id :: request_id
  bc_command :: BridgeCommand
  bc_phase :: CallPhase
  bc_inbox :: "BridgeEvent option"

record BridgeSystem =
  sys_broker :: BridgeBroker
  sys_calls :: "BridgeCall list"
  sys_alive :: "bool list"
  sys_carried :: "(nat \<times> BridgeCommand) list"

definition bridge_start :: BridgeSystem where
  "bridge_start = \<lparr>sys_broker = broker_default, sys_calls = [], sys_alive = [], sys_carried = []\<rparr>"

definition set_phase :: "nat \<Rightarrow> CallPhase \<Rightarrow> BridgeSystem \<Rightarrow> BridgeSystem" where
  "set_phase c p s = s\<lparr>sys_calls := (sys_calls s)[c := (sys_calls s ! c)\<lparr>bc_phase := p\<rparr>]\<rparr>"

definition update_broker :: "(BridgeBroker \<Rightarrow> BridgeBroker) \<Rightarrow> BridgeSystem \<Rightarrow> BridgeSystem" where
  "update_broker f s = s\<lparr>sys_broker := f (sys_broker s)\<rparr>"

text \<open>The reply channel of a call that has returned has no receiver; what is sent to it is not read.\<close>

definition deliver :: "(nat \<times> BridgeEvent) option \<Rightarrow> BridgeSystem \<Rightarrow> BridgeSystem" where
  "deliver out s =
     (case out of
        None \<Rightarrow> s
      | Some (c, ev) \<Rightarrow> s\<lparr>sys_calls := (sys_calls s)[c := (sys_calls s ! c)\<lparr>bc_inbox := Some ev\<rparr>]\<rparr>)"

definition at_phase :: "BridgeSystem \<Rightarrow> nat \<Rightarrow> CallPhase \<Rightarrow> bool" where
  "at_phase s c p \<longleftrightarrow> c < length (sys_calls s) \<and> bc_phase (sys_calls s ! c) = p"

datatype BridgeLabel =
  Ask BridgeRequest
| CallStep nat
| AttachBridge
| DetachBridge
| WriterEnds nat
| Event BridgeEvent

inductive bridge_step :: "BridgeSystem \<Rightarrow> BridgeLabel \<Rightarrow> BridgeSystem \<Rightarrow> bool" where
  ask: "\<not> answered_from_cache (sys_broker s) r \<Longrightarrow> bridge_next_id (sys_broker s) = (i, b) \<Longrightarrow>
    bridge_step s (Ask r)
      (s\<lparr>sys_broker := b,
         sys_calls := sys_calls s @ [\<lparr>bc_id = i, bc_command = command_of i r, bc_phase = Begun, bc_inbox = None\<rparr>]\<rparr>)"
| check: "at_phase s c Begun \<Longrightarrow>
    bridge_step s (CallStep c)
      (set_phase c (if bb_connected (sys_broker s) then Checked else Returned (Inl not_connected)) s)"
| register: "at_phase s c Checked \<Longrightarrow>
    bridge_step s (CallStep c)
      (set_phase c Registered
        (update_broker (\<lambda>b. b\<lparr>bb_pending := (bb_pending b)(bc_id (sys_calls s ! c) \<mapsto> c)\<rparr>) s))"
| send_gone: "at_phase s c Registered \<Longrightarrow> bb_command_sender (sys_broker s) = None \<Longrightarrow>
    bridge_step s (CallStep c) (set_phase c (Returned (Inl not_connected)) s)"
| send_closed: "at_phase s c Registered \<Longrightarrow> bb_command_sender (sys_broker s) = Some ch \<Longrightarrow> \<not> sys_alive s ! ch \<Longrightarrow>
    bridge_step s (CallStep c) (set_phase c (Abandoning channel_closed) s)"
| send: "at_phase s c Registered \<Longrightarrow> bb_command_sender (sys_broker s) = Some ch \<Longrightarrow> sys_alive s ! ch \<Longrightarrow>
    bridge_step s (CallStep c)
      (set_phase c Waiting (s\<lparr>sys_carried := sys_carried s @ [(ch, bc_command (sys_calls s ! c))]\<rparr>))"
| receive: "at_phase s c Waiting \<Longrightarrow> bc_inbox (sys_calls s ! c) = Some ev \<Longrightarrow>
    bridge_step s (CallStep c) (set_phase c (Returned (Inr ev)) s)"
| time_out: "at_phase s c Waiting \<Longrightarrow> bc_inbox (sys_calls s ! c) = None \<Longrightarrow>
    bridge_step s (CallStep c) (set_phase c (Abandoning timed_out) s)"
| abandon: "at_phase s c (Abandoning e) \<Longrightarrow>
    bridge_step s (CallStep c)
      (set_phase c (Returned (Inl e)) (update_broker (remove_pending (bc_id (sys_calls s ! c))) s))"
| attach: "bridge_step s AttachBridge
    (update_broker (broker_attach (length (sys_alive s))) (s\<lparr>sys_alive := sys_alive s @ [True]\<rparr>))"
| detach: "bridge_step s DetachBridge (update_broker broker_detach s)"
| writer_ends: "bridge_step s (WriterEnds ch) (s\<lparr>sys_alive := (sys_alive s)[ch := False]\<rparr>)"
| event: "handle_event ev (sys_broker s) = (out, b) \<Longrightarrow>
    bridge_step s (Event ev) (deliver out (s\<lparr>sys_broker := b\<rparr>))"

inductive_cases bridge_stepE: "bridge_step s l t"

text \<open>The states reached by steps that satisfy a condition.\<close>

inductive bridge_reach :: "(BridgeSystem \<Rightarrow> BridgeLabel \<Rightarrow> bool) \<Rightarrow> BridgeSystem \<Rightarrow> bool" for P where
  start: "bridge_reach P bridge_start"
| step: "bridge_reach P s \<Longrightarrow> P s l \<Longrightarrow> bridge_step s l t \<Longrightarrow> bridge_reach P t"

section \<open>The supervisor\<close>

record BridgeProcessSpec =
  sp_app_process :: string
  sp_dex_path :: string
  sp_main_class :: string
  sp_socket_name :: string
  sp_manager_package :: string

definition android_defaults :: "string \<Rightarrow> string \<Rightarrow> string \<Rightarrow> BridgeProcessSpec" where
  "android_defaults dex socket manager =
     \<lparr>sp_app_process = ''/system/bin/app_process'', sp_dex_path = dex,
      sp_main_class = ''io.github.lingqiqi5211.crashcatcher.bridge.CrashCatcherBridge'',
      sp_socket_name = socket, sp_manager_package = manager\<rparr>"

text \<open>The program, its environment and its arguments.\<close>

definition spec_command :: "BridgeProcessSpec \<Rightarrow> string \<times> (string \<times> string) list \<times> string list" where
  "spec_command sp =
     (sp_app_process sp, [(''CLASSPATH'', sp_dex_path sp)],
      [''/system/bin'', sp_main_class sp, ''--socket'', sp_socket_name sp, ''--manager-package'', sp_manager_package sp])"

text \<open>Durations in nanoseconds; \<^verbatim>\<open>saturating_mul\<close> stops at the largest.\<close>

definition DURATION_MAX :: nat where "DURATION_MAX = (2 ^ 64 - 1) * 10 ^ 9 + 999999999"

record RestartPolicy =
  rp_initial_delay :: nat
  rp_maximum_delay :: nat
  rp_stable_after :: nat

definition default_policy :: RestartPolicy where
  "default_policy = \<lparr>rp_initial_delay = 1 * 10 ^ 9, rp_maximum_delay = 60 * 10 ^ 9, rp_stable_after = 30 * 10 ^ 9\<rparr>"

definition next_delay :: "RestartPolicy \<Rightarrow> nat \<Rightarrow> nat \<Rightarrow> nat" where
  "next_delay policy previous ran_for =
     (if ran_for \<ge> rp_stable_after policy then rp_initial_delay policy
      else min (min (2 * previous) DURATION_MAX) (rp_maximum_delay policy))"

datatype BridgeState =
  BridgeStarting
| BridgeRunning int int
| BridgeBackoff nat int string
| BridgeStopped

text \<open>What the environment does in one round of the loop: the process starts and exits after a time, it does not
  start, or it starts and the supervisor is asked to stop while it runs.  A stop between two rounds is the
  end of the list.\<close>

datatype Attempt = Exited int nat | NoStart | StopRequested int

text \<open>The states the supervisor goes through, in order.\<close>

fun supervise_loop :: "RestartPolicy \<Rightarrow> nat \<Rightarrow> int \<Rightarrow> Attempt list \<Rightarrow> BridgeState list" where
  "supervise_loop policy delay restarts [] = [BridgeStopped]"
| "supervise_loop policy delay restarts (Exited child ran_for # rest) =
     (let d = next_delay policy delay ran_for; n = u64_saturating_add restarts 1
      in BridgeStarting # BridgeRunning child restarts # BridgeBackoff d n ''bridge exited or could not start'' #
         supervise_loop policy d n rest)"
| "supervise_loop policy delay restarts (NoStart # rest) =
     (let d = next_delay policy delay 0; n = u64_saturating_add restarts 1
      in BridgeStarting # BridgeBackoff d n ''bridge exited or could not start'' # supervise_loop policy d n rest)"
| "supervise_loop policy delay restarts (StopRequested child # rest) =
     [BridgeStarting, BridgeRunning child restarts, BridgeStopped]"

definition supervise :: "RestartPolicy \<Rightarrow> Attempt list \<Rightarrow> BridgeState list" where
  "supervise policy attempts = supervise_loop policy (rp_initial_delay policy) 0 attempts"

datatype SupervisorError = InvalidSpec | SpawnThread string | JoinError

text \<open>\<^verbatim>\<open>BridgeSupervisor::start\<close>: what is checked before the thread is started.\<close>

definition supervisor_start :: "string option \<Rightarrow> BridgeProcessSpec \<Rightarrow> SupervisorError + BridgeState" where
  "supervisor_start spawn_error sp =
     (if sp_main_class sp = [] \<or> sp_socket_name sp = [] then Inl InvalidSpec
      else (case spawn_error of Some e \<Rightarrow> Inl (SpawnThread e) | None \<Rightarrow> Inr BridgeStarting))"

end
