(* ===== verification/Daemon.thy ===== *)
theory Daemon
  imports Store_Stats Auth Diagnostics Settings Bridge
begin

text \<open>
  \<^verbatim>\<open>cch_daemond/src/core.rs\<close>: the daemon's core, which ties the store, the configuration, the package
  index and the bridge together.

  The state the Rust struct keeps behind locks is one record, and every method is a function on it; the
  methods take their locks one at a time and no lock is ever poisoned, because no code panics while it
  holds one.  What a call meets outside the process (clock readings, failures of the disk and of
  SQLite, the answers of the bridge, of \<^verbatim>\<open>am\<close> and of the settings command) is the record \<^verbatim>\<open>Env\<close>.
  Notifications and alert activities are kept as the list of effects the core has had.
\<close>

section \<open>Events and the bus\<close>

record CollectorHealth =
  ch_source :: CollectorSource
  ch_enabled :: bool
  ch_ever_received :: bool
  ch_last_received_ms :: "int option"
  ch_detail :: "string option"

record DialogTakeoverStatus =
  dt_requested :: bool
  dt_effective :: bool
  dt_anr_conflict :: bool
  dt_unsupported_reason :: "string option"

record RuntimeFacts =
  rf_pid :: int
  rf_abi :: string
  rf_android_sdk :: int
  rf_selinux :: string
  rf_store_schema_version :: int
  rf_debug_logging :: bool
  rf_package_count :: nat
  rf_system_flags_known :: bool
  rf_bridge_connected :: bool
  rf_bridge_version :: "string option"
  rf_bridge_sdk :: "int option"
  rf_active_mutes :: nat

record ModuleStatus =
  ms_daemon_version :: string
  ms_protocol_version :: int
  ms_uptime_ms :: int
  ms_collectors :: "CollectorHealth list"
  ms_bridge_connected :: bool
  ms_dialog_takeover :: DialogTakeoverStatus
  ms_storage :: StorageStatus
  ms_runtime :: RuntimeFacts

datatype DaemonEvent =
  CrashRecorded RecordSummary GroupSummary bool
| ConfigChanged
| ModuleStatusChanged ModuleStatus
| EventsDropped nat int

definition EVENT_QUEUE_CAPACITY :: nat where "EVENT_QUEUE_CAPACITY = 256"

text \<open>A subscriber is its bounded queue and whether its receiver still exists.\<close>

record Subscriber =
  sub_queue :: "DaemonEvent list"
  sub_open :: bool

definition try_send :: "DaemonEvent \<Rightarrow> Subscriber \<Rightarrow> Subscriber" where
  "try_send ev s = (if length (sub_queue s) < EVENT_QUEUE_CAPACITY then s\<lparr>sub_queue := sub_queue s @ [ev]\<rparr> else s)"

definition bus_broadcast :: "DaemonEvent \<Rightarrow> Subscriber list \<Rightarrow> Subscriber list" where
  "bus_broadcast ev subs = map (try_send ev) (filter sub_open subs)"

definition bus_subscribe :: "Subscriber list \<Rightarrow> Subscriber list" where
  "bus_subscribe subs = subs @ [\<lparr>sub_queue = [], sub_open = True\<rparr>]"

section \<open>Effects\<close>

datatype Effect = PostNotification NotificationSpec | RunAm "string list"

section \<open>State and environment\<close>

record DaemonCore =
  core_store :: Store
  core_files :: "path \<rightharpoonup> string"
  core_packages :: PackageIndex
  core_collectors :: "string \<rightharpoonup> CollectorHealth"
  core_events :: "Subscriber list"
  core_payload_handles :: "64 word \<rightharpoonup> RecordId"
  core_next_payload_handle :: "64 word"
  core_volatile_mutes :: "string \<rightharpoonup> MuteScope"
  core_last_package_reload_ms :: int
  core_debug_log :: bool
  core_effects :: "Effect list"

record Env =
  env_world :: World
  env_clock :: "nat \<Rightarrow> int"
  env_disk :: Disk
  env_config_path :: path
  env_from_json :: "string \<Rightarrow> ConfigDocument option"
  env_to_json :: "ConfigDocument \<Rightarrow> string option"
  env_describe :: "StoreError \<Rightarrow> string"
  env_describe_config :: "ConfigError \<Rightarrow> string"
  env_describe_auth :: "AuthError \<Rightarrow> string"
  env_unzstd :: "u8 list \<Rightarrow> u8 list option"
  env_memfd_fails :: bool
  env_cached_package :: "string \<Rightarrow> int \<Rightarrow> BridgePackageInfo option"
  env_bridge_connected :: bool
  env_bridge_hello :: "(string \<times> int) option"
  env_cancel_notification :: "RecordId \<Rightarrow> WireError + bool"
  env_am :: "string list \<Rightarrow> bool"
  env_resolve_activity :: "string \<Rightarrow> int \<Rightarrow> string option"
  env_dialog_status :: "string + SettingsTakeoverStatus"
  env_dialog_set :: "bool \<Rightarrow> string + SettingsTakeoverStatus"
  env_dropbox_tag :: "string \<Rightarrow> string + bool"
  env_package_sources :: PackageSources
  env_logs :: LogTree
  env_export_json :: "(RecordDetail \<times> string) list \<Rightarrow> string + string"
  env_daemon_version :: string
  env_uptime_ms :: int
  env_pid :: int
  env_abi :: string
  env_android_sdk :: int
  env_selinux_file :: "string option"
  env_page_count :: int
  env_page_size :: int

text \<open>Iteration over a \<^verbatim>\<open>BTreeMap\<close> with string keys.\<close>

definition btree_keys :: "(string \<rightharpoonup> 'v) \<Rightarrow> string list" where
  "btree_keys m = sorted_list_of_set (dom m)"

fun collector_key :: "CollectorSource \<Rightarrow> string" where
  "collector_key Events = ''Events''"
| "collector_key CrashBuffer = ''CrashBuffer''"
| "collector_key Dropbox = ''Dropbox''"
| "collector_key Tombstone = ''Tombstone''"
| "collector_key AnrFile = ''AnrFile''"

definition core_new :: "Store \<Rightarrow> (path \<rightharpoonup> string) \<Rightarrow> PackageIndex \<Rightarrow> DaemonCore" where
  "core_new s cfg_files ix =
     \<lparr>core_store = s, core_files = cfg_files, core_packages = ix,
      core_collectors = map_of (map (\<lambda>src. (collector_key src,
         \<lparr>ch_source = src, ch_enabled = True, ch_ever_received = False, ch_last_received_ms = None,
          ch_detail = None\<rparr>)) CollectorSource_ALL),
      core_events = [], core_payload_handles = Map.empty, core_next_payload_handle = 1,
      core_volatile_mutes = Map.empty, core_last_package_reload_ms = 0, core_debug_log = False,
      core_effects = []\<rparr>"

section \<open>Calls into the store and the configuration\<close>

definition wire :: "Env \<Rightarrow> StoreError + 'a \<Rightarrow> WireError + 'a" where
  "wire e r = (case r of Inl x \<Rightarrow> Inl (to_wire (env_describe e) x) | Inr y \<Rightarrow> Inr y)"

definition on_store :: "Env \<Rightarrow> (Store \<Rightarrow> (StoreError + 'a) \<times> Store) \<Rightarrow> DaemonCore \<Rightarrow> (WireError + 'a) \<times> DaemonCore" where
  "on_store e f c = (case f (core_store c) of (r, s) \<Rightarrow> (wire e r, c\<lparr>core_store := s\<rparr>))"

text \<open>A statement of its own: it fails as \<^const>\<open>Sqlite\<close> without effect, or takes place.\<close>

definition db_write :: "Env \<Rightarrow> string \<Rightarrow> (Db \<Rightarrow> 'a \<times> Db) \<Rightarrow> DaemonCore \<Rightarrow> (WireError + 'a) \<times> DaemonCore" where
  "db_write e name f c =
     on_store e (\<lambda>s. if w_tx_fails (env_world e) name then (Inl Sqlite, s)
                     else (case f (store_db s) of (x, d) \<Rightarrow> (Inr x, s\<lparr>store_db := d\<rparr>))) c"

definition disk_of :: "Env \<Rightarrow> DaemonCore \<Rightarrow> Disk" where
  "disk_of e c = (env_disk e)\<lparr>files := core_files c\<rparr>"

definition load_config :: "Env \<Rightarrow> DaemonCore \<Rightarrow> WireError + ConfigDocument" where
  "load_config e c =
     (case load (env_from_json e) (env_config_path e) (disk_of e c) of
        Inl x \<Rightarrow> Inl (wire_error Internal (env_describe_config e x)) | Inr doc \<Rightarrow> Inr doc)"

definition update_config ::
  "Env \<Rightarrow> (ConfigDocument \<Rightarrow> ConfigDocument) \<Rightarrow> DaemonCore \<Rightarrow> (WireError + ConfigDocument) \<times> DaemonCore" where
  "update_config e f c =
     (case update (env_from_json e) (env_to_json e) (env_config_path e) f (disk_of e c) of
        (Inl x, d) \<Rightarrow> (Inl (wire_error Internal (env_describe_config e x)), c\<lparr>core_files := files d\<rparr>)
      | (Inr doc, d) \<Rightarrow> (Inr doc, c\<lparr>core_files := files d\<rparr>))"

definition broadcast :: "DaemonEvent \<Rightarrow> DaemonCore \<Rightarrow> DaemonCore" where
  "broadcast ev c = c\<lparr>core_events := bus_broadcast ev (core_events c)\<rparr>"

definition core_subscribe :: "DaemonCore \<Rightarrow> DaemonCore" where
  "core_subscribe c = c\<lparr>core_events := bus_subscribe (core_events c)\<rparr>"

definition apply_log_level :: "Env \<Rightarrow> DaemonCore \<Rightarrow> (WireError + unit) \<times> DaemonCore" where
  "apply_log_level e c =
     (case load_config e c of Inl err \<Rightarrow> (Inl err, c)
      | Inr doc \<Rightarrow> (Inr (), c\<lparr>core_debug_log := debug_logging (global doc)\<rparr>))"

section \<open>Packages\<close>

record PackageOrigin =
  po_is_system_app :: "bool option"
  po_package_installed :: bool

definition classify_package :: "PackageIndex \<Rightarrow> string \<Rightarrow> PackageOrigin option" where
  "classify_package ix name =
     (if index_is_empty ix then None
      else (case by_name ix name of
              Some p \<Rightarrow> Some \<lparr>po_is_system_app = (if ix_system_flags_known ix then Some (pe_is_system p) else None),
                              po_package_installed = True\<rparr>
            | None \<Rightarrow> Some \<lparr>po_is_system_app = Some True, po_package_installed = False\<rparr>))"

definition enrich_record :: "Env \<Rightarrow> DaemonCore \<Rightarrow> CrashRecord \<Rightarrow> CrashRecord" where
  "enrich_record e c r =
     (case env_cached_package e (package_name r) (user_id r) of
        Some p \<Rightarrow> r\<lparr>app_version_name := bp_version_name p, app_version_code := bp_version_code p,
                    is_system_app := bp_is_system_app p, package_installed := True\<rparr>
      | None \<Rightarrow>
          (let r1 = (case by_name (core_packages c) (package_name r) of
                       Some p \<Rightarrow> r\<lparr>app_version_code := opt_or (app_version_code r) (pe_version_code p)\<rparr>
                     | None \<Rightarrow> r)
           in case classify_package (core_packages c) (package_name r) of
                None \<Rightarrow> r1
              | Some origin \<Rightarrow>
                  (case po_is_system_app origin of Some b \<Rightarrow> r1\<lparr>is_system_app := b\<rparr> | None \<Rightarrow> r1)
                    \<lparr>package_installed := po_package_installed origin\<rparr>))"

definition package_flags_known :: "DaemonCore \<Rightarrow> bool" where
  "package_flags_known c = ix_system_flags_known (core_packages c)"

definition replace_packages :: "PackageIndex \<Rightarrow> DaemonCore \<Rightarrow> DaemonCore" where
  "replace_packages ix c = c\<lparr>core_packages := ix\<rparr>"

definition install_packages :: "PackageIndex \<Rightarrow> DaemonCore \<Rightarrow> DaemonCore" where
  "install_packages ix c = replace_packages (inherit_system_flags ix (core_packages c)) c"

definition reclassify_flags :: "PackageIndex \<Rightarrow> Db \<Rightarrow> (string \<times> bool) list" where
  "reclassify_flags ix d =
     List.map_filter (\<lambda>name. map_option (\<lambda>p. (name, pe_is_system p)) (by_name ix name)) (group_package_names d)"

definition reclassify_stored_packages :: "Env \<Rightarrow> DaemonCore \<Rightarrow> (WireError + nat) \<times> DaemonCore" where
  "reclassify_stored_packages e c =
     (if \<not> package_flags_known c then (Inr 0, c)
      else on_store e (\<lambda>s. case apply_package_system_flags (w_tx_fails (env_world e) ''flags'')
                               (reclassify_flags (core_packages c) (store_db s)) (store_db s) of
                             (r, d) \<Rightarrow> (r, s\<lparr>store_db := d\<rparr>)) c)"

definition PACKAGE_RELOAD_INTERVAL_MS :: int where "PACKAGE_RELOAD_INTERVAL_MS = 5000"

definition begin_package_reload :: "Env \<Rightarrow> DaemonCore \<Rightarrow> bool \<times> DaemonCore" where
  "begin_package_reload e c =
     (let now = env_clock e 0
      in if i64_saturating_sub now (core_last_package_reload_ms c) < PACKAGE_RELOAD_INTERVAL_MS then (False, c)
         else (True, c\<lparr>core_last_package_reload_ms := now\<rparr>))"

definition unauthorized :: "Env \<Rightarrow> AuthError \<Rightarrow> WireError" where
  "unauthorized e err = wire_error Unauthorized (env_describe_auth e err)"

definition core_authenticate ::
  "Env \<Rightarrow> (string \<Rightarrow> string + u8 list list) \<Rightarrow> u8 list \<Rightarrow> int \<Rightarrow> DaemonCore \<Rightarrow>
   (WireError + AuthenticatedManager) \<times> DaemonCore" where
  "core_authenticate e certs pin uid c =
     (case authenticate_uid certs pin (core_packages c) uid of
        Inr m \<Rightarrow> (Inr m, c)
      | Inl first \<Rightarrow>
          if \<not> may_be_stale_package_index first then (Inl (unauthorized e first), c)
          else
            (case begin_package_reload e c of
               (False, c1) \<Rightarrow> (Inl (unauthorized e first), c1)
             | (True, c1) \<Rightarrow>
                 (case load_package_index (env_package_sources e) of
                    Inl _ \<Rightarrow> (Inl (unauthorized e first), c1)
                  | Inr ix \<Rightarrow>
                      (let c2 = install_packages ix c1
                       in case authenticate_uid certs pin (core_packages c2) uid of
                            Inr m \<Rightarrow> (Inr m, c2)
                          | Inl second \<Rightarrow> (Inl (unauthorized e second), c2)))))"


section \<open>Ingest\<close>

fun companion_window_ms :: "CrashKind \<Rightarrow> int" where
  "companion_window_ms JavaException = DEFAULT_MERGE_WINDOW_MS"
| "companion_window_ms NativeCrash = DEFAULT_MERGE_WINDOW_MS"
| "companion_window_ms Anr = 0"
| "companion_window_ms Wtf = 0"

fun captures_kind :: "ConfigDocument \<Rightarrow> CrashKind \<Rightarrow> bool" where
  "captures_kind cfg JavaException = capture_java (global cfg)"
| "captures_kind cfg Anr = capture_anr (global cfg)"
| "captures_kind cfg NativeCrash = capture_native (global cfg)"
| "captures_kind cfg Wtf = capture_wtf (global cfg)"

definition is_muted :: "DaemonCore \<Rightarrow> string \<Rightarrow> bool" where
  "is_muted c p \<longleftrightarrow> core_volatile_mutes c p \<noteq> None"

definition MANAGER_DETAIL_COMPONENT :: string where
  "MANAGER_DETAIL_COMPONENT = ''io.github.lingqiqi5211.crashcatcher/.ui.detail.CrashDetailActivity''"

definition add_effect :: "Effect \<Rightarrow> DaemonCore \<Rightarrow> DaemonCore" where
  "add_effect x c = c\<lparr>core_effects := core_effects c @ [x]\<rparr>"

definition alert_arguments :: "string \<Rightarrow> string \<Rightarrow> int \<Rightarrow> string list" where
  "alert_arguments rid package user =
     [''start'', ''--user'', int_to_dec user, ''-a'', ''io.github.lingqiqi5211.crashcatcher.BRIDGE_ACTION'',
      ''-n'', MANAGER_DETAIL_COMPONENT, ''--es'', ''record_id'', rid, ''--es'', ''package_name'', package]"

definition CRASHED_SUFFIX :: string where
  "CRASHED_SUFFIX = [CHR 0x20, CHR 0xE5, CHR 0xB7, CHR 0xB2, CHR 0xE5, CHR 0xB4, CHR 0xA9, CHR 0xE6, CHR 0xBA, CHR 0x83]"

definition notification_actions :: "(string \<times> BridgeAction) list" where
  "notification_actions =
     [([CHR 0xE6, CHR 0x9F, CHR 0xA5, CHR 0xE7, CHR 0x9C, CHR 0x8B, CHR 0xE8, CHR 0xAF, CHR 0xA6, CHR 0xE6, CHR 0x83, CHR 0x85], OpenDetails),
      ([CHR 0xE9, CHR 0x87, CHR 0x8D, CHR 0xE6, CHR 0x96, CHR 0xB0, CHR 0xE6, CHR 0x89, CHR 0x93, CHR 0xE5, CHR 0xBC, CHR 0x80], ReopenAppAction),
      ([CHR 0xE9, CHR 0x9D, CHR 0x99, CHR 0xE9, CHR 0x9F, CHR 0xB3], MuteUntilUnlock)]"

definition notify :: "CrashRecord \<Rightarrow> Inserted \<Rightarrow> NotifyMode \<Rightarrow> DaemonCore \<Rightarrow> DaemonCore" where
  "notify r ins mode c =
     (let title = package_name r @ CRASHED_SUFFIX;
          body = unwrap_or (opt_or (summary_text (summary r)) (class_name (summary r))) (kind_debug (kind r));
          spec = \<lparr>ns_record_id = rs_id (ins_record ins), ns_package_name = package_name r, ns_user_id = user_id r,
                  ns_title = title, ns_body = body, ns_actions = notification_actions\<rparr>
      in case mode of
           Nothing \<Rightarrow> c
         | Dialog \<Rightarrow> add_effect (RunAm (alert_arguments (as_str (rs_id (ins_record ins))) (package_name r) (user_id r))) c
         | Notification \<Rightarrow> add_effect (PostNotification spec) c
         | Toast \<Rightarrow> add_effect (PostNotification spec) c)"

text \<open>The confirmation of excluded sources: one statement and one clock reading per key.\<close>

fun mark_all :: "Env \<Rightarrow> nat \<Rightarrow> string list \<Rightarrow> DaemonCore \<Rightarrow> (WireError + unit) \<times> DaemonCore" where
  "mark_all e i [] c = (Inr (), c)"
| "mark_all e i (k # ks) c =
     bind_store (db_write e (''mark:'' @ k) (mark_ingested k (env_clock e i)) c) (\<lambda>_ c1. mark_all e (Suc i) ks c1)"

definition wants :: "ConfigDocument \<Rightarrow> CrashRecord \<Rightarrow> bool" where
  "wants cfg r \<longleftrightarrow> captures_kind cfg (kind r) \<and>
     should_record cfg (package_name r) (is_system_app r) (is_main_process r) (self_handled r)"

definition after_insert :: "Env \<Rightarrow> ConfigDocument \<Rightarrow> CrashRecord \<Rightarrow> Inserted \<Rightarrow> DaemonCore \<Rightarrow> DaemonCore" where
  "after_insert e cfg r ins c1 =
     (let c2 = c1\<lparr>core_store := snd (sweep (env_world e) (env_clock e 1) (retention (global cfg)) (core_store c1))\<rparr>;
          c3 = broadcast (CrashRecorded (ins_record ins) (ins_group ins) (ins_is_new_group ins)) c2
      in if should_notify cfg (package_name r) (is_foreground r) \<and> \<not> is_muted c3 (package_name r)
         then notify r ins (effective_notify_mode cfg (package_name r)) c3 else c3)"

definition ingest_with_sources ::
  "Env \<Rightarrow> CrashRecord \<Rightarrow> string list \<Rightarrow> DaemonCore \<Rightarrow> (WireError + Inserted option) \<times> DaemonCore" where
  "ingest_with_sources e r0 source_keys c =
     (let r = enrich_record e c r0; w = env_world e
      in case load_config e c of
           Inl err \<Rightarrow> (Inl err, c)
         | Inr cfg \<Rightarrow>
             if \<not> wants cfg r
             then bind_store (mark_all e 0 source_keys c) (\<lambda>_ c1. (Inr None, c1))
             else
               (case companion_record (store_db (core_store c)) r (companion_window_ms (kind r)) of
                  Some existing \<Rightarrow>
                    bind_store (on_store e (fold_into_record w existing r (retention (global cfg)) source_keys (env_clock e 0)) c)
                      (\<lambda>_ c1. (Inr None, c1))
                | None \<Rightarrow>
                    bind_store (on_store e (insert_with_sources w r (retention (global cfg)) source_keys (env_clock e 0)) c)
                      (\<lambda>ins c1. (Inr (Some ins), after_insert e cfg r ins c1))))"

definition core_ingest :: "Env \<Rightarrow> CrashRecord \<Rightarrow> DaemonCore \<Rightarrow> (WireError + Inserted option) \<times> DaemonCore" where
  "core_ingest e r c = ingest_with_sources e r [] c"

definition was_source_ingested :: "DaemonCore \<Rightarrow> string \<Rightarrow> bool" where
  "was_source_ingested c k = was_ingested (store_db (core_store c)) k"

definition mark_source_ingested :: "Env \<Rightarrow> string \<Rightarrow> DaemonCore \<Rightarrow> (WireError + bool) \<times> DaemonCore" where
  "mark_source_ingested e k c = db_write e (''mark:'' @ k) (mark_ingested k (env_clock e 0)) c"

definition reclaim_storage :: "Env \<Rightarrow> DaemonCore \<Rightarrow> (WireError + unit) \<times> DaemonCore" where
  "reclaim_storage e c =
     (case load_config e c of Inl err \<Rightarrow> (Inl err, c)
      | Inr cfg \<Rightarrow>
          bind_store (on_store e (sweep (env_world e) (env_clock e 0) (retention (global cfg))) c) (\<lambda>_ c1.
            (wire e (if w_tx_fails (env_world e) ''compact'' then Inl Sqlite else Inr ()), c1)))"

section \<open>Collector health\<close>

definition update_health :: "CollectorSource \<Rightarrow> (CollectorHealth \<Rightarrow> CollectorHealth) \<Rightarrow> DaemonCore \<Rightarrow> DaemonCore" where
  "update_health src f c =
     c\<lparr>core_collectors := (core_collectors c)(collector_key src := map_option f (core_collectors c (collector_key src)))\<rparr>"

definition mark_collector_received :: "CollectorSource \<Rightarrow> int \<Rightarrow> DaemonCore \<Rightarrow> DaemonCore" where
  "mark_collector_received src at_ms c =
     update_health src (\<lambda>h. h\<lparr>ch_ever_received := True, ch_last_received_ms := Some at_ms, ch_detail := None\<rparr>) c"

definition mark_collector_error :: "CollectorSource \<Rightarrow> string \<Rightarrow> DaemonCore \<Rightarrow> DaemonCore" where
  "mark_collector_error src detail c = update_health src (\<lambda>h. h\<lparr>ch_detail := Some detail\<rparr>) c"

definition clear_collector_error :: "CollectorSource \<Rightarrow> DaemonCore \<Rightarrow> DaemonCore" where
  "clear_collector_error src c = update_health src (\<lambda>h. h\<lparr>ch_detail := None\<rparr>) c"

fun collector_enabled :: "ConfigDocument \<Rightarrow> CollectorSource \<Rightarrow> bool" where
  "collector_enabled cfg CrashBuffer = capture_java (global cfg)"
| "collector_enabled cfg Tombstone = capture_native (global cfg)"
| "collector_enabled cfg AnrFile = capture_anr (global cfg)"
| "collector_enabled cfg _ =
     (capture_java (global cfg) \<or> capture_anr (global cfg) \<or> capture_native (global cfg) \<or> capture_wtf (global cfg))"

section \<open>Mutes\<close>

definition muted_until :: "MuteScope \<Rightarrow> int option" where
  "muted_until scope = (if scope \<noteq> MuteNone then Some i64_max else None)"

definition apply_mute :: "Env \<Rightarrow> string \<Rightarrow> MuteScope \<Rightarrow> DaemonCore \<Rightarrow> (WireError + unit) \<times> DaemonCore" where
  "apply_mute e p scope c =
     (let c1 = c\<lparr>core_volatile_mutes :=
                   (if scope = MuteNone then (core_volatile_mutes c)(p := None) else (core_volatile_mutes c)(p \<mapsto> scope))\<rparr>
      in bind_store (db_write e (''mute:'' @ p) (set_package_mute p (muted_until scope)) c1) (\<lambda>_ c2. (Inr (), c2)))"

definition put_app :: "string \<Rightarrow> AppConfig \<Rightarrow> ConfigDocument \<Rightarrow> ConfigDocument" where
  "put_app p a doc =
     (if app_is_default a then doc\<lparr>apps := (apps doc)(p := None)\<rparr> else doc\<lparr>apps := (apps doc)(p \<mapsto> a)\<rparr>)"

definition set_app_mute :: "MuteScope \<Rightarrow> string \<Rightarrow> ConfigDocument \<Rightarrow> ConfigDocument" where
  "set_app_mute scope p doc = put_app p ((app doc p)\<lparr>mute := scope\<rparr>) doc"

fun unmute_stored :: "Env \<Rightarrow> string list \<Rightarrow> DaemonCore \<Rightarrow> (WireError + unit) \<times> DaemonCore" where
  "unmute_stored e [] c = (Inr (), c)"
| "unmute_stored e (p # ps) c =
     bind_store (db_write e (''mute:'' @ p) (set_package_mute p None) c) (\<lambda>_ c1. unmute_stored e ps c1)"

text \<open>The packages to clear, from the configuration first and then from memory, and what is forgotten in
  memory, in the store and in the configuration.\<close>

definition configured_mutes :: "(MuteScope \<Rightarrow> bool) \<Rightarrow> ConfigDocument \<Rightarrow> string list" where
  "configured_mutes matching cfg = filter (\<lambda>p. matching (mute (app cfg p))) (btree_keys (apps cfg))"

definition remembered_mutes :: "(MuteScope \<Rightarrow> bool) \<Rightarrow> DaemonCore \<Rightarrow> string list" where
  "remembered_mutes matching c =
     filter (\<lambda>p. case core_volatile_mutes c p of None \<Rightarrow> False | Some s \<Rightarrow> matching s)
       (btree_keys (core_volatile_mutes c))"

definition cleared_mutes :: "(MuteScope \<Rightarrow> bool) \<Rightarrow> ConfigDocument \<Rightarrow> DaemonCore \<Rightarrow> string list" where
  "cleared_mutes matching cfg c =
     configured_mutes matching cfg @
     filter (\<lambda>p. p \<notin> set (configured_mutes matching cfg)) (remembered_mutes matching c)"

definition forget_mutes :: "(MuteScope \<Rightarrow> bool) \<Rightarrow> DaemonCore \<Rightarrow> DaemonCore" where
  "forget_mutes matching c =
     c\<lparr>core_volatile_mutes := core_volatile_mutes c |` (- set (remembered_mutes matching c))\<rparr>"

definition drop_mutes :: "Env \<Rightarrow> string list \<Rightarrow> DaemonCore \<Rightarrow> (WireError + nat) \<times> DaemonCore" where
  "drop_mutes e cleared c1 =
     (if cleared = [] then (Inr 0, c1)
      else
        bind_store (unmute_stored e cleared c1) (\<lambda>_ c2.
        bind_store (update_config e (fold (set_app_mute MuteNone) cleared) c2) (\<lambda>_ c3.
          (Inr (length cleared), broadcast ConfigChanged c3))))"

definition clear_mutes :: "Env \<Rightarrow> (MuteScope \<Rightarrow> bool) \<Rightarrow> DaemonCore \<Rightarrow> (WireError + nat) \<times> DaemonCore" where
  "clear_mutes e matching c =
     (case load_config e c of Inl err \<Rightarrow> (Inl err, c)
      | Inr cfg \<Rightarrow> drop_mutes e (cleared_mutes matching cfg c) (forget_mutes matching c))"

definition clear_volatile_mutes :: "Env \<Rightarrow> DaemonCore \<Rightarrow> (WireError + unit) \<times> DaemonCore" where
  "clear_volatile_mutes e c = bind_store (clear_mutes e (\<lambda>_. True) c) (\<lambda>_ c1. (Inr (), c1))"

definition clear_unlock_mutes :: "Env \<Rightarrow> DaemonCore \<Rightarrow> (WireError + nat) \<times> DaemonCore" where
  "clear_unlock_mutes e c = clear_mutes e (\<lambda>s. s = UntilUnlock) c"


section \<open>Payloads\<close>

record PayloadOpened =
  po_total_bytes :: nat
  po_state :: PayloadState
  po_codec_on_disk :: PayloadCodec
  po_fd_attached :: bool
  po_handle :: "64 word option"

definition handle_bump :: "64 word \<Rightarrow> 64 word" where
  "handle_bump h = (if h = - 1 then h else h + 1)"

definition register_payload_handle :: "RecordId \<Rightarrow> DaemonCore \<Rightarrow> 64 word \<times> DaemonCore" where
  "register_payload_handle i c =
     (let h = core_next_payload_handle c
      in (h, c\<lparr>core_next_payload_handle := handle_bump h,
               core_payload_handles := (core_payload_handles c)(h \<mapsto> i)\<rparr>))"

definition read_payload_text :: "Env \<Rightarrow> Store \<Rightarrow> RecordId \<Rightarrow> StoreError + string" where
  "read_payload_text e s i =
     (case payload_location (store_db s) i of
        Inl x \<Rightarrow> Inl x
      | Inr (path, cdc) \<Rightarrow>
          (case payload_read_bytes (env_unzstd e) (store_files s) path cdc of
             Inl x \<Rightarrow> Inl x | Inr bytes \<Rightarrow> Inr (from_utf8_lossy (from_bytes bytes))))"

definition payload_text_bytes :: "Env \<Rightarrow> Store \<Rightarrow> RecordId \<Rightarrow> StoreError + nat" where
  "payload_text_bytes e s i =
     (case read_payload_text e s i of Inl x \<Rightarrow> Inl x | Inr text \<Rightarrow> Inr (length text))"

text \<open>The content of the anonymous file handed to the client; any failing step of its creation is one error.\<close>

definition open_memfd :: "Env \<Rightarrow> Store \<Rightarrow> RecordId \<Rightarrow> StoreError + u8 list" where
  "open_memfd e s i =
     (case payload_location (store_db s) i of
        Inl x \<Rightarrow> Inl x
      | Inr (path, cdc) \<Rightarrow>
          (case payload_read_bytes (env_unzstd e) (store_files s) path cdc of
             Inl x \<Rightarrow> Inl x | Inr bytes \<Rightarrow> if env_memfd_fails e then Inl Memfd else Inr bytes))"

text \<open>\<^verbatim>\<open>open_payload_fallback\<close>; with \<^term>\<open>fd\<close> set, the same steps with the descriptor opened before the handle
  is registered, as \<^verbatim>\<open>open_payload_fd\<close> has them.\<close>

definition open_payload :: "Env \<Rightarrow> bool \<Rightarrow> RecordId \<Rightarrow> DaemonCore \<Rightarrow> (WireError + PayloadOpened) \<times> DaemonCore" where
  "open_payload e fd i c =
     (case wire e (get_record (store_db (core_store c)) i) of
        Inl x \<Rightarrow> (Inl x, c)
      | Inr detail \<Rightarrow>
          (case wire e (payload_text_bytes e (core_store c) i) of
             Inl x \<Rightarrow> (Inl x, c)
           | Inr total_len \<Rightarrow>
               (case (if fd then wire e (open_memfd e (core_store c) i) else Inr []) of
                  Inl x \<Rightarrow> (Inl x, c)
                | Inr _ \<Rightarrow>
                    (case register_payload_handle i c of
                       (h, c1) \<Rightarrow>
                         (Inr \<lparr>po_total_bytes = total_len, po_state = rs_payload_state (rd_record detail),
                               po_codec_on_disk = Raw, po_fd_attached = fd, po_handle = Some h\<rparr>, c1)))))"

definition open_payload_fd :: "Env \<Rightarrow> RecordId \<Rightarrow> DaemonCore \<Rightarrow> (WireError + u8 list \<times> PayloadOpened) \<times> DaemonCore" where
  "open_payload_fd e i c =
     (case open_payload e True i c of
        (Inl x, c1) \<Rightarrow> (Inl x, c1)
      | (Inr opened, c1) \<Rightarrow>
          (case wire e (open_memfd e (core_store c) i) of Inl x \<Rightarrow> (Inl x, c1) | Inr bytes \<Rightarrow> (Inr (bytes, opened), c1)))"

definition read_payload :: "Env \<Rightarrow> 64 word \<Rightarrow> nat \<Rightarrow> nat \<Rightarrow> DaemonCore \<Rightarrow> WireError + PayloadChunk" where
  "read_payload e h offset len c =
     (if len = 0 then Inl (wire_error InvalidRequest ''payload chunk length must be non-zero'')
      else
        (case core_payload_handles c h of
           None \<Rightarrow> Inl (wire_error NotFound (''unknown payload handle '' @ nat_to_dec (unat h)))
         | Some i \<Rightarrow>
             (case wire e (read_payload_chunk (env_unzstd e) (core_store c) i offset (min len MAX_PAYLOAD_CHUNK_BYTES)) of
                Inl x \<Rightarrow> Inl x
              | Inr (bytes, nxt, eof) \<Rightarrow>
                  Inr \<lparr>pc_offset = offset, pc_text = from_utf8_lossy (from_bytes bytes), pc_next_offset = nxt, pc_eof = eof\<rparr>)))"

section \<open>Export and the app list\<close>

definition REDACTED :: string where "REDACTED = ''<redacted>''"

definition export_entry :: "Env \<Rightarrow> ExportRedaction \<Rightarrow> DaemonCore \<Rightarrow> RecordId \<Rightarrow> WireError + RecordDetail \<times> string" where
  "export_entry e redaction c i =
     (case wire e (get_record (store_db (core_store c)) i) of
        Inl x \<Rightarrow> Inl x
      | Inr detail \<Rightarrow>
          (let text = (case read_payload_text e (core_store c) i of Inr t \<Rightarrow> t
                       | Inl err \<Rightarrow> ''[payload unavailable: '' @ env_describe e err @ '']'');
               shown = (if hide_package_name redaction
                        then detail\<lparr>rd_group := (rd_group detail)\<lparr>gs_package_name := REDACTED, gs_process_name := REDACTED\<rparr>\<rparr>
                        else detail)
           in Inr (shown, text)))"

fun join_with :: "string \<Rightarrow> string list \<Rightarrow> string" where
  "join_with sep [] = []"
| "join_with sep [x] = x"
| "join_with sep (x # y # xs) = x @ sep @ join_with sep (y # xs)"

definition export_line :: "RecordDetail \<times> string \<Rightarrow> string" where
  "export_line dt =
     (case dt of (detail, text) \<Rightarrow>
        gs_package_name (rd_group detail) @ '' | '' @ kind_debug (gs_kind (rd_group detail)) @ '' | '' @
        int_to_dec (rs_happened_at_ms (rd_record detail)) @ [NEWLINE] @ text @ [NEWLINE])"

definition export_records ::
  "Env \<Rightarrow> RecordId list \<Rightarrow> ExportFormat \<Rightarrow> ExportRedaction \<Rightarrow> DaemonCore \<Rightarrow> WireError + string" where
  "export_records e ids fmt redaction c =
     (if ids = [] then Inl (wire_error InvalidRequest ''export requires at least one record'')
      else
        (case collect_results (export_entry e redaction c) ids of
           Inl x \<Rightarrow> Inl x
         | Inr entries \<Rightarrow>
             (case fmt of
                ExportJson \<Rightarrow> (case env_export_json e entries of
                                 Inl err \<Rightarrow> Inl (wire_error Internal err) | Inr text \<Rightarrow> Inr text)
              | ExportText \<Rightarrow> Inr (join_with ([NEWLINE] @ ''---'' @ [NEWLINE]) (map export_line entries)))))"

record AppEntry =
  ae_package_name :: string
  ae_label :: "string option"
  ae_user_id :: int
  ae_is_system_app :: bool
  ae_group_count :: nat
  ae_occurrence :: int
  ae_last_seen_ms :: "int option"
  ae_config :: AppConfig
  ae_package_installed :: bool

definition list_apps ::
  "Env \<Rightarrow> bool \<Rightarrow> bool \<Rightarrow> string option \<Rightarrow> int \<Rightarrow> DaemonCore \<Rightarrow> WireError + AppEntry list" where
  "list_apps e include_sys include_proc query limit c =
     (let needle = (case query of None \<Rightarrow> None | Some q \<Rightarrow> if trim q = [] then None else Some (trim q))
      in case load_config e c of
           Inl err \<Rightarrow> Inl err
         | Inr cfg \<Rightarrow>
             Inr (map (\<lambda>u. \<lparr>ae_package_name = ru_package_name u,
                            ae_label = Option.bind (env_cached_package e (ru_package_name u) (ru_user_id u)) bp_label,
                            ae_user_id = ru_user_id u, ae_is_system_app = ru_is_system_app u,
                            ae_group_count = ru_group_count u, ae_occurrence = ru_occurrence u,
                            ae_last_seen_ms = Some (ru_last_seen_ms u), ae_config = app cfg (ru_package_name u),
                            ae_package_installed = ru_package_installed u\<rparr>)
                    (filter (\<lambda>u. case needle of None \<Rightarrow> True
                                 | Some q \<Rightarrow> contains_str (map ascii_lower q) (map ascii_lower (ru_package_name u)))
                       (package_rollups (store_db (core_store c)) include_sys include_proc limit))))"

section \<open>Status\<close>

definition wire_dialog_status :: "SettingsTakeoverStatus \<Rightarrow> string option \<Rightarrow> DialogTakeoverStatus" where
  "wire_dialog_status s err =
     \<lparr>dt_requested = ts_requested s, dt_effective = ts_effective s, dt_anr_conflict = ts_anr_override_needs_clear s,
      dt_unsupported_reason = (if ts_supported s then err
                               else Some ''system dialog takeover requires Android 9 or newer'')\<rparr>"

definition read_selinux_mode :: "string option \<Rightarrow> string" where
  "read_selinux_mode content =
     (case content of None \<Rightarrow> ''unknown''
      | Some v \<Rightarrow> (let t = trim v in if t = ''1'' then ''enforcing'' else if t = ''0'' then ''permissive''
                                     else ''unknown('' @ t @ '')''))"

definition runtime_facts :: "Env \<Rightarrow> ConfigDocument \<Rightarrow> DaemonCore \<Rightarrow> RuntimeFacts" where
  "runtime_facts e cfg c =
     \<lparr>rf_pid = env_pid e, rf_abi = env_abi e, rf_android_sdk = env_android_sdk e,
      rf_selinux = read_selinux_mode (env_selinux_file e), rf_store_schema_version = SCHEMA_VERSION,
      rf_debug_logging = debug_logging (global cfg),
      rf_package_count = min (length (ix_entries (core_packages c))) (nat u32_max),
      rf_system_flags_known = ix_system_flags_known (core_packages c),
      rf_bridge_connected = env_bridge_connected e,
      rf_bridge_version = map_option fst (env_bridge_hello e),
      rf_bridge_sdk = map_option snd (env_bridge_hello e),
      rf_active_mutes = min (max (length (btree_keys (core_volatile_mutes c)))
         (length (filter (\<lambda>p. mute (app cfg p) \<noteq> MuteNone) (btree_keys (apps cfg))))) (nat u32_max)\<rparr>"

definition disabled_tag :: "Env \<Rightarrow> string option" where
  "disabled_tag e =
     find (\<lambda>tag. env_dropbox_tag e tag = Inr False) [''data_app_crash'', ''data_app_anr'', ''data_app_native_crash'']"

definition status_collectors :: "Env \<Rightarrow> ConfigDocument \<Rightarrow> DaemonCore \<Rightarrow> CollectorHealth list" where
  "status_collectors e cfg c =
     map (\<lambda>h. let h1 = h\<lparr>ch_enabled := collector_enabled cfg (ch_source h)\<rparr>
              in if ch_source h = Dropbox
                 then (case disabled_tag e of None \<Rightarrow> h1
                       | Some tag \<Rightarrow> h1\<lparr>ch_detail := Some (''dropbox:'' @ tag @ '' is disabled'')\<rparr>)
                 else h1)
       (List.map_filter (core_collectors c) (btree_keys (core_collectors c)))"

definition module_status :: "Env \<Rightarrow> DaemonCore \<Rightarrow> WireError + ModuleStatus" where
  "module_status e c =
     (case load_config e c of Inl err \<Rightarrow> Inl err
      | Inr cfg \<Rightarrow>
          Inr \<lparr>ms_daemon_version = env_daemon_version e, ms_protocol_version = PROTOCOL_VERSION,
               ms_uptime_ms = env_uptime_ms e, ms_collectors = status_collectors e cfg c,
               ms_bridge_connected = env_bridge_connected e,
               ms_dialog_takeover =
                 (case env_dialog_status e of
                    Inr s \<Rightarrow> wire_dialog_status s None
                  | Inl err \<Rightarrow> \<lparr>dt_requested = takeover_system_dialog (global cfg), dt_effective = False,
                               dt_anr_conflict = False, dt_unsupported_reason = Some err\<rparr>),
               ms_storage = storage_status (env_page_count e) (env_page_size e) (core_store c),
               ms_runtime = runtime_facts e cfg c\<rparr>)"

section \<open>Starting activities\<close>

definition run_am :: "Env \<Rightarrow> string list \<Rightarrow> bool" where
  "run_am e args = env_am e args"

text \<open>The last line of the resolver's output that names a component.\<close>

definition resolve_launcher_component :: "Env \<Rightarrow> string \<Rightarrow> int \<Rightarrow> string option" where
  "resolve_launcher_component e package user =
     (case env_resolve_activity e package user of None \<Rightarrow> None
      | Some out \<Rightarrow>
          find (\<lambda>l. CHR ''/'' \<in> set l \<and> split_whitespace l = [l])
            (rev (map trim (lines (from_utf8_lossy out)))))"

definition start_launcher_activity :: "Env \<Rightarrow> string \<Rightarrow> int \<Rightarrow> bool" where
  "start_launcher_activity e package user =
     (case resolve_launcher_component e package user of None \<Rightarrow> False
      | Some component \<Rightarrow> run_am e [''start'', ''--user'', int_to_dec user, ''-n'', component])"


section \<open>Requests\<close>

record GlobalConfigResult =
  gr_config :: GlobalConfig
  gr_adjusted :: bool

record MuteResult =
  mr_package_name :: string
  mr_scope :: MuteScope
  mr_muted_until_ms :: "int option"

datatype Response =
  HandshakeResult int string
| ModuleStatusResult ModuleStatus
| Groups "GroupSummary Page"
| GroupResult GroupSummary
| Records "RecordSummary Page"
| RecordResult RecordDetail
| PayloadOpenedResult PayloadOpened
| PayloadChunkResult PayloadChunk
| Closed
| Export string
| Deleted nat nat
| GlobalConfigResponse GlobalConfigResult
| AppConfigResponse string AppConfig
| Apps "AppEntry list"
| StatsResult Stats
| Reopened bool
| NotificationDismissed bool
| Muted MuteResult
| DialogTakeover DialogTakeoverStatus
| RuntimeLogResult RuntimeLog

definition validate_package :: "string \<Rightarrow> WireError + unit" where
  "validate_package p = (if is_safe_package_name p then Inr () else Inl (wire_error InvalidRequest ''invalid package name''))"

definition validate_settings_key :: "string \<Rightarrow> WireError + unit" where
  "validate_settings_key p = (if is_safe_settings_key p then Inr () else Inl (wire_error InvalidRequest ''invalid settings key''))"

text \<open>A request that only reads.\<close>

definition answer :: "DaemonCore \<Rightarrow> WireError + 'a \<Rightarrow> ('a \<Rightarrow> Response) \<Rightarrow> (WireError + Response) \<times> DaemonCore" where
  "answer c r f = ((case r of Inl x \<Rightarrow> Inl x | Inr y \<Rightarrow> Inr (f y)), c)"

definition set_global_config :: "Env \<Rightarrow> GlobalConfigPatch \<Rightarrow> DaemonCore \<Rightarrow> (WireError + Response) \<times> DaemonCore" where
  "set_global_config e patch c =
     (case load_config e c of Inl x \<Rightarrow> (Inl x, c)
      | Inr before \<Rightarrow>
          (let requested = gp_apply patch (global before)
           in bind_store (update_config e (\<lambda>doc. doc\<lparr>global := gp_apply patch (global doc)\<rparr>) c) (\<lambda>stored c1.
                (Inr (GlobalConfigResponse \<lparr>gr_config = global stored, gr_adjusted = (requested \<noteq> global stored)\<rparr>),
                 broadcast ConfigChanged (c1\<lparr>core_debug_log := debug_logging (global stored)\<rparr>)))))"

definition set_app_config :: "Env \<Rightarrow> string \<Rightarrow> AppConfigPatch \<Rightarrow> DaemonCore \<Rightarrow> (WireError + Response) \<times> DaemonCore" where
  "set_app_config e p patch c =
     (case validate_settings_key p of Inl x \<Rightarrow> (Inl x, c)
      | Inr _ \<Rightarrow>
          bind_store (update_config e (\<lambda>doc. put_app p (ap_apply patch (app doc p)) doc) c) (\<lambda>stored c1.
            bind_store (apply_mute e p (mute (app stored p)) c1) (\<lambda>_ c2.
              (Inr (AppConfigResponse p (app stored p)), broadcast ConfigChanged c2))))"

definition mute_app :: "Env \<Rightarrow> string \<Rightarrow> MuteScope \<Rightarrow> DaemonCore \<Rightarrow> (WireError + Response) \<times> DaemonCore" where
  "mute_app e p scope c =
     (case validate_settings_key p of Inl x \<Rightarrow> (Inl x, c)
      | Inr _ \<Rightarrow>
          bind_store (apply_mute e p scope c) (\<lambda>_ c1.
            bind_store (update_config e (set_app_mute scope p) c1) (\<lambda>_ c2.
              (Inr (Muted \<lparr>mr_package_name = p, mr_scope = scope, mr_muted_until_ms = muted_until scope\<rparr>),
               broadcast ConfigChanged c2))))"

definition set_dialog_takeover :: "Env \<Rightarrow> bool \<Rightarrow> DaemonCore \<Rightarrow> (WireError + Response) \<times> DaemonCore" where
  "set_dialog_takeover e on c =
     (case env_dialog_set e on of
        Inl err \<Rightarrow> (Inl (wire_error Unavailable err), c)
      | Inr raw \<Rightarrow>
          bind_store (update_config e (\<lambda>doc. doc\<lparr>global := (global doc)\<lparr>takeover_system_dialog := on\<rparr>\<rparr>) c) (\<lambda>_ c1.
            (Inr (DialogTakeover (wire_dialog_status raw None)), broadcast ConfigChanged c1)))"

definition handle_request :: "Env \<Rightarrow> Request \<Rightarrow> DaemonCore \<Rightarrow> (WireError + Response) \<times> DaemonCore" where
  "handle_request e req c =
     (case req of
        Handshake version _ \<Rightarrow>
          (if version \<noteq> PROTOCOL_VERSION
           then (Inl (wire_error VersionMismatch
                   (''client protocol '' @ int_to_dec version @ '', daemon protocol '' @ int_to_dec PROTOCOL_VERSION)), c)
           else (Inr (HandshakeResult PROTOCOL_VERSION (env_daemon_version e)), c))
      | ModuleStatusReq \<Rightarrow> answer c (module_status e c) ModuleStatusResult
      | ListGroups page \<Rightarrow> answer c (wire e (list_groups (store_db (core_store c)) page)) Groups
      | ListRecords gid page \<Rightarrow> answer c (wire e (list_records (store_db (core_store c)) gid page)) Records
      | GetGroup gid \<Rightarrow> answer c (wire e (get_group (store_db (core_store c)) gid)) GroupResult
      | GetRecord i \<Rightarrow> answer c (wire e (get_record (store_db (core_store c)) i)) RecordResult
      | OpenPayload i \<Rightarrow> bind_store (open_payload e False i c) (\<lambda>p c1. (Inr (PayloadOpenedResult p), c1))
      | ReadPayload h offset len \<Rightarrow> answer c (read_payload e h offset len c) PayloadChunkResult
      | ClosePayload h \<Rightarrow> (Inr Closed, c\<lparr>core_payload_handles := (core_payload_handles c)(h := None)\<rparr>)
      | ExportRecords ids fmt redaction \<Rightarrow> answer c (export_records e ids fmt redaction c) Export
      | DeleteRecords target \<Rightarrow>
          bind_store (on_store e (store_delete (env_world e) target) c) (\<lambda>(records, groups) c1. (Inr (Deleted records groups), c1))
      | GetGlobalConfig \<Rightarrow>
          answer c (load_config e c) (\<lambda>doc. GlobalConfigResponse \<lparr>gr_config = global doc, gr_adjusted = False\<rparr>)
      | SetGlobalConfig patch \<Rightarrow> set_global_config e patch c
      | GetAppConfig p \<Rightarrow>
          (case validate_settings_key p of Inl x \<Rightarrow> (Inl x, c)
           | Inr _ \<Rightarrow> answer c (load_config e c) (\<lambda>doc. AppConfigResponse p (app doc p)))
      | SetAppConfig p patch \<Rightarrow> set_app_config e p patch c
      | ListApps include_sys include_proc query limit \<Rightarrow> answer c (list_apps e include_sys include_proc query limit c) Apps
      | StatsReq from_ms to_ms bucket \<Rightarrow>
          (Inr (StatsResult ((store_stats (store_db (core_store c)) from_ms to_ms bucket)
             \<lparr>st_installed_app_count := length (ix_entries (core_packages c))\<rparr>)), c)
      | ReadRuntimeLog name max_bytes \<Rightarrow>
          (Inr (RuntimeLogResult (read_runtime_log (env_logs e) name
             (if max_bytes = 0 then DEFAULT_LOG_BYTES else max_bytes))), c)
      | ReopenApp p user \<Rightarrow>
          (case validate_package p of Inl x \<Rightarrow> (Inl x, c)
           | Inr _ \<Rightarrow> (Inr (Reopened (start_launcher_activity e p user)), c))
      | DismissNotification i \<Rightarrow>
          (Inr (NotificationDismissed (case env_cancel_notification e i of Inr b \<Rightarrow> b | Inl _ \<Rightarrow> False)), c)
      | MuteApp p scope \<Rightarrow> mute_app e p scope c
      | SetDialogTakeover on \<Rightarrow> set_dialog_takeover e on c)"

definition dispatch :: "Env \<Rightarrow> nat \<Rightarrow> Request \<Rightarrow> DaemonCore \<Rightarrow> Response ResponseEnvelope \<times> DaemonCore" where
  "dispatch e seq req c =
     (case handle_request e req c of
        (Inr response, c1) \<Rightarrow> (envelope_ok seq response, c1)
      | (Inl err, c1) \<Rightarrow> (envelope_err seq err, c1))"

end
