(* ===== verification/Daemon_Proofs.thy ===== *)
theory Daemon_Proofs
  imports Daemon Store_Payloads
begin

text \<open>
  The daemon's core: what its operations do to the store, the configuration, the mutes, the payload
  handles and the package index, and the properties that span them.
\<close>

section \<open>Operations and runs\<close>

datatype DaemonOp =
  DoIngest CrashRecord "string list"
| DoRequest Request
| DoOpenFd RecordId
| DoUnlock
| DoClearMutes
| DoMark string
| DoReclaim
| DoReclassify
| DoInstall PackageIndex
| DoAuthenticate "string \<Rightarrow> string + u8 list list" "u8 list" int
| DoSubscribe
| DoReceived CollectorSource int
| DoCollectorError CollectorSource string

fun daemon_step :: "Env \<times> DaemonOp \<Rightarrow> DaemonCore \<Rightarrow> DaemonCore" where
  "daemon_step (e, DoIngest r keys) c = snd (ingest_with_sources e r keys c)"
| "daemon_step (e, DoRequest req) c = snd (handle_request e req c)"
| "daemon_step (e, DoOpenFd i) c = snd (open_payload_fd e i c)"
| "daemon_step (e, DoUnlock) c = snd (clear_unlock_mutes e c)"
| "daemon_step (e, DoClearMutes) c = snd (clear_volatile_mutes e c)"
| "daemon_step (e, DoMark k) c = snd (mark_source_ingested e k c)"
| "daemon_step (e, DoReclaim) c = snd (reclaim_storage e c)"
| "daemon_step (e, DoReclassify) c = snd (reclassify_stored_packages e c)"
| "daemon_step (e, DoInstall ix) c = install_packages ix c"
| "daemon_step (e, DoAuthenticate certs pin uid) c = snd (core_authenticate e certs pin uid c)"
| "daemon_step (e, DoSubscribe) c = core_subscribe c"
| "daemon_step (e, DoReceived src at) c = mark_collector_received src at c"
| "daemon_step (e, DoCollectorError src detail) c = mark_collector_error src detail c"

lemma snd_open_payload_fd [simp]: "snd (open_payload_fd e i c) = snd (open_payload e True i c)"
  by (simp add: open_payload_fd_def split: prod.split sum.split)

lemma bind_store_simps [simp]:
  "bind_store (Inl x, s) f = (Inl x, s)" "bind_store (Inr y, s) f = f y s"
  by (simp_all add: bind_store_def)

lemma snd_bind: "snd (bind_store m f) = (case fst m of Inl _ \<Rightarrow> snd m | Inr x \<Rightarrow> snd (f x (snd m)))"
  by (cases m) (simp add: bind_store_def split: sum.splits)

lemma broadcast_simps [simp]:
  "core_store (broadcast ev c) = core_store c" "core_files (broadcast ev c) = core_files c"
  "core_volatile_mutes (broadcast ev c) = core_volatile_mutes c" "core_payload_handles (broadcast ev c) = core_payload_handles c"
  "core_next_payload_handle (broadcast ev c) = core_next_payload_handle c" "core_packages (broadcast ev c) = core_packages c"
  "core_last_package_reload_ms (broadcast ev c) = core_last_package_reload_ms c" "core_effects (broadcast ev c) = core_effects c"
  by (simp_all add: broadcast_def)

lemma notify_simps [simp]:
  "core_store (notify r ins m c) = core_store c" "core_files (notify r ins m c) = core_files c"
  "core_volatile_mutes (notify r ins m c) = core_volatile_mutes c" "core_payload_handles (notify r ins m c) = core_payload_handles c"
  "core_next_payload_handle (notify r ins m c) = core_next_payload_handle c" "core_packages (notify r ins m c) = core_packages c"
  "core_last_package_reload_ms (notify r ins m c) = core_last_package_reload_ms c" "core_events (notify r ins m c) = core_events c"
  by (cases m; simp add: notify_def Let_def add_effect_def)+

section \<open>What an operation leaves alone\<close>

text \<open>The parts of the state outside the store and the configuration file.\<close>

definition same_rest :: "DaemonCore \<Rightarrow> DaemonCore \<Rightarrow> bool" where
  "same_rest c c' \<longleftrightarrow> core_volatile_mutes c' = core_volatile_mutes c \<and> core_payload_handles c' = core_payload_handles c \<and>
     core_next_payload_handle c' = core_next_payload_handle c \<and> core_packages c' = core_packages c \<and>
     core_last_package_reload_ms c' = core_last_package_reload_ms c \<and> core_effects c' = core_effects c \<and>
     core_events c' = core_events c \<and> core_collectors c' = core_collectors c"

lemma same_rest_refl [simp]: "same_rest c c"
  by (simp add: same_rest_def)

lemma same_rest_trans [trans]: "same_rest a b \<Longrightarrow> same_rest b c \<Longrightarrow> same_rest a c"
  by (simp add: same_rest_def)

lemma same_rest_bind:
  "same_rest c (snd m) \<Longrightarrow> (\<And>x. same_rest (snd m) (snd (f x (snd m)))) \<Longrightarrow> same_rest c (snd (bind_store m f))"
  by (simp add: snd_bind same_rest_def split: sum.split)

lemma on_store_rest [simp]:
  "same_rest c (snd (on_store e f c))" "core_files (snd (on_store e f c)) = core_files c"
  "core_store (snd (on_store e f c)) = snd (f (core_store c))"
  by (simp_all add: on_store_def same_rest_def split: prod.split)

lemma fst_on_store: "fst (on_store e f c) = wire e (fst (f (core_store c)))"
  by (simp add: on_store_def split: prod.split)

lemma db_write_rest [simp]:
  "same_rest c (snd (db_write e n f c))" "core_files (snd (db_write e n f c)) = core_files c"
  by (simp_all add: db_write_def)

lemma db_write_store:
  "core_store (snd (db_write e n f c)) =
     (if w_tx_fails (env_world e) n then core_store c
      else (core_store c)\<lparr>store_db := snd (f (store_db (core_store c)))\<rparr>)"
  by (simp add: db_write_def split: prod.split)

lemma db_write_ok: "\<not> w_tx_fails (env_world e) n \<Longrightarrow> fst (db_write e n f c) = Inr (fst (f (store_db (core_store c))))"
  by (simp add: db_write_def fst_on_store wire_def split: prod.split)

lemma update_config_rest [simp]:
  "same_rest c (snd (update_config e f c))" "core_store (snd (update_config e f c)) = core_store c"
  by (auto simp: update_config_def same_rest_def split: prod.split sum.split)

lemma mark_all_rest [simp]:
  "same_rest c (snd (mark_all e i ks c))" "core_files (snd (mark_all e i ks c)) = core_files c"
proof (induction ks arbitrary: i c)
  case (Cons k ks)
  { case 1 show ?case unfolding mark_all.simps by (rule same_rest_bind [OF db_write_rest(1)]) (rule Cons(1))
  next
    case 2 show ?case using Cons(2) by (simp add: snd_bind split: sum.split) }
qed simp_all

lemma unmute_stored_rest [simp]:
  "same_rest c (snd (unmute_stored e ps c))" "core_files (snd (unmute_stored e ps c)) = core_files c"
proof (induction ps arbitrary: c)
  case (Cons p ps)
  { case 1 show ?case unfolding unmute_stored.simps by (rule same_rest_bind [OF db_write_rest(1)]) (rule Cons(1))
  next
    case 2 show ?case using Cons(2) by (simp add: snd_bind split: sum.split) }
qed simp_all


section \<open>The store below the daemon\<close>

text \<open>Whatever the daemon does to its store is a sequence of the store's operations.\<close>

definition reaches :: "Store \<Rightarrow> Store \<Rightarrow> bool" where
  "reaches s s' \<longleftrightarrow> (\<exists>ops. s' = fold store_step ops s)"

lemma reaches_refl [simp]: "reaches s s"
  unfolding reaches_def by (rule exI [of _ "[]"]) simp

lemma reaches_step: "reaches s (store_step op s)"
  unfolding reaches_def by (rule exI [of _ "[op]"]) simp

lemma reaches_trans [trans]: "reaches a b \<Longrightarrow> reaches b c \<Longrightarrow> reaches a c"
  unfolding reaches_def by (metis fold_append comp_apply)

definition advances :: "DaemonCore \<Rightarrow> DaemonCore \<Rightarrow> bool" where
  "advances c c' \<longleftrightarrow> reaches (core_store c) (core_store c')"

lemma advances_refl [simp]: "advances c c"
  by (simp add: advances_def)

lemma advances_trans: "advances a b \<Longrightarrow> advances b c \<Longrightarrow> advances a c"
  unfolding advances_def by (rule reaches_trans)

lemma advances_bind:
  "advances c (snd m) \<Longrightarrow> (\<And>x. advances (snd m) (snd (f x (snd m)))) \<Longrightarrow> advances c (snd (bind_store m f))"
  by (auto simp: snd_bind intro: advances_trans split: sum.split)

lemma advances_step: "core_store c' = store_step op (core_store c) \<Longrightarrow> advances c c'"
  by (simp add: advances_def reaches_step)

lemma advances_same: "core_store c' = core_store c \<Longrightarrow> advances c c'"
  by (simp add: advances_def)

lemma insert_advances: "advances c (snd (on_store e (insert_with_sources w r retn keys at) c))"
  by (rule advances_step [of _ "OpInsert w r retn keys at"]) simp

lemma fold_advances:
  "companion_record (store_db (core_store c)) r window = Some ex \<Longrightarrow>
   advances c (snd (on_store e (fold_into_record w ex r retn keys at) c))"
  by (rule advances_step [of _ "OpFold w r window retn keys at"]) simp

lemma sweep_advances: "advances c (snd (on_store e (sweep w now retn) c))"
  by (rule advances_step [of _ "OpSweep w now retn"]) simp

lemma delete_advances: "advances c (snd (on_store e (store_delete w t) c))"
  by (rule advances_step [of _ "OpDelete w t"]) simp

lemma mark_advances: "advances c (snd (db_write e n (mark_ingested k now) c))"
  by (cases "w_tx_fails (env_world e) n")
    (simp_all add: advances_same db_write_store advances_step [of _ "OpMark k now"])

lemma mute_advances: "advances c (snd (db_write e n (set_package_mute p u) c))"
  by (cases "w_tx_fails (env_world e) n")
    (simp_all add: advances_same db_write_store advances_step [of _ "OpPackageMute p u"])

lemma mark_all_advances: "advances c (snd (mark_all e i ks c))"
  by (induction ks arbitrary: i c) (auto intro!: advances_bind mark_advances)

lemma unmute_stored_advances: "advances c (snd (unmute_stored e ps c))"
  by (induction ps arbitrary: c) (auto intro!: advances_bind mute_advances)

lemma update_config_advances: "advances c (snd (update_config e f c))"
  by (simp add: advances_same)

lemma after_insert_advances: "advances c (after_insert e cfg r ins c)"
  by (rule advances_step [of _ "OpSweep (env_world e) (env_clock e 1) (retention (global cfg))"])
    (simp add: after_insert_def Let_def)

lemma ingest_advances: "advances c (snd (ingest_with_sources e r keys c))"
  unfolding ingest_with_sources_def Let_def
  by (auto intro!: advances_bind mark_all_advances fold_advances insert_advances after_insert_advances
      split: sum.split option.split)

lemma apply_mute_advances: "advances c (snd (apply_mute e p scope c))"
  unfolding apply_mute_def Let_def
  by (rule advances_trans [OF advances_same advances_bind [OF mute_advances]]) simp_all

lemma drop_mutes_advances: "advances c (snd (drop_mutes e ps c))"
  unfolding drop_mutes_def
  by (auto intro!: advances_bind unmute_stored_advances update_config_advances simp: advances_same)

lemma clear_mutes_advances: "advances c (snd (clear_mutes e P c))"
proof (cases "load_config e c")
  case (Inr cfg)
  have "advances c (forget_mutes P c)" by (simp add: forget_mutes_def advances_same)
  then show ?thesis using Inr by (simp add: clear_mutes_def advances_trans [OF _ drop_mutes_advances])
qed (simp add: clear_mutes_def)

lemma request_advances: "advances c (snd (handle_request e req c))"
proof (cases req)
  case (DeleteRecords t)
  then show ?thesis by (auto simp: handle_request_def intro!: advances_bind delete_advances)
next
  case (OpenPayload i)
  then show ?thesis
    by (auto simp: handle_request_def open_payload_def register_payload_handle_def Let_def advances_same
        split: sum.split)
next
  case (SetGlobalConfig patch)
  then show ?thesis
    by (auto simp: handle_request_def set_global_config_def Let_def advances_same
        intro!: advances_bind update_config_advances split: sum.split)
next
  case (SetAppConfig p patch)
  then show ?thesis
    by (auto simp: handle_request_def set_app_config_def advances_same
        intro!: advances_bind update_config_advances apply_mute_advances split: sum.split)
next
  case (MuteApp p scope)
  then show ?thesis
    by (auto simp: handle_request_def mute_app_def advances_same
        intro!: advances_bind update_config_advances apply_mute_advances split: sum.split)
next
  case (SetDialogTakeover on)
  then show ?thesis
    by (auto simp: handle_request_def set_dialog_takeover_def advances_same
        intro!: advances_bind update_config_advances split: sum.split)
qed (auto simp: handle_request_def answer_def advances_same split: sum.split)

lemma reclassify_advances: "advances c (snd (reclassify_stored_packages e c))"
proof (cases "package_flags_known c")
  case True
  then show ?thesis
    by (intro advances_step [of _ "OpFlags (w_tx_fails (env_world e) ''flags'')
          (reclassify_flags (core_packages c) (store_db (core_store c)))"])
      (simp add: reclassify_stored_packages_def split: prod.split)
qed (simp add: reclassify_stored_packages_def)

lemma authenticate_store: "core_store (snd (core_authenticate e certs pin uid c)) = core_store c"
  by (auto simp: core_authenticate_def begin_package_reload_def install_packages_def replace_packages_def Let_def
      split: sum.split prod.split)

lemma daemon_step_advances: "advances c (daemon_step (e, op) c)"
proof (cases op)
  case (DoOpenFd i)
  then show ?thesis
    by (auto simp: open_payload_def register_payload_handle_def Let_def advances_same split: sum.split)
next
  case DoClearMutes
  then show ?thesis by (auto simp: clear_volatile_mutes_def intro!: advances_bind clear_mutes_advances)
next
  case DoReclaim
  then show ?thesis
    by (auto simp: reclaim_storage_def intro!: advances_bind sweep_advances split: sum.split)
qed (simp_all add: ingest_advances request_advances clear_unlock_mutes_def clear_mutes_advances mark_source_ingested_def
    mark_advances reclassify_advances install_packages_def replace_packages_def authenticate_store core_subscribe_def
    mark_collector_received_def mark_collector_error_def update_health_def advances_same)


section \<open>The configuration below the daemon\<close>

text \<open>A JSON library that reads back what it wrote, and surroundings in which neither the disk nor SQLite
  fails.\<close>

definition json_ok :: "(string \<Rightarrow> ConfigDocument option) \<Rightarrow> (ConfigDocument \<Rightarrow> string option) \<Rightarrow> bool" where
  "json_ok fj tj \<longleftrightarrow> (\<forall>doc. document_ok doc \<longrightarrow> finite (dom (apps doc)) \<longrightarrow>
     (\<exists>text. tj doc = Some text \<and> fj (text @ [CHR 0x0A]) = Some doc))"

definition steady :: "(string \<Rightarrow> ConfigDocument option) \<Rightarrow> (ConfigDocument \<Rightarrow> string option) \<Rightarrow> path \<Rightarrow> Env \<Rightarrow> bool" where
  "steady fj tj P e \<longleftrightarrow> env_from_json e = fj \<and> env_to_json e = tj \<and> env_config_path e = P \<and>
     \<not> read_fails (env_disk e) \<and> \<not> mkdir_fails (env_disk e) \<and> \<not> create_fails (env_disk e) \<and>
     write_fails (env_disk e) = None \<and> \<not> sync_fails (env_disk e) \<and> \<not> rename_fails (env_disk e) \<and>
     (\<forall>name. \<not> w_tx_fails (env_world e) name)"

definition config_is :: "(string \<Rightarrow> ConfigDocument option) \<Rightarrow> path \<Rightarrow> (path \<rightharpoonup> string) \<Rightarrow> ConfigDocument \<Rightarrow> bool" where
  "config_is fj P fs doc \<longleftrightarrow> finite (dom (apps doc)) \<and>
     (case fs P of None \<Rightarrow> doc = document_default
      | Some text \<Rightarrow> \<exists>d0. fj text = Some d0 \<and> doc = document_normalized d0)"

lemma config_is_ok: "config_is fj P fs doc \<Longrightarrow> document_ok doc"
  by (auto simp: config_is_def document_default_ok document.norm_ok split: option.splits)

lemma load_steady: "steady fj tj P e \<Longrightarrow> config_is fj P (core_files c) doc \<Longrightarrow> load_config e c = Inr doc"
  by (auto simp: load_config_def load_def disk_of_def steady_def config_is_def split: option.splits)

lemma finite_normalized: "finite (dom (apps doc)) \<Longrightarrow> finite (dom (apps (document_normalized doc)))"
  by (rule finite_subset [of _ "dom (apps doc)"]) (auto simp: document_normalized_def split: option.splits if_splits)

lemma update_steady:
  assumes "json_ok fj tj" "steady fj tj P e" "config_is fj P (core_files c) doc" "finite (dom (apps (f doc)))"
  obtains c1 where "update_config e f c = (Inr (document_normalized (f doc)), c1)"
    "config_is fj P (core_files c1) (document_normalized (f doc))" "same_rest c c1" "core_store c1 = core_store c"
proof -
  let ?new = "document_normalized (f doc)"
  have ok: "document_ok ?new" by (rule document.norm_ok)
  obtain js where js: "tj ?new = Some js" "fj (js @ [CHR 0x0A]) = Some ?new"
    using assms(1,4) ok finite_normalized by (auto simp: json_ok_def)
  have "load fj P (disk_of e c) = Inr doc"
    using load_steady [OF assms(2,3)] assms(2) by (auto simp: load_config_def steady_def split: sum.splits)
  then have u: "update fj tj P f (disk_of e c) =
      (Inr ?new, (disk_of e c)\<lparr>files := (core_files c)(temp_path P := None, P := Some (js @ [CHR 0x0A]))\<rparr>)"
    using assms(2) js(1) temp_path_ne [of P]
    by (simp add: update_def load_or_recover_def save_def Let_def document.norm_id [OF ok] write_then_sync_def fs_rename_def
        steady_def disk_of_def)
  have "update_config e f c = (Inr ?new, c\<lparr>core_files := (core_files c)(temp_path P := None, P := Some (js @ [CHR 0x0A]))\<rparr>)"
    using u assms(2) by (simp add: update_config_def steady_def)
  moreover have "config_is fj P ((core_files c)(temp_path P := None, P := Some (js @ [CHR 0x0A]))) ?new"
    using js(2) assms(4) finite_normalized document.norm_id [OF ok] by (auto simp: config_is_def)
  ultimately show ?thesis
    by (intro that [of "c\<lparr>core_files := (core_files c)(temp_path P := None, P := Some (js @ [CHR 0x0A]))\<rparr>"])
      (simp_all add: same_rest_def)
qed

section \<open>Mutes\<close>

definition scope_entry :: "MuteScope \<Rightarrow> MuteScope option" where
  "scope_entry s = (if s = MuteNone then None else Some s)"

text \<open>Memory and configuration agree on every package.\<close>

definition mutes_agree :: "(string \<Rightarrow> ConfigDocument option) \<Rightarrow> path \<Rightarrow> DaemonCore \<Rightarrow> bool" where
  "mutes_agree fj P c \<longleftrightarrow> (\<exists>doc. config_is fj P (core_files c) doc \<and>
     core_volatile_mutes c = (\<lambda>p. scope_entry (mute (app doc p))))"

lemma app_put [simp]: "app (put_app p a doc) q = (if q = p then a else app doc q)"
  by (simp add: put_app_def app_def app_is_default_def)

lemma finite_put [simp]: "finite (dom (apps (put_app p a doc))) \<longleftrightarrow> finite (dom (apps doc))"
proof -
  have "finite (dom (m(p := None))) \<longleftrightarrow> finite (dom m)" for m :: "string \<rightharpoonup> AppConfig"
    by (simp add: dom_fun_upd)
  then show ?thesis by (simp add: put_app_def del: fun_upd_apply)
qed

lemma fold_unmute:
  "app (fold (set_app_mute MuteNone) ps doc) q = (if q \<in> set ps then (app doc q)\<lparr>mute := MuteNone\<rparr> else app doc q)"
  "finite (dom (apps (fold (set_app_mute MuteNone) ps doc))) \<longleftrightarrow> finite (dom (apps doc))"
  by (induction ps arbitrary: doc) (simp_all add: set_app_mute_def)

lemma apply_mute_steady:
  assumes "steady fj tj P e"
  shows "fst (apply_mute e p scope c) = Inr ()"
    "core_volatile_mutes (snd (apply_mute e p scope c)) = (core_volatile_mutes c)(p := scope_entry scope)"
    "core_files (snd (apply_mute e p scope c)) = core_files c"
proof -
  let ?c = "c\<lparr>core_volatile_mutes := (if scope = MuteNone then (core_volatile_mutes c)(p := None) else (core_volatile_mutes c)(p \<mapsto> scope))\<rparr>"
  let ?w = "db_write e (''mute:'' @ p) (set_package_mute p (muted_until scope)) ?c"
  have "fst ?w = Inr (fst (set_package_mute p (muted_until scope) (store_db (core_store ?c))))"
    using assms by (intro db_write_ok) (simp add: steady_def)
  then have a: "apply_mute e p scope c = (Inr (), snd ?w)"
    by (cases ?w) (simp add: apply_mute_def Let_def)
  show "fst (apply_mute e p scope c) = Inr ()" "core_files (snd (apply_mute e p scope c)) = core_files c" by (simp_all add: a)
  show "core_volatile_mutes (snd (apply_mute e p scope c)) = (core_volatile_mutes c)(p := scope_entry scope)"
    using db_write_rest(1) [of ?c e "''mute:'' @ p" "set_package_mute p (muted_until scope)"]
    by (simp add: a same_rest_def scope_entry_def)
qed

lemma unmute_stored_steady: "steady fj tj P e \<Longrightarrow> fst (unmute_stored e ps c) = Inr ()"
proof (induction ps arbitrary: c)
  case (Cons p ps)
  have "fst (db_write e (''mute:'' @ p) (set_package_mute p None) c) = Inr (fst (set_package_mute p None (store_db (core_store c))))"
    using Cons.prems by (intro db_write_ok) (simp add: steady_def)
  then show ?case using Cons by (cases "db_write e (''mute:'' @ p) (set_package_mute p None) c") simp
qed simp


lemma mute_app_agree:
  assumes j: "json_ok fj tj" and st: "steady fj tj P e" and ag: "mutes_agree fj P c"
  shows "mutes_agree fj P (snd (mute_app e p scope c))"
proof (cases "is_safe_settings_key p")
  case True
  obtain doc where doc: "config_is fj P (core_files c) doc" "core_volatile_mutes c = (\<lambda>p. scope_entry (mute (app doc p)))"
    using ag by (auto simp: mutes_agree_def)
  note am = apply_mute_steady [OF st, of p scope c]
  obtain c1 where c1: "apply_mute e p scope c = (Inr (), c1)" using am(1) by (cases "apply_mute e p scope c") auto
  have cfg: "config_is fj P (core_files c1) doc" using am(3) doc(1) c1 by simp
  have "finite (dom (apps (set_app_mute scope p doc)))" using doc(1) by (simp add: set_app_mute_def config_is_def)
  then obtain c2 where c2: "update_config e (set_app_mute scope p) c1 = (Inr (document_normalized (set_app_mute scope p doc)), c2)"
    "config_is fj P (core_files c2) (document_normalized (set_app_mute scope p doc))" "same_rest c1 c2"
    by (rule update_steady [OF j st cfg])
  have "snd (mute_app e p scope c) = broadcast ConfigChanged c2"
    using True c1 c2(1) by (simp add: mute_app_def validate_settings_key_def)
  moreover have "core_volatile_mutes c2 = (core_volatile_mutes c)(p := scope_entry scope)"
    using am(2) c1 c2(3) by (simp add: same_rest_def)
  ultimately show ?thesis using c2(2) doc(2) by (auto simp: mutes_agree_def set_app_mute_def fun_eq_iff)
qed (use ag in \<open>simp add: mute_app_def validate_settings_key_def\<close>)

lemma set_app_config_agree:
  assumes j: "json_ok fj tj" and st: "steady fj tj P e" and ag: "mutes_agree fj P c"
  shows "mutes_agree fj P (snd (set_app_config e p patch c))"
proof (cases "is_safe_settings_key p")
  case True
  let ?f = "\<lambda>doc. put_app p (ap_apply patch (app doc p)) doc"
  obtain doc where doc: "config_is fj P (core_files c) doc" "core_volatile_mutes c = (\<lambda>p. scope_entry (mute (app doc p)))"
    using ag by (auto simp: mutes_agree_def)
  have "finite (dom (apps (?f doc)))" using doc(1) by (simp add: config_is_def)
  then obtain c1 where c1: "update_config e ?f c = (Inr (document_normalized (?f doc)), c1)"
    "config_is fj P (core_files c1) (document_normalized (?f doc))" "same_rest c c1"
    by (rule update_steady [OF j st doc(1)])
  let ?scope = "mute (ap_apply patch (app doc p))"
  note am = apply_mute_steady [OF st, of p ?scope c1]
  obtain c2 where c2: "apply_mute e p ?scope c1 = (Inr (), c2)" using am(1) by (cases "apply_mute e p ?scope c1") auto
  have "snd (set_app_config e p patch c) = broadcast ConfigChanged c2"
    using True c1(1) c2 by (simp add: set_app_config_def validate_settings_key_def)
  moreover have "core_volatile_mutes c2 = (core_volatile_mutes c)(p := scope_entry ?scope)"
    using am(2) c2 c1(3) by (simp add: same_rest_def)
  moreover have "config_is fj P (core_files c2) (document_normalized (?f doc))" using am(3) c2 c1(2) by simp
  ultimately show ?thesis using doc(2) by (auto simp: mutes_agree_def fun_eq_iff)
qed (use ag in \<open>simp add: set_app_config_def validate_settings_key_def\<close>)

lemma update_global_agree:
  assumes "json_ok fj tj" "steady fj tj P e" "mutes_agree fj P c" and same: "\<And>doc. apps (f doc) = apps doc"
  shows "mutes_agree fj P (snd (update_config e f c))"
proof -
  obtain doc where doc: "config_is fj P (core_files c) doc" "core_volatile_mutes c = (\<lambda>p. scope_entry (mute (app doc p)))"
    using assms(3) by (auto simp: mutes_agree_def)
  have "finite (dom (apps (f doc)))" using doc(1) same by (simp add: config_is_def)
  then obtain c1 where c1: "update_config e f c = (Inr (document_normalized (f doc)), c1)"
    "config_is fj P (core_files c1) (document_normalized (f doc))" "same_rest c c1"
    by (rule update_steady [OF assms(1,2) doc(1)])
  have "app (f doc) p = app doc p" for p using same [of doc] by (simp add: app_def)
  then show ?thesis using c1 doc(2) by (auto simp: mutes_agree_def same_rest_def)
qed

text \<open>Clearing: the packages whose scope matches lose their mute in both places, the others keep it.\<close>

lemma set_btree_keys: "finite (dom m) \<Longrightarrow> set (btree_keys m) = dom m"
  by (simp add: btree_keys_def)

lemma drop_mutes_steady:
  assumes j: "json_ok fj tj" and st: "steady fj tj P e" and doc: "config_is fj P (core_files c) doc"
  obtains doc' where "config_is fj P (core_files (snd (drop_mutes e ps c))) doc'"
    "\<And>p. app doc' p = app (fold (set_app_mute MuteNone) ps doc) p"
    "core_volatile_mutes (snd (drop_mutes e ps c)) = core_volatile_mutes c"
proof (cases "ps = []")
  case True
  then show ?thesis using doc by (intro that [of doc]) (simp_all add: drop_mutes_def)
next
  case False
  define new where "new = fold (set_app_mute MuteNone) ps doc"
  obtain c2 where c2: "unmute_stored e ps c = (Inr (), c2)"
    using unmute_stored_steady [OF st, of ps c] by (cases "unmute_stored e ps c") auto
  have r2: "same_rest c c2" "core_files c2 = core_files c"
    using unmute_stored_rest(1) [of c e ps] unmute_stored_rest(2) [of e ps c] c2 by simp_all
  have "config_is fj P (core_files c2) doc" using doc r2(2) by simp
  moreover have "finite (dom (apps new))" using doc by (simp add: new_def fold_unmute config_is_def)
  ultimately obtain c3 where c3: "update_config e (fold (set_app_mute MuteNone) ps) c2 = (Inr (document_normalized new), c3)"
    "config_is fj P (core_files c3) (document_normalized new)" "same_rest c2 c3"
    unfolding new_def by (rule update_steady [OF j st])
  have "snd (drop_mutes e ps c) = broadcast ConfigChanged c3" using False c2 c3(1) by (simp add: drop_mutes_def)
  then show ?thesis
    using c3 r2 by (intro that [of "document_normalized new"]) (simp_all add: same_rest_def new_def)
qed

text \<open>Clearing: the packages whose scope matches lose their mute in both places, the others keep it.\<close>

lemma clear_mutes_agree:
  assumes j: "json_ok fj tj" and st: "steady fj tj P e" and ag: "mutes_agree fj P c"
  shows "mutes_agree fj P (snd (clear_mutes e matching c))"
    "core_volatile_mutes (snd (clear_mutes e matching c)) =
       (\<lambda>p. case core_volatile_mutes c p of None \<Rightarrow> None | Some s \<Rightarrow> if matching s then None else Some s)"
proof -
  obtain doc where doc: "config_is fj P (core_files c) doc" and mem: "core_volatile_mutes c = (\<lambda>p. scope_entry (mute (app doc p)))"
    using ag by (auto simp: mutes_agree_def)
  let ?ps = "cleared_mutes matching doc c" and ?c1 = "forget_mutes matching c"
  have fin: "finite (dom (apps doc))" using doc by (simp add: config_is_def)
  have known: "p \<in> dom (apps doc)" if "mute (app doc p) \<noteq> MuteNone" for p
    using that by (cases "apps doc p") (auto simp: app_def app_default_def)
  then have sub: "dom (core_volatile_mutes c) \<subseteq> dom (apps doc)"
    by (force simp: mem scope_entry_def split: if_splits)
  then have finm: "finite (dom (core_volatile_mutes c))" using fin finite_subset by blast
  have rem: "set (remembered_mutes matching c) = {p. \<exists>s. core_volatile_mutes c p = Some s \<and> matching s}"
    by (auto simp: remembered_mutes_def set_btree_keys [OF finm] split: option.splits)
  have conf: "set (configured_mutes matching doc) = {p \<in> dom (apps doc). matching (mute (app doc p))}"
    by (auto simp: configured_mutes_def set_btree_keys [OF fin])
  have ps: "p \<in> set ?ps \<longleftrightarrow> p \<in> dom (apps doc) \<and> matching (mute (app doc p))" for p
    using sub by (auto simp: cleared_mutes_def conf rem mem scope_entry_def split: if_splits)
  have m1: "core_volatile_mutes ?c1 = (\<lambda>p. case core_volatile_mutes c p of None \<Rightarrow> None | Some s \<Rightarrow> if matching s then None else Some s)"
    by (auto simp: forget_mutes_def restrict_map_def rem fun_eq_iff split: option.splits)
  have doc1: "config_is fj P (core_files ?c1) doc" using doc by (simp add: forget_mutes_def)
  have cm: "clear_mutes e matching c = drop_mutes e ?ps ?c1"
    using load_steady [OF st doc] by (simp add: clear_mutes_def)
  obtain doc' where doc': "config_is fj P (core_files (snd (drop_mutes e ?ps ?c1))) doc'"
    "\<And>p. app doc' p = app (fold (set_app_mute MuteNone) ?ps doc) p"
    "core_volatile_mutes (snd (drop_mutes e ?ps ?c1)) = core_volatile_mutes ?c1"
    by (rule drop_mutes_steady [OF j st doc1, of ?ps]) blast
  have new: "core_volatile_mutes ?c1 p = scope_entry (mute (app doc' p))" for p
    using known [of p] by (cases "mute (app doc p) = MuteNone")
      (simp_all add: m1 mem scope_entry_def doc'(2) fold_unmute ps)
  show "core_volatile_mutes (snd (clear_mutes e matching c)) =
       (\<lambda>p. case core_volatile_mutes c p of None \<Rightarrow> None | Some s \<Rightarrow> if matching s then None else Some s)"
    by (simp add: cm doc'(3) m1)
  show "mutes_agree fj P (snd (clear_mutes e matching c))"
    unfolding mutes_agree_def cm using doc' new by (auto simp: fun_eq_iff)
qed

text \<open>At start-up memory is empty while the configuration may still hold mutes of the last run.\<close>

lemma startup_agree:
  assumes j: "json_ok fj tj" and st: "steady fj tj P e" and doc: "config_is fj P (core_files c) doc"
    and mem: "core_volatile_mutes c = Map.empty"
  shows "mutes_agree fj P (snd (clear_volatile_mutes e c))"
proof -
  let ?ps = "cleared_mutes (\<lambda>_. True) doc c" and ?c1 = "forget_mutes (\<lambda>_. True) c"
  have fin: "finite (dom (apps doc))" using doc by (simp add: config_is_def)
  have ps: "set ?ps = dom (apps doc)"
    by (simp add: cleared_mutes_def configured_mutes_def remembered_mutes_def fin mem btree_keys_def)
  have cm: "snd (clear_volatile_mutes e c) = snd (drop_mutes e ?ps ?c1)"
    using load_steady [OF st doc] by (simp add: clear_volatile_mutes_def clear_mutes_def snd_bind split: sum.split)
  have doc1: "config_is fj P (core_files ?c1) doc" using doc by (simp add: forget_mutes_def)
  obtain doc' where doc': "config_is fj P (core_files (snd (drop_mutes e ?ps ?c1))) doc'"
    "\<And>p. app doc' p = app (fold (set_app_mute MuteNone) ?ps doc) p"
    "core_volatile_mutes (snd (drop_mutes e ?ps ?c1)) = core_volatile_mutes ?c1"
    by (rule drop_mutes_steady [OF j st doc1, of ?ps]) blast
  have "mute (app doc' p) = MuteNone" for p
    unfolding doc'(2) fold_unmute ps by (cases "apps doc p") (auto simp: app_def app_default_def)
  moreover have "core_volatile_mutes ?c1 = Map.empty" by (simp add: forget_mutes_def mem)
  ultimately show ?thesis
    unfolding mutes_agree_def cm using doc'(1,3) by (intro exI [of _ doc']) (simp add: scope_entry_def)
qed

text \<open>The operations that touch neither the configuration nor the mutes.\<close>

definition quiet_mutes :: "DaemonCore \<Rightarrow> DaemonCore \<Rightarrow> bool" where
  "quiet_mutes c c' \<longleftrightarrow> core_files c' = core_files c \<and> core_volatile_mutes c' = core_volatile_mutes c"

lemma quiet_agree: "quiet_mutes c c' \<Longrightarrow> mutes_agree fj P c \<Longrightarrow> mutes_agree fj P c'"
  by (simp add: quiet_mutes_def mutes_agree_def)

lemma quiet_refl [simp]: "quiet_mutes c c"
  by (simp add: quiet_mutes_def)

lemma quiet_bind:
  "quiet_mutes c (snd m) \<Longrightarrow> (\<And>x. quiet_mutes (snd m) (snd (f x (snd m)))) \<Longrightarrow> quiet_mutes c (snd (bind_store m f))"
  by (simp add: quiet_mutes_def snd_bind split: sum.split)

lemma quiet_on_store: "quiet_mutes c (snd (on_store e f c))"
  using on_store_rest(1) [of c e f] by (simp add: quiet_mutes_def same_rest_def)

lemma quiet_db_write: "quiet_mutes c (snd (db_write e n f c))"
  using db_write_rest(1) [of c e n f] by (simp add: quiet_mutes_def same_rest_def)

lemma quiet_mark_all: "quiet_mutes c (snd (mark_all e i ks c))"
  using mark_all_rest(1) [of c e i ks] by (simp add: quiet_mutes_def same_rest_def)

lemma quiet_after_insert: "quiet_mutes c (after_insert e cfg r ins c)"
  by (simp add: quiet_mutes_def after_insert_def Let_def)

lemma quiet_ingest: "quiet_mutes c (snd (ingest_with_sources e r keys c))"
  unfolding ingest_with_sources_def Let_def
  by (auto intro!: quiet_bind quiet_mark_all quiet_on_store quiet_after_insert split: sum.split option.split)

lemma request_agree:
  assumes j: "json_ok fj tj" and st: "steady fj tj P e" and ag: "mutes_agree fj P c"
  shows "mutes_agree fj P (snd (handle_request e req c))"
proof (cases req)
  case (SetAppConfig p patch)
  then show ?thesis using set_app_config_agree [OF assms] by (simp add: handle_request_def)
next
  case (MuteApp p scope)
  then show ?thesis using mute_app_agree [OF assms] by (simp add: handle_request_def)
next
  case (SetGlobalConfig patch)
  let ?f = "\<lambda>doc. doc\<lparr>global := gp_apply patch (global doc)\<rparr>"
  have "mutes_agree fj P (snd (update_config e ?f c))" by (rule update_global_agree [OF assms]) simp
  then show ?thesis
    using SetGlobalConfig ag
    by (auto simp: handle_request_def set_global_config_def snd_bind mutes_agree_def Let_def split: sum.split)
next
  case (SetDialogTakeover on)
  let ?f = "\<lambda>doc. doc\<lparr>global := (global doc)\<lparr>takeover_system_dialog := on\<rparr>\<rparr>"
  have "mutes_agree fj P (snd (update_config e ?f c))" by (rule update_global_agree [OF assms]) simp
  then show ?thesis
    using SetDialogTakeover ag
    by (auto simp: handle_request_def set_dialog_takeover_def snd_bind mutes_agree_def split: sum.split)
next
  case (DeleteRecords t)
  have "quiet_mutes c (snd (handle_request e req c))"
    unfolding handle_request_def DeleteRecords Request.case
    by (rule quiet_bind [OF quiet_on_store]) (simp add: quiet_mutes_def split: prod.split)
  then show ?thesis by (rule quiet_agree) (rule ag)
qed (rule quiet_agree [OF _ ag]; auto simp: handle_request_def answer_def quiet_mutes_def open_payload_def snd_bind
      register_payload_handle_def Let_def split: sum.split)+

lemma daemon_step_agree:
  assumes j: "json_ok fj tj" and st: "steady fj tj P e" and ag: "mutes_agree fj P c"
  shows "mutes_agree fj P (daemon_step (e, op) c)"
proof (cases op)
  case DoUnlock
  then show ?thesis using clear_mutes_agree(1) [OF assms] by (simp add: clear_unlock_mutes_def)
next
  case DoClearMutes
  then show ?thesis
    using clear_mutes_agree(1) [OF assms, of "\<lambda>_. True"] by (simp add: clear_volatile_mutes_def snd_bind split: sum.split)
next
  case DoReclaim
  have "quiet_mutes c (snd (reclaim_storage e c))"
    unfolding reclaim_storage_def by (auto intro!: quiet_bind quiet_on_store split: sum.split)
  then show ?thesis using DoReclaim quiet_agree ag by simp
next
  case (DoRequest req)
  then show ?thesis using request_agree [OF assms] by simp
next
  case (DoAuthenticate certs pin uid)
  then show ?thesis
    using ag by (auto simp: mutes_agree_def core_authenticate_def begin_package_reload_def install_packages_def
        replace_packages_def Let_def split: sum.split prod.split)
next
  case (DoIngest r keys)
  then show ?thesis using quiet_agree [OF quiet_ingest ag] by simp
next
  case (DoMark k)
  then show ?thesis using quiet_agree [OF quiet_db_write ag] by (simp add: mark_source_ingested_def)
next
  case DoReclassify
  then show ?thesis using ag by (auto simp: reclassify_stored_packages_def intro: quiet_agree [OF quiet_on_store])
next
  case (DoOpenFd i)
  then show ?thesis
    using ag by (auto simp: mutes_agree_def open_payload_def register_payload_handle_def Let_def split: sum.split)
qed (use ag in \<open>simp_all add: mutes_agree_def install_packages_def replace_packages_def core_subscribe_def
      mark_collector_received_def mark_collector_error_def update_health_def\<close>)

interpretation mute_run: graded_invariant daemon_step "\<lambda>(fj, tj, P) c. json_ok fj tj \<and> mutes_agree fj P c" "\<lambda>_ i. i"
  "\<lambda>(e, op) (fj, tj, P). steady fj tj P e"
  by standard (auto simp: daemon_step_agree)


section \<open>Payload handles\<close>

definition same_handles :: "DaemonCore \<Rightarrow> DaemonCore \<Rightarrow> bool" where
  "same_handles c c' \<longleftrightarrow> core_payload_handles c' = core_payload_handles c \<and>
     core_next_payload_handle c' = core_next_payload_handle c \<and>
     core_last_package_reload_ms c' = core_last_package_reload_ms c"

lemma same_handlesI: "same_rest c c' \<Longrightarrow> same_handles c c'"
  by (simp add: same_rest_def same_handles_def)

lemma handles_bind:
  "same_handles c (snd m) \<Longrightarrow> (\<And>x. same_handles (snd m) (snd (f x (snd m)))) \<Longrightarrow> same_handles c (snd (bind_store m f))"
  by (simp add: same_handles_def snd_bind split: sum.split)

lemmas handles_intros = handles_bind same_handlesI [OF on_store_rest(1)] same_handlesI [OF db_write_rest(1)]
  same_handlesI [OF update_config_rest(1)] same_handlesI [OF mark_all_rest(1)] same_handlesI [OF unmute_stored_rest(1)]

lemma handles_refl [simp]: "same_handles c c"
  by (simp add: same_handles_def)

lemma handles_after_insert: "same_handles c (after_insert e cfg r ins c)"
  by (simp add: same_handles_def after_insert_def Let_def)

lemma handles_ingest: "same_handles c (snd (ingest_with_sources e r keys c))"
  unfolding ingest_with_sources_def Let_def
  by (auto intro!: handles_intros handles_after_insert split: sum.split option.split)

lemma handles_apply_mute: "same_handles c (snd (apply_mute e p scope c))"
proof -
  let ?c = "c\<lparr>core_volatile_mutes := (if scope = MuteNone then (core_volatile_mutes c)(p := None) else (core_volatile_mutes c)(p \<mapsto> scope))\<rparr>"
  have "same_handles ?c (snd (apply_mute e p scope c))"
    unfolding apply_mute_def Let_def by (intro handles_intros) simp_all
  then show ?thesis by (simp add: same_handles_def)
qed

lemma handles_clear_mutes: "same_handles c (snd (clear_mutes e P c))"
proof -
  have "same_handles c1 (snd (drop_mutes e ps c1))" for ps c1
    unfolding drop_mutes_def by (auto intro!: handles_intros) (simp add: same_handles_def)
  then show ?thesis by (auto simp: clear_mutes_def same_handles_def forget_mutes_def split: sum.split)
qed

lemma handles_request:
  assumes "\<And>i. req \<noteq> OpenPayload i" "\<And>h. req \<noteq> ClosePayload h"
  shows "same_handles c (snd (handle_request e req c))"
proof (cases req)
  case (SetAppConfig p patch)
  then show ?thesis
    by (auto simp: handle_request_def set_app_config_def intro!: handles_intros handles_apply_mute split: sum.split)
      (simp add: same_handles_def)
next
  case (MuteApp p scope)
  then show ?thesis
    by (auto simp: handle_request_def mute_app_def intro!: handles_intros handles_apply_mute split: sum.split)
      (simp add: same_handles_def)
next
  case (SetGlobalConfig patch)
  then show ?thesis
    by (auto simp: handle_request_def set_global_config_def Let_def intro!: handles_intros split: sum.split)
      (simp add: same_handles_def)
next
  case (SetDialogTakeover on)
  then show ?thesis
    by (auto simp: handle_request_def set_dialog_takeover_def intro!: handles_intros split: sum.split)
      (simp add: same_handles_def)
next
  case (DeleteRecords t)
  then show ?thesis by (auto simp: handle_request_def intro!: handles_intros)
qed (use assms in \<open>auto simp: handle_request_def answer_def split: sum.split\<close>)

text \<open>Every registered handle is below the next one.\<close>

definition handle_inv :: "DaemonCore \<Rightarrow> bool" where
  "handle_inv c \<longleftrightarrow> (\<forall>h. core_payload_handles c h \<noteq> None \<longrightarrow> unat h < unat (core_next_payload_handle c))"

lemma unat_handle_bump: "unat h < 2 ^ 64 - 1 \<Longrightarrow> unat (handle_bump h) = Suc (unat h)"
proof -
  assume a: "unat h < 2 ^ 64 - 1"
  have "unat (- 1 :: 64 word) = 2 ^ 64 - 1" by (simp add: unsigned_minus_1_eq_mask mask_eq_exp_minus_1)
  then have "h \<noteq> - 1" using a by auto
  moreover have "unat (h + 1) = Suc (unat h)"
    using a by (simp add: unat_word_ariths)
  ultimately show ?thesis by (simp add: handle_bump_def)
qed

definition handle_step :: "64 word \<Rightarrow> DaemonCore \<Rightarrow> DaemonCore \<Rightarrow> bool" where
  "handle_step h c c' \<longleftrightarrow> handle_inv c' \<and> unat (core_next_payload_handle c) \<le> unat (core_next_payload_handle c') \<and>
     unat (core_next_payload_handle c') \<le> Suc (unat (core_next_payload_handle c)) \<and>
     (\<forall>i. core_payload_handles c h = Some i \<longrightarrow> core_payload_handles c' h = Some i)"

lemma same_handles_step: "handle_inv c \<Longrightarrow> same_handles c c' \<Longrightarrow> handle_step h c c'"
  by (simp add: handle_step_def handle_inv_def same_handles_def)

lemma open_payload_step:
  assumes "handle_inv c" and "unat (core_next_payload_handle c) < 2 ^ 64 - 1"
  shows "handle_step h c (snd (open_payload e fd i c))"
proof -
  note b = unat_handle_bump [OF assms(2)]
  have "handle_step h c (snd (register_payload_handle i c))"
    using assms(1) b by (auto simp: handle_step_def handle_inv_def register_payload_handle_def Let_def less_Suc_eq)
  then show ?thesis
    using same_handles_step [OF assms(1) handles_refl, of h] by (auto simp: open_payload_def split: sum.split prod.split)
qed

text \<open>Only opening and closing a payload touches the handles, and only an authentication the time of the
  last reload.\<close>

lemma handles_step:
  assumes "\<And>i. op \<noteq> DoRequest (OpenPayload i)" "\<And>h. op \<noteq> DoRequest (ClosePayload h)" "\<And>i. op \<noteq> DoOpenFd i"
    "\<And>certs pin uid. op \<noteq> DoAuthenticate certs pin uid"
  shows "same_handles c (daemon_step (e, op) c)"
proof (cases op)
  case (DoRequest req)
  then show ?thesis using assms(1,2) handles_request [of req c e] by auto
next
  case (DoMark k)
  then show ?thesis by (simp add: mark_source_ingested_def same_handlesI)
next
  case DoReclaim
  then show ?thesis unfolding DoReclaim daemon_step.simps reclaim_storage_def
    by (auto intro!: handles_intros split: sum.split)
next
  case DoReclassify
  then show ?thesis by (auto simp: reclassify_stored_packages_def intro: handles_intros)
next
  case DoClearMutes
  then show ?thesis unfolding DoClearMutes daemon_step.simps clear_volatile_mutes_def
    by (intro handles_bind [OF handles_clear_mutes]) simp
next
  case (DoIngest r keys)
  then show ?thesis by (simp add: handles_ingest)
next
  case DoUnlock
  then show ?thesis by (simp add: clear_unlock_mutes_def handles_clear_mutes)
qed (use assms in \<open>simp_all add: same_handles_def install_packages_def replace_packages_def core_subscribe_def
      mark_collector_received_def mark_collector_error_def update_health_def\<close>)

lemma authenticate_handles:
  "core_payload_handles (snd (core_authenticate e certs pin uid c)) = core_payload_handles c"
  "core_next_payload_handle (snd (core_authenticate e certs pin uid c)) = core_next_payload_handle c"
  by (auto simp: core_authenticate_def begin_package_reload_def install_packages_def replace_packages_def Let_def
      split: sum.split prod.split)

lemma daemon_handle_step:
  assumes "handle_inv c" and "unat (core_next_payload_handle c) < 2 ^ 64 - 1" and "op \<noteq> DoRequest (ClosePayload h)"
  shows "handle_step h c (daemon_step (e, op) c)"
proof -
  consider (open_it) i where "op = DoRequest (OpenPayload i)" | (close_it) k where "op = DoRequest (ClosePayload k)"
    | (fd) i where "op = DoOpenFd i" | (auth) certs pin uid where "op = DoAuthenticate certs pin uid"
    | (rest) "same_handles c (daemon_step (e, op) c)"
    using handles_step by blast
  then show ?thesis
  proof cases
    case (open_it i)
    then show ?thesis
      using open_payload_step [OF assms(1,2), of h e False i] by (auto simp: handle_request_def snd_bind split: sum.split)
  next
    case (close_it k)
    then show ?thesis using assms(1,3) by (auto simp: handle_request_def handle_step_def handle_inv_def split: if_splits)
  next
    case (auth certs pin uid)
    then show ?thesis using assms(1) by (simp add: handle_step_def handle_inv_def authenticate_handles)
  qed (use open_payload_step [OF assms(1,2)] same_handles_step [OF assms(1)] in simp_all)
qed

lemma daemon_handle_inv:
  assumes "handle_inv c" and "unat (core_next_payload_handle c) < 2 ^ 64 - 1"
  shows "handle_inv (daemon_step (e, op) c)"
    "unat (core_next_payload_handle (daemon_step (e, op) c)) \<le> Suc (unat (core_next_payload_handle c))"
proof -
  obtain h where "op \<noteq> DoRequest (ClosePayload h)" 
    by (cases "op = DoRequest (ClosePayload 0)") (auto intro: that [of 1] that [of 0])
  from daemon_handle_step [OF assms this]
  show "handle_inv (daemon_step (e, op) c)"
    "unat (core_next_payload_handle (daemon_step (e, op) c)) \<le> Suc (unat (core_next_payload_handle c))"
    by (simp_all add: handle_step_def)
qed

lemma handle_inv_run:
  "handle_inv c \<Longrightarrow> unat (core_next_payload_handle c) + length ops < 2 ^ 64 \<Longrightarrow>
   handle_inv (fold daemon_step ops c) \<and>
   unat (core_next_payload_handle (fold daemon_step ops c)) \<le> unat (core_next_payload_handle c) + length ops"
proof (induction ops arbitrary: c)
  case (Cons eo ops)
  have "unat (core_next_payload_handle c) < 2 ^ 64 - 1" using Cons.prems(2) by simp
  from daemon_handle_inv [OF Cons.prems(1) this, of "fst eo" "snd eo"] show ?case
    using Cons.IH [of "daemon_step eo c"] Cons.prems(2) by simp
qed simp

lemma handle_run:
  "handle_inv c \<Longrightarrow> unat (core_next_payload_handle c) + length ops < 2 ^ 64 \<Longrightarrow>
   list_all (\<lambda>(e, op). op \<noteq> DoRequest (ClosePayload h)) ops \<Longrightarrow> core_payload_handles c h = Some i \<Longrightarrow>
   core_payload_handles (fold daemon_step ops c) h = Some i"
proof (induction ops arbitrary: c)
  case (Cons eo ops)
  have "handle_step h c (daemon_step eo c)"
    using Cons.prems daemon_handle_step [of c "snd eo" h "fst eo"] by (simp add: case_prod_beta)
  then show ?case using Cons by (simp add: handle_step_def)
qed simp


section \<open>Source keys\<close>

lemma evict_loop_sources: "ingested_source (store_db (snd (evict_loop w o1 rs ev rc s))) = ingested_source (store_db s)"
  by (induction w o1 rs ev rc s rule: evict_loop.induct)
    (auto simp: Let_def evict_row_def update_records_def split: prod.split sum.split)

lemma fold_remove_sources: "ingested_source (fold remove_record rs d) = ingested_source d"
  by (induction rs arbitrary: d) simp_all

lemma sweep_keeps_key:
  assumes "(k, at) \<in> set (ingested_source (store_db s))" and "i64_saturating_sub now LOG_SOURCE_KEY_TTL_MS \<le> at"
  shows "was_ingested (store_db (snd (sweep w now retn s))) k"
proof -
  have "1 \<le> retention_days (clamped retn)" by (simp add: clamped_def retention_bounds clamp_def)
  then have "sweep_cutoff now (clamped retn) \<le> i64_saturating_sub now LOG_SOURCE_KEY_TTL_MS"
    unfolding sweep_cutoff_def i64_saturating_sub_def MS_PER_DAY_def LOG_SOURCE_KEY_TTL_MS_def
    by (intro i64_sat_mono) simp
  then have cut: "sweep_cutoff now (clamped retn) \<le> at" using assms(2) by simp
  have "(k, at) \<in> set (ingested_source (store_db (snd (sweep w now retn s))))"
  proof (rule sweep_preserves [where I = "\<lambda>s. (k, at) \<in> set (ingested_source (store_db s))"], goal_cases)
    case 1 show ?case by (rule assms(1))
  next
    case (2 name P s) then show ?case
      by (auto simp: delete_records_where_def Let_def fold_remove_sources split: prod.split sum.split)
  next
    case (3 n s) then show ?case by (simp add: evict_payloads_def Let_def evict_loop_sources)
  next
    case (4 c s) then show ?case by (simp add: drop_empty_groups_before_def Let_def)
  next
    case (5 s) then show ?case using assms(2) cut by (simp add: prune_ingested_sources_def Let_def)
  qed
  then show ?thesis by (force simp: was_ingested_def)
qed

lemma insert_source_fresh: "k \<in> set ks \<Longrightarrow> k \<notin> fst ` set srcs \<Longrightarrow> (k, at) \<in> set (insert_sources at ks srcs)"
proof (induction ks arbitrary: srcs)
  case (Cons x ks)
  have keep: "(k, at) \<in> set (fold (insert_source at) ks' ss)" if "(k, at) \<in> set ss" for ks' ss
    using that by (induction ks' arbitrary: ss) (simp_all add: insert_source_def)
  show ?case
  proof (cases "k = x")
    case True
    then have "(k, at) \<in> set (insert_source at x srcs)" using Cons.prems(2) by (simp add: insert_source_def)
    then show ?thesis using keep by (simp add: insert_sources_def)
  next
    case False
    then show ?thesis
      using Cons.IH [of "insert_source at x srcs"] Cons.prems by (auto simp: insert_sources_def insert_source_def)
  qed
qed simp

lemma insert_with_sources_keys:
  assumes "insert_with_sources w r retn keys at s = (Inr ins, s')" and "k \<in> set keys" and "\<not> was_ingested (store_db s) k"
  shows "(k, at) \<in> set (ingested_source (store_db s'))"
proof -
  have "ingested_source (store_db s') = insert_sources at keys (ingested_source (store_db s))"
    using assms(1)
    by (auto simp: insert_with_sources_def store_next_id_def insert_rows_def Let_def split: prod.splits sum.splits option.splits if_splits)
  then show ?thesis using assms(2,3) insert_source_fresh by (simp add: was_ingested_def)
qed

lemma fold_into_record_keys:
  assumes "fold_into_record w ex r retn keys at s = (Inr res, s')" and "k \<in> set keys"
  shows "was_ingested (store_db s') k"
proof -
  obtain d0 where "ingested_source (store_db s') = insert_sources at keys d0"
    using assms(1) by (auto simp: fold_into_record_def fold_rows_def Let_def split: prod.splits sum.splits option.splits if_splits)
  then show ?thesis using assms(2) set_insert_sources [of at keys d0] by (simp add: was_ingested_def)
qed

lemma mark_all_keys:
  assumes "mark_all e i ks c = (Inr x, c')"
  shows "k \<in> set ks \<or> was_source_ingested c k \<Longrightarrow> was_source_ingested c' k"
  using assms
proof (induction ks arbitrary: i c)
  case (Cons a ks)
  let ?w = "db_write e (''mark:'' @ a) (mark_ingested a (env_clock e i)) c"
  obtain b c1 where w: "?w = (Inr b, c1)" "mark_all e (Suc i) ks c1 = (Inr x, c')"
    using Cons.prems(2) by (cases ?w; cases "fst ?w") auto
  have "\<not> w_tx_fails (env_world e) (''mark:'' @ a)"
    using w(1) by (auto simp: db_write_def on_store_def wire_def split: if_splits)
  then have "store_db (core_store c1) = snd (mark_ingested a (env_clock e i) (store_db (core_store c)))"
    using db_write_store [of e "''mark:'' @ a" "mark_ingested a (env_clock e i)" c] w(1) by simp
  then have "k = a \<or> was_source_ingested c k \<Longrightarrow> was_source_ingested c1 k"
    by (auto simp: was_source_ingested_def was_ingested_def mark_ingested_def insert_source_def)
  then show ?case using Cons.IH [OF _ w(2)] Cons.prems(1) by auto
qed simp

section \<open>Outcomes of an ingest\<close>

lemma ingest_cases:
  assumes "load_config e c = Inr cfg" and r: "r = enrich_record e c r0"
  obtains (excluded) "\<not> wants cfg r"
      "ingest_with_sources e r0 keys c = bind_store (mark_all e 0 keys c) (\<lambda>_ c1. (Inr None, c1))"
  | (folded) ex where "wants cfg r" "companion_record (store_db (core_store c)) r (companion_window_ms (kind r)) = Some ex"
      "ingest_with_sources e r0 keys c =
         bind_store (on_store e (fold_into_record (env_world e) ex r (retention (global cfg)) keys (env_clock e 0)) c)
           (\<lambda>_ c1. (Inr None, c1))"
  | (inserted) "wants cfg r" "companion_record (store_db (core_store c)) r (companion_window_ms (kind r)) = None"
      "ingest_with_sources e r0 keys c =
         bind_store (on_store e (insert_with_sources (env_world e) r (retention (global cfg)) keys (env_clock e 0)) c)
           (\<lambda>ins c1. (Inr (Some ins), after_insert e cfg r ins c1))"
proof (cases "wants cfg r")
  case True
  then show ?thesis
    using assms(1) folded inserted
    by (cases "companion_record (store_db (core_store c)) r (companion_window_ms (kind r))")
      (auto simp: ingest_with_sources_def Let_def r)
next
  case False
  then show ?thesis using assms(1) excluded by (simp add: ingest_with_sources_def Let_def r)
qed


lemma wire_Inr [simp]: "wire e r = Inr x \<longleftrightarrow> r = Inr x"
  by (simp add: wire_def split: sum.split)

lemma on_store_Inr:
  "on_store e f c = (Inr x, c') \<longleftrightarrow> (\<exists>s. f (core_store c) = (Inr x, s) \<and> c' = c\<lparr>core_store := s\<rparr>)"
  by (auto simp: on_store_def split: prod.splits)

lemma bind_store_InrD: "bind_store m f = (Inr y, s') \<longleftrightarrow> (\<exists>x s. m = (Inr x, s) \<and> f x s = (Inr y, s'))"
  by (cases m) (auto simp: bind_store_def split: sum.splits)

lemma bind_store_Inl:
  "bind_store m f = (Inl y, s') \<longleftrightarrow> m = (Inl y, s') \<or> (\<exists>x s. m = (Inr x, s) \<and> f x s = (Inl y, s'))"
  by (cases m) (auto simp: bind_store_def split: sum.splits)

lemma notify_effects:
  "m \<noteq> Nothing \<Longrightarrow> \<exists>x. core_effects (notify r ins m c) = core_effects c @ [x]"
  by (cases m) (simp_all add: notify_def Let_def add_effect_def)

lemma after_insert_effects:
  "core_events (after_insert e cfg r ins c) = bus_broadcast (CrashRecorded (ins_record ins) (ins_group ins) (ins_is_new_group ins)) (core_events c)"
  "\<exists>fx. core_effects (after_insert e cfg r ins c) = core_effects c @ fx \<and>
     length fx = (if should_notify cfg (package_name r) (is_foreground r) \<and> \<not> is_muted c (package_name r) then 1 else 0)"
proof -
  let ?c = "broadcast (CrashRecorded (ins_record ins) (ins_group ins) (ins_is_new_group ins))
    (c\<lparr>core_store := snd (sweep (env_world e) (env_clock e 1) (retention (global cfg)) (core_store c))\<rparr>)"
  show "core_events (after_insert e cfg r ins c) = bus_broadcast (CrashRecorded (ins_record ins) (ins_group ins) (ins_is_new_group ins)) (core_events c)"
    by (simp add: after_insert_def Let_def broadcast_def)
  show "\<exists>fx. core_effects (after_insert e cfg r ins c) = core_effects c @ fx \<and>
     length fx = (if should_notify cfg (package_name r) (is_foreground r) \<and> \<not> is_muted c (package_name r) then 1 else 0)"
  proof (cases "should_notify cfg (package_name r) (is_foreground r) \<and> \<not> is_muted c (package_name r)")
    case True
    then have "effective_notify_mode cfg (package_name r) \<noteq> Nothing" by (auto simp: should_notify_def)
    then obtain x where "core_effects (notify r ins (effective_notify_mode cfg (package_name r)) ?c) = core_effects ?c @ [x]"
      using notify_effects by blast
    then show ?thesis using True by (simp add: after_insert_def Let_def is_muted_def)
  next
    case False
    then show ?thesis by (intro exI [of _ "[]"]) (auto simp: after_insert_def Let_def is_muted_def)
  qed
qed

text \<open>A fold changes neither the rows' identities nor the counts of the groups.\<close>

lemma fold_rows_shape:
  assumes "fold_rows t ex r a keys at d = (res, d')"
  shows "map r_id (crash_record d') = map r_id (crash_record d) \<and>
    map (\<lambda>g. (g_group_id g, g_occurrence g)) (crash_group d') = map (\<lambda>g. (g_group_id g, g_occurrence g)) (crash_group d)"
  using assms
  by (auto simp: fold_rows_def Let_def update_records_def adopt_payload_def update_groups_def comp_def if_distrib
      split: if_splits option.splits cong: if_cong)

lemma fold_into_record_shape:
  assumes "fold_into_record w ex r retn keys at s = (res, s')"
  shows "map r_id (crash_record (store_db s')) = map r_id (crash_record (store_db s)) \<and>
    map (\<lambda>g. (g_group_id g, g_occurrence g)) (crash_group (store_db s')) =
    map (\<lambda>g. (g_group_id g, g_occurrence g)) (crash_group (store_db s))"
  using assms by (auto simp: fold_into_record_def dest: fold_rows_shape split: prod.splits sum.splits option.splits)

lemma insert_error_db: "insert_with_sources w r retn keys at s = (Inl x, s') \<Longrightarrow> store_db s' = store_db s"
  by (auto simp: insert_with_sources_def store_next_id_def insert_rows_def Let_def
      split: prod.splits sum.splits option.splits if_splits)

lemma fold_error_db: "fold_into_record w ex r retn keys at s = (Inl x, s') \<Longrightarrow> store_db s' = store_db s"
  by (auto simp: fold_into_record_def fold_rows_def Let_def split: prod.splits sum.splits option.splits if_splits)

lemma mark_all_tables:
  "crash_record (store_db (core_store (snd (mark_all e i ks c)))) = crash_record (store_db (core_store c))"
  "crash_group (store_db (core_store (snd (mark_all e i ks c)))) = crash_group (store_db (core_store c))"
  by (induction ks arbitrary: i c)
    (auto simp: snd_bind db_write_store mark_ingested_def split: sum.split)

end
