(* ===== verification/Daemon_Props.thy ===== *)
theory Daemon_Props
  imports Daemon_Proofs "HOL-Library.Countable_Set"
begin

text \<open>
  What the daemon's core promises as a whole, for every sequence of its operations: its index stays well
  formed, an ingest announces exactly what it stored and remembers its sources, mutes stay coherent between
  memory and configuration, payload handles are stable, and package reloads are rate limited.
\<close>

section \<open>A concrete environment\<close>

text \<open>A document is its three parts, with the app table as a sorted list; this gives an injective text codec in
  place of \<^verbatim>\<open>serde_json\<close>.\<close>

instance NotifyMode :: countable by countable_datatype
instance MuteScope :: countable by countable_datatype

definition policy_parts :: "RetentionPolicy \<Rightarrow> int list" where
  "policy_parts p = [retention_days p, max_records_per_group p, max_records_total p, max_payload_bytes_total p,
     max_payload_bytes_per_record p]"

definition global_parts :: "GlobalConfig \<Rightarrow> bool list \<times> NotifyMode \<times> int list" where
  "global_parts g = ([enabled g, capture_java g, capture_anr g, capture_native g, capture_wtf g, capture_self_handled g,
     only_foreground g, foreground_unknown_notifies g, only_main_process g, include_system_apps g,
     takeover_system_dialog g, debug_logging g], notify_mode g, policy_parts (retention g))"

definition app_parts :: "AppConfig \<Rightarrow> NotifyMode option \<times> bool \<times> MuteScope" where
  "app_parts a = (app_notify_mode a, ignore a, mute a)"

definition doc_parts :: "ConfigDocument \<Rightarrow> int \<times> (bool list \<times> NotifyMode \<times> int list) \<times>
    (string \<times> (NotifyMode option \<times> bool \<times> MuteScope) option) list" where
  "doc_parts d = (schema_version d, global_parts (global d),
     map (\<lambda>p. (p, map_option app_parts (apps d p))) (btree_keys (apps d)))"

lemma global_parts_inj: "global_parts g = global_parts g' \<Longrightarrow> g = g'"
  by (cases g; cases g'; cases "retention g"; cases "retention g'") (simp add: global_parts_def policy_parts_def)

lemma app_parts_inj: "inj app_parts"
  by (rule injI) (simp add: app_parts_def)

lemma doc_parts_inj: "inj_on doc_parts {d. finite (dom (apps d))}"
proof (rule inj_onI)
  fix d d' assume fin: "d \<in> {d. finite (dom (apps d))}" "d' \<in> {d. finite (dom (apps d))}" and eq: "doc_parts d = doc_parts d'"
  let ?l = "\<lambda>d. map (\<lambda>p. (p, map_option app_parts (apps d p))) (btree_keys (apps d))"
  have l: "?l d = ?l d'" using eq by (simp add: doc_parts_def)
  have look: "map_of (?l d) p = (if p \<in> dom (apps d) then Some (map_option app_parts (apps d p)) else None)"
    if "finite (dom (apps d))" for d p
    unfolding map_of_map_restrict set_btree_keys [OF that] by (simp add: restrict_map_def)
  have "map_option app_parts (apps d p) = map_option app_parts (apps d' p)" for p
    using look [of d p] look [of d' p] fin l by (auto split: if_splits)
  then have "apps d = apps d'"
    using option.inj_map [OF app_parts_inj] by (auto simp: fun_eq_iff dest: injD)
  moreover have "global d = global d'" using eq by (intro global_parts_inj) (simp add: doc_parts_def)
  ultimately show "d = d'" using eq by (simp add: doc_parts_def)
qed

definition sample_to_json :: "ConfigDocument \<Rightarrow> string option" where
  "sample_to_json d = Some (replicate (to_nat (doc_parts d)) (CHR ''x''))"

definition sample_from_json :: "string \<Rightarrow> ConfigDocument option" where
  "sample_from_json text = Some (inv_into {d. finite (dom (apps d))} doc_parts (from_nat (length text - 1)))"

lemma sample_json_ok: "json_ok sample_from_json sample_to_json"
  by (auto simp: json_ok_def sample_from_json_def sample_to_json_def inv_into_f_f [OF doc_parts_inj])

definition sample_env :: Env where
  "sample_env =
     \<lparr>env_world = sample_world, env_clock = (\<lambda>_. 0), env_disk = empty_disk, env_config_path = [''c''],
      env_from_json = sample_from_json, env_to_json = sample_to_json, env_describe = (\<lambda>_. ''s''),
      env_describe_config = (\<lambda>_. ''c''), env_describe_auth = (\<lambda>_. ''a''), env_unzstd = Some, env_memfd_fails = False,
      env_cached_package = (\<lambda>_ _. None), env_bridge_connected = False, env_bridge_hello = None,
      env_cancel_notification = (\<lambda>_. Inr False), env_am = (\<lambda>_. True), env_resolve_activity = (\<lambda>_ _. None),
      env_dialog_status = Inl ''none'', env_dialog_set = (\<lambda>_. Inl ''none''), env_dropbox_tag = (\<lambda>_. Inr True),
      env_package_sources = \<lparr>ps_list = None, ps_pm_paths = None, ps_pm_system = None\<rparr>,
      env_logs = \<lparr>lt_logs = [], lt_old = []\<rparr>, env_export_json = (\<lambda>_. Inr ''[]''), env_daemon_version = ''1'',
      env_uptime_ms = 0, env_pid = 1, env_abi = ''arm64'', env_android_sdk = 34, env_selinux_file = None,
      env_page_count = 1, env_page_size = 4096\<rparr>"

lemma sample_steady: "steady sample_from_json sample_to_json [''c''] sample_env"
  by (simp add: steady_def sample_env_def empty_disk_def sample_world_def)

definition fresh_core :: DaemonCore where
  "fresh_core = core_new fresh_store Map.empty empty_index"

section \<open>The index below the daemon\<close>

lemma run_reaches: "reaches (core_store c) (core_store (fold daemon_step ops c))"
proof (induction ops arbitrary: c)
  case (Cons eo ops)
  have "reaches (core_store c) (core_store (daemon_step eo c))"
    using daemon_step_advances [of c "fst eo" "snd eo"] by (simp add: advances_def)
  also note Cons.IH
  finally show ?case by simp
qed simp

text \<open>C1: whatever sequence of operations the daemon performs from a fresh start (ingests, every request of
  the protocol, unlocks, clean-ups, reclassification, package updates, authentication), with any clock
  readings and any failures of disk, SQLite, bridge and commands, its store is reached by the store's own
  operations, and so its crash index is well formed.\<close>
theorem daemon_index_well_formed:
  "(\<exists>sops. core_store (fold daemon_step ops (core_new fresh_store fs ix)) = fold store_step sops fresh_store) \<and>
   db_inv False (store_db (core_store (fold daemon_step ops (core_new fresh_store fs ix))))"
proof -
  let ?s = "core_store (fold daemon_step ops (core_new fresh_store fs ix))"
  obtain sops where s: "?s = fold store_step sops fresh_store"
    using run_reaches [of "core_new fresh_store fs ix" ops] by (auto simp: reaches_def core_new_def)
  have "store_ok (fold (\<lambda>op exact. exact \<and> keeps_exact op) sops False) (fold store_step sops fresh_store)"
    by (rule store_run.run_inv) (simp_all add: store_ok_def fresh_store_def)
  then have "db_inv False (store_db (fold store_step sops fresh_store))"
    by (simp add: store_ok_def fold_keeps_exact)
  with s show ?thesis by (intro conjI exI [of _ sops]) simp_all
qed

section \<open>Ingest\<close>

lemma bind_store_flip: "(x, c') = bind_store m f \<longleftrightarrow> bind_store m f = (x, c')"
  by (rule eq_commute)

lemma ingest_error:
  assumes "ingest_with_sources e r0 keys c = (Inl err, c')"
  shows "crash_record (store_db (core_store c')) = crash_record (store_db (core_store c)) \<and>
    crash_group (store_db (core_store c')) = crash_group (store_db (core_store c)) \<and>
    core_events c' = core_events c \<and> core_effects c' = core_effects c"
proof (cases "load_config e c")
  case (Inr cfg)
  show ?thesis
  proof (cases rule: ingest_cases [OF Inr refl, where keys = keys and ?r0.0 = r0, case_names excluded folded inserted])
    case excluded
    then have "mark_all e 0 keys c = (Inl err, c')" using assms by (auto simp: bind_store_flip bind_store_Inl)
    then show ?thesis
      using mark_all_tables [of e 0 keys c] mark_all_rest(1) [of c e 0 keys] by (simp add: same_rest_def)
  next
    case (folded ex)
    then have "on_store e (fold_into_record (env_world e) ex (enrich_record e c r0) (retention (global cfg)) keys (env_clock e 0)) c
        = (Inl err, c')"
      using assms by (auto simp: bind_store_flip bind_store_Inl)
    then show ?thesis by (auto simp: on_store_def wire_def dest: fold_error_db split: prod.splits sum.splits)
  next
    case inserted
    then have "on_store e (insert_with_sources (env_world e) (enrich_record e c r0) (retention (global cfg)) keys (env_clock e 0)) c
        = (Inl err, c')"
      using assms by (auto simp: bind_store_flip bind_store_Inl)
    then show ?thesis by (auto simp: on_store_def wire_def dest: insert_error_db split: prod.splits sum.splits)
  qed
qed (use assms in \<open>simp add: ingest_with_sources_def\<close>)

lemma ingest_without_row:
  assumes "ingest_with_sources e r0 keys c = (Inr None, c')"
  shows "map r_id (crash_record (store_db (core_store c'))) = map r_id (crash_record (store_db (core_store c))) \<and>
    map (\<lambda>g. (g_group_id g, g_occurrence g)) (crash_group (store_db (core_store c'))) =
    map (\<lambda>g. (g_group_id g, g_occurrence g)) (crash_group (store_db (core_store c))) \<and>
    core_events c' = core_events c \<and> core_effects c' = core_effects c"
proof (cases "load_config e c")
  case (Inr cfg)
  show ?thesis
  proof (cases rule: ingest_cases [OF Inr refl, where keys = keys and ?r0.0 = r0, case_names excluded folded inserted])
    case excluded
    then have "snd (mark_all e 0 keys c) = c'" using assms by (auto simp: bind_store_flip bind_store_InrD)
    then show ?thesis
      using mark_all_tables [of e 0 keys c] mark_all_rest(1) [of c e 0 keys] by (simp add: same_rest_def)
  next
    case (folded ex)
    then obtain x where "on_store e (fold_into_record (env_world e) ex (enrich_record e c r0) (retention (global cfg)) keys (env_clock e 0)) c
        = (Inr x, c')"
      using assms by (auto simp: bind_store_flip bind_store_InrD)
    then show ?thesis by (auto simp: on_store_Inr dest: fold_into_record_shape)
  qed (use assms in \<open>auto simp: bind_store_flip bind_store_InrD\<close>)
qed (use assms in \<open>simp add: ingest_with_sources_def\<close>)

lemma ingest_with_row:
  assumes "ingest_with_sources e r0 keys c = (Inr (Some ins), c')"
  obtains cfg s where "load_config e c = Inr cfg" "wants cfg (enrich_record e c r0)"
    "insert_with_sources (env_world e) (enrich_record e c r0) (retention (global cfg)) keys (env_clock e 0) (core_store c) = (Inr ins, s)"
    "c' = after_insert e cfg (enrich_record e c r0) ins (c\<lparr>core_store := s\<rparr>)"
proof (cases "load_config e c")
  case (Inr cfg)
  show ?thesis
  proof (cases rule: ingest_cases [OF Inr refl, where keys = keys and ?r0.0 = r0, case_names excluded folded inserted])
    case inserted
    with assms show ?thesis using that [OF Inr] by (auto simp: bind_store_flip bind_store_InrD on_store_Inr)
  qed (use assms in \<open>auto simp: bind_store_flip bind_store_InrD\<close>)
qed (use assms in \<open>simp add: ingest_with_sources_def\<close>)

text \<open>C3: the outcome of an ingest says what happened.  An error leaves records, groups, subscribers and alerts as
  they were; the answer without a record changes neither the records' identities nor any group's occurrence
  count, and announces nothing; a stored record was wanted by the configuration, exactly one
  \<^verbatim>\<open>CrashRecorded\<close> event with it went to every live subscriber that had room, and exactly one alert was
  raised if the configuration asks for one and the package is not muted, none otherwise.\<close>
theorem ingest_outcome:
  "case ingest_with_sources e r0 keys c of
     (Inl err, c') \<Rightarrow>
       crash_record (store_db (core_store c')) = crash_record (store_db (core_store c)) \<and>
       crash_group (store_db (core_store c')) = crash_group (store_db (core_store c)) \<and>
       core_events c' = core_events c \<and> core_effects c' = core_effects c
   | (Inr None, c') \<Rightarrow>
       map r_id (crash_record (store_db (core_store c'))) = map r_id (crash_record (store_db (core_store c))) \<and>
       map (\<lambda>g. (g_group_id g, g_occurrence g)) (crash_group (store_db (core_store c'))) =
         map (\<lambda>g. (g_group_id g, g_occurrence g)) (crash_group (store_db (core_store c))) \<and>
       core_events c' = core_events c \<and> core_effects c' = core_effects c
   | (Inr (Some ins), c') \<Rightarrow>
       (let r = enrich_record e c r0
        in \<exists>cfg s fx. load_config e c = Inr cfg \<and> wants cfg r \<and>
          insert_with_sources (env_world e) r (retention (global cfg)) keys (env_clock e 0) (core_store c) = (Inr ins, s) \<and>
          core_events c' =
            map (\<lambda>q. if length (sub_queue q) < EVENT_QUEUE_CAPACITY
                     then q\<lparr>sub_queue := sub_queue q @ [CrashRecorded (ins_record ins) (ins_group ins) (ins_is_new_group ins)]\<rparr>
                     else q)
              (filter sub_open (core_events c)) \<and>
          core_effects c' = core_effects c @ fx \<and>
          length fx = (if should_notify cfg (package_name r) (is_foreground r) \<and> core_volatile_mutes c (package_name r) = None
                       then 1 else 0))"
proof -
  obtain res c' where i: "ingest_with_sources e r0 keys c = (res, c')" by (cases "ingest_with_sources e r0 keys c")
  consider (err) err where "res = Inl err" | (none) "res = Inr None" | (row) ins where "res = Inr (Some ins)"
    by (metis sumE option.exhaust)
  then show ?thesis
  proof cases
    case err then show ?thesis using i ingest_error by simp
  next
    case none then show ?thesis using i ingest_without_row by simp
  next
    case (row ins)
    let ?r = "enrich_record e c r0"
    from ingest_with_row [OF i [unfolded row]] obtain cfg s where cs: "load_config e c = Inr cfg" "wants cfg ?r"
      "insert_with_sources (env_world e) ?r (retention (global cfg)) keys (env_clock e 0) (core_store c) = (Inr ins, s)"
      "c' = after_insert e cfg ?r ins (c\<lparr>core_store := s\<rparr>)" by blast
    obtain fx where fx: "core_effects c' = core_effects c @ fx"
      "length fx = (if should_notify cfg (package_name ?r) (is_foreground ?r) \<and> core_volatile_mutes c (package_name ?r) = None
                    then 1 else 0)"
      using after_insert_effects(2) [of e cfg ?r ins "c\<lparr>core_store := s\<rparr>"] cs(4) by (auto simp: is_muted_def)
    have "core_events c' = bus_broadcast (CrashRecorded (ins_record ins) (ins_group ins) (ins_is_new_group ins)) (core_events c)"
      using after_insert_effects(1) [of e cfg ?r ins "c\<lparr>core_store := s\<rparr>"] cs(4) by simp
    then show ?thesis
      unfolding i row Let_def prod.case sum.case option.case using cs fx
      by (intro exI [of _ cfg] exI [of _ s] exI [of _ fx]) (simp add: bus_broadcast_def try_send_def)
  qed
qed

lemma ingest_confirms_sources':
  assumes "ingest_with_sources e r0 keys c = (Inr res, c')" and "k \<in> set keys" and "\<not> was_source_ingested c k"
    and "env_clock e 1 \<le> env_clock e 0 + LOG_SOURCE_KEY_TTL_MS" and "i64_min \<le> env_clock e 0"
  shows "was_source_ingested c' k"
proof (cases "load_config e c")
  case (Inr cfg)
  have t: "i64_saturating_sub (env_clock e 1) LOG_SOURCE_KEY_TTL_MS \<le> env_clock e 0"
    using assms(4,5) by (simp add: i64_saturating_sub_def i64_sat_def)
  show ?thesis
  proof (cases rule: ingest_cases [OF Inr refl, where keys = keys and ?r0.0 = r0, case_names excluded folded inserted])
    case excluded
    then have "mark_all e 0 keys c = (Inr (), c')" using assms(1) by (auto simp: bind_store_flip bind_store_InrD)
    then show ?thesis by (rule mark_all_keys) (simp add: assms(2))
  next
    case (folded ex)
    then show ?thesis
      using assms(1,2) by (auto simp: bind_store_flip bind_store_InrD on_store_Inr was_source_ingested_def dest: fold_into_record_keys)
  next
    case inserted
    then obtain ins s where s: "insert_with_sources (env_world e) (enrich_record e c r0) (retention (global cfg)) keys (env_clock e 0)
        (core_store c) = (Inr ins, s)" "c' = after_insert e cfg (enrich_record e c r0) ins (c\<lparr>core_store := s\<rparr>)"
      using assms(1) by (auto simp: bind_store_flip bind_store_InrD on_store_Inr)
    have "(k, env_clock e 0) \<in> set (ingested_source (store_db s))"
      using insert_with_sources_keys [OF s(1) assms(2)] assms(3) by (simp add: was_source_ingested_def)
    from sweep_keeps_key [OF this t] show ?thesis
      by (simp add: s(2) after_insert_def Let_def was_source_ingested_def broadcast_def)
  qed
qed (use assms(1) in \<open>simp add: ingest_with_sources_def\<close>)

text \<open>C5: a successful ingest confirms its sources: whether the record was stored, folded into a companion or
  unwanted, every source key that came with it and was new is remembered afterwards, so the collectors do
  not deliver the same source again; this includes the sweep at the end of an insert, as long as its clock
  reading is less than the keys' life time later.\<close>
theorem ingest_confirms_sources:
  assumes "ingest_with_sources e r0 keys c = (Inr res, c')" and "k \<in> set keys" and "\<not> was_source_ingested c k"
    and "env_clock e 1 \<le> env_clock e 0 + LOG_SOURCE_KEY_TTL_MS" and "i64_min \<le> env_clock e 0"
  shows "was_source_ingested c' k"
  by (rule ingest_confirms_sources' [OF assms])

lemma sample_enrich [simp]: "enrich_record sample_env fresh_core r = r"
  by (simp add: enrich_record_def sample_env_def fresh_core_def core_new_def empty_index_def by_name_def classify_package_def
      index_is_empty_def)

lemma sample_config: "core_files c = Map.empty \<Longrightarrow> load_config sample_env c = Inr document_default"
  by (rule load_steady [OF sample_steady]) (simp add: config_is_def document_default_def)

lemma sample_ingest:
  obtains ins c' where "ingest_with_sources sample_env (sample_record 9) [''k''] fresh_core = (Inr (Some ins), c')"
proof -
  have "store_db fresh_store = empty_db" by (simp add: fresh_store_def)
  then have "as_str (fst (Record_Id.next_id (store_ids fresh_store) (u64_of (happened_at_ms (sample_record 9))))) \<notin>
      ids_of (store_db fresh_store)" by (simp add: ids_of_def empty_db_def)
  from insert_accepted [OF sample_accepts refl this] obtain ins s' where
    ins: "insert_with_sources sample_world (sample_record 9) (retention (global document_default)) [''k''] 0 fresh_store = (Inr ins, s')"
    by blast
  have cfg: "load_config sample_env fresh_core = Inr document_default"
    by (rule sample_config) (simp add: fresh_core_def core_new_def)
  have wants: "wants document_default (sample_record 9)"
    by (simp add: wants_def sample_record_def document_default_def global_default_def should_record_def app_def app_default_def)
  have none: "companion_record (store_db (core_store fresh_core)) (sample_record 9) (companion_window_ms Anr) = None"
    by (simp add: companion_record_def fresh_core_def core_new_def fresh_store_def empty_db_def)
  show ?thesis
  proof (cases rule: ingest_cases [OF cfg refl, where keys = "[''k'']" and ?r0.0 = "sample_record 9", case_names excluded folded inserted])
    case inserted
    have "env_world sample_env = sample_world" "env_clock sample_env 0 = 0" "core_store fresh_core = fresh_store"
      by (simp_all add: sample_env_def fresh_core_def core_new_def)
    then show ?thesis using inserted(3) ins that by (simp add: on_store_def wire_def)
  qed (use wants none in \<open>simp_all add: sample_record_def\<close>)
qed

theorem ingest_confirms_sources_witness:
  "\<exists>res c'. ingest_with_sources sample_env (sample_record 9) [''k''] fresh_core = (Inr res, c') \<and> was_source_ingested c' ''k''"
proof -
  obtain ins c' where i: "ingest_with_sources sample_env (sample_record 9) [''k''] fresh_core = (Inr (Some ins), c')"
    by (rule sample_ingest)
  have "was_source_ingested c' ''k''"
    by (rule ingest_confirms_sources [OF i])
      (simp_all add: was_source_ingested_def was_ingested_def fresh_core_def core_new_def fresh_store_def empty_db_def
        sample_env_def LOG_SOURCE_KEY_TTL_MS_def i64_min_def)
  then show ?thesis using i by blast
qed

section \<open>Mutes\<close>

lemma steady_run: "mute_run.all_allowed ops (fj, tj, P) \<longleftrightarrow> list_all (\<lambda>eo. steady fj tj P (fst eo)) ops"
  by (induction ops) (auto split: prod.split)

lemma fold_same_index: "fold (\<lambda>_ i. i) xs i = i"
  by (induction xs) simp_all

lemma mutes_agree_run:
  assumes "json_ok fj tj" and "steady fj tj P e0" and "config_is fj P (core_files c0) doc" and "core_volatile_mutes c0 = Map.empty"
    and "list_all (\<lambda>eo. steady fj tj P (fst eo)) ops"
  shows "mutes_agree fj P (fold daemon_step ops (snd (clear_volatile_mutes e0 c0)))"
  using mute_run.run_inv [of "(fj, tj, P)" "snd (clear_volatile_mutes e0 c0)" ops] assms(1,5) startup_agree [OF assms(1-4)]
  by (simp add: steady_run fold_same_index)

lemma mutes_agree_load:
  assumes "mutes_agree fj P c" and "steady fj tj P e"
  obtains doc where "load_config e c = Inr doc"
    "\<And>p. core_volatile_mutes c p = (if mute (app doc p) = MuteNone then None else Some (mute (app doc p)))"
  using assms load_steady [OF assms(2)] by (auto simp: mutes_agree_def scope_entry_def)

text \<open>C9: after the clean-up at start-up, and through any sequence of the daemon's operations while the disk and
  SQLite work, memory and the configuration file agree about every mute: a package is muted in memory, with
  some scope, exactly when the stored configuration says so with that scope.\<close>
theorem mutes_stay_coherent:
  assumes "json_ok fj tj" and "steady fj tj P e0" and "steady fj tj P e"
    and "list_all (\<lambda>eo. steady fj tj P (fst eo)) ops" and "config_is fj P fs doc0"
  shows "let c = fold daemon_step ops (snd (clear_volatile_mutes e0 (core_new s fs ix)))
     in \<exists>doc. load_config e c = Inr doc \<and>
       (\<forall>p. core_volatile_mutes c p = (if mute (app doc p) = MuteNone then None else Some (mute (app doc p))))"
proof -
  have "mutes_agree fj P (fold daemon_step ops (snd (clear_volatile_mutes e0 (core_new s fs ix))))"
    using assms by (intro mutes_agree_run) (simp_all add: core_new_def)
  from mutes_agree_load [OF this assms(3)] show ?thesis unfolding Let_def by metis
qed

theorem mutes_stay_coherent_witness:
  "let c = fold daemon_step [(sample_env, DoRequest (MuteApp ''com.a'' UntilUnlock))]
       (snd (clear_volatile_mutes sample_env (core_new fresh_store Map.empty empty_index)))
   in \<exists>doc. load_config sample_env c = Inr doc \<and>
     (\<forall>p. core_volatile_mutes c p = (if mute (app doc p) = MuteNone then None else Some (mute (app doc p))))"
  by (rule mutes_stay_coherent [where ?doc0.0 = document_default, OF sample_json_ok sample_steady sample_steady])
    (simp_all add: sample_steady config_is_def document_default_def)

text \<open>the first unlock ends exactly the mutes that last until then, in memory and in the stored
  configuration, and keeps every other one.\<close>
theorem unlock_ends_unlock_mutes:
  assumes "json_ok fj tj" and "steady fj tj P e0" and "steady fj tj P e"
    and "list_all (\<lambda>eo. steady fj tj P (fst eo)) ops" and "config_is fj P fs doc0"
  shows "let c = fold daemon_step ops (snd (clear_volatile_mutes e0 (core_new s fs ix))); c' = snd (clear_unlock_mutes e c)
     in \<exists>doc doc'. load_config e c = Inr doc \<and> load_config e c' = Inr doc' \<and>
       (\<forall>p. mute (app doc' p) = (if mute (app doc p) = UntilUnlock then MuteNone else mute (app doc p)) \<and>
            is_muted c' p = (mute (app doc' p) \<noteq> MuteNone))"
proof -
  define c where "c = fold daemon_step ops (snd (clear_volatile_mutes e0 (core_new s fs ix)))"
  define c' where "c' = snd (clear_unlock_mutes e c)"
  have ag: "mutes_agree fj P c"
    unfolding c_def using assms by (intro mutes_agree_run) (simp_all add: core_new_def)
  note cl = clear_mutes_agree [OF assms(1,3) ag, of "\<lambda>s. s = UntilUnlock", folded clear_unlock_mutes_def c'_def]
  obtain doc where d: "load_config e c = Inr doc"
    "\<And>p. core_volatile_mutes c p = (if mute (app doc p) = MuteNone then None else Some (mute (app doc p)))"
    using mutes_agree_load [OF ag assms(3)] by blast
  obtain doc' where d': "load_config e c' = Inr doc'"
    "\<And>p. core_volatile_mutes c' p = (if mute (app doc' p) = MuteNone then None else Some (mute (app doc' p)))"
    using mutes_agree_load [OF cl(1) assms(3)] by blast
  have "mute (app doc' p) = (if mute (app doc p) = UntilUnlock then MuteNone else mute (app doc p))" for p
    using fun_cong [OF cl(2), of p] d(2) [of p] d'(2) [of p] by (auto split: if_splits)
  then show ?thesis
    unfolding Let_def c_def [symmetric] c'_def [symmetric] using d(1) d' by (auto simp: is_muted_def)
qed

theorem unlock_ends_unlock_mutes_witness:
  "let c = fold daemon_step [(sample_env, DoRequest (MuteApp ''com.a'' UntilUnlock))]
       (snd (clear_volatile_mutes sample_env (core_new fresh_store Map.empty empty_index)));
     c' = snd (clear_unlock_mutes sample_env c)
   in \<exists>doc doc'. load_config sample_env c = Inr doc \<and> load_config sample_env c' = Inr doc' \<and>
       (\<forall>p. mute (app doc' p) = (if mute (app doc p) = UntilUnlock then MuteNone else mute (app doc p)) \<and>
            is_muted c' p = (mute (app doc' p) \<noteq> MuteNone))"
  by (rule unlock_ends_unlock_mutes [where ?doc0.0 = document_default, OF sample_json_ok sample_steady sample_steady])
    (simp_all add: sample_steady config_is_def document_default_def)

section \<open>Reclassification\<close>

definition with_flag :: "(string \<rightharpoonup> bool) \<Rightarrow> GroupRow \<Rightarrow> GroupRow" where
  "with_flag m g = (case m (g_package_name g) of None \<Rightarrow> g
     | Some sys \<Rightarrow> g\<lparr>g_is_system_app := sys, g_package_installed := True\<rparr>)"

lemma with_flag_name [simp]: "g_package_name (with_flag m g) = g_package_name g"
  by (simp add: with_flag_def split: option.split)

lemma apply_flags_map:
  "distinct (map fst flags) \<Longrightarrow> apply_flags flags d =
     (length (filter (\<lambda>g. with_flag (map_of flags) g \<noteq> g) (crash_group d)),
      d\<lparr>crash_group := map (with_flag (map_of flags)) (crash_group d)\<rparr>)"
proof (induction flags d rule: apply_flags.induct)
  case (1 d) show ?case by (simp add: with_flag_def)
next
  case (2 name sys rest d)
  let ?P = "\<lambda>g. g_package_name g = name \<and> (g_is_system_app g \<noteq> sys \<or> \<not> g_package_installed g)"
  let ?f = "\<lambda>g. if ?P g then g\<lparr>g_is_system_app := sys, g_package_installed := True\<rparr> else g"
  have new: "map_of rest name = None" using 2(2) by (simp add: map_of_eq_None_iff)
  have f: "with_flag (map_of ((name, sys) # rest)) g = with_flag (map_of rest) (?f g)" for g
    by (cases "g_package_name g = name") (auto simp: with_flag_def new)
  have changed: "with_flag (map_of ((name, sys) # rest)) g \<noteq> g \<longleftrightarrow> ?P g \<or> with_flag (map_of rest) (?f g) \<noteq> ?f g" for g
    by (cases g) (auto simp: with_flag_def new split: option.split)
  have disj: "\<not> (?P g \<and> with_flag (map_of rest) (?f g) \<noteq> ?f g)" for g
    by (auto simp: with_flag_def new)
  have n: "length (filter (\<lambda>g. ?P g \<or> with_flag (map_of rest) (?f g) \<noteq> ?f g) gs) =
      length (filter ?P gs) + length (filter (\<lambda>g. with_flag (map_of rest) g \<noteq> g) (map ?f gs))" for gs
  proof (induction gs)
    case (Cons g gs) then show ?case using disj [of g] by (simp del: if_split_asm) argo
  qed simp
  have "distinct (map fst rest)" using 2(2) by simp
  then have IH: "apply_flags rest (update_groups ?P (\<lambda>g. g\<lparr>g_is_system_app := sys, g_package_installed := True\<rparr>) d) =
      (length (filter (\<lambda>g. with_flag (map_of rest) g \<noteq> g) (map ?f (crash_group d))),
       d\<lparr>crash_group := map (with_flag (map_of rest)) (map ?f (crash_group d))\<rparr>)"
    using 2(1) [OF refl refl] unfolding update_groups_def by simp
  have gs: "map (with_flag (map_of rest)) (map ?f (crash_group d)) = map (with_flag (map_of ((name, sys) # rest))) (crash_group d)"
    unfolding map_map comp_def by (rule map_cong [OF refl]) (rule f [symmetric])
  show ?case by (simp only: apply_flags.simps Let_def IH prod.case gs changed n)
qed

lemma flags_of:
  "map fst (List.map_filter (\<lambda>n. map_option (\<lambda>p. (n, F p)) (look n)) ns) = filter (\<lambda>n. look n \<noteq> None) ns"
  "map_of (List.map_filter (\<lambda>n. map_option (\<lambda>p. (n, F p)) (look n)) ns) n = (if n \<in> set ns then map_option F (look n) else None)"
  "List.map_filter (\<lambda>n. map_option (\<lambda>p. (n, F p)) (look n)) ns = [] \<longleftrightarrow> (\<forall>n \<in> set ns. look n = None)"
  by (induction ns) (auto simp: List.map_filter_simps split: option.split if_splits)

text \<open>once the package manager's flags are known, a reclassification rewrites exactly the groups of installed
  packages with their current flag, counts exactly the groups it changed, and touches nothing else; without the
  flags it does nothing, and a failing statement leaves the index as it was.\<close>
theorem reclassify_repairs_groups:
  "reclassify_stored_packages e c =
     (let ix = core_packages c; d = store_db (core_store c);
          fix1 = (\<lambda>g. case by_name ix (g_package_name g) of None \<Rightarrow> g
                      | Some p \<Rightarrow> g\<lparr>g_is_system_app := pe_is_system p, g_package_installed := True\<rparr>)
      in if ix_system_flags_known ix \<and> list_ex (\<lambda>g. by_name ix (g_package_name g) \<noteq> None) (crash_group d)
         then (if w_tx_fails (env_world e) ''flags'' then (wire e (Inl Sqlite), c)
               else (Inr (length (filter (\<lambda>g. fix1 g \<noteq> g) (crash_group d))),
                     c\<lparr>core_store := (core_store c)\<lparr>store_db := d\<lparr>crash_group := map fix1 (crash_group d)\<rparr>\<rparr>\<rparr>))
         else (Inr 0, c))"
proof -
  let ?ix = "core_packages c" and ?d = "store_db (core_store c)"
  let ?fl = "reclassify_flags ?ix ?d"
  let ?names = "sort (remdups (map g_package_name (crash_group ?d)))"
  note fl = flags_of [where F = pe_is_system and look = "by_name ?ix" and ns = ?names,
      folded group_package_names_def, folded reclassify_flags_def]
  have "distinct ?names" by simp
  then have dist: "distinct (map fst ?fl)" unfolding fl(1) group_package_names_def by (rule distinct_filter)
  have fix1: "with_flag (map_of ?fl) g = (case by_name ?ix (g_package_name g) of None \<Rightarrow> g
      | Some p \<Rightarrow> g\<lparr>g_is_system_app := pe_is_system p, g_package_installed := True\<rparr>)" if "g \<in> set (crash_group ?d)" for g
    using that by (simp add: with_flag_def fl(2) group_package_names_def split: option.split)
  have empty: "?fl = [] \<longleftrightarrow> \<not> list_ex (\<lambda>g. by_name ?ix (g_package_name g) \<noteq> None) (crash_group ?d)"
    unfolding fl(3) by (simp add: group_package_names_def list_ex_iff)
  show ?thesis
    unfolding reclassify_stored_packages_def package_flags_known_def apply_package_system_flags_def on_store_def Let_def
      apply_flags_map [OF dist] empty
    by (simp add: wire_def fix1 cong: map_cong filter_cong)
qed

section \<open>The global configuration\<close>

lemma update_config_stored:
  assumes "load_config e c = Inr before" and "update_config e f c = (Inr stored, c')"
  shows "stored = document_normalized (f before)"
proof -
  have "load (env_from_json e) (env_config_path e) (disk_of e c) = Inr before"
    using assms(1) by (simp add: load_config_def split: sum.splits)
  then show ?thesis
    using assms(2) by (auto simp: update_config_def update_def load_or_recover_def Let_def split: sum.splits prod.splits)
qed

lemma set_global_config_result:
  assumes "set_global_config e patch c = (Inr resp, c')"
  obtains before c1 where "load_config e c = Inr before"
    "update_config e (\<lambda>doc. doc\<lparr>global := gp_apply patch (global doc)\<rparr>) c =
       (Inr (document_normalized (before\<lparr>global := gp_apply patch (global before)\<rparr>)), c1)"
    "resp = GlobalConfigResponse \<lparr>gr_config = gp_apply patch (global before), gr_adjusted = False\<rparr>"
    "c' = broadcast ConfigChanged (c1\<lparr>core_debug_log := debug_logging (gp_apply patch (global before))\<rparr>)"
proof -
  let ?f = "\<lambda>doc. doc\<lparr>global := gp_apply patch (global doc)\<rparr>"
  obtain before where b: "load_config e c = Inr before"
    using assms by (cases "load_config e c") (auto simp: set_global_config_def)
  obtain stored c1 where u: "update_config e ?f c = (Inr stored, c1)"
    and r: "resp = GlobalConfigResponse \<lparr>gr_config = global stored, gr_adjusted = (gp_apply patch (global before) \<noteq> global stored)\<rparr>"
      "c' = broadcast ConfigChanged (c1\<lparr>core_debug_log := debug_logging (global stored)\<rparr>)"
    using assms b by (auto simp: set_global_config_def bind_store_InrD)
  have s: "stored = document_normalized (?f before)" by (rule update_config_stored [OF b u])
  have "global stored = gp_apply patch (global before)"
    by (simp add: s document_normalized_def global_normalized_def policy.norm_id [OF gp_apply_ok])
  with that [of before c1] b u r s show ?thesis by simp
qed

text \<open>a successful change of the global configuration always answers \<^verbatim>\<open>adjusted: false\<close>.  The stored values
  are the patched ones clamped to their ranges, and the comparison is with an already clamped copy, so a
  client whose value was corrected is not told.\<close>
theorem set_global_config_never_adjusted:
  assumes "set_global_config e patch c = (Inr resp, c')"
  shows "\<exists>before r. load_config e c = Inr before \<and> resp = GlobalConfigResponse r \<and> gr_config r = gp_apply patch (global before) \<and>
     policy_ok (retention (gr_config r)) \<and> \<not> gr_adjusted r \<and> core_debug_log c' = debug_logging (gr_config r)"
  by (rule set_global_config_result [OF assms]) (auto simp: gp_apply_ok broadcast_def)

definition zero_days_patch :: GlobalConfigPatch where
  "zero_days_patch = \<lparr>gp_enabled = None, gp_capture_java = None, gp_capture_anr = None, gp_capture_native = None,
     gp_capture_wtf = None, gp_capture_self_handled = None, gp_notify_mode = None, gp_only_foreground = None,
     gp_foreground_unknown_notifies = None, gp_only_main_process = None, gp_include_system_apps = None,
     gp_takeover_system_dialog = None, gp_debug_logging = None,
     gp_retention = \<lparr>rp_retention_days = Some 0, rp_max_records_per_group = None, rp_max_records_total = None,
       rp_max_payload_bytes_total = None, rp_max_payload_bytes_per_record = None\<rparr>\<rparr>"

text \<open>A client that asks for zero days gets one, and is told that nothing was adjusted.\<close>
theorem set_global_config_never_adjusted_witness:
  "\<exists>r c'. set_global_config sample_env zero_days_patch fresh_core = (Inr (GlobalConfigResponse r), c') \<and>
     retention_days (retention (gr_config r)) = 1 \<and> \<not> gr_adjusted r"
proof -
  have cfg: "config_is sample_from_json [''c''] (core_files fresh_core) document_default"
    by (simp add: config_is_def fresh_core_def core_new_def document_default_def)
  have load: "load_config sample_env fresh_core = Inr document_default" by (rule load_steady [OF sample_steady cfg])
  obtain c1 where u: "update_config sample_env (\<lambda>doc. doc\<lparr>global := gp_apply zero_days_patch (global doc)\<rparr>) fresh_core =
      (Inr (document_normalized (document_default\<lparr>global := gp_apply zero_days_patch (global document_default)\<rparr>)), c1)"
    by (rule update_steady [OF sample_json_ok sample_steady cfg, where f = "\<lambda>doc. doc\<lparr>global := gp_apply zero_days_patch (global doc)\<rparr>"])
      (simp_all add: document_default_def)
  then obtain resp c' where s: "set_global_config sample_env zero_days_patch fresh_core = (Inr resp, c')"
    by (simp add: set_global_config_def load)
  from set_global_config_never_adjusted [OF s] load obtain r where r: "resp = GlobalConfigResponse r"
    "gr_config r = gp_apply zero_days_patch (global document_default)" "\<not> gr_adjusted r" by auto
  have "retention_days (retention (gr_config r)) = 1"
    unfolding r(2) by (simp add: gp_apply_def rp_apply_def zero_days_patch_def clamped_def clamp_def retention_bounds)
  then show ?thesis using s r by blast
qed

section \<open>Payload handles\<close>

lemma fresh_handles: "handle_inv (core_new s fs ix)" "core_next_payload_handle (core_new s fs ix) = 1"
  by (simp_all add: handle_inv_def core_new_def)

lemma open_payload_result:
  assumes "open_payload e fd i c = (Inr opened, c')"
  shows "po_handle opened = Some (core_next_payload_handle c) \<and> c' = snd (register_payload_handle i c)"
  using assms by (auto simp: open_payload_def register_payload_handle_def Let_def split: sum.splits prod.splits)

text \<open>C21: a payload handle is stable.  Opening a payload returns a handle no open payload has, and through every
  later sequence of operations that does not close it, it stands for the same record: reading a chunk
  through it is reading that record's payload, with the length capped.  The bound is the number of
  operations before the 64-bit handle counter saturates.\<close>
theorem payload_handle_stable:
  assumes "open_payload e fd i (fold daemon_step ops0 (core_new s fs ix)) = (Inr opened, c1)"
    and "po_handle opened = Some h"
    and "length ops0 + length ops1 < 2 ^ 64 - 3"
    and "list_all (\<lambda>(e, op). op \<noteq> DoRequest (ClosePayload h)) ops1"
    and "0 < len"
  shows "core_payload_handles (fold daemon_step ops0 (core_new s fs ix)) h = None \<and>
     read_payload e2 h offset len (fold daemon_step ops1 c1) =
       (case read_payload_chunk (env_unzstd e2) (core_store (fold daemon_step ops1 c1)) i offset (min len MAX_PAYLOAD_CHUNK_BYTES) of
          Inl x \<Rightarrow> Inl (to_wire (env_describe e2) x)
        | Inr (bytes, nxt, eof) \<Rightarrow>
            Inr \<lparr>pc_offset = offset, pc_text = from_utf8_lossy (from_bytes bytes), pc_next_offset = nxt, pc_eof = eof\<rparr>)"
proof -
  define c0 where "c0 = fold daemon_step ops0 (core_new s fs ix)"
  have inv0: "handle_inv c0" "unat (core_next_payload_handle c0) \<le> 1 + length ops0"
    using handle_inv_run [OF fresh_handles(1) [of s fs ix], of ops0] assms(3) by (simp_all add: fresh_handles(2) c0_def)
  have h: "h = core_next_payload_handle c0" "c1 = snd (register_payload_handle i c0)"
    using open_payload_result [OF assms(1) [folded c0_def]] assms(2) by simp_all
  have room: "unat (core_next_payload_handle c0) < 2 ^ 64 - 1" using inv0(2) assms(3) by simp
  have step: "handle_step h c0 c1" using open_payload_step [OF inv0(1) room, of h e fd i] assms(1) by (simp add: c0_def)
  have unused: "core_payload_handles c0 h = None" using inv0(1) h(1) by (auto simp: handle_inv_def)
  have kept: "core_payload_handles (fold daemon_step ops1 c1) h = Some i"
  proof (rule handle_run)
    show "handle_inv c1" using step by (simp add: handle_step_def)
    show "unat (core_next_payload_handle c1) + length ops1 < 2 ^ 64"
      using step inv0(2) assms(3) by (simp add: handle_step_def)
    show "core_payload_handles c1 h = Some i" using h by (simp add: register_payload_handle_def Let_def)
  qed (rule assms(4))
  show ?thesis
    unfolding c0_def [symmetric] using unused kept assms(5) by (auto simp: read_payload_def wire_def split: sum.split)
qed

definition payload_core :: DaemonCore where
  "payload_core = core_new \<lparr>store_db = \<lparr>crash_group = [sample_group],
       crash_record = [(sample_row 1 1 2)\<lparr>r_payload_path := Some ''x''\<rparr>], ingested_source = []\<rparr>,
     store_files = [(''x'', [65, 66])], store_ids = new_generator\<rparr> Map.empty empty_index"

lemma payload_core_text:
  "payload_location (store_db (core_store payload_core)) (encode 1) = Inr (''x'', Zstd)"
  "payload_read_bytes Some (store_files (core_store payload_core)) ''x'' Zstd = Inr [65, 66]"
  "\<exists>detail. get_record (store_db (core_store payload_core)) (encode 1) = Inr detail"
proof -
  have codec: "codec_from_i64 1 = Zstd" by code_simp
  show "payload_location (store_db (core_store payload_core)) (encode 1) = Inr (''x'', Zstd)"
    by (simp add: payload_core_def core_new_def payload_location_def find_record_def sample_row_def pstate_from_i64_def codec)
  have "resolve [] ''x'' = Inr (components ''x'')" by code_simp
  then show "payload_read_bytes Some (store_files (core_store payload_core)) ''x'' Zstd = Inr [65, 66]"
    by (simp add: payload_core_def core_new_def payload_read_bytes_def)
  show "\<exists>detail. get_record (store_db (core_store payload_core)) (encode 1) = Inr detail"
    by (simp add: payload_core_def core_new_def get_record_def find_record_def find_group_def sample_row_def sample_group_def)
qed

theorem payload_handle_stable_witness:
  "\<exists>opened c1 h. open_payload sample_env True (encode 1) payload_core = (Inr opened, c1) \<and> po_handle opened = Some h \<and>
     read_payload sample_env h 0 10 (fold daemon_step [(sample_env, DoSubscribe)] c1) =
       (case read_payload_chunk Some (core_store (core_subscribe c1)) (encode 1) 0 (min 10 MAX_PAYLOAD_CHUNK_BYTES) of
          Inl x \<Rightarrow> Inl (to_wire (env_describe sample_env) x)
        | Inr (bytes, nxt, eof) \<Rightarrow>
            Inr \<lparr>pc_offset = 0, pc_text = from_utf8_lossy (from_bytes bytes), pc_next_offset = nxt, pc_eof = eof\<rparr>)"
proof -
  have unz: "env_unzstd sample_env = Some" by (simp add: sample_env_def)
  obtain opened c1 h where o: "open_payload sample_env True (encode 1) payload_core = (Inr opened, c1)" "po_handle opened = Some h"
    using payload_core_text
    by (auto simp: open_payload_def wire_def open_memfd_def sample_env_def payload_text_bytes_def read_payload_text_def register_payload_handle_def Let_def)
  from o(1) have "open_payload sample_env True (encode 1) (fold daemon_step [] payload_core) = (Inr opened, c1)" by simp
  from payload_handle_stable [OF this [unfolded payload_core_def] o(2), of "[(sample_env, DoSubscribe)]" 10 sample_env 0]
  show ?thesis using o by (intro exI [of _ opened] exI [of _ c1] exI [of _ h]) (simp add: unz)
qed

section \<open>Package reloads\<close>

text \<open>The times at which the package lists were read again.\<close>

fun reload_times :: "(Env \<times> DaemonOp) list \<Rightarrow> DaemonCore \<Rightarrow> int list" where
  "reload_times [] c = []"
| "reload_times (eo # ops) c =
     (let c' = daemon_step eo c
      in (if core_last_package_reload_ms c' \<noteq> core_last_package_reload_ms c then [core_last_package_reload_ms c'] else []) @
         reload_times ops c')"

lemma reload_spaced:
  assumes "core_last_package_reload_ms (snd (core_authenticate e certs pin uid c)) \<noteq> core_last_package_reload_ms c"
  shows "core_last_package_reload_ms c + PACKAGE_RELOAD_INTERVAL_MS \<le>
     core_last_package_reload_ms (snd (core_authenticate e certs pin uid c))"
  using assms
  by (auto simp: core_authenticate_def begin_package_reload_def install_packages_def replace_packages_def Let_def
      i64_saturating_sub_def i64_sat_def int_range_defs PACKAGE_RELOAD_INTERVAL_MS_def split: sum.splits prod.splits if_splits)

lemma only_authentication_reloads:
  assumes "core_last_package_reload_ms (daemon_step (e, op) c) \<noteq> core_last_package_reload_ms c"
  obtains certs pin uid where "op = DoAuthenticate certs pin uid"
proof (cases "\<exists>certs pin uid. op = DoAuthenticate certs pin uid")
  case False
  then have "core_last_package_reload_ms (daemon_step (e, op) c) = core_last_package_reload_ms c"
    using handles_step [of op c e]
    by (cases "\<exists>i h. op = DoRequest (OpenPayload i) \<or> op = DoRequest (ClosePayload h) \<or> op = DoOpenFd i")
      (auto simp: same_handles_def handle_request_def open_payload_def register_payload_handle_def Let_def snd_bind split: sum.split)
  then show ?thesis using assms by simp
qed (use that in blast)

lemma authenticate_without_reload:
  "core_last_package_reload_ms (snd (core_authenticate e certs pin uid c)) = core_last_package_reload_ms c \<Longrightarrow>
     core_authenticate e certs pin uid c =
       (case authenticate_uid certs pin (core_packages c) uid of Inr m \<Rightarrow> Inr m | Inl x \<Rightarrow> Inl (unauthorized e x), c)"
  by (auto simp: core_authenticate_def begin_package_reload_def install_packages_def replace_packages_def Let_def
      i64_saturating_sub_def i64_sat_def int_range_defs PACKAGE_RELOAD_INTERVAL_MS_def split: sum.splits prod.splits if_splits)

text \<open>a client that keeps failing to authenticate cannot make the daemon read its package lists more often
  than once in five seconds: over any sequence of operations the reload times are at least that far apart.\<close>
theorem package_reloads_limited:
  "successively (\<lambda>a b. a + 5000 \<le> b) (core_last_package_reload_ms c # reload_times ops c)"
proof (induction ops arbitrary: c)
  case (Cons eo ops)
  obtain e op where eo: "eo = (e, op)" by (cases eo)
  show ?case
  proof (cases "core_last_package_reload_ms (daemon_step eo c) = core_last_package_reload_ms c")
    case True then show ?thesis using Cons.IH [of "daemon_step eo c"] by (simp add: Let_def)
  next
    case False
    from only_authentication_reloads [OF this [unfolded eo]] obtain certs pin uid where "op = DoAuthenticate certs pin uid" .
    then show ?thesis
      using Cons.IH [of "daemon_step eo c"] reload_spaced [of e certs pin uid c] False eo
      by (simp add: Let_def PACKAGE_RELOAD_INTERVAL_MS_def)
  qed
qed simp

end
