(* ===== verification/Artifacts.thy ===== *)
theory Artifacts
  imports Logd Auth Diagnostics "HOL-Library.List_Lexorder" "HOL-Library.Char_ord"
begin

text \<open>
  The parsers of the crash artefacts Android leaves on disk: DropBox entries (\<^verbatim>\<open>cch_dropbox\<close>), ANR thread
  dumps (\<^verbatim>\<open>cch_anrfile\<close>) and tombstones (\<^verbatim>\<open>cch_tombstone\<close>).  The gzip reader and the protobuf decoder are
  third-party code and parameters here; a tombstone message is the record the decoder fills.  Text is the list
  of its UTF-8 bytes, as in the other theories.
\<close>

section \<open>Text\<close>

definition non_empty :: "string \<Rightarrow> string option" where
  "non_empty v = (if v = [] then None else Some v)"

definition process_package :: "string \<Rightarrow> string" where
  "process_package process = hd (split_on CHR '':'' process)"

text \<open>\<^verbatim>\<open>u64::from_str_radix(.., 16)\<close>.\<close>

fun hex_acc :: "nat \<Rightarrow> string \<Rightarrow> nat option" where
  "hex_acc a [] = Some a"
| "hex_acc a (c # cs) = (case hex_value c of None \<Rightarrow> None | Some d \<Rightarrow> hex_acc (16 * a + d) cs)"

definition parse_hex_u64 :: "string \<Rightarrow> int option" where
  "parse_hex_u64 s =
     (let digits = (case s of CHR ''+'' # cs \<Rightarrow> cs | _ \<Rightarrow> s)
      in if digits = [] then None
         else (case hex_acc 0 digits of None \<Rightarrow> None | Some n \<Rightarrow> if is_u64 (int n) then Some (int n) else None))"

text \<open>\<^verbatim>\<open>format!("{:x}")\<close>.\<close>

fun nat_to_hex :: "nat \<Rightarrow> string" where
  "nat_to_hex n = (if n < 16 then [hex_digit n] else nat_to_hex (n div 16) @ [hex_digit (n mod 16)])"

declare nat_to_hex.simps [simp del]

text \<open>A \<^verbatim>\<open>BTreeMap\<close> with string keys, as its sorted list of entries.\<close>

fun btree_insert :: "string \<Rightarrow> 'v \<Rightarrow> (string \<times> 'v) list \<Rightarrow> (string \<times> 'v) list" where
  "btree_insert k v [] = [(k, v)]"
| "btree_insert k v ((k', v') # m) =
     (if k < k' then (k, v) # (k', v') # m else if k = k' then (k, v) # m else (k', v') # btree_insert k v m)"

section \<open>DropBox entries\<close>

definition MAX_DROPBOX_ENTRY_BYTES :: nat where "MAX_DROPBOX_ENTRY_BYTES = 32 * 1024 * 1024"

datatype DropboxKind = JavaCrash | DropboxAnr | DropboxNativeCrash | NativeRecoverableCrash | DropboxWtf | StrictMode
  | LowMemory | Watchdog | DropboxUnknown

record DropboxFileName =
  df_tag :: string
  df_happened_at_ms :: int
  df_compressed :: bool

record DropboxEntry =
  de_file :: DropboxFileName
  de_kind :: DropboxKind
  de_process_name :: "string option"
  de_package_name :: "string option"
  de_pid :: "int option"
  de_uid :: "int option"
  de_foreground :: "bool option"
  de_crash_handler :: "string option"
  de_dropped_count :: "int option"
  de_headers :: "(string \<times> string) list"
  de_body :: string

datatype DropboxError = InvalidFileName string | InvalidTagEncoding | DropboxTooLarge nat | DropboxUtf8 | DropboxIo string

fun percent_decode :: "string \<Rightarrow> string option" where
  "percent_decode [] = Some []"
| "percent_decode (c # cs) =
     (if c = CHR ''%''
      then (case cs of
              a # b # rest \<Rightarrow>
                (case (hex_value a, hex_value b) of
                   (Some h, Some l) \<Rightarrow> map_option (Cons (char_of (16 * h + l))) (percent_decode rest)
                 | _ \<Rightarrow> None)
            | _ \<Rightarrow> None)
      else map_option (Cons c) (percent_decode cs))"

definition decode_tag :: "string \<Rightarrow> DropboxError + string" where
  "decode_tag value =
     (case percent_decode value of
        None \<Rightarrow> Inl InvalidTagEncoding
      | Some out \<Rightarrow> if valid_utf8 out then Inr out else Inl InvalidTagEncoding)"

definition parse_file_name :: "string \<Rightarrow> DropboxError + DropboxFileName" where
  "parse_file_name path =
     (case last_component path of
        None \<Rightarrow> Inl (InvalidFileName path)
      | Some name \<Rightarrow>
          (case (case strip_suffix ''.txt.gz'' name of
                   Some v \<Rightarrow> Some (v, True)
                 | None \<Rightarrow> (case strip_suffix ''.txt'' name of Some v \<Rightarrow> Some (v, False) | None \<Rightarrow> None)) of
             None \<Rightarrow> Inl (InvalidFileName name)
           | Some (stem, compressed) \<Rightarrow>
               (case rsplit_once CHR ''@'' stem of
                  None \<Rightarrow> Inl (InvalidFileName name)
                | Some (tag, timestamp) \<Rightarrow>
                    (case parse_signed is_i64 timestamp of
                       None \<Rightarrow> Inl (InvalidFileName name)
                     | Some at \<Rightarrow>
                         bind_result (decode_tag tag) (\<lambda>t.
                           if t = [] then Inl (InvalidFileName name)
                           else Inr \<lparr>df_tag = t, df_happened_at_ms = at, df_compressed = compressed\<rparr>)))))"

definition parse_headers :: "string \<Rightarrow> (string \<times> string) list" where
  "parse_headers block =
     fold (\<lambda>(k, v). btree_insert (trim k) (trim v)) (List.map_filter (split_once CHR '':'') (lines block)) []"

definition header :: "(string \<times> string) list \<Rightarrow> string \<Rightarrow> string option" where
  "header headers name = map_option snd (find (\<lambda>(k, _). eq_ignore_ascii_case k name) headers)"

definition parse_header :: "(string \<Rightarrow> 'a option) \<Rightarrow> (string \<times> string) list \<Rightarrow> string \<Rightarrow> 'a option" where
  "parse_header from_str headers name = Option.bind (header headers name) from_str"

definition parse_bool :: "string \<Rightarrow> bool option" where
  "parse_bool value =
     (let v = map ascii_lower (trim value)
      in if v \<in> {''yes'', ''true'', ''1''} then Some True
         else if v \<in> {''no'', ''false'', ''0''} then Some False else None)"

definition kind_from_tag :: "string \<Rightarrow> DropboxKind" where
  "kind_from_tag tag =
     (if suffix ''native_recoverable_crash'' tag then NativeRecoverableCrash
      else if suffix ''native_crash'' tag \<or> prefix ''SYSTEM_TOMBSTONE'' tag then DropboxNativeCrash
      else if suffix ''_crash'' tag then JavaCrash
      else if suffix ''_anr'' tag then DropboxAnr
      else if suffix ''_wtf'' tag then DropboxWtf
      else if suffix ''_strictmode'' tag then StrictMode
      else if suffix ''_lowmem'' tag then LowMemory
      else if suffix ''_watchdog'' tag \<or> suffix ''_pre_watchdog'' tag then Watchdog
      else DropboxUnknown)"

definition parse_bytes :: "DropboxFileName \<Rightarrow> string \<Rightarrow> DropboxError + DropboxEntry" where
  "parse_bytes file bytes =
     (if length bytes > MAX_DROPBOX_ENTRY_BYTES then Inl (DropboxTooLarge MAX_DROPBOX_ENTRY_BYTES)
      else if \<not> valid_utf8 bytes then Inl DropboxUtf8
      else
        (let normalized = replace_crlf bytes;
             (header_block, body) = unwrap_or (split_once_str [NEWLINE, NEWLINE] normalized) ([], normalized);
             headers = parse_headers header_block;
             process = header headers ''Process'';
             package = Option.bind (header headers ''Package'')
                         (\<lambda>v. case split_whitespace v of [] \<Rightarrow> None | w # _ \<Rightarrow> Some w)
         in Inr \<lparr>de_file = file, de_kind = kind_from_tag (df_tag file), de_process_name = process,
                 de_package_name = opt_or package (map_option process_package process),
                 de_pid = parse_header (parse_signed is_i32) headers ''PID'',
                 de_uid = parse_header (parse_signed is_i32) headers ''UID'',
                 de_foreground = Option.bind (header headers ''Foreground'') parse_bool,
                 de_crash_handler = header headers ''Crash-Handler'',
                 de_dropped_count = parse_header (parse_unsigned is_u32) headers ''Dropped-Count'',
                 de_headers = headers, de_body = body\<rparr>))"

text \<open>What a path leads to: the bytes of the file, or nothing where it cannot be opened or read.  A compressed
  file is read through the gzip decoder, which fails or yields the content; at most one byte more than the limit is
  read.\<close>

definition dropbox_read_limited :: "string option \<Rightarrow> string \<Rightarrow> DropboxError + string" where
  "dropbox_read_limited content path =
     (case content of
        None \<Rightarrow> Inl (DropboxIo path)
      | Some bytes \<Rightarrow>
          if length (take (MAX_DROPBOX_ENTRY_BYTES + 1) bytes) > MAX_DROPBOX_ENTRY_BYTES
          then Inl (DropboxTooLarge MAX_DROPBOX_ENTRY_BYTES)
          else Inr (take (MAX_DROPBOX_ENTRY_BYTES + 1) bytes))"

definition parse_dropbox :: "(string \<Rightarrow> string option) \<Rightarrow> (string \<Rightarrow> string option) \<Rightarrow> string \<Rightarrow> DropboxError + DropboxEntry" where
  "parse_dropbox gunzip read path =
     bind_result (parse_file_name path) (\<lambda>file.
       case read path of
         None \<Rightarrow> Inl (DropboxIo path)
       | Some raw \<Rightarrow>
           bind_result (dropbox_read_limited (if df_compressed file then gunzip raw else Some raw) path) (parse_bytes file))"

section \<open>ANR dumps\<close>

definition MAX_ANR_BYTES :: nat where "MAX_ANR_BYTES = 64 * 1024 * 1024"
definition PID_HEADER :: string where "PID_HEADER = ''----- pid ''"
definition WAIT_CHANNEL_HEADER :: string where "WAIT_CHANNEL_HEADER = ''----- Waiting Channels: pid ''"

definition pid_header_body :: "string \<Rightarrow> string option" where
  "pid_header_body line = opt_or (strip_prefix PID_HEADER line) (strip_prefix WAIT_CHANNEL_HEADER line)"

record AnrThread =
  at_name :: string
  at_tid :: "int option"
  at_state :: "string option"
  at_lines :: "string list"

definition top_frame :: "AnrThread \<Rightarrow> string option" where
  "top_frame t = find (\<lambda>line. prefix ''at '' line \<or> prefix ''native:'' line) (map trim (at_lines t))"

record AnrReport =
  an_pid :: int
  an_process_name :: string
  an_timestamp :: "string option"
  an_threads :: "AnrThread list"
  an_raw :: string

definition anr_package_name :: "AnrReport \<Rightarrow> string" where
  "anr_package_name r = process_package (an_process_name r)"

definition main_thread :: "AnrReport \<Rightarrow> AnrThread option" where
  "main_thread r = find (\<lambda>t. at_name t = ''main'') (an_threads r)"

datatype AnrError = AnrTooLarge nat | MissingPid | MissingProcess | InvalidPid

definition parse_pid_header :: "string \<Rightarrow> AnrError + int \<times> string option" where
  "parse_pid_header hdr =
     (case pid_header_body hdr of
        None \<Rightarrow> Inl MissingPid
      | Some body \<Rightarrow>
          (case split_once CHR '' '' body of
             None \<Rightarrow> Inl InvalidPid
           | Some (pid_text, rest) \<Rightarrow>
               (case parse_signed is_i32 pid_text of
                  None \<Rightarrow> Inl InvalidPid
                | Some p \<Rightarrow>
                    Inr (p, Option.bind (map_option trim (Option.bind (strip_prefix ''at '' rest) (strip_suffix '' -----'')))
                              non_empty))))"

definition QUOTE :: char where "QUOTE = CHR 0x22"

definition parse_thread_header :: "string \<Rightarrow> AnrThread option" where
  "parse_thread_header line =
     (case strip_prefix [QUOTE] (trim_start line) of
        None \<Rightarrow> None
      | Some body \<Rightarrow>
          (case find_char QUOTE body of
             None \<Rightarrow> None
           | Some quote \<Rightarrow>
               (let words = split_whitespace (trim (drop (quote + 1) body))
                in Some \<lparr>at_name = take quote body,
                         at_tid = (case List.map_filter (strip_prefix ''tid='') words of
                                     [] \<Rightarrow> None | v # _ \<Rightarrow> parse_signed is_i32 v),
                         at_state = (if words = [] then None else Some (last words)), at_lines = []\<rparr>)))"

text \<open>One pass over the lines with the thread being filled; \<^verbatim>\<open>threads\<close> is kept in order.\<close>

fun threads_from :: "AnrThread option \<Rightarrow> string list \<Rightarrow> AnrThread list" where
  "threads_from current [] = (case current of None \<Rightarrow> [] | Some t \<Rightarrow> [t])"
| "threads_from current (line # rest) =
     (case parse_thread_header line of
        Some t \<Rightarrow> (case current of None \<Rightarrow> [] | Some previous \<Rightarrow> [previous]) @ threads_from (Some t) rest
      | None \<Rightarrow>
          (case current of
             None \<Rightarrow> threads_from None rest
           | Some t \<Rightarrow>
               if prefix ''----- end '' line then t # threads_from None rest
               else threads_from (Some (t\<lparr>at_lines := at_lines t @ [line]\<rparr>)) rest))"

definition parse_threads :: "string \<Rightarrow> AnrThread list" where
  "parse_threads raw = threads_from None (lines raw)"

text \<open>The value after the first line that carries a prefix.\<close>

definition first_field :: "string \<Rightarrow> string list \<Rightarrow> string option" where
  "first_field pre ls = (case List.map_filter (\<lambda>l. strip_prefix pre (trim l)) ls of [] \<Rightarrow> None | v # _ \<Rightarrow> Some v)"

definition parse_anr :: "string \<Rightarrow> AnrError + AnrReport" where
  "parse_anr bytes =
     (if length bytes > MAX_ANR_BYTES then Inl (AnrTooLarge MAX_ANR_BYTES)
      else
        (let raw = replace_crlf (from_utf8_lossy bytes)
         in case find (\<lambda>l. pid_header_body l \<noteq> None) (lines raw) of
              None \<Rightarrow> Inl MissingPid
            | Some hdr \<Rightarrow>
                bind_result (parse_pid_header hdr) (\<lambda>(p, timestamp).
                  case Option.bind (map_option trim (first_field ''Cmd line:'' (lines raw))) non_empty of
                    None \<Rightarrow> Inl MissingProcess
                  | Some process \<Rightarrow>
                      Inr \<lparr>an_pid = p, an_process_name = process, an_timestamp = timestamp,
                           an_threads = parse_threads raw, an_raw = raw\<rparr>)))"

section \<open>Tombstones\<close>

definition MAX_TOMBSTONE_BYTES :: nat where "MAX_TOMBSTONE_BYTES = 64 * 1024 * 1024"

datatype TombstoneFormat = Protobuf | Text

record NativeFrame =
  nf_relative_pc :: int
  nf_function_name :: "string option"
  nf_function_offset :: "int option"
  nf_file_name :: "string option"
  nf_build_id :: "string option"

definition native_frame_normalized :: "NativeFrame \<Rightarrow> string" where
  "native_frame_normalized f =
     (let pc = ''+0x'' @ nat_to_hex (nat (nf_relative_pc f))
      in case (nf_function_name f, nf_file_name f) of
           (Some g, Some file) \<Rightarrow> file @ ''!'' @ g
         | (Some g, None) \<Rightarrow> g
         | (None, Some file) \<Rightarrow> file @ pc
         | (None, None) \<Rightarrow> ''pc'' @ pc)"

record TombstoneReport =
  tr_format :: TombstoneFormat
  tr_pid :: int
  tr_tid :: int
  tr_uid :: "int option"
  tr_process_name :: string
  tr_thread_name :: "string option"
  tr_signal_number :: "int option"
  tr_signal_name :: "string option"
  tr_signal_code :: "int option"
  tr_signal_code_name :: "string option"
  tr_abort_message :: "string option"
  tr_cause :: "string option"
  tr_frames :: "NativeFrame list"
  tr_raw_text :: "string option"

definition tombstone_package_name :: "TombstoneReport \<Rightarrow> string" where
  "tombstone_package_name r = process_package (tr_process_name r)"

datatype TombstoneError = TombstoneTooLarge nat | InvalidProtobuf string | MissingProcessHeader | InvalidProcessHeader

text \<open>The decoded message: the fields the parser reads.\<close>

record ProtoFrame =
  pf_rel_pc :: int
  pf_function_name :: string
  pf_function_offset :: int
  pf_file_name :: string
  pf_build_id :: string

record ProtoThread =
  pt_name :: string
  pt_current_backtrace :: "ProtoFrame list"

record ProtoSignal =
  ps_number :: int
  ps_name :: string
  ps_code :: int
  ps_code_name :: string

record Tombstone =
  tb_pid :: int
  tb_tid :: int
  tb_uid :: int
  tb_command_line :: "string list"
  tb_signal_info :: "ProtoSignal option"
  tb_abort_message :: string
  tb_cause :: "string option"
  tb_threads :: "int \<rightharpoonup> ProtoThread"

definition i32_of_u32 :: "int \<Rightarrow> int" where
  "i32_of_u32 v = (if v \<le> i32_max then v else i32_max)"

definition native_frame_of :: "ProtoFrame \<Rightarrow> NativeFrame" where
  "native_frame_of f =
     \<lparr>nf_relative_pc = pf_rel_pc f, nf_function_name = non_empty (pf_function_name f),
      nf_function_offset = (if pf_function_offset f \<noteq> 0 then Some (pf_function_offset f) else None),
      nf_file_name = non_empty (pf_file_name f), nf_build_id = non_empty (pf_build_id f)\<rparr>"

definition parse_proto :: "(string \<Rightarrow> string + Tombstone) \<Rightarrow> string \<Rightarrow> TombstoneError + TombstoneReport" where
  "parse_proto proto_decode bytes =
     (if length bytes > MAX_TOMBSTONE_BYTES then Inl (TombstoneTooLarge MAX_TOMBSTONE_BYTES)
      else
        (case proto_decode bytes of
           Inl e \<Rightarrow> Inl (InvalidProtobuf e)
         | Inr t \<Rightarrow>
             (let thread = tb_threads t (tb_tid t); sig = tb_signal_info t
              in case opt_or (find (\<lambda>a. a \<noteq> []) (tb_command_line t)) (map_option pt_name thread) of
                   None \<Rightarrow> Inl MissingProcessHeader
                 | Some process \<Rightarrow>
                     Inr \<lparr>tr_format = Protobuf, tr_pid = i32_of_u32 (tb_pid t), tr_tid = i32_of_u32 (tb_tid t),
                          tr_uid = (if tb_uid t \<le> i32_max then Some (tb_uid t) else None), tr_process_name = process,
                          tr_thread_name = map_option pt_name thread, tr_signal_number = map_option ps_number sig,
                          tr_signal_name = Option.bind sig (\<lambda>v. non_empty (ps_name v)),
                          tr_signal_code = map_option ps_code sig,
                          tr_signal_code_name = Option.bind sig (\<lambda>v. non_empty (ps_code_name v)),
                          tr_abort_message = non_empty (tb_abort_message t), tr_cause = Option.bind (tb_cause t) non_empty,
                          tr_frames = (case thread of None \<Rightarrow> [] | Some v \<Rightarrow> map native_frame_of (pt_current_backtrace v)),
                          tr_raw_text = None\<rparr>)))"

definition parse_process_header :: "string \<Rightarrow> TombstoneError + int \<times> int \<times> string option \<times> string" where
  "parse_process_header line =
     (let parts = map trim (split_on CHR '','' line);
          part = (\<lambda>pre. case List.map_filter (strip_prefix pre) parts of [] \<Rightarrow> None | v # _ \<Rightarrow> Some v);
          thread = Option.bind (map_option trim (part ''name:'')) non_empty;
          named = Option.bind (Option.bind (split_once_str ''>>>'' line) (\<lambda>(_, r). split_once_str ''<<<'' r))
                    (\<lambda>(v, _). non_empty (trim v))
      in case Option.bind (part ''pid:'') (\<lambda>v. parse_signed is_i32 (trim v)) of
           None \<Rightarrow> Inl InvalidProcessHeader
         | Some p \<Rightarrow>
             (case Option.bind (part ''tid:'') (\<lambda>v. parse_signed is_i32 (trim v)) of
                None \<Rightarrow> Inl InvalidProcessHeader
              | Some t \<Rightarrow>
                  (case opt_or named thread of
                     None \<Rightarrow> Inl MissingProcessHeader
                   | Some process \<Rightarrow> Inr (p, t, thread, process))))"

record ParsedSignal =
  sg_number :: "int option"
  sg_name :: "string option"
  sg_code :: "int option"
  sg_code_name :: "string option"

definition between :: "string \<Rightarrow> string option" where
  "between v =
     Option.bind (find_char CHR ''('' v) (\<lambda>i. map_option (\<lambda>e. take e (drop (i + 1) v)) (find_char CHR '')'' (drop (i + 1) v)))"

definition first_word :: "string \<Rightarrow> string option" where
  "first_word v = (case split_whitespace v of [] \<Rightarrow> None | w # _ \<Rightarrow> Some w)"

definition parse_signal :: "string \<Rightarrow> ParsedSignal" where
  "parse_signal line =
     (let t = trim line;
          first = map_option (\<lambda>v. hd (split_on CHR '','' v)) (strip_prefix ''signal '' t);
          code = map_option (\<lambda>c. unwrap_or (strip_prefix ''code '' c) c)
                   (find (prefix ''code '') (map trim (split_on CHR '','' t)))
      in \<lparr>sg_number = Option.bind (Option.bind first first_word) (parse_signed is_i32),
          sg_name = Option.bind first between,
          sg_code = Option.bind (Option.bind code first_word) (parse_signed is_i32),
          sg_code_name = Option.bind code between\<rparr>)"

definition trim_quotes :: "string \<Rightarrow> string" where
  "trim_quotes v = unwrap_or (Option.bind (strip_prefix [QUOTE] v) (strip_suffix [QUOTE])) v"

text \<open>The symbol in parentheses and the build id of a frame line.\<close>

definition frame_symbol :: "string \<Rightarrow> string option \<times> int option" where
  "frame_symbol after =
     (case Option.bind (find_str '' ('' after) (\<lambda>i. Some (hd (split_on CHR '')'' (drop (i + 2) after)))) of
        None \<Rightarrow> (None, None)
      | Some b \<Rightarrow>
          if prefix ''BuildId:'' b then (None, None)
          else (case rsplit_once CHR ''+'' b of
                  None \<Rightarrow> (non_empty (trim b), None)
                | Some (n, off) \<Rightarrow> (non_empty (trim n), parse_unsigned is_u64 off)))"

definition frame_build_id :: "string \<Rightarrow> string option" where
  "frame_build_id after =
     Option.bind (split_once_str ''BuildId:'' after) (\<lambda>(_, rest).
       let piece = (case split_once_str ''BuildId:'' rest of None \<Rightarrow> rest | Some (a, _) \<Rightarrow> a)
       in non_empty (trim (hd (split_on CHR '')'' piece))))"

definition parse_frame :: "string \<Rightarrow> NativeFrame option" where
  "parse_frame line =
     Option.bind (strip_prefix ''#'' (trim line)) (\<lambda>numbered.
     Option.bind (split_once CHR '' '' numbered) (\<lambda>(_, rest).
     Option.bind (strip_prefix ''pc '' (trim rest)) (\<lambda>after.
       case split_whitespace after of
         [] \<Rightarrow> None
       | pc # words \<Rightarrow>
           map_option (\<lambda>v.
             \<lparr>nf_relative_pc = v, nf_function_name = fst (frame_symbol after), nf_function_offset = snd (frame_symbol after),
              nf_file_name = (case words of [] \<Rightarrow> None | f # _ \<Rightarrow> Some f), nf_build_id = frame_build_id after\<rparr>)
             (parse_hex_u64 pc))))"

definition parse_text :: "string \<Rightarrow> TombstoneError + TombstoneReport" where
  "parse_text bytes =
     (if length bytes > MAX_TOMBSTONE_BYTES then Inl (TombstoneTooLarge MAX_TOMBSTONE_BYTES)
      else
        (let raw = replace_crlf (from_utf8_lossy bytes); ls = lines raw
         in case find (\<lambda>l. prefix ''pid:'' (trim_start l)) ls of
              None \<Rightarrow> Inl MissingProcessHeader
            | Some hdr \<Rightarrow>
                bind_result (parse_process_header hdr) (\<lambda>(p, t, thread, process).
                  let sig = (case find (\<lambda>l. prefix ''signal '' (trim_start l)) ls of
                               None \<Rightarrow> \<lparr>sg_number = None, sg_name = None, sg_code = None, sg_code_name = None\<rparr>
                             | Some l \<Rightarrow> parse_signal l)
                  in Inr \<lparr>tr_format = Text, tr_pid = p, tr_tid = t,
                          tr_uid = (case List.map_filter (\<lambda>l. Option.bind (strip_prefix ''uid:'' (trim l))
                                                              (\<lambda>v. parse_signed is_i32 (trim v))) ls of
                                      [] \<Rightarrow> None | v # _ \<Rightarrow> Some v),
                          tr_process_name = process, tr_thread_name = thread,
                          tr_signal_number = sg_number sig, tr_signal_name = sg_name sig,
                          tr_signal_code = sg_code sig, tr_signal_code_name = sg_code_name sig,
                          tr_abort_message = Option.bind (first_field ''Abort message:'' ls) (\<lambda>v. non_empty (trim_quotes (trim v))),
                          tr_cause = Option.bind (first_field ''Cause:'' ls) (\<lambda>v. non_empty (trim v)),
                          tr_frames = List.map_filter parse_frame ls, tr_raw_text = Some raw\<rparr>)))"

end
