(* ===== verification/Artifact_Props.thy ===== *)
theory Artifact_Props
  imports Artifacts
begin

text \<open>
  What the artefact parsers keep of their input: a DropBox file name and entry are read back as they were
  written, a tombstone header gives its ids and process, and where the text parser of tombstones loses or
  mixes up a field.
\<close>

section \<open>Text\<close>

lemma split_on_append_any: "split_on c (p @ c # r) = split_on c p @ split_on c r"
  by (induction p) (auto split: list.split)

lemma replace_crlf_fresh: "CHR 0x0D \<notin> set s \<Longrightarrow> replace_crlf s = s"
  by (induction s rule: replace_crlf.induct) auto

lemma trim_space: "trim (CHR '' '' # s) = trim s"
proof -
  have "match_len white_space (CHR '' '' # s) = 1" by (simp add: match_len_def white_space_def)
  then show ?thesis by (simp add: trim_def trim_start_def strip_front.simps [of white_space "CHR '' '' # s"])
qed

lemma trim_spaced: "s = [] \<or> (graph_char (hd s) \<and> graph_char (last s)) \<Longrightarrow> trim (CHR '' '' # s) = s"
  by (simp only: trim_space trim_graph)

lemma trim_space_end: "graph_char (hd s) \<Longrightarrow> graph_char (last s) \<Longrightarrow> s \<noteq> [] \<Longrightarrow> trim (s @ '' '') = s"
proof -
  assume s: "graph_char (hd s)" "graph_char (last s)" "s \<noteq> []"
  have front: "strip_front white_space (s @ '' '') = s @ '' ''"
    by (rule strip_front_fresh) (use s graph_not_white in simp)
  have "match_len (map rev white_space) (CHR '' '' # rev s) = 1" by (simp add: match_len_def white_space_def)
  then have "strip_front (map rev white_space) (CHR '' '' # rev s) = strip_front (map rev white_space) (rev s)"
    by (simp add: strip_front.simps [of _ "CHR '' '' # rev s"])
  also have "\<dots> = rev s" by (rule strip_front_fresh) (use s graph_not_white in \<open>simp add: hd_rev\<close>)
  finally show ?thesis by (simp add: trim_def trim_start_def trim_end_def front)
qed

lemma dec_chars: "c \<in> set (int_to_dec x) \<Longrightarrow> is_digit c \<or> c = CHR ''-''"
  using nat_to_dec_digits [of c] by (auto simp: int_to_dec_def split: if_splits)

lemma digit_graph: "is_digit c \<Longrightarrow> graph_char c"
  by (auto simp: is_digit_def digit_value_def graph_char_def in_range_def Let_def split: if_splits)

lemma dec_graph: "c \<in> set (int_to_dec x) \<Longrightarrow> graph_char c"
  using dec_chars [of c x] digit_graph by (auto simp: graph_char_def in_range_def)

lemma dec_ends [simp]: "graph_char (hd (int_to_dec x))" "graph_char (last (int_to_dec x))"
  by (rule dec_graph [OF hd_in_set], simp) (rule dec_graph [OF last_in_set], simp)

lemma dec_fresh: "\<not> is_digit c \<Longrightarrow> c \<noteq> CHR ''-'' \<Longrightarrow> c \<notin> set (int_to_dec x)"
  using dec_chars by blast

lemma not_digit [simp]: "\<not> is_digit CHR '',''" "\<not> is_digit CHR ''@''" "\<not> is_digit CHR ''/''" "\<not> is_digit CHR '':''" "\<not> is_digit CHR ''.''"
  by (simp_all add: is_digit_def digit_value_def in_range_def)

section \<open>The file names of DropBox\<close>

text \<open>Any escaping that escapes at least the percent sign and the slash.\<close>

definition percent_encode :: "(char \<Rightarrow> bool) \<Rightarrow> string \<Rightarrow> string" where
  "percent_encode plain s =
     concat (map (\<lambda>c. if plain c then [c] else [CHR ''%'', hex_digit (of_char c div 16), hex_digit (of_char c mod 16)]) s)"

lemma char_digits: "(of_char c :: nat) div 16 < 16" "(of_char c :: nat) mod 16 < 16" for c :: char
proof -
  have "(of_char c :: nat) < 256" by simp
  then show "(of_char c :: nat) div 16 < 16" "(of_char c :: nat) mod 16 < 16" by (auto simp: less_mult_imp_div_less)
qed

lemma percent_decode_encode: "\<not> plain CHR ''%'' \<Longrightarrow> percent_decode (percent_encode plain s) = Some s"
proof (induction s)
  case (Cons c s)
  show ?case
  proof (cases "plain c")
    case True
    then have "c \<noteq> CHR ''%''" using Cons.prems by auto
    then show ?thesis using True Cons by (simp add: percent_encode_def)
  next
    case False
    then show ?thesis using Cons char_digits [of c] by (simp add: percent_encode_def hex_value_digit)
  qed
qed (simp add: percent_encode_def)

lemma percent_encode_chars:
  assumes "c \<in> set (percent_encode plain s)"
  shows "plain c \<or> c = CHR ''%'' \<or> hex_value c \<noteq> None"
proof -
  show ?thesis using assms by (auto simp: percent_encode_def hex_value_digit [OF char_digits(1)] hex_value_digit [OF char_digits(2)] split: if_splits)
qed

lemma last_component_name:
  assumes "CHR ''/'' \<notin> set name" "2 < length name"
  shows "last_component (dir @ CHR ''/'' # name) = Some name"
proof -
  have parts: "split_on CHR ''/'' (dir @ CHR ''/'' # name) = split_on CHR ''/'' dir @ [name]"
    by (simp only: split_on_append_any split_on_fresh [OF assms(1)])
  have "name \<noteq> []" "name \<noteq> ''.''" "name \<noteq> ''..''" using assms(2) by auto
  then obtain cs where "filter (\<lambda>c. c \<noteq> [] \<and> c \<noteq> ''.'') (split_on CHR ''/'' (dir @ CHR ''/'' # name)) = cs @ [name]"
    unfolding parts by simp
  then show ?thesis using \<open>name \<noteq> ''..''\<close> by (cases cs) (simp_all add: last_component_def)
qed

lemma strip_txt [simp]:
  "strip_suffix ''.txt.gz'' (s @ ''.txt.gz'') = Some s" "strip_suffix ''.txt'' (s @ ''.txt'') = Some s"
  by (simp_all add: strip_suffix_def suffix_def)

lemma strip_gz_none: "strip_suffix ''.txt.gz'' (s @ ''.txt'') = None"
  by (auto simp: strip_suffix_def suffix_def dest: arg_cong [where f = rev])

text \<open>a DropBox file name is read back as it was written: whatever characters of the tag are escaped (the percent
  sign and the slash among them), the tag, the time in milliseconds and the compression are recovered.\<close>
theorem dropbox_file_name_round_trip:
  assumes "\<not> plain CHR ''%''" and "\<not> plain CHR ''/''" and "valid_utf8 tag" and "tag \<noteq> []" and "is_i64 at"
  shows "parse_file_name (dir @ ''/'' @ percent_encode plain tag @ ''@'' @ int_to_dec at @ (if compressed then ''.txt.gz'' else ''.txt'')) =
     Inr \<lparr>df_tag = tag, df_happened_at_ms = at, df_compressed = compressed\<rparr>"
proof -
  define stem where "stem = percent_encode plain tag @ CHR ''@'' # int_to_dec at"
  have slash: "CHR ''/'' \<notin> set stem"
    using percent_encode_chars [of "CHR ''/''" plain tag] assms(2)
    by (auto simp: hex_value_def in_range_def stem_def dec_fresh)
  have stem: "rsplit_once CHR ''@'' stem = Some (percent_encode plain tag, int_to_dec at)"
    unfolding stem_def by (rule rsplit_once_append) (simp add: dec_fresh)
  have rest: "bind_result (decode_tag (percent_encode plain tag)) (\<lambda>t. if t = [] then Inl (InvalidFileName name)
      else Inr \<lparr>df_tag = t, df_happened_at_ms = at, df_compressed = c\<rparr>) = Inr \<lparr>df_tag = tag, df_happened_at_ms = at, df_compressed = c\<rparr>"
    for name c
    using assms(3,4) by (simp add: decode_tag_def percent_decode_encode [of plain, OF assms(1)] bind_result_def)
  show ?thesis
  proof (cases compressed)
    case True
    have "last_component (dir @ CHR ''/'' # stem @ ''.txt.gz'') = Some (stem @ ''.txt.gz'')"
      by (rule last_component_name) (use slash in simp_all)
    then have "parse_file_name (dir @ CHR ''/'' # stem @ ''.txt.gz'') = Inr \<lparr>df_tag = tag, df_happened_at_ms = at, df_compressed = True\<rparr>"
      by (simp add: parse_file_name_def stem rest parse_signed_int_to_dec assms(5))
    then show ?thesis using True by (simp add: stem_def)
  next
    case False
    have "last_component (dir @ CHR ''/'' # stem @ ''.txt'') = Some (stem @ ''.txt'')"
      by (rule last_component_name) (use slash in \<open>simp_all add: stem_def\<close>)
    then have "parse_file_name (dir @ CHR ''/'' # stem @ ''.txt'') = Inr \<lparr>df_tag = tag, df_happened_at_ms = at, df_compressed = False\<rparr>"
      by (simp add: parse_file_name_def stem rest parse_signed_int_to_dec assms(5) strip_gz_none)
    then show ?thesis using False by (simp add: stem_def)
  qed
qed

theorem dropbox_file_name_round_trip_witness:
  "parse_file_name (''/data/system/dropbox'' @ ''/'' @ percent_encode (\<lambda>c. c \<notin> {CHR ''%'', CHR ''/''}) ''a/b'' @ ''@'' @ int_to_dec 7 @
      (if True then ''.txt.gz'' else ''.txt'')) = Inr \<lparr>df_tag = ''a/b'', df_happened_at_ms = 7, df_compressed = True\<rparr>"
proof -
  have "valid_utf8 ''a/b''" by code_simp
  then show ?thesis
    by (intro dropbox_file_name_round_trip) (simp_all add: is_i64_def i64_min_def i64_max_def)
qed

section \<open>DropBox entries\<close>

definition header_line :: "string \<times> string \<Rightarrow> string" where
  "header_line kv = fst kv @ '': '' @ snd kv"

definition dropbox_print :: "(string \<times> string) list \<Rightarrow> string \<Rightarrow> string" where
  "dropbox_print hs body = concat (map (\<lambda>kv. header_line kv @ [NEWLINE]) hs) @ NEWLINE # body"

definition visible :: "string \<Rightarrow> bool" where
  "visible s \<longleftrightarrow> NEWLINE \<notin> set s \<and> CHR 0x0D \<notin> set s \<and> (s = [] \<or> graph_char (hd s) \<and> graph_char (last s))"

definition header_ok :: "string \<times> string \<Rightarrow> bool" where
  "header_ok kv \<longleftrightarrow> visible (fst kv) \<and> fst kv \<noteq> [] \<and> CHR '':'' \<notin> set (fst kv) \<and> visible (snd kv)"

lemma header_line_shape:
  assumes "header_ok kv"
  shows "header_line kv \<noteq> []" "NEWLINE \<notin> set (header_line kv)" "CHR 0x0D \<notin> set (header_line kv)"
    "split_once CHR '':'' (header_line kv) = Some (fst kv, CHR '' '' # snd kv)"
    "trim (fst kv) = fst kv" "trim (CHR '' '' # snd kv) = snd kv"
proof -
  have "split_once CHR '':'' (fst kv @ CHR '':'' # CHR '' '' # snd kv) = Some (fst kv, CHR '' '' # snd kv)"
    by (rule split_once_append) (use assms in \<open>simp add: header_ok_def\<close>)
  then show "split_once CHR '':'' (header_line kv) = Some (fst kv, CHR '' '' # snd kv)" by (simp add: header_line_def)
  show "trim (fst kv) = fst kv" "trim (CHR '' '' # snd kv) = snd kv"
    using assms by (auto simp: header_ok_def visible_def intro!: trim_graph trim_spaced)
qed (use assms in \<open>auto simp: header_ok_def visible_def header_line_def NEWLINE_def\<close>)

lemma find_str_skip: "c \<notin> set l \<Longrightarrow> find_str (c # p) (l @ x) = map_option ((+) (length l)) (find_str (c # p) x)"
proof (induction l)
  case Nil
  then show ?case by (cases "find_str (c # p) x") simp_all
next
  case (Cons a l)
  then show ?case by (cases "find_str (c # p) x") auto
qed

lemmas find_blank_line = find_str_skip [of NEWLINE _ "[NEWLINE]"]

lemma split_once_str_append: "c \<notin> set l \<Longrightarrow> split_once_str (c # p) (l @ (c # p) @ r) = Some (l, r)"
proof -
  assume c: "c \<notin> set l"
  have p: "prefix (c # p) ((c # p) @ r)" by simp
  have "find_str (c # p) ((c # p) @ r) = Some 0" by (simp add: find_str.simps)
  with find_str_skip [OF c, of p "(c # p) @ r"] show ?thesis by (simp add: split_once_str_def)
qed

lemma find_blank_next:
  assumes "NEWLINE \<notin> set l" "T \<noteq> []" "hd T \<noteq> NEWLINE"
  shows "find_str [NEWLINE, NEWLINE] (l @ NEWLINE # T) = map_option ((+) (Suc (length l))) (find_str [NEWLINE, NEWLINE] T)"
  using assms by (cases T; cases "find_str [NEWLINE, NEWLINE] T") (auto simp: find_blank_line)

lemma split_headers:
  assumes "ls \<noteq> []" and "list_all (\<lambda>l. l \<noteq> [] \<and> NEWLINE \<notin> set l) ls"
  shows "split_once_str [NEWLINE, NEWLINE] (concat (map (\<lambda>l. l @ [NEWLINE]) ls) @ NEWLINE # body) =
     Some (butlast (concat (map (\<lambda>l. l @ [NEWLINE]) ls)), body)"
proof -
  have "find_str [NEWLINE, NEWLINE] (concat (map (\<lambda>l. l @ [NEWLINE]) ls) @ NEWLINE # body) =
      Some (length (concat (map (\<lambda>l. l @ [NEWLINE]) ls)) - 1)"
    using assms
  proof (induction ls)
    case (Cons l ls)
    show ?case
    proof (cases ls)
      case Nil
      then show ?thesis using Cons.prems by (simp add: find_blank_line)
    next
      case (Cons l' ls')
      let ?T = "concat (map (\<lambda>l. l @ [NEWLINE]) ls) @ NEWLINE # body"
      have T: "?T \<noteq> []" "hd ?T \<noteq> NEWLINE" "concat (map (\<lambda>l. l @ [NEWLINE]) ls) \<noteq> []"
        using Cons.prems local.Cons by (cases l'; auto)+
      have "find_str [NEWLINE, NEWLINE] ?T = Some (length (concat (map (\<lambda>l. l @ [NEWLINE]) ls)) - 1)"
        by (rule Cons.IH) (use Cons.prems local.Cons in simp_all)
      then show ?thesis using find_blank_next [OF _ T(1,2), of l] Cons.prems(2) T(3)
        by (cases "concat (map (\<lambda>l. l @ [NEWLINE]) ls)") simp_all
    qed
  qed simp
  moreover have "concat (map (\<lambda>l. l @ [NEWLINE]) ls) \<noteq> []" using assms(1) by (cases ls) auto
  ultimately show ?thesis by (simp add: split_once_str_def butlast_conv_take)
qed

lemma lines_unterminated:
  assumes "list_all (\<lambda>l. l \<noteq> [] \<and> NEWLINE \<notin> set l \<and> CHR 0x0D \<notin> set l) ls"
  shows "lines (butlast (concat (map (\<lambda>l. l @ [NEWLINE]) ls))) = ls"
proof (cases "ls = []")
  case False
  then have s: "split_on NEWLINE (butlast (concat (map (\<lambda>l. l @ [NEWLINE]) ls))) = ls"
    using assms
  proof (induction ls)
    case (Cons l ls)
    then show ?case by (cases ls) (simp_all add: butlast_append split_on_append split_on_fresh)
  qed simp
  have "map strip_cr (butlast ls) = butlast ls"
  proof (rule map_idI)
    fix l assume "l \<in> set (butlast ls)"
    then have "l \<in> set ls" by (rule in_set_butlastD)
    then have "last l \<in> set l" "CHR 0x0D \<notin> set l" using assms by (auto simp: list_all_iff)
    then show "strip_cr l = l" by (auto simp: strip_cr_def)
  qed
  then show ?thesis
    using s False assms by (auto simp: lines_def NEWLINE_def list_all_iff)
qed (simp add: lines_def)

lemma btree_insert_set: "k \<notin> fst ` set m \<Longrightarrow> set (btree_insert k v m) = insert (k, v) (set m)"
  by (induction k v m rule: btree_insert.induct) auto

lemma fold_insert_set:
  "distinct (map fst (hs @ m)) \<Longrightarrow> set (fold (\<lambda>(k, v). btree_insert k v) hs m) = set hs \<union> set m"
proof (induction hs arbitrary: m)
  case (Cons kv hs)
  obtain k v where kv: "kv = (k, v)" by (cases kv)
  have set: "set (btree_insert k v m) = insert (k, v) (set m)"
    by (rule btree_insert_set) (use Cons.prems kv in auto)
  have "distinct (map fst (btree_insert k v m))"
    using Cons.prems kv by (induction k v m rule: btree_insert.induct) (auto simp: btree_insert_set)
  then have "distinct (map fst (hs @ btree_insert k v m))" using Cons.prems kv set by auto
  from Cons.IH [OF this] show ?case using kv set by auto
qed simp

lemma find_unique:
  assumes "set xs = set ys" and "\<And>x y. x \<in> set ys \<Longrightarrow> y \<in> set ys \<Longrightarrow> P x \<Longrightarrow> P y \<Longrightarrow> x = y"
  shows "find P xs = find P ys"
proof (cases "find P ys")
  case None
  then have "find P xs = None" using assms(1) by (auto simp: find_None_iff)
  with None show ?thesis by simp
next
  case (Some y)
  then have y: "y \<in> set ys" "P y" by (auto simp: find_Some_iff)
  then obtain x where x: "find P xs = Some x" using assms(1) by (cases "find P xs") (auto simp: find_None_iff)
  then have "x \<in> set xs" "P x" by (auto simp: find_Some_iff)
  then have "x \<in> set ys" "P x" using assms(1) by simp_all
  then show ?thesis using assms(2) y x Some by auto
qed

lemma parse_printed_headers:
  assumes "list_all header_ok hs"
  shows "parse_headers (butlast (concat (map (\<lambda>kv. header_line kv @ [NEWLINE]) hs))) = fold (\<lambda>(k, v). btree_insert k v) hs []"
proof -
  have "lines (butlast (concat (map (\<lambda>l. l @ [NEWLINE]) (map header_line hs)))) = map header_line hs"
    by (rule lines_unterminated) (use assms header_line_shape in \<open>auto simp: list_all_iff\<close>)
  then have l: "lines (butlast (concat (map (\<lambda>kv. header_line kv @ [NEWLINE]) hs))) = map header_line hs"
    by (simp add: comp_def)
  have "fold (\<lambda>(k, v). btree_insert (trim k) (trim v)) (List.map_filter (split_once CHR '':'') (map header_line hs)) m =
      fold (\<lambda>(k, v). btree_insert k v) hs m" for m
    using assms by (induction hs arbitrary: m) (auto simp: List.map_filter_simps header_line_shape)
  then show ?thesis by (simp add: parse_headers_def l)
qed

text \<open>C16: a DropBox entry is read back as it was written: for any block of headers whose names differ beyond upper and
  lower case, every header is found under its name in any spelling, nothing else is found, and the body
  after the blank line is returned unchanged, blank lines in it included.\<close>
theorem dropbox_entry_round_trip:
  assumes "list_all header_ok hs" and "hs \<noteq> []" and "distinct (map (map ascii_lower \<circ> fst) hs)"
    and "CHR 0x0D \<notin> set body" and "valid_utf8 (dropbox_print hs body)" and "length (dropbox_print hs body) \<le> MAX_DROPBOX_ENTRY_BYTES"
  shows "\<exists>e. parse_bytes file (dropbox_print hs body) = Inr e \<and> de_file e = file \<and> de_body e = body \<and>
     (\<forall>name. header (de_headers e) name = map_option snd (find (\<lambda>(k, _). eq_ignore_ascii_case k name) hs)) \<and>
     de_process_name e = map_option snd (find (\<lambda>(k, _). eq_ignore_ascii_case k ''Process'') hs)"
proof -
  let ?block = "butlast (concat (map (\<lambda>kv. header_line kv @ [NEWLINE]) hs))"
  have "CHR 0x0D \<notin> set (dropbox_print hs body)"
    using assms(1,4) by (auto simp: dropbox_print_def NEWLINE_def list_all_iff dest: header_line_shape(3))
  then have crlf: "replace_crlf (dropbox_print hs body) = dropbox_print hs body" by (rule replace_crlf_fresh)
  have "split_once_str [NEWLINE, NEWLINE] (concat (map (\<lambda>l. l @ [NEWLINE]) (map header_line hs)) @ NEWLINE # body) =
      Some (butlast (concat (map (\<lambda>l. l @ [NEWLINE]) (map header_line hs))), body)"
    by (rule split_headers) (use assms(1,2) header_line_shape in \<open>auto simp: list_all_iff\<close>)
  then have split: "split_once_str [NEWLINE, NEWLINE] (dropbox_print hs body) = Some (?block, body)"
    by (simp add: dropbox_print_def comp_def)
  let ?m = "fold (\<lambda>(k, v). btree_insert k v) hs []"
  have "distinct (map fst hs)" using assms(3) by (metis distinct_map map_map)
  then have "set ?m = set hs" using fold_insert_set [of hs "[]"] by simp
  moreover have "x = y" if "x \<in> set hs" "y \<in> set hs" "(\<lambda>(k, _). eq_ignore_ascii_case k name) x" "(\<lambda>(k, _). eq_ignore_ascii_case k name) y"
    for x y name
  proof -
    have "inj_on (map ascii_lower \<circ> fst) (set hs)" using assms(3) by (simp add: distinct_map)
    moreover have "(map ascii_lower \<circ> fst) x = (map ascii_lower \<circ> fst) y"
      using that(3,4) by (simp add: eq_ignore_ascii_case_def case_prod_beta)
    ultimately show ?thesis using that(1,2) by (simp add: inj_on_def)
  qed
  ultimately have find: "find (\<lambda>(k, _). eq_ignore_ascii_case k name) ?m = find (\<lambda>(k, _). eq_ignore_ascii_case k name) hs" for name
    by (rule find_unique)
  show ?thesis
    using assms(5,6) by (auto simp: parse_bytes_def crlf split parse_printed_headers [OF assms(1)] header_def find Let_def)
qed

theorem dropbox_entry_round_trip_witness:
  "\<exists>e. parse_bytes \<lparr>df_tag = ''data_app_crash'', df_happened_at_ms = 7, df_compressed = False\<rparr>
       (dropbox_print [(''Process'', ''com.a''), (''PID'', ''12'')] [CHR ''x'', NEWLINE, NEWLINE, CHR ''y'']) = Inr e \<and>
     de_body e = [CHR ''x'', NEWLINE, NEWLINE, CHR ''y''] \<and> de_process_name e = Some ''com.a''"
proof -
  let ?hs = "[(''Process'', ''com.a''), (''PID'', ''12'')]" and ?body = "[CHR ''x'', NEWLINE, NEWLINE, CHR ''y'']"
  have "list_all header_ok ?hs" by code_simp
  moreover have "distinct (map (map ascii_lower \<circ> fst) ?hs)" by code_simp
  moreover have "valid_utf8 (dropbox_print ?hs ?body)" by code_simp
  moreover have "length (dropbox_print ?hs ?body) \<le> MAX_DROPBOX_ENTRY_BYTES"
    by (simp add: dropbox_print_def header_line_def MAX_DROPBOX_ENTRY_BYTES_def)
  moreover have "find (\<lambda>(k, _). eq_ignore_ascii_case k ''Process'') ?hs = Some (''Process'', ''com.a'')" by code_simp
  ultimately show ?thesis
    using dropbox_entry_round_trip [of ?hs ?body "\<lparr>df_tag = ''data_app_crash'', df_happened_at_ms = 7, df_compressed = False\<rparr>"]
    by (simp add: NEWLINE_def) metis
qed

section \<open>Tombstones\<close>

definition plain_text :: "string \<Rightarrow> bool" where
  "plain_text s \<longleftrightarrow> s \<noteq> [] \<and> list_all (\<lambda>c. graph_char c \<and> c \<notin> {CHR '','', CHR ''<'', CHR ''>''}) s"

text \<open>the header line of a text tombstone gives the process id, the thread id and the process name; but the thread
  name is everything after \<^verbatim>\<open>name:\<close>, because the line is cut at commas only: the process name in its
  angle brackets is part of it.\<close>
theorem tombstone_thread_name_keeps_process:
  assumes "is_i32 p" and "is_i32 t" and "plain_text thread" and "plain_text process"
  shows "parse_process_header (''pid: '' @ int_to_dec p @ '', tid: '' @ int_to_dec t @ '', name: '' @ thread @ ''  >>> '' @ process @ '' <<<'') =
     Inr (p, t, Some (thread @ ''  >>> '' @ process @ '' <<<''), process)"
proof -
  let ?name = "thread @ ''  >>> '' @ process @ '' <<<''"
  let ?line = "''pid: '' @ int_to_dec p @ '', tid: '' @ int_to_dec t @ '', name: '' @ ?name"
  have fresh: "c \<notin> set thread" "c \<notin> set process" if "c \<in> {CHR '','', CHR ''<'', CHR ''>''}" for c
    using assms(3,4) that by (auto simp: plain_text_def list_all_iff)
  have comma: "CHR '','' \<notin> set (int_to_dec x)" for x by (simp add: dec_fresh)
  have "split_on CHR '','' ?line = [''pid: '' @ int_to_dec p, '' tid: '' @ int_to_dec t, '' name: '' @ ?name]"
    using fresh [of "CHR '',''"] comma split_on_append [of "CHR '',''" "''pid: '' @ int_to_dec p" "'' tid: '' @ int_to_dec t @ '', name: '' @ ?name"]
      split_on_append [of "CHR '',''" "'' tid: '' @ int_to_dec t" "'' name: '' @ ?name"]
    by (simp add: split_on_fresh)
  then have cut: "map trim (split_on CHR '','' ?line) = map trim [''pid: '' @ int_to_dec p, '' tid: '' @ int_to_dec t, '' name: '' @ ?name]"
    by (simp only:)
  have ends: "graph_char (hd thread)" "graph_char (hd process)" "graph_char (last process)" "thread \<noteq> []" "process \<noteq> []"
    using assms(3,4) by (auto simp: plain_text_def list_all_iff)
  have g: "graph_char CHR ''p''" "graph_char CHR ''t''" "graph_char CHR ''n''" "graph_char CHR ''<''"
    by (simp_all add: graph_char_def in_range_def)
  have trims: "trim (''pid: '' @ int_to_dec p) = ''pid: '' @ int_to_dec p" "trim (''tid: '' @ int_to_dec t) = ''tid: '' @ int_to_dec t"
    "trim (''name: '' @ ?name) = ''name: '' @ ?name" "trim ?name = ?name" "trim (int_to_dec p) = int_to_dec p" "trim (int_to_dec t) = int_to_dec t"
    by (rule trim_graph; use ends(1,4) g in \<open>simp\<close>)+
  then have parts: "map trim (split_on CHR '','' ?line) = [''pid: '' @ int_to_dec p, ''tid: '' @ int_to_dec t, ''name: '' @ ?name]"
    unfolding cut using trim_space [of "''tid: '' @ int_to_dec t"] trim_space [of "''name: '' @ ?name"] by simp
  let ?pre = "''pid: '' @ int_to_dec p @ '', tid: '' @ int_to_dec t @ '', name: '' @ thread @ ''  ''"
  have "CHR ''>'' \<notin> set ?pre" using fresh [of "CHR ''>''"] by (simp add: dec_fresh is_digit_def digit_value_def in_range_def)
  from split_once_str_append [OF this, of "''>>''" "'' '' @ process @ '' <<<''"]
  have s1: "split_once_str ''>>>'' ?line = Some (?pre, '' '' @ process @ '' <<<'')" by simp
  have "CHR ''<'' \<notin> set ('' '' @ process @ '' '')" using fresh [of "CHR ''<''"] by simp
  from split_once_str_append [OF this, of "''<<''" "[]"]
  have s2: "split_once_str ''<<<'' ('' '' @ process @ '' <<<'') = Some ('' '' @ process @ '' '', [])" by simp
  have p: "trim ('' '' @ process @ '' '') = process"
    using ends trim_space_end [of process] by (simp add: trim_space)
  have pick: "List.map_filter (strip_prefix ''pid:'') [''pid: '' @ a, ''tid: '' @ b, ''name: '' @ c] = [CHR '' '' # a]"
    "List.map_filter (strip_prefix ''tid:'') [''pid: '' @ a, ''tid: '' @ b, ''name: '' @ c] = [CHR '' '' # b]"
    "List.map_filter (strip_prefix ''name:'') [''pid: '' @ a, ''tid: '' @ b, ''name: '' @ c] = [CHR '' '' # c]" for a b c
    by (simp_all add: List.map_filter_simps strip_prefix_def)
  have named: "Option.bind (split_once_str ''>>>'' ?line) (\<lambda>(_, r). split_once_str ''<<<'' r) = Some ('' '' @ process @ '' '', [])"
    using s2 by (simp only: s1 bind.bind_lunit prod.case)
  show ?thesis
    unfolding parse_process_header_def Let_def parts pick named
    using assms(1,2) ends
    by (simp add: trim_space_end trim_space trims(4) [simplified] trims(5,6) non_empty_def parse_signed_int_to_dec)
qed

theorem tombstone_thread_name_keeps_process_witness:
  "parse_process_header ''pid: 12, tid: 13, name: main  >>> com.a <<<'' = Inr (12, 13, Some ''main  >>> com.a <<<'', ''com.a'')"
proof -
  have "is_i32 12" "is_i32 13" by code_simp+
  moreover have "plain_text ''main''" "plain_text ''com.a''" by code_simp+
  moreover have "int_to_dec 12 = ''12''" "int_to_dec 13 = ''13''" by code_simp+
  ultimately show ?thesis using tombstone_thread_name_keeps_process [of 12 13 "''main''" "''com.a''"] by simp
qed

text \<open>a demangled symbol with parameters is cut at its first closing parenthesis: nothing of what follows it is read,
  and the offset into the function is lost.\<close>
theorem tombstone_symbol_cut_at_parenthesis:
  assumes "CHR '')'' \<notin> set (f @ ''('' @ args)" and "CHR ''+'' \<notin> set (f @ ''('' @ args)" and "\<not> prefix ''BuildId:'' (f @ ''('' @ args)"
    and "graph_char (hd (f @ ''('' @ args))" and "graph_char (last (f @ ''('' @ args))"
  shows "frame_symbol ('' ('' @ f @ ''('' @ args @ '')+'' @ offset @ '')'') = (Some (f @ ''('' @ args), None)"
proof -
  define b where "b = f @ ''('' @ args"
  note a = assms [folded b_def]
  have "find_str '' ('' ('' ('' @ (b @ CHR '')'' # x)) = Some 0" for x by simp
  moreover have "split_on CHR '')'' (b @ CHR '')'' # x) = b # split_on CHR '')'' x" for x
    by (rule split_on_append [OF a(1)])
  moreover have "rsplit_once CHR ''+'' b = None" using a(2) rfind_char_None [of "CHR ''+''" b] by (simp add: rsplit_once_def)
  moreover have "b \<noteq> []" by (simp add: b_def)
  moreover have "trim b = b" by (rule trim_graph) (use a(4,5) in simp)
  ultimately have "frame_symbol ('' ('' @ (b @ CHR '')'' # x)) = (Some b, None)" for x
    using a(3) by (simp add: frame_symbol_def non_empty_def del: find_str.simps)
  from this [of "''+'' @ offset @ '')''"] show ?thesis by (simp add: b_def)
qed

theorem tombstone_symbol_cut_at_parenthesis_witness:
  "frame_symbol '' (foo::bar(int, void*)+92)'' = (Some ''foo::bar(int, void*'', None)"
proof -
  have "\<not> prefix ''BuildId:'' ''foo::bar(int, void*''" "graph_char CHR ''f''" "graph_char CHR ''*''" by code_simp+
  then show ?thesis using tombstone_symbol_cut_at_parenthesis [of "''foo::bar''" "''int, void*''" "''92''"] by simp
qed

end
