(* ===== verification/Bridge_Props.thy ===== *)
theory Bridge_Props
  imports Bridge
begin

text \<open>
  The broker under every interleaving of its callers: a reply reaches only the request whose id it carries, and
  what stays behind in the table of pending requests; the delays of the supervisor.
\<close>

section \<open>The invariant of the broker\<close>

definition call_ok :: "(nat \<times> BridgeCommand) list \<Rightarrow> BridgeCall \<Rightarrow> bool" where
  "call_ok carried k \<longleftrightarrow>
     command_id (bc_command k) = bc_id k \<and>
     (\<forall>ev. bc_inbox k = Some ev \<longrightarrow> reply_id ev = Some (bc_id k)) \<and>
     (case bc_phase k of
        Begun \<Rightarrow> bc_inbox k = None
      | Checked \<Rightarrow> bc_inbox k = None
      | Waiting \<Rightarrow> bc_command k \<in> snd ` set carried
      | Returned (Inr ev) \<Rightarrow> reply_id ev = Some (bc_id k) \<and> bc_command k \<in> snd ` set carried
      | _ \<Rightarrow> True)"

definition entry_ok :: "BridgeCall \<Rightarrow> request_id \<Rightarrow> bool" where
  "entry_ok k i \<longleftrightarrow>
     bc_id k = i \<and> bc_inbox k = None \<and>
     (case bc_phase k of Begun \<Rightarrow> False | Checked \<Rightarrow> False | Returned r \<Rightarrow> r = Inl not_connected | _ \<Rightarrow> True)"

definition bridge_inv :: "BridgeSystem \<Rightarrow> bool" where
  "bridge_inv s \<longleftrightarrow>
     (\<forall>c < length (sys_calls s). call_ok (sys_carried s) (sys_calls s ! c)) \<and>
     (\<forall>i c. bb_pending (sys_broker s) i = Some c \<longrightarrow> c < length (sys_calls s) \<and> entry_ok (sys_calls s ! c) i) \<and>
     map bc_id (sys_calls s) = map word_of_nat [1..<Suc (length (sys_calls s))] \<and>
     bb_next_request_id (sys_broker s) = word_of_nat (Suc (length (sys_calls s)))"

lemma bridge_inv_start: "bridge_inv bridge_start"
  by (simp add: bridge_inv_def bridge_start_def broker_default_def)

lemma map_update_same: "c < length xs \<Longrightarrow> f y = f (xs ! c) \<Longrightarrow> map f (xs[c := y]) = map f xs"
  by (simp add: map_update list_update_same_conv)

lemma inv_update_call:
  assumes "bridge_inv s" and "c < length (sys_calls s)" and "bc_id k = bc_id (sys_calls s ! c)"
    and "call_ok (sys_carried s) k" and "\<And>i. bb_pending (sys_broker s) i = Some c \<Longrightarrow> entry_ok k i"
  shows "bridge_inv (s\<lparr>sys_calls := (sys_calls s)[c := k]\<rparr>)"
  using assms by (auto simp: bridge_inv_def nth_list_update map_update_same)

lemma inv_set_phase:
  assumes "bridge_inv s" and "c < length (sys_calls s)"
    and "call_ok (sys_carried s) ((sys_calls s ! c)\<lparr>bc_phase := p\<rparr>)"
    and "\<And>i. bb_pending (sys_broker s) i = Some c \<Longrightarrow> entry_ok ((sys_calls s ! c)\<lparr>bc_phase := p\<rparr>) i"
  shows "bridge_inv (set_phase c p s)"
  unfolding set_phase_def by (rule inv_update_call) (use assms in simp_all)

lemma bridge_invD:
  assumes "bridge_inv s"
  shows "at_phase s c p \<Longrightarrow> call_ok (sys_carried s) (sys_calls s ! c)"
    and "at_phase s c p \<Longrightarrow> c < length (sys_calls s) \<and> bc_phase (sys_calls s ! c) = p"
    and "bb_pending (sys_broker s) i = Some c \<Longrightarrow> c < length (sys_calls s) \<and> entry_ok (sys_calls s ! c) i"
  using assms by (auto simp: bridge_inv_def at_phase_def)

lemma inv_move:
  assumes "bridge_inv s" and "at_phase s c p0"
    and "\<And>k. k = sys_calls s ! c \<Longrightarrow> bc_phase k = p0 \<Longrightarrow> call_ok (sys_carried s) k \<Longrightarrow>
      call_ok (sys_carried s) (k\<lparr>bc_phase := p\<rparr>)"
    and "\<And>k i. k = sys_calls s ! c \<Longrightarrow> bc_phase k = p0 \<Longrightarrow> entry_ok k i \<Longrightarrow>
      bb_pending (sys_broker s) i = Some c \<Longrightarrow> entry_ok (k\<lparr>bc_phase := p\<rparr>) i"
  shows "bridge_inv (set_phase c p s)"
proof (rule inv_set_phase [OF assms(1)])
  note k = bridge_invD(1,2) [OF assms(1,2)]
  show "c < length (sys_calls s)" using k by simp
  show "call_ok (sys_carried s) ((sys_calls s ! c)\<lparr>bc_phase := p\<rparr>)" using assms(3) [OF refl] k by simp
  show "entry_ok ((sys_calls s ! c)\<lparr>bc_phase := p\<rparr>) i" if "bb_pending (sys_broker s) i = Some c" for i
    using assms(4) [OF refl] k that bridge_invD(3) [OF assms(1) that] by simp
qed

lemma handle_event_broker:
  assumes "handle_event ev b = (out, b')"
  shows "bb_next_request_id b' = bb_next_request_id b"
    and "(out = None \<and> bb_pending b' = bb_pending b) \<or>
      (\<exists>i. reply_id ev = Some i \<and> out = map_option (\<lambda>c. (c, ev)) (bb_pending b i) \<and> bb_pending b' = (bb_pending b)(i := None))"
  using assms
  by (cases ev; auto simp: finish_request_def remove_pending_def cache_package_def split: option.splits)+

lemma bridge_inv_step: "bridge_step s l t \<Longrightarrow> bridge_inv s \<Longrightarrow> bridge_inv t"
proof (induction rule: bridge_step.induct)
  case (ask s r i b)
  have ids: "i = word_of_nat (Suc (length (sys_calls s)))" "bb_next_request_id b = word_of_nat (Suc (Suc (length (sys_calls s))))"
    "bb_pending b = bb_pending (sys_broker s)"
    using ask by (auto simp: bridge_next_id_def bridge_inv_def)
  have "command_id (command_of i r) = i" by (cases r) simp_all
  then show ?case using ask(3) ids by (auto simp: bridge_inv_def call_ok_def nth_append intro: less_SucI)
next
  case (check s c)
  show ?case
    by (rule inv_move [OF check(2,1)]) (auto simp: call_ok_def entry_ok_def)
next
  case (register s c)
  have ok: "bridge_inv (set_phase c Registered s)"
    by (rule inv_move [OF register(2,1)]) (auto simp: call_ok_def entry_ok_def)
  note c = bridge_invD(1,2) [OF register(2,1)]
  have "entry_ok ((sys_calls s ! c)\<lparr>bc_phase := Registered\<rparr>) (bc_id (sys_calls s ! c))"
    using c by (auto simp: call_ok_def entry_ok_def)
  then show ?case using ok c by (auto simp: bridge_inv_def set_phase_def update_broker_def)
next
  case (send_gone s c)
  show ?case
    by (rule inv_move [OF send_gone(3,1)]) (auto simp: call_ok_def entry_ok_def)
next
  case (send_closed s c ch)
  show ?case
    by (rule inv_move [OF send_closed(4,1)]) (auto simp: call_ok_def entry_ok_def)
next
  case (send s c ch)
  have "call_ok (sys_carried s @ x) k" if "call_ok (sys_carried s) k" for k x
    using that by (auto simp: call_ok_def split: CallPhase.splits sum.splits)
  then have ok: "bridge_inv (s\<lparr>sys_carried := sys_carried s @ [(ch, bc_command (sys_calls s ! c))]\<rparr>)" (is "bridge_inv ?s")
    using send(4) by (simp add: bridge_inv_def)
  have "at_phase ?s c Registered" using send(1) by (simp add: at_phase_def)
  from ok this show ?case
    by (rule inv_move) (auto simp: call_ok_def entry_ok_def)
next
  case (receive s c ev)
  show ?case
    by (rule inv_move [OF receive(3,1)]) (use receive(2) in \<open>auto simp: call_ok_def entry_ok_def\<close>)
next
  case (time_out s c)
  show ?case
    by (rule inv_move [OF time_out(3,1)]) (auto simp: call_ok_def entry_ok_def)
next
  case (abandon s c e)
  have ok: "bridge_inv (update_broker (remove_pending (bc_id (sys_calls s ! c))) s)" (is "bridge_inv ?s")
    using abandon(2) by (auto simp: bridge_inv_def update_broker_def remove_pending_def)
  have "at_phase ?s c (Abandoning e)" using abandon(1) by (simp add: at_phase_def update_broker_def)
  from ok this show ?case
    by (rule inv_move)
      (auto simp: update_broker_def remove_pending_def call_ok_def entry_ok_def split: if_splits)
next
  case (event ev s out b)
  note b = handle_event_broker [OF event(1)]
  show ?case
  proof (cases "\<exists>i c. reply_id ev = Some i \<and> out = Some (c, ev) \<and> bb_pending (sys_broker s) i = Some c")
    case True
    then obtain i c where c: "reply_id ev = Some i" "out = Some (c, ev)" "bb_pending (sys_broker s) i = Some c" by blast
    note k = bridge_invD(3) [OF event(2) c(3)]
    have call: "call_ok (sys_carried s) (sys_calls s ! c)" using k event(2) by (simp add: bridge_inv_def)
    have p: "bb_pending b = (bb_pending (sys_broker s))(i := None)" using b(2) c by auto
    have "bridge_inv (s\<lparr>sys_broker := b\<rparr>)" using event(2) b(1) p by (auto simp: bridge_inv_def)
    then have "bridge_inv ((s\<lparr>sys_broker := b\<rparr>)\<lparr>sys_calls := (sys_calls (s\<lparr>sys_broker := b\<rparr>))[c := (sys_calls s ! c)\<lparr>bc_inbox := Some ev\<rparr>]\<rparr>)"
    proof (rule inv_update_call)
      show "call_ok (sys_carried (s\<lparr>sys_broker := b\<rparr>)) ((sys_calls s ! c)\<lparr>bc_inbox := Some ev\<rparr>)"
        using k c call by (auto simp: call_ok_def entry_ok_def split: CallPhase.splits sum.splits)
      show "entry_ok ((sys_calls s ! c)\<lparr>bc_inbox := Some ev\<rparr>) j" if "bb_pending (sys_broker (s\<lparr>sys_broker := b\<rparr>)) j = Some c" for j
        using that k p bridge_invD(3) [OF event(2), of j c] by (auto simp: entry_ok_def split: if_splits)
    qed (use k in simp_all)
    then show ?thesis using c by (simp add: deliver_def)
  next
    case False
    then have "out = None" using b(2) by auto
    then show ?thesis using event(2) b by (auto simp: bridge_inv_def deliver_def split: if_splits)
  qed
qed (auto simp: bridge_inv_def update_broker_def broker_attach_def broker_detach_def)

lemma bridge_inv_reach: "bridge_reach P s \<Longrightarrow> bridge_inv s"
  by (induction rule: bridge_reach.induct) (auto intro: bridge_inv_start bridge_inv_step)


text \<open>C13: under every interleaving of requests, replies, timeouts, connections and disconnections, a request that returns a
  reply returns one that carries its own id, and its command had gone out to the bridge; a waiting request
  has registered exactly its own id.\<close>
theorem reply_reaches_its_request:
  assumes "bridge_reach P s" and "at_phase s c (Returned (Inr ev))"
  shows "reply_id ev = Some (command_id (bc_command (sys_calls s ! c))) \<and>
    (\<exists>ch. (ch, bc_command (sys_calls s ! c)) \<in> set (sys_carried s))"
  using bridge_invD(1,2) [OF bridge_inv_reach [OF assms(1)] assms(2)] by (force simp: call_ok_def)

text \<open>the first \<^verbatim>\<open>2^64\<close> requests have different ids.\<close>
theorem request_ids_distinct:
  assumes "bridge_reach P s" and "length (sys_calls s) < 2 ^ 64"
  shows "distinct (map bc_id (sys_calls s))"
proof -
  have "map bc_id (sys_calls s) = map word_of_nat [1..<Suc (length (sys_calls s))]"
    using bridge_inv_reach [OF assms(1)] by (simp add: bridge_inv_def)
  moreover have "inj_on (word_of_nat :: nat \<Rightarrow> request_id) {1..<Suc (length (sys_calls s))}"
    by (rule inj_onI) (use assms(2) in \<open>auto simp: word_of_nat_eq_iff take_bit_nat_eq_self\<close>)
  ultimately show ?thesis by (simp only: distinct_map set_upt distinct_upt simp_thms)
qed

text \<open>an entry in the table of pending requests belongs to a request still in progress, or to one that found the
  bridge gone between registering itself and sending its command: that one returns without removing its
  entry.\<close>
theorem pending_entries_left_behind:
  assumes "bridge_reach P s" and "bb_pending (sys_broker s) i = Some c" and "at_phase s c (Returned r)"
  shows "r = Inl not_connected \<and> bc_id (sys_calls s ! c) = i"
  using bridge_invD(3) [OF bridge_inv_reach [OF assms(1)] assms(2)] assms(3) by (auto simp: entry_ok_def at_phase_def)

section \<open>A run that leaves an entry behind\<close>

text \<open>The bridge connects, a request checks the connection, the bridge disconnects, and the request goes on.\<close>

definition leak_hello :: BridgeHello where "leak_hello = \<lparr>bh_android_sdk = 35, bh_bridge_version = ''1''\<rparr>"

definition leaked :: BridgeSystem where
  "leaked =
     \<lparr>sys_broker = broker_default\<lparr>bb_next_request_id := 2, bb_pending := [1 \<mapsto> 0], bb_hello := Some leak_hello\<rparr>,
      sys_calls = [\<lparr>bc_id = 1, bc_command = QueryPackageInfoCmd 1 ''a'' 0, bc_phase = Returned (Inl not_connected), bc_inbox = None\<rparr>],
      sys_alive = [True], sys_carried = []\<rparr>"

lemmas run_defs = bridge_start_def broker_default_def update_broker_def broker_attach_def broker_detach_def set_phase_def
  deliver_def cached_package_def bridge_next_id_def

lemma reach_any: "bridge_reach (\<lambda>_ _. True) s \<Longrightarrow> bridge_step s l t \<Longrightarrow> bridge_reach (\<lambda>_ _. True) t"
  by (rule bridge_reach.step) simp_all

lemma leak_reached: "bridge_reach (\<lambda>_ _. True) leaked"
proof -
  let ?b = "\<lambda>conn nxt sender pend hello. \<lparr>bb_connected = conn, bb_next_request_id = nxt, bb_command_sender = sender,
      bb_pending = pend, bb_package_cache = Map.empty, bb_hello = hello\<rparr>"
  let ?k = "\<lambda>p. [\<lparr>bc_id = 1, bc_command = QueryPackageInfoCmd 1 ''a'' 0, bc_phase = p, bc_inbox = None\<rparr>]"
  let ?s = "\<lambda>b ks. \<lparr>sys_broker = b, sys_calls = ks, sys_alive = [True], sys_carried = []\<rparr>"
  let ?h = "Some leak_hello"
  have s1: "bridge_step bridge_start AttachBridge (?s (?b False 1 (Some 0) Map.empty None) [])"
    using attach [of bridge_start] by (simp add: run_defs)
  have s2: "bridge_step (?s (?b False 1 (Some 0) Map.empty None) []) (Event (HelloEvent leak_hello))
      (?s (?b True 1 (Some 0) Map.empty ?h) [])"
    using event [of "HelloEvent leak_hello" "?s (?b False 1 (Some 0) Map.empty None) []"] by (simp add: run_defs)
  have s3: "bridge_step (?s (?b True 1 (Some 0) Map.empty ?h) []) (Ask (AskPackage ''a'' 0))
      (?s (?b True 2 (Some 0) Map.empty ?h) (?k Begun))"
    using ask [of "?s (?b True 1 (Some 0) Map.empty ?h) []" "AskPackage ''a'' 0"] by (simp add: run_defs)
  have s4: "bridge_step (?s (?b True 2 (Some 0) Map.empty ?h) (?k Begun)) (CallStep 0)
      (?s (?b True 2 (Some 0) Map.empty ?h) (?k Checked))"
    using check [of "?s (?b True 2 (Some 0) Map.empty ?h) (?k Begun)" 0] by (simp add: run_defs at_phase_def)
  have s5: "bridge_step (?s (?b True 2 (Some 0) Map.empty ?h) (?k Checked)) DetachBridge
      (?s (?b False 2 None Map.empty ?h) (?k Checked))"
    using detach [of "?s (?b True 2 (Some 0) Map.empty ?h) (?k Checked)"] by (simp add: run_defs)
  have s6: "bridge_step (?s (?b False 2 None Map.empty ?h) (?k Checked)) (CallStep 0)
      (?s (?b False 2 None [1 \<mapsto> 0] ?h) (?k Registered))"
    using register [of "?s (?b False 2 None Map.empty ?h) (?k Checked)" 0] by (simp add: run_defs at_phase_def)
  have s7: "bridge_step (?s (?b False 2 None [1 \<mapsto> 0] ?h) (?k Registered)) (CallStep 0) leaked"
    using send_gone [of "?s (?b False 2 None [1 \<mapsto> 0] ?h) (?k Registered)" 0] by (simp add: run_defs at_phase_def leaked_def)
  show ?thesis
    by (rule reach_any [OF reach_any [OF reach_any [OF reach_any [OF reach_any [OF reach_any [OF reach_any
      [OF bridge_reach.start s1] s2] s3] s4] s5] s6] s7])
qed

theorem pending_entries_left_behind_witness:
  "bb_pending (sys_broker leaked) 1 = Some 0 \<and> at_phase leaked 0 (Returned (Inl not_connected)) \<and>
   bc_id (sys_calls leaked ! 0) = 1"
proof -
  have "bb_pending (sys_broker leaked) 1 = Some 0" "at_phase leaked 0 (Returned (Inl not_connected))"
    by (simp_all add: leaked_def at_phase_def)
  with pending_entries_left_behind [OF leak_reached this] show ?thesis by simp
qed

theorem request_ids_distinct_witness:
  "distinct (map bc_id (sys_calls leaked))"
  by (rule request_ids_distinct [OF leak_reached]) (simp add: leaked_def)

definition answered_call :: BridgeCall where
  "answered_call =
     \<lparr>bc_id = 1, bc_command = QueryPackageInfoCmd 1 ''a'' 0, bc_phase = Returned (Inr (PackageInfoResult 1 None None)),
      bc_inbox = Some (PackageInfoResult 1 None None)\<rparr>"

definition answered :: BridgeSystem where
  "answered =
     \<lparr>sys_broker = broker_default\<lparr>bb_connected := True, bb_next_request_id := 2, bb_command_sender := Some 0, bb_hello := Some leak_hello\<rparr>,
      sys_calls = [answered_call], sys_alive = [True], sys_carried = [(0, QueryPackageInfoCmd 1 ''a'' 0)]\<rparr>"

lemma answered_reached: "bridge_reach (\<lambda>_ _. True) answered"
proof -
  let ?b = "\<lambda>conn nxt pend hello. \<lparr>bb_connected = conn, bb_next_request_id = nxt, bb_command_sender = Some 0,
      bb_pending = pend, bb_package_cache = Map.empty, bb_hello = hello\<rparr>"
  let ?k = "\<lambda>p m. [\<lparr>bc_id = 1, bc_command = QueryPackageInfoCmd 1 ''a'' 0, bc_phase = p, bc_inbox = m\<rparr>]"
  let ?s = "\<lambda>b ks sent. \<lparr>sys_broker = b, sys_calls = ks, sys_alive = [True], sys_carried = sent\<rparr>"
  let ?h = "Some leak_hello" and ?cmd = "[(0, QueryPackageInfoCmd 1 ''a'' 0)]" and ?r = "PackageInfoResult 1 None None"
  have s1: "bridge_step bridge_start AttachBridge (?s (?b False 1 Map.empty None) [] [])"
    using attach [of bridge_start] by (simp add: run_defs)
  have s2: "bridge_step (?s (?b False 1 Map.empty None) [] []) (Event (HelloEvent leak_hello)) (?s (?b True 1 Map.empty ?h) [] [])"
    using event [of "HelloEvent leak_hello" "?s (?b False 1 Map.empty None) [] []"] by (simp add: run_defs)
  have s3: "bridge_step (?s (?b True 1 Map.empty ?h) [] []) (Ask (AskPackage ''a'' 0)) (?s (?b True 2 Map.empty ?h) (?k Begun None) [])"
    using ask [of "?s (?b True 1 Map.empty ?h) [] []" "AskPackage ''a'' 0"] by (simp add: run_defs)
  have s4: "bridge_step (?s (?b True 2 Map.empty ?h) (?k Begun None) []) (CallStep 0) (?s (?b True 2 Map.empty ?h) (?k Checked None) [])"
    using check [of "?s (?b True 2 Map.empty ?h) (?k Begun None) []" 0] by (simp add: run_defs at_phase_def)
  have s5: "bridge_step (?s (?b True 2 Map.empty ?h) (?k Checked None) []) (CallStep 0) (?s (?b True 2 [1 \<mapsto> 0] ?h) (?k Registered None) [])"
    using register [of "?s (?b True 2 Map.empty ?h) (?k Checked None) []" 0] by (simp add: run_defs at_phase_def)
  have s6: "bridge_step (?s (?b True 2 [1 \<mapsto> 0] ?h) (?k Registered None) []) (CallStep 0) (?s (?b True 2 [1 \<mapsto> 0] ?h) (?k Waiting None) ?cmd)"
    using send [of "?s (?b True 2 [1 \<mapsto> 0] ?h) (?k Registered None) []" 0 0] by (simp add: run_defs at_phase_def)
  have s7: "bridge_step (?s (?b True 2 [1 \<mapsto> 0] ?h) (?k Waiting None) ?cmd) (Event ?r) (?s (?b True 2 Map.empty ?h) (?k Waiting (Some ?r)) ?cmd)"
    using event [of ?r "?s (?b True 2 [1 \<mapsto> 0] ?h) (?k Waiting None) ?cmd"]
    by (simp add: run_defs finish_request_def remove_pending_def cache_package_def)
  have s8: "bridge_step (?s (?b True 2 Map.empty ?h) (?k Waiting (Some ?r)) ?cmd) (CallStep 0) answered"
    using receive [of "?s (?b True 2 Map.empty ?h) (?k Waiting (Some ?r)) ?cmd" 0 ?r]
    by (simp add: run_defs at_phase_def answered_def answered_call_def)
  show ?thesis
    by (rule reach_any [OF reach_any [OF reach_any [OF reach_any [OF reach_any [OF reach_any [OF reach_any [OF reach_any
      [OF bridge_reach.start s1] s2] s3] s4] s5] s6] s7] s8])
qed

theorem reply_reaches_its_request_witness:
  "at_phase answered 0 (Returned (Inr (PackageInfoResult 1 None None))) \<and>
   reply_id (PackageInfoResult 1 None None) = Some (command_id (bc_command (sys_calls answered ! 0)))"
proof -
  have "at_phase answered 0 (Returned (Inr (PackageInfoResult 1 None None)))"
    by (simp add: answered_def answered_call_def at_phase_def)
  with reply_reaches_its_request [OF answered_reached this] show ?thesis by simp
qed

section \<open>What the daemon asks for\<close>

text \<open>The bridge answers a command it was sent, with the kind of reply that belongs to it.\<close>

fun answer_to :: "BridgeCommand \<Rightarrow> BridgeEvent \<Rightarrow> bool" where
  "answer_to (PostNotificationCmd i _) ev = (case ev of NotificationResult j _ _ \<Rightarrow> j = i | _ \<Rightarrow> False)"
| "answer_to (CancelNotificationCmd i _) ev = (case ev of NotificationResult j _ _ \<Rightarrow> j = i | _ \<Rightarrow> False)"
| "answer_to (QueryPackageInfoCmd i _ _) ev = (case ev of PackageInfoResult j _ _ \<Rightarrow> j = i | _ \<Rightarrow> False)"
| "answer_to (StartActivityCmd i _ _) ev = (case ev of ActivityResult j _ _ \<Rightarrow> j = i | _ \<Rightarrow> False)"

text \<open>The steps of this daemon: the core posts and cancels notifications and makes no other request, and the bridge
  only answers.\<close>

definition about_notification :: "BridgeCommand \<Rightarrow> bool" where
  "about_notification cmd = (case cmd of PostNotificationCmd _ _ \<Rightarrow> True | CancelNotificationCmd _ _ \<Rightarrow> True | _ \<Rightarrow> False)"

definition daemon_label :: "BridgeSystem \<Rightarrow> BridgeLabel \<Rightarrow> bool" where
  "daemon_label s l =
     (case l of
        Ask r \<Rightarrow> about_notification (command_of 0 r)
      | Event ev \<Rightarrow> reply_id ev = None \<or> list_ex (\<lambda>(ch, cmd). answer_to cmd ev) (sys_carried s)
      | _ \<Rightarrow> True)"

definition cache_inv :: "BridgeSystem \<Rightarrow> bool" where
  "cache_inv s \<longleftrightarrow>
     bb_package_cache (sys_broker s) = Map.empty \<and> list_all (about_notification \<circ> bc_command) (sys_calls s) \<and>
     list_all (about_notification \<circ> snd) (sys_carried s)"

lemma nth_update_if: "j < length xs \<Longrightarrow> xs[i := x] ! j = (if i = j then x else xs ! j)"
  by (cases "i = j") simp_all

lemma cache_inv_set_phase: "c < length (sys_calls s) \<Longrightarrow> cache_inv (set_phase c p s) = cache_inv s"
  by (auto simp: cache_inv_def set_phase_def list_all_length nth_list_update)

lemma cache_inv_step: "bridge_step s l t \<Longrightarrow> daemon_label s l \<Longrightarrow> cache_inv s \<Longrightarrow> cache_inv t"
proof (induction rule: bridge_step.induct)
  case (ask s r i b)
  then have "about_notification (command_of i r)" by (cases r) (simp_all add: daemon_label_def about_notification_def)
  then show ?case using ask by (auto simp: cache_inv_def bridge_next_id_def)
next
  case (send s c ch)
  then have "about_notification (bc_command (sys_calls s ! c))" by (simp add: cache_inv_def at_phase_def list_all_length)
  with send show ?case by (auto simp: at_phase_def cache_inv_set_phase) (simp add: cache_inv_def)
next
  case (event ev s out b)
  have "bb_package_cache b = Map.empty"
  proof (cases ev)
    case (PackageInfoResult i package e)
    then have "list_ex (\<lambda>(ch, cmd). answer_to cmd ev) (sys_carried s)" using event by (simp add: daemon_label_def)
    then obtain cmd where "about_notification cmd" "answer_to cmd ev" using event by (auto simp: cache_inv_def list_ex_iff list_all_iff)
    then show ?thesis using PackageInfoResult by (cases cmd) (simp_all add: about_notification_def)
  qed (use event in \<open>auto simp: cache_inv_def finish_request_def remove_pending_def\<close>)
  then show ?case
    using event(3) by (auto simp: cache_inv_def deliver_def list_all_length nth_update_if split: option.splits)
next
  case (register s c)
  then show ?case 
    by (subst cache_inv_set_phase) (simp_all add: at_phase_def update_broker_def cache_inv_def)
next
  case (abandon s c e)
  let ?t = "update_broker (remove_pending (bc_id (sys_calls s ! c))) s"
  have "sys_calls ?t = sys_calls s" "cache_inv ?t = cache_inv s"
    by (simp_all add: update_broker_def cache_inv_def remove_pending_def)
  then show ?case using abandon by (simp add: at_phase_def cache_inv_set_phase)
qed (auto simp: at_phase_def cache_inv_set_phase,
     auto simp: cache_inv_def update_broker_def broker_attach_def broker_detach_def)

text \<open>the cache of package details that the bridge is meant to fill stays empty for as long as the daemon runs: no part of
  it ever asks for a package, so the version name and the label taken from that cache are never there.\<close>
theorem package_cache_stays_empty:
  assumes "bridge_reach daemon_label s"
  shows "cached_package (sys_broker s) name user = None"
proof -
  from assms have "cache_inv s"
  proof (induction rule: bridge_reach.induct)
    case (step s l t)
    then show ?case using cache_inv_step by blast
  qed (simp add: cache_inv_def bridge_start_def broker_default_def)
  then show ?thesis by (simp add: cache_inv_def cached_package_def)
qed

theorem package_cache_stays_empty_witness:
  "cached_package (sys_broker (update_broker (broker_attach 0) (bridge_start\<lparr>sys_alive := [True]\<rparr>))) ''a'' 0 = None"
  by (rule package_cache_stays_empty)
    (use bridge_reach.step [OF bridge_reach.start _ attach, of daemon_label] in \<open>simp add: daemon_label_def bridge_start_def\<close>)

section \<open>Restarts\<close>

definition delays :: "BridgeState list \<Rightarrow> nat list" where
  "delays tr = List.map_filter (\<lambda>st. case st of BridgeBackoff d _ _ \<Rightarrow> Some d | _ \<Rightarrow> None) tr"

fun short_run :: "RestartPolicy \<Rightarrow> Attempt \<Rightarrow> bool" where
  "short_run policy (Exited _ ran_for) \<longleftrightarrow> ran_for < rp_stable_after policy"
| "short_run policy NoStart \<longleftrightarrow> 0 < rp_stable_after policy"
| "short_run policy (StopRequested _) \<longleftrightarrow> False"

lemma delays_simps [simp]:
  "delays [] = []" "delays (BridgeStarting # tr) = delays tr" "delays (BridgeRunning a b # tr) = delays tr"
  "delays (BridgeBackoff d n m # tr) = d # delays tr" "delays (BridgeStopped # tr) = delays tr"
  by (simp_all add: delays_def List.map_filter_simps)

lemma double_capped: "min (min (2 * d) m * 2 ^ Suc k) m = min (d * 2 ^ Suc (Suc k)) (m :: nat)"
proof (cases "2 * d \<le> m")
  case False
  have up: "m \<le> m * 2 ^ Suc k" by simp
  have m: "min (2 * d) m = m" using False by simp
  have "2 * d * 1 \<le> 2 * d * 2 ^ Suc k" by (intro mult_le_mono2) simp
  then have "m \<le> d * 2 ^ Suc (Suc k)" using False by (simp add: ac_simps)
  then have "min (d * 2 ^ Suc (Suc k)) m = m" by (rule min_absorb2)
  moreover have "min (min (2 * d) m * 2 ^ Suc k) m = m" unfolding m using up by (rule min_absorb2)
  ultimately show ?thesis by (simp only:)
qed (simp add: ac_simps)

lemma delays_loop:
  assumes "list_all (short_run policy) attempts" and "rp_maximum_delay policy \<le> DURATION_MAX"
  shows "delays (supervise_loop policy d n attempts) =
    map (\<lambda>k. min (d * 2 ^ Suc k) (rp_maximum_delay policy)) [0..<length attempts]"
  using assms(1)
proof (induction attempts arbitrary: d n)
  case (Cons a rest)
  have nxt: "next_delay policy d r = min (2 * d) (rp_maximum_delay policy)" if "r < rp_stable_after policy" for r
    using that assms(2) by (simp add: next_delay_def min_def)
  have "map (\<lambda>k. min (d * 2 ^ Suc k) (rp_maximum_delay policy)) [0..<length (a # rest)] =
      min (2 * d) (rp_maximum_delay policy) #
      map (\<lambda>k. min (min (2 * d) (rp_maximum_delay policy) * 2 ^ Suc k) (rp_maximum_delay policy)) [0..<length rest]"
    by (simp only: double_capped list.size add_Suc_right add_0_right upt_conv_Cons zero_less_Suc list.map flip: map_Suc_upt)
      (simp add: comp_def mult.commute)
  then show ?case using Cons nxt by (cases a) (simp_all add: Let_def del: upt_Suc)
qed simp

text \<open>while the bridge keeps exiting early or not starting at all, the waits between its starts double from twice the
  initial delay up to the maximum; the initial delay itself is never waited before a restart in that phase.\<close>
theorem restart_backoff_doubles:
  assumes "list_all (short_run policy) attempts" and "rp_maximum_delay policy \<le> DURATION_MAX"
  shows "delays (supervise policy attempts) =
    map (\<lambda>k. min (rp_initial_delay policy * 2 ^ Suc k) (rp_maximum_delay policy)) [0..<length attempts]"
  unfolding supervise_def by (rule delays_loop [OF assms])

theorem restart_backoff_doubles_witness:
  "delays (supervise default_policy [NoStart, Exited 7 1000, NoStart]) = [2 * 10 ^ 9, 4 * 10 ^ 9, 8 * 10 ^ 9]"
proof -
  have "list_all (short_run default_policy) [NoStart, Exited 7 1000, NoStart]" by (simp add: default_policy_def)
  moreover have "rp_maximum_delay default_policy \<le> DURATION_MAX" by (simp add: default_policy_def DURATION_MAX_def)
  ultimately show ?thesis using restart_backoff_doubles [of default_policy "[NoStart, Exited 7 1000, NoStart]"]
    by (simp add: default_policy_def)
qed

end
