(* ===== verification/Watcher.thy ===== *)
theory Watcher
  imports Packages Logd
begin

text \<open>
  \<^verbatim>\<open>cch_watcher\<close>: the scan of the artefact directories at start-up, and the inotify events read afterwards.

  The file system is a parameter: a record of what \<^verbatim>\<open>read_dir\<close>, \<^verbatim>\<open>metadata\<close> and \<^verbatim>\<open>is_file\<close> answer, errors
  included.  The kernel's side of inotify is a parameter too: what registering a watch and reading the
  queue return.  Integers of the event header are little-endian, as on every Android ABI.
\<close>

unbundle bit_operations_syntax

section \<open>Paths\<close>

text \<open>\<^verbatim>\<open>Path::join\<close> and \<^verbatim>\<open>Path::with_extension\<close> on Unix paths.\<close>

definition path_join :: "string \<Rightarrow> string \<Rightarrow> string" where
  "path_join dir name =
     (if prefix ''/'' name then name
      else if dir = [] \<or> last dir = CHR ''/'' then dir @ name
      else dir @ CHR ''/'' # name)"

definition file_stem :: "string \<Rightarrow> string" where
  "file_stem name =
     (case rsplit_once CHR ''.'' name of None \<Rightarrow> name | Some (stem, _) \<Rightarrow> if stem = [] then name else stem)"

definition with_extension :: "string \<Rightarrow> string \<Rightarrow> string" where
  "with_extension p ext =
     (case last_component p of
        None \<Rightarrow> p
      | Some name \<Rightarrow>
          (case rfind_str name p of None \<Rightarrow> p | Some i \<Rightarrow> take i p @ file_stem name @ CHR ''.'' # ext))"

section \<open>Sources\<close>

definition IN_CLOSE_WRITE_MASK :: "32 word" where "IN_CLOSE_WRITE_MASK = 0x8"
definition IN_MOVED_TO_MASK :: "32 word" where "IN_MOVED_TO_MASK = 0x80"
definition IN_CREATE_MASK :: "32 word" where "IN_CREATE_MASK = 0x100"
definition IN_DELETE_MASK :: "32 word" where "IN_DELETE_MASK = 0x200"

lemmas mask_defs = IN_CLOSE_WRITE_MASK_def IN_MOVED_TO_MASK_def IN_DELETE_MASK_def

datatype WatchKind = WatchDropbox | WatchTombstone | WatchAnr

fun kind_prefix :: "WatchKind \<Rightarrow> string" where
  "kind_prefix WatchDropbox = ''dropbox''"
| "kind_prefix WatchTombstone = ''tombstone''"
| "kind_prefix WatchAnr = ''anr''"

record WatchRoot =
  wr_kind :: WatchKind
  wr_path :: string

record SourceIdentity =
  si_key :: string
  si_size :: nat
  si_modified_ns :: nat

record DiscoveredSource =
  ds_kind :: WatchKind
  ds_path :: string
  ds_preferred_path :: string
  ds_identity :: SourceIdentity

datatype IoKind = IoNotFound | IoWouldBlock | IoOther string

datatype WatcherError =
  WatcherIo string IoKind
| NotAFile string
| InvalidName string
| BeforeUnixEpoch string
| RegistryFailed string
| MalformedEvent string
| InotifyFailed IoKind
| UnsupportedPlatform

section \<open>The file system\<close>

record Meta =
  md_is_file :: bool
  md_modified_ns :: "IoKind + int"
  md_len :: nat

record FsView =
  fs_read_dir :: "string \<Rightarrow> IoKind + (IoKind + string) list"
  fs_metadata :: "string \<Rightarrow> IoKind + Meta"
  fs_is_file :: "string \<Rightarrow> bool"

definition source_key :: "WatchKind \<Rightarrow> string \<Rightarrow> nat \<Rightarrow> nat \<Rightarrow> string" where
  "source_key kind name ns len =
     kind_prefix kind @ '':'' @ name @ '':'' @ nat_to_dec ns @ '':'' @ nat_to_dec len"

definition source_identity :: "FsView \<Rightarrow> WatchKind \<Rightarrow> string \<Rightarrow> WatcherError + SourceIdentity" where
  "source_identity fs kind path =
     (case fs_metadata fs path of
        Inl e \<Rightarrow> Inl (WatcherIo path e)
      | Inr m \<Rightarrow>
          if \<not> md_is_file m then Inl (NotAFile path)
          else
            (case md_modified_ns m of
               Inl e \<Rightarrow> Inl (WatcherIo path e)
             | Inr t \<Rightarrow>
                 if t < 0 then Inl (BeforeUnixEpoch path)
                 else
                   (case last_component path of
                      None \<Rightarrow> Inl (InvalidName path)
                    | Some name \<Rightarrow>
                        if \<not> valid_utf8 name then Inl (InvalidName path)
                        else Inr \<lparr>si_key = source_key kind name (nat t) (md_len m), si_size = md_len m,
                                  si_modified_ns = nat t\<rparr>)))"

definition preferred :: "FsView \<Rightarrow> WatchKind \<Rightarrow> string \<Rightarrow> string" where
  "preferred fs kind path =
     (if kind = WatchTombstone
      then (let p = with_extension path ''pb'' in if fs_is_file fs p then p else path)
      else path)"

definition discover :: "FsView \<Rightarrow> WatchKind \<Rightarrow> string \<Rightarrow> WatcherError + DiscoveredSource option" where
  "discover fs kind path =
     (case source_identity fs kind path of
        Inr i \<Rightarrow> Inr (Some \<lparr>ds_kind = kind, ds_path = path, ds_preferred_path = preferred fs kind path,
                            ds_identity = i\<rparr>)
      | Inl (WatcherIo p IoNotFound) \<Rightarrow> Inr None
      | Inl e \<Rightarrow> Inl e)"

section \<open>Names and events of finished files\<close>

fun completed_name :: "WatchKind \<Rightarrow> string \<Rightarrow> bool" where
  "completed_name WatchTombstone name =
     (case strip_prefix ''tombstone_'' name of None \<Rightarrow> False | Some v \<Rightarrow> length v = 2 \<and> list_all is_digit v)"
| "completed_name WatchDropbox name \<longleftrightarrow>
     CHR ''@'' \<in> set name \<and> (suffix ''.txt'' name \<or> suffix ''.txt.gz'' name)"
| "completed_name WatchAnr name \<longleftrightarrow> prefix ''anr_'' name \<and> \<not> suffix ''.tmp'' name"

fun completion_mask :: "WatchKind \<Rightarrow> 32 word" where
  "completion_mask WatchTombstone = IN_CLOSE_WRITE_MASK OR IN_MOVED_TO_MASK"
| "completion_mask WatchDropbox = IN_MOVED_TO_MASK"
| "completion_mask WatchAnr = IN_CLOSE_WRITE_MASK OR IN_MOVED_TO_MASK"

definition is_completion_event :: "WatchKind \<Rightarrow> string \<Rightarrow> 32 word \<Rightarrow> bool" where
  "is_completion_event kind name bits \<longleftrightarrow>
     \<not> (bits AND IN_DELETE_MASK \<noteq> 0 \<or> \<not> completed_name kind name) \<and> bits AND completion_mask kind \<noteq> 0"

section \<open>The scan at start-up\<close>

definition scan_entry ::
  "FsView \<Rightarrow> (string \<Rightarrow> string + bool) \<Rightarrow> WatchRoot \<Rightarrow> IoKind + string \<Rightarrow> WatcherError + DiscoveredSource list" where
  "scan_entry fs contains root entry =
     (case entry of
        Inl e \<Rightarrow> Inl (WatcherIo (wr_path root) e)
      | Inr name \<Rightarrow>
          if \<not> valid_utf8 name then Inr []
          else if \<not> completed_name (wr_kind root) name then Inr []
          else bind_result (discover fs (wr_kind root) (path_join (wr_path root) name)) (\<lambda>found.
            case found of
              None \<Rightarrow> Inr []
            | Some s \<Rightarrow>
                (case contains (si_key (ds_identity s)) of
                   Inl e \<Rightarrow> Inl (RegistryFailed e)
                 | Inr known \<Rightarrow> Inr (if known then [] else [s]))))"

text \<open>\<^verbatim>\<open>for x in xs { out.extend(f(x)?) }\<close>: the first error ends the loop, and what was found before it is
  not returned.\<close>

definition extend_results :: "('a \<Rightarrow> 'e + 'b list) \<Rightarrow> 'a list \<Rightarrow> 'e + 'b list" where
  "extend_results f xs = bind_result (collect_results f xs) (\<lambda>found. Inr (concat found))"

definition scan_root :: "FsView \<Rightarrow> (string \<Rightarrow> string + bool) \<Rightarrow> WatchRoot \<Rightarrow> WatcherError + DiscoveredSource list" where
  "scan_root fs contains root =
     (case fs_read_dir fs (wr_path root) of
        Inl IoNotFound \<Rightarrow> Inr []
      | Inl e \<Rightarrow> Inl (WatcherIo (wr_path root) e)
      | Inr entries \<Rightarrow> extend_results (scan_entry fs contains root) entries)"

definition startup_scan :: "FsView \<Rightarrow> (string \<Rightarrow> string + bool) \<Rightarrow> WatchRoot list \<Rightarrow> WatcherError + DiscoveredSource list" where
  "startup_scan fs contains roots =
     bind_result (extend_results (scan_root fs contains) roots)
       (\<lambda>out. Inr (sort_key (\<lambda>s. si_modified_ns (ds_identity s)) out))"

section \<open>Inotify\<close>

record RawInotifyEvent =
  ie_watch_descriptor :: int
  ie_mask :: "32 word"
  ie_cookie :: nat
  ie_name :: string

function parse_inotify_events :: "u8 list \<Rightarrow> WatcherError + RawInotifyEvent list" where
  "parse_inotify_events bytes =
     (if bytes = [] then Inr []
      else if length bytes < 16 then Inl (MalformedEvent ''truncated header'')
      else
        (let wd = to_signed 32 (le_value (take 4 bytes));
             bits = word_of_nat (le_value (take 4 (drop 4 bytes)));
             cookie = le_value (take 4 (drop 8 bytes));
             len = le_value (take 4 (drop 12 bytes));
             rest = drop 16 bytes
         in if len > length rest then Inl (MalformedEvent ''truncated name'')
            else
              (let raw = take len rest;
                   name = from_bytes (takeWhile (\<lambda>b. b \<noteq> 0) raw)
               in if \<not> valid_utf8 name then Inl (MalformedEvent ''non-UTF8 name'')
                  else bind_result (parse_inotify_events (drop len rest)) (\<lambda>es.
                    Inr (\<lparr>ie_watch_descriptor = wd, ie_mask = bits, ie_cookie = cookie, ie_name = name\<rparr> # es)))))"
  by pat_completeness auto
termination by (relation "measure length") (auto simp: Let_def)

declare parse_inotify_events.simps [simp del]

definition INOTIFY_BUFFER_BYTES :: nat where "INOTIFY_BUFFER_BYTES = 64 * 1024"

record InotifyWatcher =
  iw_roots :: "int \<rightharpoonup> WatchRoot"

definition watch_mask :: "WatchKind \<Rightarrow> 32 word" where
  "watch_mask kind =
     (case kind of
        WatchTombstone \<Rightarrow> IN_CLOSE_WRITE_MASK OR IN_MOVED_TO_MASK OR IN_DELETE_MASK
      | WatchDropbox \<Rightarrow> IN_MOVED_TO_MASK
      | WatchAnr \<Rightarrow> IN_CLOSE_WRITE_MASK OR IN_MOVED_TO_MASK)"

definition watcher_add ::
  "(string \<Rightarrow> 32 word \<Rightarrow> IoKind + int) \<Rightarrow> WatchRoot \<Rightarrow> InotifyWatcher \<Rightarrow> WatcherError + InotifyWatcher" where
  "watcher_add add_watch root w =
     (if CHR 0x00 \<in> set (wr_path root) then Inl (InvalidName (wr_path root))
      else
        (case add_watch (wr_path root) (watch_mask (wr_kind root)) of
           Inl e \<Rightarrow> Inl (WatcherIo (wr_path root) e)
         | Inr wd \<Rightarrow> Inr (w\<lparr>iw_roots := (iw_roots w)(wd \<mapsto> root)\<rparr>)))"

fun add_roots ::
  "(string \<Rightarrow> 32 word \<Rightarrow> IoKind + int) \<Rightarrow> WatchRoot list \<Rightarrow> InotifyWatcher \<Rightarrow> WatcherError + InotifyWatcher" where
  "add_roots add_watch [] w = Inr w"
| "add_roots add_watch (r # rs) w = bind_result (watcher_add add_watch r w) (add_roots add_watch rs)"

definition watcher_new ::
  "IoKind option \<Rightarrow> (string \<Rightarrow> 32 word \<Rightarrow> IoKind + int) \<Rightarrow> WatchRoot list \<Rightarrow> WatcherError + InotifyWatcher" where
  "watcher_new init add_watch roots =
     (case init of Some e \<Rightarrow> Inl (InotifyFailed e) | None \<Rightarrow> add_roots add_watch roots \<lparr>iw_roots = Map.empty\<rparr>)"

definition poll_event :: "FsView \<Rightarrow> InotifyWatcher \<Rightarrow> RawInotifyEvent \<Rightarrow> WatcherError + DiscoveredSource list" where
  "poll_event fs w e =
     (case iw_roots w (ie_watch_descriptor e) of
        None \<Rightarrow> Inr []
      | Some root \<Rightarrow>
          if is_completion_event (wr_kind root) (ie_name e) (ie_mask e)
          then bind_result (discover fs (wr_kind root) (path_join (wr_path root) (ie_name e)))
                 (\<lambda>found. Inr (case found of None \<Rightarrow> [] | Some s \<Rightarrow> [s]))
          else Inr [])"

definition poll :: "FsView \<Rightarrow> IoKind + u8 list \<Rightarrow> InotifyWatcher \<Rightarrow> WatcherError + DiscoveredSource list" where
  "poll fs read w =
     (case read of
        Inl IoWouldBlock \<Rightarrow> Inr []
      | Inl e \<Rightarrow> Inl (InotifyFailed e)
      | Inr bytes \<Rightarrow> bind_result (parse_inotify_events (take INOTIFY_BUFFER_BYTES bytes)) (extend_results (poll_event fs w)))"

end
