(* ===== verification/Watcher_Props.thy ===== *)
theory Watcher_Props
  imports Watcher Logd_Proofs
begin

text \<open>
  What the directory watcher keeps and loses: events are read back exactly as the kernel wrote them, the mask
  registered for a directory covers every event accepted from it, a key identifies one state of one file, the
  scan finds exactly the files not yet known; and one bad name or file makes a whole batch disappear.
\<close>

section \<open>The kernel's event layout\<close>

definition encode_inotify :: "RawInotifyEvent \<times> nat \<Rightarrow> u8 list" where
  "encode_inotify ep =
     (let e = fst ep; pad = snd ep
      in le_bytes 4 (to_unsigned 32 (ie_watch_descriptor e)) @ le_bytes 4 (unat (ie_mask e)) @ le_bytes 4 (ie_cookie e) @
         le_bytes 4 (length (ie_name e) + pad) @ as_bytes (ie_name e) @ replicate pad 0)"

definition event_ok :: "RawInotifyEvent \<times> nat \<Rightarrow> bool" where
  "event_ok ep \<longleftrightarrow>
     is_i32 (ie_watch_descriptor (fst ep)) \<and> ie_cookie (fst ep) < 2 ^ 32 \<and> length (ie_name (fst ep)) + snd ep < 2 ^ 32 \<and>
     CHR 0x00 \<notin> set (ie_name (fst ep))"

lemma take_drop_le_bytes [simp]:
  "take 4 (le_bytes 4 a @ r) = le_bytes 4 a" "drop 4 (le_bytes 4 a @ r) = r"
  "drop 8 (le_bytes 4 a @ le_bytes 4 b @ r) = r" "drop 12 (le_bytes 4 a @ le_bytes 4 b @ le_bytes 4 c @ r) = r"
  "drop 16 (le_bytes 4 a @ le_bytes 4 b @ le_bytes 4 c @ le_bytes 4 d @ r) = r"
  by simp_all

lemma name_bytes_until_nul: "CHR 0x00 \<notin> set name \<Longrightarrow> takeWhile (\<lambda>b. b \<noteq> 0) (as_bytes name @ replicate n 0) = as_bytes name"
proof -
  assume a: "CHR 0x00 \<notin> set name"
  have "byte_of_char c \<noteq> 0" if "c \<in> set name" for c
  proof
    assume "byte_of_char c = 0"
    then have "c = char_of_byte 0" by (metis char_of_byte_of_char)
    then have "c = CHR 0x00" by (simp add: char_of_byte_def char_of_def)
    with a that show False by simp
  qed
  then have "takeWhile (\<lambda>b. b \<noteq> 0) (as_bytes name @ replicate n 0) = as_bytes name @ takeWhile (\<lambda>b. b \<noteq> 0) (replicate n (0 :: u8))"
    by (intro takeWhile_append2) (auto simp: as_bytes_def)
  then show ?thesis by (cases n) simp_all
qed

lemma parse_encoded_event:
  assumes "event_ok ep"
  shows "parse_inotify_events (encode_inotify ep @ rest) =
     (if valid_utf8 (ie_name (fst ep)) then bind_result (parse_inotify_events rest) (\<lambda>es. Inr (fst ep # es))
      else Inl (MalformedEvent ''non-UTF8 name''))"
proof -
  obtain e pad where ep: "ep = (e, pad)" by (cases ep)
  have wd: "to_signed 32 (to_unsigned 32 (ie_watch_descriptor e)) = ie_watch_descriptor e"
    "to_unsigned 32 (ie_watch_descriptor e) < 2 ^ 32"
    using assms to_signed_to_unsigned [of 31 "ie_watch_descriptor e"] by (simp_all add: ep event_ok_def int_range_defs)
  have mask: "unat (ie_mask e) < 2 ^ 32" using unsigned_less [of "ie_mask e"] by simp
  have nul: "CHR 0x00 \<notin> set (ie_name e)" and sizes: "ie_cookie e < 256 ^ 4" "length (ie_name e) + pad < 256 ^ 4"
    using assms by (simp_all add: ep event_ok_def)
  have vals: "le_value (le_bytes 4 (to_unsigned 32 (ie_watch_descriptor e))) = to_unsigned 32 (ie_watch_descriptor e)"
    "le_value (le_bytes 4 (unat (ie_mask e))) = unat (ie_mask e)" "le_value (le_bytes 4 (ie_cookie e)) = ie_cookie e"
    "le_value (le_bytes 4 (length (ie_name e) + pad)) = length (ie_name e) + pad"
    by (rule le_value_le_bytes; use wd mask sizes in simp)+
  have rest: "encode_inotify ep @ rest = le_bytes 4 (to_unsigned 32 (ie_watch_descriptor e)) @ le_bytes 4 (unat (ie_mask e)) @
      le_bytes 4 (ie_cookie e) @ le_bytes 4 (length (ie_name e) + pad) @ (as_bytes (ie_name e) @ replicate pad 0) @ rest"
    by (simp add: ep encode_inotify_def Let_def)
  have split: "take (length (ie_name e) + pad) ((as_bytes (ie_name e) @ replicate pad 0) @ rest) = as_bytes (ie_name e) @ replicate pad 0"
    "drop (length (ie_name e) + pad) ((as_bytes (ie_name e) @ replicate pad 0) @ rest) = rest"
    by simp_all
  have ne: "encode_inotify ep @ rest \<noteq> []" "\<not> length (encode_inotify ep @ rest) < 16"
    unfolding rest by (simp_all flip: length_0_conv)
  have eta: "\<lparr>ie_watch_descriptor = ie_watch_descriptor e, ie_mask = ie_mask e, ie_cookie = ie_cookie e, ie_name = ie_name e\<rparr> = e"
    by (cases e) simp
  show ?thesis
    by (subst parse_inotify_events.simps, subst if_not_P [OF ne(1)], subst if_not_P [OF ne(2)])
      (simp only: rest Let_def take_drop_le_bytes vals split name_bytes_until_nul [OF nul] from_bytes_as_bytes wd(1),
        simp add: ep eta)
qed

lemma inotify_batch_exact':
  assumes "list_all event_ok evs"
  shows "parse_inotify_events (concat (map encode_inotify evs)) =
     (if list_all (\<lambda>ep. valid_utf8 (ie_name (fst ep))) evs then Inr (map fst evs)
      else Inl (MalformedEvent ''non-UTF8 name''))"
  using assms
proof (induction evs)
  case (Cons ep evs)
  then show ?case by (simp add: parse_encoded_event bind_result_def)
qed (simp add: parse_inotify_events.simps)

text \<open>a batch of events is read back exactly as the kernel wrote it, whatever padding follows the names; an event
  whose name is not UTF-8 makes the whole batch an error, the events before it included.\<close>
theorem inotify_batch_exact:
  assumes "list_all event_ok evs"
  shows "parse_inotify_events (concat (map encode_inotify evs)) =
     (if list_all (\<lambda>ep. valid_utf8 (ie_name (fst ep))) evs then Inr (map fst evs)
      else Inl (MalformedEvent ''non-UTF8 name''))"
  by (rule inotify_batch_exact' [OF assms])

theorem inotify_batch_exact_witness:
  "parse_inotify_events (encode_inotify (\<lparr>ie_watch_descriptor = 1, ie_mask = 128, ie_cookie = 9, ie_name = ''tombstone_03''\<rparr>, 4)) =
     Inr [\<lparr>ie_watch_descriptor = 1, ie_mask = 128, ie_cookie = 9, ie_name = ''tombstone_03''\<rparr>]"
proof -
  have "valid_utf8 ''tombstone_03''" by code_simp
  then show ?thesis
    using inotify_batch_exact [of "[(\<lparr>ie_watch_descriptor = 1, ie_mask = 128, ie_cookie = 9, ie_name = ''tombstone_03''\<rparr>, 4)]"]
    by (simp add: event_ok_def int_range_defs)
qed

section \<open>Keys\<close>

lemma kind_prefix_inject: "kind_prefix k = kind_prefix k' \<longleftrightarrow> k = k'"
  by (cases k; cases k') simp_all

lemma kind_prefix_fresh: "CHR '':'' \<notin> set (kind_prefix k)"
  by (cases k) simp_all

lemma source_key_split:
  "split_once CHR '':'' (source_key k n t l) = Some (kind_prefix k, n @ '':'' @ nat_to_dec t @ '':'' @ nat_to_dec l)"
  "rsplit_once CHR '':'' (n @ '':'' @ nat_to_dec t @ '':'' @ nat_to_dec l) = Some (n @ '':'' @ nat_to_dec t, nat_to_dec l)"
  "rsplit_once CHR '':'' (n @ '':'' @ nat_to_dec t) = Some (n, nat_to_dec t)"
proof -
  have d: "CHR '':'' \<notin> set (nat_to_dec x)" for x
    using nat_to_dec_digits [of "CHR '':''" x] by (auto simp: is_digit_def digit_value_def in_range_def)
  show "split_once CHR '':'' (source_key k n t l) = Some (kind_prefix k, n @ '':'' @ nat_to_dec t @ '':'' @ nat_to_dec l)"
    using split_once_append [OF kind_prefix_fresh, of k] by (simp add: source_key_def)
  show "rsplit_once CHR '':'' (n @ '':'' @ nat_to_dec t) = Some (n, nat_to_dec t)"
    using rsplit_once_append [OF d] by simp
  show "rsplit_once CHR '':'' (n @ '':'' @ nat_to_dec t @ '':'' @ nat_to_dec l) = Some (n @ '':'' @ nat_to_dec t, nat_to_dec l)"
    using rsplit_once_append [OF d, of "n @ '':'' @ nat_to_dec t"] by simp
qed

text \<open>two sources have the same key only when kind, file name, modification time and size agree, whatever
  characters the name has: a file that was changed or replaced is a new source.\<close>
theorem source_key_identifies:
  "source_key k n t l = source_key k' n' t' l' \<longleftrightarrow> k = k' \<and> n = n' \<and> t = t' \<and> l = l'"
proof
  assume eq: "source_key k n t l = source_key k' n' t' l'"
  have k: "k = k'" and r: "n @ '':'' @ nat_to_dec t @ '':'' @ nat_to_dec l = n' @ '':'' @ nat_to_dec t' @ '':'' @ nat_to_dec l'"
    using source_key_split(1) [of k n t l] source_key_split(1) [of k' n' t' l'] eq by (simp_all add: kind_prefix_inject)
  have l: "l = l'" and r': "n @ '':'' @ nat_to_dec t = n' @ '':'' @ nat_to_dec t'"
    using source_key_split(2) [of n t l] source_key_split(2) [of n' t' l'] unfolding r by simp_all
  show "k = k' \<and> n = n' \<and> t = t' \<and> l = l'"
    using source_key_split(3) [of n t] source_key_split(3) [of n' t'] k l unfolding r' by simp
qed simp

section \<open>Masks\<close>

lemma and_distrib_zero: "(x :: 32 word) AND (a OR b) = 0 \<longleftrightarrow> x AND a = 0 \<and> x AND b = 0"
  by (simp add: bit.conj_disj_distrib or_eq_0_iff)

text \<open>an event is taken for a finished file exactly when its name is that of a finished file, it is no deletion, and it
  carries a bit the directory was registered for: no event that the program accepts is missing from
  the mask, and of the registered bits only deletions are passed over.\<close>
theorem completion_events_are_registered:
  "is_completion_event kind name bits \<longleftrightarrow>
     completed_name kind name \<and> bits AND IN_DELETE_MASK = 0 \<and> bits AND watch_mask kind \<noteq> 0"
  by (cases kind) (auto simp: is_completion_event_def watch_mask_def and_distrib_zero)

section \<open>Batches\<close>

lemma extend_results_Inr: "extend_results f xs = Inr out \<longleftrightarrow> (\<exists>yss. list_all2 (\<lambda>x ys. f x = Inr ys) xs yss \<and> out = concat yss)"
  by (auto simp: extend_results_def bind_result_Inr collect_results_Inr)

lemma extend_results_total: "(\<exists>out. extend_results f xs = Inr out) \<longleftrightarrow> (\<forall>x\<in>set xs. \<exists>ys. f x = Inr ys)"
proof
  assume "\<forall>x\<in>set xs. \<exists>ys. f x = Inr ys"
  then have "list_all2 (\<lambda>x ys. f x = Inr ys) xs (map (projr \<circ> f) xs)"
    by (induction xs) (auto simp: list_all2_Cons1)
  then show "\<exists>out. extend_results f xs = Inr out" by (auto simp: extend_results_Inr)
qed (auto simp: extend_results_Inr list_all2_conv_all_nth in_set_conv_nth)

lemma extend_results_set: "extend_results f xs = Inr out \<Longrightarrow> set out = (\<Union>x\<in>set xs. set (projr (f x)))"
proof -
  have "list_all2 (\<lambda>x ys. f x = Inr ys) xs yss \<Longrightarrow> set (concat yss) = (\<Union>x\<in>set xs. set (projr (f x)))" for yss
    by (induction xs yss rule: list_all2_induct) auto
  then show "extend_results f xs = Inr out \<Longrightarrow> ?thesis" by (auto simp: extend_results_Inr)
qed

text \<open>one read of the event queue is all or nothing: it reports its finished files only when the name of every event
  in the buffer is UTF-8 and no accepted event fails to be looked up.  One file that cannot be
  looked up (a directory with such a name, an unreadable entry), or one name in another encoding, discards
  the finished files of the whole batch, whose events are gone from the queue.\<close>
theorem poll_all_or_nothing:
  assumes "list_all event_ok evs" and "length (concat (map encode_inotify evs)) \<le> INOTIFY_BUFFER_BYTES"
  shows "(\<exists>out. poll fs (Inr (concat (map encode_inotify evs))) w = Inr out) \<longleftrightarrow>
     (\<forall>ep\<in>set evs. valid_utf8 (ie_name (fst ep)) \<and> (\<exists>ys. poll_event fs w (fst ep) = Inr ys))"
proof -
  have take: "take INOTIFY_BUFFER_BYTES (concat (map encode_inotify evs)) = concat (map encode_inotify evs)"
    using assms(2) by (rule take_all)
  show ?thesis
  proof (cases "list_all (\<lambda>ep. valid_utf8 (ie_name (fst ep))) evs")
    case True
    then have "poll fs (Inr (concat (map encode_inotify evs))) w = extend_results (poll_event fs w) (map fst evs)"
      by (simp add: poll_def take inotify_batch_exact' [OF assms(1)] bind_result_def)
    then show ?thesis using True by (auto simp: extend_results_total list_all_iff)
  next
    case False
    then have "poll fs (Inr (concat (map encode_inotify evs))) w = Inl (MalformedEvent ''non-UTF8 name'')"
      by (simp add: poll_def take inotify_batch_exact' [OF assms(1)] bind_result_def)
    then show ?thesis using False by (auto simp: list_all_iff)
  qed
qed

text \<open>A file system with one ANR directory that holds a dump and a directory named like one.\<close>

definition anr_dir :: FsView where
  "anr_dir =
     \<lparr>fs_read_dir = (\<lambda>_. Inr [Inr ''anr_a'', Inr ''anr_b'']),
      fs_metadata = (\<lambda>p. Inr \<lparr>md_is_file = (p = ''/d/anr_a''), md_modified_ns = Inr 5, md_len = 3\<rparr>),
      fs_is_file = (\<lambda>_. False)\<rparr>"

definition anr_root :: WatchRoot where
  "anr_root = \<lparr>wr_kind = WatchAnr, wr_path = ''/d''\<rparr>"

definition closed_event :: "string \<Rightarrow> RawInotifyEvent \<times> nat" where
  "closed_event name = (\<lparr>ie_watch_descriptor = 1, ie_mask = 8, ie_cookie = 0, ie_name = name\<rparr>, 3)"

theorem poll_all_or_nothing_witness:
  "\<not> (\<exists>out. poll anr_dir (Inr (concat (map encode_inotify [closed_event ''anr_a'', closed_event ''anr_b''])))
           \<lparr>iw_roots = [1 \<mapsto> anr_root]\<rparr> = Inr out) \<and>
   (\<exists>s. poll_event anr_dir \<lparr>iw_roots = [1 \<mapsto> anr_root]\<rparr> (fst (closed_event ''anr_a'')) = Inr [s])"
proof -
  let ?w = "\<lparr>iw_roots = [1 \<mapsto> anr_root]\<rparr>"
  have c: "is_completion_event WatchAnr ''anr_a'' 8" "is_completion_event WatchAnr ''anr_b'' 8" by code_simp+
  have d: "discover anr_dir WatchAnr ''/d/anr_b'' = Inl (NotAFile ''/d/anr_b'')" by code_simp
  have a: "\<exists>s. discover anr_dir WatchAnr ''/d/anr_a'' = Inr (Some s)"
  proof -
    have "last_component ''/d/anr_a'' = Some ''anr_a''" "valid_utf8 ''anr_a''" by code_simp+
    then show ?thesis by (simp add: discover_def source_identity_def anr_dir_def)
  qed
  have j: "path_join ''/d'' ''anr_a'' = ''/d/anr_a''" "path_join ''/d'' ''anr_b'' = ''/d/anr_b''" by code_simp+
  have "poll_event anr_dir ?w (fst (closed_event ''anr_b'')) = Inl (NotAFile ''/d/anr_b'')"
    using c d j by (simp add: poll_event_def closed_event_def anr_root_def bind_result_def)
  moreover have "list_all event_ok [closed_event ''anr_a'', closed_event ''anr_b'']"
    by (simp add: event_ok_def closed_event_def int_range_defs)
  moreover have "length (concat (map encode_inotify [closed_event ''anr_a'', closed_event ''anr_b''])) \<le> INOTIFY_BUFFER_BYTES"
    by (simp add: encode_inotify_def closed_event_def INOTIFY_BUFFER_BYTES_def)
  moreover have "\<exists>s. poll_event anr_dir ?w (fst (closed_event ''anr_a'')) = Inr [s]"
    using a c j by (auto simp: poll_event_def closed_event_def anr_root_def bind_result_def)
  ultimately show ?thesis
    using poll_all_or_nothing [of "[closed_event ''anr_a'', closed_event ''anr_b'']" anr_dir ?w] by auto
qed

section \<open>The scan\<close>

lemma scan_entry_set:
  assumes "scan_entry fs contains root entry = Inr ys"
  shows "s \<in> set ys \<longleftrightarrow> (\<exists>name. entry = Inr name \<and> valid_utf8 name \<and> completed_name (wr_kind root) name \<and>
     discover fs (wr_kind root) (path_join (wr_path root) name) = Inr (Some s) \<and> contains (si_key (ds_identity s)) = Inr False)"
proof (cases "\<exists>name t. entry = Inr name \<and> valid_utf8 name \<and> completed_name (wr_kind root) name \<and>
    discover fs (wr_kind root) (path_join (wr_path root) name) = Inr (Some t)")
  case True
  then show ?thesis using assms by (auto simp: scan_entry_def bind_result_def split: sum.splits if_splits)
next
  case False
  then have "ys = []" using assms
    by (auto simp: scan_entry_def bind_result_def split: sum.splits if_splits option.splits)
  with False show ?thesis by auto
qed

lemma scan_root_set:
  assumes "scan_root fs contains root = Inr ys"
  shows "s \<in> set ys \<longleftrightarrow> (\<exists>entries name. fs_read_dir fs (wr_path root) = Inr entries \<and> Inr name \<in> set entries \<and> valid_utf8 name \<and>
     completed_name (wr_kind root) name \<and> discover fs (wr_kind root) (path_join (wr_path root) name) = Inr (Some s) \<and>
     contains (si_key (ds_identity s)) = Inr False)"
proof (cases "fs_read_dir fs (wr_path root)")
  case (Inl e)
  then show ?thesis using assms by (cases e) (simp_all add: scan_root_def)
next
  case (Inr entries)
  then have ext: "extend_results (scan_entry fs contains root) entries = Inr ys" using assms by (simp add: scan_root_def)
  have entry: "scan_entry fs contains root e = Inr (projr (scan_entry fs contains root e))" if "e \<in> set entries" for e
    using that extend_results_total [of "scan_entry fs contains root" entries] ext by auto
  show ?thesis
    unfolding extend_results_set [OF ext] using scan_entry_set [OF entry] Inr by fastforce
qed

text \<open>a scan that succeeds returns exactly the finished files of the watched directories that are not yet known as
  ingested, oldest first; names that are not UTF-8 and files that vanish during the scan are passed over.\<close>
theorem startup_scan_exact:
  assumes "startup_scan fs contains roots = Inr out"
  shows "sorted (map (\<lambda>s. si_modified_ns (ds_identity s)) out) \<and>
     set out = {s. \<exists>root\<in>set roots. \<exists>entries name. fs_read_dir fs (wr_path root) = Inr entries \<and> Inr name \<in> set entries \<and>
       valid_utf8 name \<and> completed_name (wr_kind root) name \<and>
       discover fs (wr_kind root) (path_join (wr_path root) name) = Inr (Some s) \<and> contains (si_key (ds_identity s)) = Inr False}"
proof -
  obtain found where ext: "extend_results (scan_root fs contains) roots = Inr found"
    and out: "out = sort_key (\<lambda>s. si_modified_ns (ds_identity s)) found"
    using assms by (auto simp: startup_scan_def bind_result_Inr)
  have root: "scan_root fs contains r = Inr (projr (scan_root fs contains r))" if "r \<in> set roots" for r
    using that extend_results_total [of "scan_root fs contains" roots] ext by auto
  have "set out = (\<Union>r\<in>set roots. set (projr (scan_root fs contains r)))"
    by (simp add: out extend_results_set [OF ext])
  then show ?thesis using scan_root_set [OF root] by (auto simp: out)
qed

theorem startup_scan_exact_witness:
  "\<exists>out s. startup_scan (anr_dir\<lparr>fs_read_dir := (\<lambda>_. Inr [Inr ''anr_a''])\<rparr>) (\<lambda>_. Inr False) [anr_root] = Inr out \<and> s \<in> set out"
proof -
  let ?fs = "anr_dir\<lparr>fs_read_dir := (\<lambda>_. Inr [Inr ''anr_a''])\<rparr>"
  have v: "last_component ''/d/anr_a'' = Some ''anr_a''" "valid_utf8 ''anr_a''" "path_join ''/d'' ''anr_a'' = ''/d/anr_a''"
    "completed_name WatchAnr ''anr_a''" by code_simp+
  obtain s where s: "discover ?fs WatchAnr ''/d/anr_a'' = Inr (Some s)"
    using v by (simp add: discover_def source_identity_def anr_dir_def)
  have ok: "startup_scan ?fs (\<lambda>_. Inr False) [anr_root] = Inr [s]"
    using v s by (simp add: startup_scan_def scan_root_def scan_entry_def extend_results_def bind_result_def anr_root_def)
  have "s \<in> set [s]" unfolding conjunct2 [OF startup_scan_exact [OF ok]] using v s by (auto simp: anr_root_def)
  with ok show ?thesis by blast
qed

end
