(* ===== verification/Fragments.thy ===== *)
theory Fragments
  imports Artifacts Watcher Daemon
begin

text \<open>
  \<^verbatim>\<open>cch_daemond/collectors.rs\<close>, first half: how a discovered file, an activity event or a crash-buffer report
  becomes a fragment for the correlator.  What the files hold, decompression and the protobuf decoder are
  fields of \<open>ArtifactFs\<close>.
\<close>

section \<open>Files\<close>

definition MAX_ARTIFACT_BYTES :: nat where "MAX_ARTIFACT_BYTES = 64 * 1024 * 1024"

record ArtifactFs = FsView +
  af_read :: "string \<Rightarrow> IoKind + string"
  af_gunzip :: "string \<Rightarrow> string option"
  af_proto :: "string \<Rightarrow> string + Tombstone"

text \<open>The errors that reach the collector's health as text.\<close>

datatype ArtifactError = ReadFailed string IoKind | ExceedsLimit string | DropboxFailed DropboxError

definition artifact_read_limited :: "ArtifactFs \<Rightarrow> string \<Rightarrow> ArtifactError + string" where
  "artifact_read_limited fs path =
     (case fs_metadata fs path of
        Inl e \<Rightarrow> Inl (ReadFailed path e)
      | Inr m \<Rightarrow>
          if md_len m > MAX_ARTIFACT_BYTES then Inl (ExceedsLimit path)
          else (case af_read fs path of Inl e \<Rightarrow> Inl (ReadFailed path e) | Inr bytes \<Rightarrow> Inr bytes))"

definition is_blank :: "string \<Rightarrow> bool" where
  "is_blank bytes = list_all (\<lambda>b. b = CHR 0x00) bytes"

section \<open>Small helpers\<close>

definition modified_ms :: "DiscoveredSource \<Rightarrow> int" where
  "modified_ms s = (let ms = int (si_modified_ns (ds_identity s) div 1000000) in if ms \<le> i64_max then ms else i64_max)"

definition first_non_empty_line :: "string \<Rightarrow> string option" where
  "first_non_empty_line text = find (\<lambda>l. l \<noteq> []) (map trim (lines text))"

definition class_of_line :: "string \<Rightarrow> string option" where
  "class_of_line line =
     (let cls = (case split_once CHR '':'' line of None \<Rightarrow> line | Some (c, _) \<Rightarrow> c)
      in if CHR ''.'' \<in> set cls \<and> \<not> prefix ''at '' cls then Some cls else None)"

definition exception_class :: "string \<Rightarrow> string option" where
  "exception_class text =
     (case List.map_filter class_of_line (map trim (lines text)) of [] \<Rightarrow> None | c # _ \<Rightarrow> Some c)"

definition java_like_frames :: "string \<Rightarrow> string list" where
  "java_like_frames text = filter (prefix ''at '') (map trim (lines text))"

definition package_from_process :: "string \<Rightarrow> string" where
  "package_from_process process = hd (split_on CHR '':'' process)"

definition android_user_id :: "int \<Rightarrow> int" where
  "android_user_id uid = max uid 0 div 100000"

fun collector_from_watch :: "WatchKind \<Rightarrow> CollectorSource" where
  "collector_from_watch WatchDropbox = Dropbox"
| "collector_from_watch WatchTombstone = Tombstone"
| "collector_from_watch WatchAnr = AnrFile"

definition collector_from_mask :: "SourceMask \<Rightarrow> CollectorSource" where
  "collector_from_mask m =
     (if mask_contains m EVENTS then Events
      else if mask_contains m CRASH_BUFFER then CrashBuffer
      else if mask_contains m DROPBOX then Dropbox
      else if mask_contains m TOMBSTONE then Tombstone
      else AnrFile)"

definition android_watch_roots :: "WatchRoot list" where
  "android_watch_roots =
     [\<lparr>wr_kind = WatchDropbox, wr_path = ''/data/system/dropbox''\<rparr>,
      \<lparr>wr_kind = WatchTombstone, wr_path = ''/data/tombstones''\<rparr>,
      \<lparr>wr_kind = WatchAnr, wr_path = ''/data/anr''\<rparr>]"

section \<open>Reports applied to a fragment\<close>

definition apply_java_report :: "CrashBufferReport \<Rightarrow> CrashFragment \<Rightarrow> CrashFragment" where
  "apply_java_report r f =
     f\<lparr>f_process_name := cb_process_name r, f_package_name := Some (package_from_process (cb_process_name r)),
       f_pid := cb_pid r, f_summary_class := Some (cb_exception_class r),
       f_summary_text := (if cb_exception_message r \<noteq> [] then Some (cb_exception_message r) else None),
       f_frames := map java_frame_normalized (cb_frames r), f_payload := PInline (as_bytes (cb_raw r))\<rparr>"

definition apply_native_report :: "TombstoneReport \<Rightarrow> CrashFragment \<Rightarrow> CrashFragment" where
  "apply_native_report r f =
     f\<lparr>f_process_name := tr_process_name r, f_package_name := Some (tombstone_package_name r), f_pid := tr_pid r,
       f_user_id := (if f_user_id f = None then map_option android_user_id (tr_uid r) else f_user_id f),
       f_summary_class := opt_or (tr_signal_name r) (map_option (\<lambda>n. ''signal '' @ int_to_dec n) (tr_signal_number r)),
       f_summary_text := opt_or (opt_or (tr_cause r) (tr_abort_message r)) (tr_signal_code_name r),
       f_frames := map native_frame_normalized (tr_frames r)\<rparr>"

definition pad2 :: "nat \<Rightarrow> string" where
  "pad2 n = (if n < 10 then CHR ''0'' # nat_to_dec n else nat_to_dec n)"

definition render_tombstone :: "TombstoneReport \<Rightarrow> string" where
  "render_tombstone r =
     join_with [CHR 0x0A]
       ([''pid: '' @ int_to_dec (tr_pid r) @ '', tid: '' @ int_to_dec (tr_tid r) @ '', name: '' @
           unwrap_or (tr_thread_name r) ''unknown'' @ '' >>> '' @ tr_process_name r @ '' <<<''] @
        (case tr_uid r of None \<Rightarrow> [] | Some uid \<Rightarrow> [''uid: '' @ int_to_dec uid]) @
        [''signal '' @ int_to_dec (unwrap_or (tr_signal_number r) 0) @ '' ('' @ unwrap_or (tr_signal_name r) ''unknown'' @
           '') code '' @ int_to_dec (unwrap_or (tr_signal_code r) 0) @ '' ('' @ unwrap_or (tr_signal_code_name r) ''unknown'' @ '')''] @
        (case tr_abort_message r of None \<Rightarrow> [] | Some m \<Rightarrow> [''Abort message: '' @ m]) @
        map (\<lambda>(i, f). ''#'' @ pad2 i @ '' '' @ native_frame_normalized f) (enumerate 0 (tr_frames r)))"

section \<open>DropBox entries\<close>

fun kind_of_dropbox :: "DropboxKind \<Rightarrow> CrashKind option" where
  "kind_of_dropbox JavaCrash = Some JavaException"
| "kind_of_dropbox StrictMode = Some JavaException"
| "kind_of_dropbox DropboxAnr = Some Anr"
| "kind_of_dropbox LowMemory = Some Anr"
| "kind_of_dropbox Watchdog = Some Anr"
| "kind_of_dropbox DropboxNativeCrash = Some NativeCrash"
| "kind_of_dropbox NativeRecoverableCrash = Some NativeCrash"
| "kind_of_dropbox DropboxWtf = Some Wtf"
| "kind_of_dropbox DropboxUnknown = None"

definition top_frames :: "AnrReport \<Rightarrow> string list" where
  "top_frames r = (case Option.bind (main_thread r) top_frame of None \<Rightarrow> [] | Some frame \<Rightarrow> [frame])"

definition dropbox_body :: "CrashKind \<Rightarrow> string \<Rightarrow> CrashFragment \<Rightarrow> CrashFragment" where
  "dropbox_body knd body f =
     (case knd of
        JavaException \<Rightarrow>
          (case parse_crash_buffer body of
             Inr r \<Rightarrow> apply_java_report r f
           | Inl _ \<Rightarrow> f\<lparr>f_frames := java_like_frames body, f_summary_class := exception_class body\<rparr>)
      | Anr \<Rightarrow>
          (let f1 = f\<lparr>f_summary_class := Some ''ANR'', f_summary_text := None\<rparr>
           in case parse_anr body of
                Inr r \<Rightarrow> f1\<lparr>f_process_name := an_process_name r, f_package_name := Some (anr_package_name r),
                           f_pid := an_pid r, f_frames := top_frames r\<rparr>
              | Inl _ \<Rightarrow> f1)
      | NativeCrash \<Rightarrow> (case parse_text body of Inr r \<Rightarrow> apply_native_report r f | Inl _ \<Rightarrow> f)
      | Wtf \<Rightarrow> f\<lparr>f_frames := java_like_frames body\<rparr>)"

definition dropbox_fragment :: "DropboxEntry \<Rightarrow> ArtifactError + CrashFragment option" where
  "dropbox_fragment entry =
     (case kind_of_dropbox (de_kind entry) of
        None \<Rightarrow> Inr None
      | Some knd \<Rightarrow>
          (case opt_or (de_process_name entry) (de_package_name entry) of
             None \<Rightarrow> Inr None
           | Some process \<Rightarrow>
               (let f = (fragment_new DROPBOX Structured knd process (unwrap_or (de_pid entry) 0)
                           (df_happened_at_ms (de_file entry)))
                     \<lparr>f_package_name := de_package_name entry, f_user_id := map_option android_user_id (de_uid entry),
                      f_is_foreground := de_foreground entry, f_dropped_count := de_dropped_count entry,
                      f_payload := PInline (as_bytes (de_body entry)), f_summary_text := first_non_empty_line (de_body entry)\<rparr>
                in Inr (Some (dropbox_body knd (de_body entry) f)))))"

section \<open>Tombstones and ANR dumps\<close>

definition parse_tombstone_bytes :: "ArtifactFs \<Rightarrow> string \<Rightarrow> string \<Rightarrow> TombstoneError + TombstoneReport" where
  "parse_tombstone_bytes fs path bytes =
     (if path_extension path = Some ''pb'' then parse_proto (af_proto fs) bytes else parse_text bytes)"

text \<open>The report and the half of the pair it came from.\<close>

definition read_tombstone_report :: "ArtifactFs \<Rightarrow> DiscoveredSource \<Rightarrow> string \<Rightarrow> (TombstoneReport \<times> string) option" where
  "read_tombstone_report fs s bytes =
     (case parse_tombstone_bytes fs (ds_preferred_path s) bytes of
        Inr r \<Rightarrow> Some (r, ds_preferred_path s)
      | Inl _ \<Rightarrow>
          if ds_path s \<noteq> ds_preferred_path s
          then (case artifact_read_limited fs (ds_path s) of
                  Inl _ \<Rightarrow> None
                | Inr alternate \<Rightarrow>
                    if is_blank alternate then None
                    else (case parse_tombstone_bytes fs (ds_path s) alternate of
                            Inr r \<Rightarrow> Some (r, ds_path s)
                          | Inl _ \<Rightarrow> None))
          else None)"

definition tombstone_fragment :: "ArtifactFs \<Rightarrow> DiscoveredSource \<Rightarrow> ArtifactError + CrashFragment option" where
  "tombstone_fragment fs s =
     bind_result (artifact_read_limited fs (ds_preferred_path s)) (\<lambda>bytes.
       if is_blank bytes then Inr None
       else
         (case read_tombstone_report fs s bytes of
            None \<Rightarrow> Inr None
          | Some (r, path) \<Rightarrow>
              (let f = (fragment_new TOMBSTONE
                          (if tr_format r = TombstoneFormat.Protobuf then EvidenceQuality.Protobuf else Artifact)
                          NativeCrash (tr_process_name r) (tr_pid r) (modified_ms s))
                       \<lparr>f_package_name := Some (tombstone_package_name r), f_user_id := map_option android_user_id (tr_uid r)\<rparr>
               in Inr (Some ((apply_native_report r f)
                    \<lparr>f_payload := (if tr_format r = TombstoneFormat.Text then PFile path
                                   else PInline (as_bytes (render_tombstone r)))\<rparr>)))))"

definition anr_fragment :: "ArtifactFs \<Rightarrow> DiscoveredSource \<Rightarrow> ArtifactError + CrashFragment option" where
  "anr_fragment fs s =
     bind_result (artifact_read_limited fs (ds_preferred_path s)) (\<lambda>bytes.
       if is_blank bytes then Inr None
       else
         (case parse_anr bytes of
            Inl _ \<Rightarrow> Inr None
          | Inr r \<Rightarrow>
              Inr (Some ((fragment_new ANR_FILE Artifact Anr (an_process_name r) (an_pid r) (modified_ms s))
                \<lparr>f_package_name := Some (anr_package_name r), f_source_instance := Some (from_utf8_lossy (ds_path s)),
                 f_summary_class := Some ''ANR'', f_frames := top_frames r, f_payload := PFile (ds_preferred_path s)\<rparr>))))"

definition read_for_dropbox :: "ArtifactFs \<Rightarrow> string \<Rightarrow> string option" where
  "read_for_dropbox fs path = (case af_read fs path of Inl _ \<Rightarrow> None | Inr bytes \<Rightarrow> Some bytes)"

definition fragment_from_source :: "ArtifactFs \<Rightarrow> DiscoveredSource \<Rightarrow> ArtifactError + CrashFragment option" where
  "fragment_from_source fs s =
     (case ds_kind s of
        WatchDropbox \<Rightarrow>
          (case parse_dropbox (af_gunzip fs) (read_for_dropbox fs) (ds_preferred_path s) of
             Inl e \<Rightarrow> Inl (DropboxFailed e)
           | Inr entry \<Rightarrow> dropbox_fragment entry)
      | WatchTombstone \<Rightarrow> tombstone_fragment fs s
      | WatchAnr \<Rightarrow> anr_fragment fs s)"

section \<open>Log entries\<close>

definition AM_CRASH_NATIVE_CLASS :: string where "AM_CRASH_NATIVE_CLASS = ''Native crash''"

definition kind_of_am_crash :: "string \<Rightarrow> CrashKind" where
  "kind_of_am_crash cls = (if cls = AM_CRASH_NATIVE_CLASS then NativeCrash else JavaException)"

definition unless_empty :: "string \<Rightarrow> string option" where
  "unless_empty s = (if s \<noteq> [] then Some s else None)"

definition wtf_payload :: "AmWtfEvent \<Rightarrow> string" where
  "wtf_payload e =
     ''WTF report'' @ [CHR 0x0A] @ ''Process: '' @ aw_process_name e @ [CHR 0x0A] @ ''PID: '' @ int_to_dec (aw_pid e) @ [CHR 0x0A] @
     ''Flags: '' @ int_to_dec (aw_flags e) @ [CHR 0x0A] @ ''Tag: '' @ aw_tag e @ [CHR 0x0A] @ ''Message: '' @ aw_message e @ [CHR 0x0A]"

fun fragment_from_activity :: "ActivityEvent \<Rightarrow> int \<Rightarrow> CrashFragment" where
  "fragment_from_activity (ActCrash e) at_ms =
     (let knd = kind_of_am_crash (ac_exception_class e);
          f = (fragment_new EVENTS Structured knd (ac_process_name e)
                 (if knd = NativeCrash then 0 else ac_pid e) at_ms)
              \<lparr>f_package_name := Some (package_from_process (ac_process_name e)), f_user_id := Some (ac_user_id e),
               f_summary_class := Some (ac_exception_class e), f_summary_text := unless_empty (ac_message e)\<rparr>
      in if ac_file e \<noteq> [] then f\<lparr>f_frames := [ac_file e @ '':'' @ int_to_dec (ac_line e)]\<rparr> else f)"
| "fragment_from_activity (ActAnr e) at_ms =
     (fragment_new EVENTS Structured Anr (aa_process_name e) (aa_pid e) at_ms)
       \<lparr>f_package_name := Some (package_from_process (aa_process_name e)), f_user_id := Some (aa_user_id e),
        f_summary_class := Some ''ANR'', f_summary_text := Some (aa_reason e)\<rparr>"
| "fragment_from_activity (ActWtf e) at_ms =
     (fragment_new EVENTS Structured Wtf (aw_process_name e) (aw_pid e) at_ms)
       \<lparr>f_package_name := Some (package_from_process (aw_process_name e)), f_user_id := Some (aw_user_id e),
        f_payload := PInline (as_bytes (wtf_payload e)), f_summary_class := unless_empty (aw_tag e),
        f_summary_text := unless_empty (aw_message e)\<rparr>"

definition fragment_from_crash :: "CrashBufferReport \<Rightarrow> int \<Rightarrow> CrashFragment" where
  "fragment_from_crash r at_ms =
     apply_java_report r
       (fragment_new CRASH_BUFFER EvidenceQuality.Text JavaException (cb_process_name r) (cb_pid r) at_ms)"

end
