(* ===== verification/Collectors.thy ===== *)
theory Collectors
  imports Fragments
begin

text \<open>
  \<^verbatim>\<open>cch_daemond/collectors.rs\<close>, second half: the loops.  The artefact loop and the two log loops put fragments
  into a channel; the ingest loop takes them out, runs the correlator and hands finished records to the core.

  Each loop body is a function on \<open>Collectors\<close>; the threads touch the core only through its locked methods,
  so a run of the collectors is a sequence of these bodies.  A body that calls the core several times gets an
  environment for each call, because every call may fail or read the clock for itself.
\<close>

section \<open>State\<close>

record Collectors =
  col_core :: DaemonCore
  col_queue :: "CrashFragment list"
  col_receiver :: bool
  col_merger :: CrashMerger
  col_confirmations :: "(CollectorSource option \<times> string) list"

definition on_core :: "(DaemonCore \<Rightarrow> DaemonCore) \<Rightarrow> Collectors \<Rightarrow> Collectors" where
  "on_core f s = s\<lparr>col_core := f (col_core s)\<rparr>"

text \<open>\<^verbatim>\<open>Display\<close> of a wire error.\<close>

fun code_debug :: "ErrorCode \<Rightarrow> string" where
  "code_debug InvalidRequest = ''InvalidRequest''"
| "code_debug MalformedFrame = ''MalformedFrame''"
| "code_debug Unauthorized = ''Unauthorized''"
| "code_debug NotFound = ''NotFound''"
| "code_debug PayloadTooLarge = ''PayloadTooLarge''"
| "code_debug Unavailable = ''Unavailable''"
| "code_debug VersionMismatch = ''VersionMismatch''"
| "code_debug CursorInvalidated = ''CursorInvalidated''"
| "code_debug Internal = ''Internal''"

definition wire_text :: "WireError \<Rightarrow> string" where
  "wire_text e = code_debug (code e) @ '': '' @ message e"

text \<open>\<^verbatim>\<open>core.was_source_ingested\<close>: a query, which may fail like every other.\<close>

definition source_seen :: "Env \<Rightarrow> string \<Rightarrow> DaemonCore \<Rightarrow> WireError + bool" where
  "source_seen e k c =
     (if w_tx_fails (env_world e) (''seen:'' @ k) then Inl (to_wire (env_describe e) Sqlite)
      else Inr (was_source_ingested c k))"

definition blame :: "CollectorSource option \<Rightarrow> WireError \<Rightarrow> DaemonCore \<Rightarrow> DaemonCore" where
  "blame src err c = (case src of None \<Rightarrow> c | Some s \<Rightarrow> mark_collector_error s (wire_text err) c)"

section \<open>The ingest loop\<close>

fun mark_source_keys ::
  "(nat \<Rightarrow> Env) \<Rightarrow> nat \<Rightarrow> (CollectorSource option \<times> string) list \<Rightarrow> DaemonCore \<Rightarrow>
   (CollectorSource option \<times> string) list \<times> DaemonCore" where
  "mark_source_keys envs i [] c = ([], c)"
| "mark_source_keys envs i ((src, k) # ks) c =
     (case mark_source_ingested (envs i) k c of
        (Inr _, c1) \<Rightarrow> mark_source_keys envs (Suc i) ks c1
      | (Inl err, c1) \<Rightarrow>
          (case mark_source_keys envs (Suc i) ks (blame src err c1) of (failed, c2) \<Rightarrow> ((src, k) # failed, c2)))"

definition persist_one :: "Env \<Rightarrow> CollectorSource option \<Rightarrow> MergedCrash \<Rightarrow> Collectors \<Rightarrow> Collectors" where
  "persist_one e src m s =
     (case ingest_with_sources e (merged_record m) (merged_source_keys m) (col_core s) of
        (Inr _, c) \<Rightarrow> s\<lparr>col_core := c, col_merger := confirm_persisted (col_merger s) (completion_id m)\<rparr>
      | (Inl err, c) \<Rightarrow>
          s\<lparr>col_core := blame src err c, col_merger := reject_completion (col_merger s) (completion_id m)\<rparr>)"

fun persist_each :: "(nat \<Rightarrow> Env) \<Rightarrow> nat \<Rightarrow> CollectorSource option \<Rightarrow> MergedCrash list \<Rightarrow> Collectors \<Rightarrow> Collectors" where
  "persist_each envs i src [] s = s"
| "persist_each envs i src (m # ms) s = persist_each envs (Suc i) src ms (persist_one (envs i) src m s)"

definition persist_completed ::
  "(nat \<Rightarrow> Env) \<Rightarrow> CollectorSource option \<Rightarrow> MergedCrash list \<Rightarrow> Collectors \<Rightarrow> Collectors" where
  "persist_completed envs src completed s =
     (let s1 = persist_each envs 0 src completed s;
          (taken, mg) = take_confirmed_suppressed_source_keys (col_merger s1);
          todo = col_confirmations s1 @ map (\<lambda>k. (src, k)) taken;
          (failed, c) = mark_source_keys envs (length completed) todo (col_core s1)
      in s1\<lparr>col_core := c, col_merger := mg, col_confirmations := failed\<rparr>)"

text \<open>What ends a wait of the loop: a fragment, the poll interval, or the end of the channel or a stop.\<close>

definition on_fragment :: "(nat \<Rightarrow> Env) \<Rightarrow> CrashFragment \<Rightarrow> Collectors \<Rightarrow> Collectors" where
  "on_fragment envs f s =
     (let src = collector_from_mask (f_source f);
          s1 = on_core (mark_collector_received src (f_happened_at_ms f)) s;
          (completed, mg) = ingest (col_merger s1) f
      in persist_completed envs (Some src) completed (s1\<lparr>col_merger := mg\<rparr>))"

definition on_timeout :: "(nat \<Rightarrow> Env) \<Rightarrow> int \<Rightarrow> Collectors \<Rightarrow> Collectors" where
  "on_timeout envs now s =
     (let (completed, mg) = flush_before (col_merger s) now
      in persist_completed envs None completed (s\<lparr>col_merger := mg\<rparr>))"

definition on_stop :: "(nat \<Rightarrow> Env) \<Rightarrow> Collectors \<Rightarrow> Collectors" where
  "on_stop envs s =
     (let (completed, mg) = drain (col_merger s)
      in (persist_completed envs None completed (s\<lparr>col_merger := mg\<rparr>))\<lparr>col_receiver := False\<rparr>)"

text \<open>One wait: the oldest fragment in the channel, or the timeout when there is none.\<close>

definition ingest_round :: "(nat \<Rightarrow> Env) \<Rightarrow> int \<Rightarrow> Collectors \<Rightarrow> Collectors" where
  "ingest_round envs now s =
     (case col_queue s of
        [] \<Rightarrow> on_timeout envs now s
      | f # q \<Rightarrow> on_fragment envs f (s\<lparr>col_queue := q\<rparr>))"

text \<open>\<^verbatim>\<open>sender.send\<close> fails only when the ingest loop has ended.\<close>

definition send_fragment :: "CrashFragment \<Rightarrow> Collectors \<Rightarrow> bool \<times> Collectors" where
  "send_fragment f s = (if col_receiver s then (True, s\<lparr>col_queue := col_queue s @ [f]\<rparr>) else (False, s))"

section \<open>The artefact loop\<close>

definition ingest_source ::
  "Env \<Rightarrow> ArtifactFs \<Rightarrow> (ArtifactError \<Rightarrow> string) \<Rightarrow> DiscoveredSource \<Rightarrow> Collectors \<Rightarrow> Collectors" where
  "ingest_source e fs describe src s =
     (let health = collector_from_watch (ds_kind src); key = si_key (ds_identity src)
      in if source_seen e key (col_core s) = Inr True then s
         else
           (case fragment_from_source fs src of
              Inr (Some f) \<Rightarrow>
                (case send_fragment (f\<lparr>f_source_key := Some key\<rparr>) (on_core (clear_collector_error health) s) of
                   (True, s1) \<Rightarrow> s1
                 | (False, s1) \<Rightarrow> on_core (mark_collector_error health ''ingest queue disconnected'') s1)
            | Inr None \<Rightarrow>
                (let s1 = on_core (clear_collector_error health) s
                 in s1\<lparr>col_core := snd (mark_source_ingested e key (col_core s1))\<rparr>)
            | Inl err \<Rightarrow> on_core (mark_collector_error health (describe err)) s))"

fun ingest_sources ::
  "(nat \<Rightarrow> Env) \<Rightarrow> ArtifactFs \<Rightarrow> (ArtifactError \<Rightarrow> string) \<Rightarrow> DiscoveredSource list \<Rightarrow> Collectors \<Rightarrow> Collectors" where
  "ingest_sources envs fs describe [] s = s"
| "ingest_sources envs fs describe (x # xs) s =
     ingest_sources (envs \<circ> Suc) fs describe xs (ingest_source (envs 0) fs describe x s)"

definition core_registry :: "Env \<Rightarrow> DaemonCore \<Rightarrow> string \<Rightarrow> string + bool" where
  "core_registry e c key = (case source_seen e key c of Inl err \<Rightarrow> Inl (wire_text err) | Inr b \<Rightarrow> Inr b)"

text \<open>The beginning of the loop: the scan, whose failure is only logged, and then the registration of the watches.
  The watcher is the result when the loop goes on.\<close>

definition artifact_startup ::
  "(nat \<Rightarrow> Env) \<Rightarrow> ArtifactFs \<Rightarrow> (ArtifactError \<Rightarrow> string) \<Rightarrow> (WatcherError \<Rightarrow> string) \<Rightarrow>
   IoKind option \<Rightarrow> (string \<Rightarrow> 32 word \<Rightarrow> IoKind + int) \<Rightarrow> Collectors \<Rightarrow> InotifyWatcher option \<times> Collectors" where
  "artifact_startup envs fs describe describe_watcher init add_watch s =
     (let s1 = (case startup_scan (FsView.truncate fs) (core_registry (envs 0) (col_core s)) android_watch_roots of
                  Inr found \<Rightarrow> ingest_sources (envs \<circ> Suc) fs describe found s
                | Inl _ \<Rightarrow> s)
      in case watcher_new init add_watch android_watch_roots of
           Inr w \<Rightarrow> (Some w, s1)
         | Inl err \<Rightarrow>
             (None, on_core (\<lambda>c. fold (\<lambda>src. mark_collector_error src (describe_watcher err)) [Dropbox, Tombstone, AnrFile] c) s1))"

definition artifact_poll ::
  "(nat \<Rightarrow> Env) \<Rightarrow> ArtifactFs \<Rightarrow> (ArtifactError \<Rightarrow> string) \<Rightarrow> IoKind + u8 list \<Rightarrow> InotifyWatcher \<Rightarrow> Collectors \<Rightarrow> Collectors" where
  "artifact_poll envs fs describe read w s =
     (case poll (FsView.truncate fs) read w of
        Inr found \<Rightarrow> ingest_sources envs fs describe found s
      | Inl _ \<Rightarrow> s)"

section \<open>The log loops\<close>

definition LOG_HISTORY_GRACE_MS :: int where "LOG_HISTORY_GRACE_MS = 10000"
definition EVENTS_LOG_MIGRATION_KEY :: string where "EVENTS_LOG_MIGRATION_KEY = ''marker:events:durable-source-keys:v1''"
definition EVENTS_LOG_MIGRATION_KEY_LEGACY :: string where
  "EVENTS_LOG_MIGRATION_KEY_LEGACY = ''logd:events:durable-source-keys:v1''"
definition CRASH_LOG_MIGRATION_KEY :: string where "CRASH_LOG_MIGRATION_KEY = ''marker:crash:durable-source-keys:v1''"
definition CRASH_LOG_MIGRATION_KEY_LEGACY :: string where
  "CRASH_LOG_MIGRATION_KEY_LEGACY = ''logd:crash:durable-source-keys:v1''"

record LogReplayMigration =
  lm_cutoff_ms :: int
  lm_marker :: string
  lm_active :: bool

text \<open>What one log loop keeps, beside the collectors.\<close>

record LogLoop =
  ll_replay :: LogReplayMigration
  ll_seen :: "string set"

definition log_source_key :: "string \<Rightarrow> LoggerEntry \<Rightarrow> string \<Rightarrow> string" where
  "log_source_key buffer entry discriminator =
     ''logd:'' @ buffer @ '':'' @ nat_to_dec (le_seconds entry) @ '':'' @ nat_to_dec (le_nanoseconds entry) @ '':'' @
     int_to_dec (le_pid entry) @ '':'' @ nat_to_dec (le_tid entry) @ '':'' @ discriminator"

definition confirm_processed_log_source :: "Env \<Rightarrow> CollectorSource \<Rightarrow> string \<Rightarrow> DaemonCore \<Rightarrow> DaemonCore" where
  "confirm_processed_log_source e src key c =
     (case mark_source_ingested e key c of (Inr _, c1) \<Rightarrow> c1 | (Inl err, c1) \<Rightarrow> mark_collector_error src (wire_text err) c1)"

definition replay_new ::
  "Env \<Rightarrow> CollectorSource \<Rightarrow> string \<Rightarrow> string \<Rightarrow> DaemonCore \<Rightarrow> LogReplayMigration \<times> DaemonCore" where
  "replay_new e src marker legacy c =
     (let done = (\<lambda>key. source_seen e key c = Inr True);
          (migrated, c1) =
            (if done marker then (True, c)
             else if done legacy then (True, confirm_processed_log_source e src marker c)
             else (False, c))
      in (\<lparr>lm_cutoff_ms = i64_saturating_sub (env_clock e 0) LOG_HISTORY_GRACE_MS, lm_marker = marker,
           lm_active = (\<not> migrated)\<rparr>, c1))"

definition is_historical ::
  "Env \<Rightarrow> CollectorSource \<Rightarrow> int \<Rightarrow> LogReplayMigration \<Rightarrow> DaemonCore \<Rightarrow> bool \<times> LogReplayMigration \<times> DaemonCore" where
  "is_historical e src at_ms r c =
     (if \<not> lm_active r then (False, r, c)
      else if at_ms < lm_cutoff_ms r then (True, r, c)
      else (False, r\<lparr>lm_active := False\<rparr>, confirm_processed_log_source e src (lm_marker r) c))"

definition log_source_seen ::
  "Env \<Rightarrow> CollectorSource \<Rightarrow> string \<Rightarrow> string set \<Rightarrow> DaemonCore \<Rightarrow> bool \<times> string set \<times> DaemonCore" where
  "log_source_seen e src key seen c =
     (if key \<in> seen then (True, seen, c)
      else
        (case source_seen e key c of
           Inr b \<Rightarrow> (b, insert key seen, c)
         | Inl err \<Rightarrow> (False, insert key seen, mark_collector_error src (wire_text err) c)))"

definition entry_ms :: "LoggerEntry \<Rightarrow> int" where
  "entry_ms entry = int (le_seconds entry) * 1000 + int (le_nanoseconds entry div 1000000)"

text \<open>What both loops do with a recognised entry: pass over a key seen before, confirm a historical one without
  recording it, and otherwise do what the entry asks for.  False ends the loop.\<close>

definition when_new ::
  "Env \<Rightarrow> CollectorSource \<Rightarrow> string \<Rightarrow> bool \<Rightarrow> (Collectors \<Rightarrow> bool \<times> Collectors) \<Rightarrow> LogLoop \<times> Collectors \<Rightarrow>
   bool \<times> LogLoop \<times> Collectors" where
  "when_new e src key historical act ls =
     (case ls of (l, s) \<Rightarrow>
        (case log_source_seen e src key (ll_seen l) (col_core s) of (known, seen, c) \<Rightarrow>
           (let l1 = l\<lparr>ll_seen := seen\<rparr>; s1 = s\<lparr>col_core := c\<rparr>
            in if known then (True, l1, s1)
               else if historical then (True, l1, on_core (confirm_processed_log_source e src key) s1)
               else (case act s1 of (go, s2) \<Rightarrow> (go, l1, s2)))))"

text \<open>A screen event releases the mutes that last until the unlock; its key is confirmed unless that failed.\<close>

definition on_screen_event :: "Env \<Rightarrow> string \<Rightarrow> Collectors \<Rightarrow> bool \<times> Collectors" where
  "on_screen_event e key s =
     (True, on_core (\<lambda>c. case clear_unlock_mutes e c of
                           (Inr _, c1) \<Rightarrow> confirm_processed_log_source e Events key c1
                         | (Inl _, c1) \<Rightarrow> c1) s)"

definition send_log_fragment :: "string \<Rightarrow> CrashFragment \<Rightarrow> Collectors \<Rightarrow> bool \<times> Collectors" where
  "send_log_fragment key f s = send_fragment (f\<lparr>f_source_key := Some key\<rparr>) s"

definition events_entry :: "Env \<Rightarrow> LoggerEntry \<Rightarrow> LogLoop \<times> Collectors \<Rightarrow> bool \<times> LogLoop \<times> Collectors" where
  "events_entry e entry ls =
     (case ls of (l, s) \<Rightarrow>
        (case is_historical e Events (entry_ms entry) (ll_replay l) (col_core s) of (historical, r, c) \<Rightarrow>
           (let l1 = l\<lparr>ll_replay := r\<rparr>; s1 = s\<lparr>col_core := c\<rparr>
            in case parse_event_payload (le_payload entry) of
                 Inl _ \<Rightarrow> (True, l1, s1)
               | Inr record \<Rightarrow>
                   (let key = log_source_key ''events'' entry (int_to_dec (ev_tag record))
                    in case parse_screen_event record of
                         Some _ \<Rightarrow> when_new e Events key historical (on_screen_event e key) (l1, s1)
                       | None \<Rightarrow>
                           (case parse_activity_event record of
                              Inl _ \<Rightarrow> (True, l1, s1)
                            | Inr ev \<Rightarrow>
                                when_new e Events key historical
                                  (send_log_fragment key (fragment_from_activity ev (entry_ms entry))) (l1, s1))))))"

definition crash_entry :: "Env \<Rightarrow> LoggerEntry \<Rightarrow> LogLoop \<times> Collectors \<Rightarrow> bool \<times> LogLoop \<times> Collectors" where
  "crash_entry e entry ls =
     (case ls of (l, s) \<Rightarrow>
        (case is_historical e CrashBuffer (entry_ms entry) (ll_replay l) (col_core s) of (historical, r, c) \<Rightarrow>
           (let l1 = l\<lparr>ll_replay := r\<rparr>; s1 = s\<lparr>col_core := c\<rparr>
            in case text_entry_parse (le_payload entry) of
                 Inl _ \<Rightarrow> (True, l1, s1)
               | Inr text \<Rightarrow>
                   if te_tag text \<noteq> ''AndroidRuntime'' \<or> \<not> contains_str ''FATAL EXCEPTION:'' (te_message text)
                   then (True, l1, s1)
                   else
                     (case parse_crash_buffer (te_message text) of
                        Inl _ \<Rightarrow> (True, l1, s1)
                      | Inr report \<Rightarrow>
                          (let key = log_source_key ''crash'' entry ''fatal''
                           in when_new e CrashBuffer key historical
                                (send_log_fragment key (fragment_from_crash report (entry_ms entry))) (l1, s1))))))"

text \<open>\<^verbatim>\<open>run_log_reader\<close>, over what the reader returns: the outcomes of opening it, and for a reader that opened
  the entries and errors it yields until one asks to reconnect.  An entry comes with the environment it is
  handled in.  The end of a list is the stop flag.\<close>

datatype LogRead = ReadEntry Env LoggerEntry | ReadFails string bool

datatype LogOpen = OpenFails string | Opens "LogRead list"

fun read_entries ::
  "(Env \<Rightarrow> LoggerEntry \<Rightarrow> LogLoop \<times> Collectors \<Rightarrow> bool \<times> LogLoop \<times> Collectors) \<Rightarrow> CollectorSource \<Rightarrow> LogRead list \<Rightarrow>
   LogLoop \<times> Collectors \<Rightarrow> bool \<times> LogLoop \<times> Collectors" where
  "read_entries handle src [] (l, s) = (True, l, s)"
| "read_entries handle src (ReadEntry e entry # rs) (l, s) =
     (case handle e entry (l, on_core (clear_collector_error src) s) of
        (True, ls) \<Rightarrow> read_entries handle src rs ls
      | (False, ls) \<Rightarrow> (False, ls))"
| "read_entries handle src (ReadFails err reconnect # rs) (l, s) =
     (let s1 = on_core (mark_collector_error src err) s
      in if reconnect then (True, l, s1) else read_entries handle src rs (l, s1))"

fun run_log_reader ::
  "(Env \<Rightarrow> LoggerEntry \<Rightarrow> LogLoop \<times> Collectors \<Rightarrow> bool \<times> LogLoop \<times> Collectors) \<Rightarrow> CollectorSource \<Rightarrow> LogOpen list \<Rightarrow>
   LogLoop \<times> Collectors \<Rightarrow> LogLoop \<times> Collectors" where
  "run_log_reader handle src [] ls = ls"
| "run_log_reader handle src (OpenFails err # os) (l, s) =
     run_log_reader handle src os (l, on_core (mark_collector_error src err) s)"
| "run_log_reader handle src (Opens rs # os) (l, s) =
     (case read_entries handle src rs (l, on_core (clear_collector_error src) s) of
        (True, ls) \<Rightarrow> run_log_reader handle src os ls
      | (False, ls) \<Rightarrow> ls)"

end
