(* ===== verification/Fragment_Props.thy ===== *)
theory Fragment_Props
  imports Fragments
begin

text \<open>
  The fragments built from files and log entries: which collector and which kind of crash they belong to, when the
  event and the tombstone of one native crash are joined, and two places where a crash is filed wrongly or
  lost.
\<close>

section \<open>What a fragment says of its source\<close>

fun watch_mask_of :: "WatchKind \<Rightarrow> SourceMask" where
  "watch_mask_of WatchDropbox = DROPBOX"
| "watch_mask_of WatchTombstone = TOMBSTONE"
| "watch_mask_of WatchAnr = ANR_FILE"

lemma apply_report_keeps [simp]:
  "f_source (apply_java_report r f) = f_source f" "f_kind (apply_java_report r f) = f_kind f"
  "f_happened_at_ms (apply_java_report r f) = f_happened_at_ms f" "f_source_key (apply_java_report r f) = f_source_key f"
  "f_source (apply_native_report t f) = f_source f" "f_kind (apply_native_report t f) = f_kind f"
  "f_happened_at_ms (apply_native_report t f) = f_happened_at_ms f" "f_source_key (apply_native_report t f) = f_source_key f"
  by (simp_all add: apply_java_report_def apply_native_report_def)

lemma dropbox_body_keeps [simp]:
  "f_source (dropbox_body k body f) = f_source f" "f_kind (dropbox_body k body f) = f_kind f"
  "f_happened_at_ms (dropbox_body k body f) = f_happened_at_ms f" "f_source_key (dropbox_body k body f) = f_source_key f"
  by (cases k; simp add: dropbox_body_def Let_def split: sum.split)+

lemma new_fragment_fields [simp]:
  "f_source (fragment_new src q k p i t) = src" "f_kind (fragment_new src q k p i t) = k"
  "f_happened_at_ms (fragment_new src q k p i t) = t" "f_source_key (fragment_new src q k p i t) = None"
  "f_user_id (fragment_new src q k p i t) = None" "f_pid (fragment_new src q k p i t) = i"
  "f_process_name (fragment_new src q k p i t) = p" "f_source_instance (fragment_new src q k p i t) = None"
  by (simp_all add: fragment_new_def)

lemma fragment_belongs_to_its_collector':
  assumes "fragment_from_source fs s = Inr (Some f)"
  shows "collector_from_mask (f_source f) = collector_from_watch (ds_kind s) \<and> f_source f = watch_mask_of (ds_kind s) \<and>
    (ds_kind s = WatchTombstone \<longrightarrow> f_kind f = NativeCrash) \<and> (ds_kind s = WatchAnr \<longrightarrow> f_kind f = Anr) \<and>
    f_source_key f = None"
proof -
  have src: "f_source f = watch_mask_of (ds_kind s) \<and> (ds_kind s = WatchTombstone \<longrightarrow> f_kind f = NativeCrash) \<and>
    (ds_kind s = WatchAnr \<longrightarrow> f_kind f = Anr) \<and> f_source_key f = None"
  proof (cases "ds_kind s")
    case WatchDropbox
    then show ?thesis using assms
      by (auto simp: fragment_from_source_def dropbox_fragment_def Let_def split: sum.splits option.splits)
  next
    case WatchTombstone
    then show ?thesis using assms
      by (auto simp: fragment_from_source_def tombstone_fragment_def Let_def elim!: bind_result_InrE
          split: if_splits option.splits prod.splits)
  next
    case WatchAnr
    then show ?thesis using assms
      by (auto simp: fragment_from_source_def anr_fragment_def elim!: bind_result_InrE split: if_splits sum.splits)
  qed
  moreover have m: "collector_from_mask DROPBOX = Dropbox" "collector_from_mask TOMBSTONE = Tombstone" "collector_from_mask ANR_FILE = AnrFile"
    by code_simp+
  have "collector_from_mask (watch_mask_of k) = collector_from_watch k" for k
    by (cases k) (simp_all add: m)
  ultimately show ?thesis by simp
qed

text \<open>C14: a fragment built from a file belongs to the collector of the directory the file came from: its arrival is
  counted for the same source whose errors the file would be, a tombstone is always a native crash and an ANR file an
  ANR, and it carries no source key of its own.\<close>
theorem fragment_belongs_to_its_collector:
  assumes "fragment_from_source fs s = Inr (Some f)"
  shows "collector_from_mask (f_source f) = collector_from_watch (ds_kind s) \<and> f_source f = watch_mask_of (ds_kind s) \<and>
    (ds_kind s = WatchTombstone \<longrightarrow> f_kind f = NativeCrash) \<and> (ds_kind s = WatchAnr \<longrightarrow> f_kind f = Anr) \<and>
    f_source_key f = None"
  by (rule fragment_belongs_to_its_collector' [OF assms])

section \<open>Native crashes\<close>

text \<open>C15: the activity event of a native crash joins the tombstone of that crash exactly when the tombstone names the
  same process and the same user and the two are close in time: the process id in the event, which may be the
  framework's, plays no part.\<close>
theorem native_event_joins_its_tombstone:
  assumes "ac_exception_class ev = AM_CRASH_NATIVE_CLASS" and "fragment_from_source fs s = Inr (Some f)"
    and "ds_kind s = WatchTombstone"
  shows "pending_matches (pending_new (fragment_from_activity (ActCrash ev) t)) f skew window \<longleftrightarrow>
    f_user_id f = Some (ac_user_id ev) \<and> f_process_name f = ac_process_name ev \<and>
    abs_diff t (f_happened_at_ms f) \<le> skew_limit skew"
proof -
  have f: "f_source f = TOMBSTONE" "f_kind f = NativeCrash"
    using fragment_belongs_to_its_collector' [OF assms(2)] assms(3) by simp_all
  have "\<not> mask_contains EVENTS TOMBSTONE" "TOMBSTONE \<noteq> ANR_FILE" by code_simp+
  then show ?thesis
    using f assms(1)
    by (auto simp: pending_matches_def pending_new_def kind_of_am_crash_def Let_def occurrence_identity_matches_def ranked_def
        split: option.splits)
qed

text \<open>A pair of tombstone files of one native crash.\<close>

definition pair_text :: string where
  "pair_text = ''pid: 12, tid: 12, name: main  >>> com.a <<<'' @ [NEWLINE] @ ''uid: 10001''"

definition pair_fs :: "string \<Rightarrow> ArtifactFs" where
  "pair_fs pb =
     \<lparr>fs_read_dir = (\<lambda>_. Inr [Inr ''tombstone_00'', Inr ''tombstone_00.pb'']),
      fs_metadata = (\<lambda>_. Inr \<lparr>md_is_file = True, md_modified_ns = Inr 5000000, md_len = 60\<rparr>), fs_is_file = (\<lambda>_. True),
      af_read = (\<lambda>p. Inr (if p = ''/data/tombstones/tombstone_00.pb'' then pb else pair_text)), af_gunzip = (\<lambda>_. None),
      af_proto = (\<lambda>_. Inl ''bad'')\<rparr>"

definition pair_source :: DiscoveredSource where
  "pair_source =
     \<lparr>ds_kind = WatchTombstone, ds_path = ''/data/tombstones/tombstone_00'', ds_preferred_path = ''/data/tombstones/tombstone_00.pb'',
      ds_identity = \<lparr>si_key = ''tombstone:tombstone_00:5000000:60'', si_size = 60, si_modified_ns = 5000000\<rparr>\<rparr>"

lemma pair_text_parts:
  "lines (replace_crlf (from_utf8_lossy pair_text)) = [''pid: 12, tid: 12, name: main  >>> com.a <<<'', ''uid: 10001'']"
  "parse_process_header ''pid: 12, tid: 12, name: main  >>> com.a <<<'' = Inr (12, 12, Some ''main  >>> com.a <<<'', ''com.a'')"
  "find (\<lambda>l. prefix ''pid:'' (trim_start l)) [''pid: 12, tid: 12, name: main  >>> com.a <<<'', ''uid: 10001''] =
     Some ''pid: 12, tid: 12, name: main  >>> com.a <<<''"
  "find (\<lambda>l. prefix ''signal '' (trim_start l)) [''pid: 12, tid: 12, name: main  >>> com.a <<<'', ''uid: 10001''] = None"
  "List.map_filter (\<lambda>l. Option.bind (strip_prefix ''uid:'' (trim l)) (\<lambda>v. parse_signed is_i32 (trim v)))
     [''pid: 12, tid: 12, name: main  >>> com.a <<<'', ''uid: 10001''] = [10001]"
  by code_simp+

lemma pair_text_parses:
  "\<exists>r. parse_text pair_text = Inr r \<and> tr_format r = TombstoneFormat.Text \<and> tr_process_name r = ''com.a'' \<and>
     tr_uid r = Some 10001"
proof -
  have "\<not> length pair_text > MAX_TOMBSTONE_BYTES" by (simp add: pair_text_def MAX_TOMBSTONE_BYTES_def)
  then show ?thesis by (simp only: parse_text_def pair_text_parts Let_def if_False option.case bind_result_def sum.case prod.case) simp
qed


lemma pair_reads:
  assumes "length pb \<le> MAX_ARTIFACT_BYTES"
  shows "artifact_read_limited (pair_fs pb) (ds_preferred_path pair_source) = Inr pb"
    "artifact_read_limited (pair_fs pb) (ds_path pair_source) = Inr pair_text"
  by (simp_all add: artifact_read_limited_def pair_fs_def pair_source_def MAX_ARTIFACT_BYTES_def)

lemma pair_extensions: "path_extension (ds_preferred_path pair_source) = Some ''pb''" "path_extension (ds_path pair_source) = None"
proof -
  have "path_extension ''/data/tombstones/tombstone_00.pb'' = Some ''pb''" "path_extension ''/data/tombstones/tombstone_00'' = None"
    by code_simp+
  then show "path_extension (ds_preferred_path pair_source) = Some ''pb''" "path_extension (ds_path pair_source) = None"
    by (simp_all add: pair_source_def)
qed


lemma pair_fragment:
  obtains f where "fragment_from_source (pair_fs ''x'') pair_source = Inr (Some f)" and "f_process_name f = ''com.a''"
    and "f_user_id f = Some 0" and "f_happened_at_ms f = 5"
proof -
  obtain r where r: "parse_text pair_text = Inr r" "tr_format r = TombstoneFormat.Text" "tr_process_name r = ''com.a''"
    "tr_uid r = Some 10001" using pair_text_parses by blast
  have p: "parse_tombstone_bytes (pair_fs ''x'') (ds_preferred_path pair_source) ''x'' = Inl (InvalidProtobuf ''bad'')"
    "parse_tombstone_bytes (pair_fs ''x'') (ds_path pair_source) pair_text = Inr r"
    by (simp_all add: parse_tombstone_bytes_def pair_extensions r parse_proto_def pair_fs_def MAX_TOMBSTONE_BYTES_def)
  have b: "\<not> is_blank pair_text" "\<not> is_blank ''x''" "ds_path pair_source \<noteq> ds_preferred_path pair_source"
    by (simp_all add: is_blank_def pair_text_def pair_source_def)
  have "length ''x'' \<le> MAX_ARTIFACT_BYTES" by (simp add: MAX_ARTIFACT_BYTES_def)
  note reads = pair_reads [OF this]
  have "\<exists>f. tombstone_fragment (pair_fs ''x'') pair_source = Inr (Some f) \<and> f_process_name f = ''com.a'' \<and>
      f_user_id f = Some 0 \<and> f_happened_at_ms f = 5"
    by (simp add: tombstone_fragment_def reads bind_result_def b read_tombstone_report_def p r apply_native_report_def
        android_user_id_def modified_ms_def Let_def)
      (simp add: pair_source_def int_range_defs)
  then show ?thesis using that by (auto simp: fragment_from_source_def pair_source_def)
qed

theorem fragment_belongs_to_its_collector_witness:
  "\<exists>f. fragment_from_source (pair_fs ''x'') pair_source = Inr (Some f) \<and> collector_from_mask (f_source f) = Tombstone"
proof -
  obtain f where f: "fragment_from_source (pair_fs ''x'') pair_source = Inr (Some f)" by (rule pair_fragment)
  have "collector_from_mask (f_source f) = collector_from_watch (ds_kind pair_source)"
    using fragment_belongs_to_its_collector [OF f] by (rule conjunct1)
  then show ?thesis using f by (intro exI [of _ f]) (simp add: pair_source_def)
qed

definition native_event :: AmCrashEvent where
  "native_event =
     \<lparr>ac_user_id = 0, ac_pid = 900, ac_process_name = ''com.a'', ac_flags = 0, ac_exception_class = ''Native crash'',
      ac_message = ''Aborted'', ac_file = [], ac_line = 0, ac_recoverable = False\<rparr>"

theorem native_event_joins_its_tombstone_witness:
  "\<exists>f. fragment_from_source (pair_fs ''x'') pair_source = Inr (Some f) \<and>
     pending_matches (pending_new (fragment_from_activity (ActCrash native_event) 9)) f 2000 10000"
proof -
  obtain f where f: "fragment_from_source (pair_fs ''x'') pair_source = Inr (Some f)" "f_process_name f = ''com.a''"
    "f_user_id f = Some 0" "f_happened_at_ms f = 5" by (rule pair_fragment)
  have "pending_matches (pending_new (fragment_from_activity (ActCrash native_event) 9)) f 2000 10000 \<longleftrightarrow>
      f_user_id f = Some (ac_user_id native_event) \<and> f_process_name f = ac_process_name native_event \<and>
      abs_diff 9 (f_happened_at_ms f) \<le> skew_limit 2000"
    by (rule native_event_joins_its_tombstone [OF _ f(1)]) (simp_all add: native_event_def AM_CRASH_NATIVE_CLASS_def pair_source_def)
  then show ?thesis using f by (auto simp: native_event_def abs_diff_def skew_limit_def)
qed

section \<open>StrictMode\<close>

lemma suffix_differs: "suffix a t \<Longrightarrow> suffix b t \<Longrightarrow> \<not> suffix a b \<Longrightarrow> \<not> suffix b a \<Longrightarrow> False"
  by (meson suffix_same_cases)

text \<open>a StrictMode report in the DropBox is recorded as a Java crash of its process: the tag is not among the ones
  passed over.\<close>
theorem strictmode_recorded_as_java_crash:
  assumes "suffix ''_strictmode'' (df_tag file)" and "\<not> prefix ''SYSTEM_TOMBSTONE'' (df_tag file)"
    and "parse_bytes file bytes = Inr entry" and "de_process_name entry = Some p"
  shows "\<exists>f. dropbox_fragment entry = Inr (Some f) \<and> f_kind f = JavaException"
proof -
  have no: "\<not> suffix x (df_tag file)" if "\<not> suffix x ''_strictmode''" "\<not> suffix ''_strictmode'' x" for x
    using suffix_differs [OF _ assms(1)] that by blast
  have "kind_from_tag (df_tag file) = StrictMode"
    using assms(1,2) no [of "''native_recoverable_crash''"] no [of "''native_crash''"] no [of "''_crash''"] no [of "''_anr''"]
      no [of "''_wtf''"]
    by (simp add: kind_from_tag_def suffix_to_prefix)
  then have "de_kind entry = StrictMode" using assms(3) by (auto simp: parse_bytes_def Let_def split: if_splits option.splits prod.splits)
  then show ?thesis using assms(4) by (simp add: dropbox_fragment_def Let_def)
qed

theorem strictmode_recorded_as_java_crash_witness:
  "\<exists>entry f. parse_bytes \<lparr>df_tag = ''data_app_strictmode'', df_happened_at_ms = 7, df_compressed = False\<rparr>
       (''Process: com.a'' @ [NEWLINE, NEWLINE] @ ''disk read'') = Inr entry \<and>
     dropbox_fragment entry = Inr (Some f) \<and> f_kind f = JavaException"
proof -
  let ?file = "\<lparr>df_tag = ''data_app_strictmode'', df_happened_at_ms = 7, df_compressed = False\<rparr>"
  let ?text = "''Process: com.a'' @ [NEWLINE, NEWLINE] @ ''disk read''"
  have v: "valid_utf8 ?text" "replace_crlf ?text = ?text" "split_once_str [NEWLINE, NEWLINE] ?text = Some (''Process: com.a'', ''disk read'')"
    "header (parse_headers ''Process: com.a'') ''Process'' = Some ''com.a''" by code_simp+
  have "\<not> length ?text > MAX_DROPBOX_ENTRY_BYTES" by (simp add: MAX_DROPBOX_ENTRY_BYTES_def)
  then obtain entry where e: "parse_bytes ?file ?text = Inr entry" "de_process_name entry = Some ''com.a''"
    using v by (simp add: parse_bytes_def Let_def del: append.simps append_Cons)
  have "suffix ''_strictmode'' (df_tag ?file)" "\<not> prefix ''SYSTEM_TOMBSTONE'' (df_tag ?file)" by (simp_all add: suffix_to_prefix)
  from strictmode_recorded_as_java_crash [OF this e] e show ?thesis by blast
qed

end
