(* ===== verification/Collector_Props.thy ===== *)
theory Collector_Props
  imports Collectors Daemon_Props Fragment_Props
begin

text \<open>
  The collectors as a pipeline: a source is confirmed only when its crash is settled, a confirmation that fails is
  kept for the next round, a log entry is delivered once whatever the reader does, and the history in the log is
  passed over exactly until the first live entry.
\<close>

section \<open>Known sources\<close>

definition core_keys :: "DaemonCore \<Rightarrow> string set" where
  "core_keys c = fst ` set (ingested_source (store_db (core_store c)))"

lemma was_source_ingested_keys: "was_source_ingested c k \<longleftrightarrow> k \<in> core_keys c"
  by (simp add: was_source_ingested_def was_ingested_def core_keys_def)

lemma core_keys_health [simp]:
  "core_keys (mark_collector_error src d c) = core_keys c" "core_keys (clear_collector_error src c) = core_keys c"
  "core_keys (mark_collector_received src t c) = core_keys c" "core_keys (blame who err c) = core_keys c"
  by (simp_all add: core_keys_def mark_collector_error_def clear_collector_error_def mark_collector_received_def
      update_health_def blame_def split: option.split)

lemma insert_source_keys: "fst ` set (insert_source at k ss) = insert k (fst ` set ss)"
  by (force simp: insert_source_def)

lemma mark_write_keys:
  "db_write e n (mark_ingested k now) c = (r, c1) \<Longrightarrow>
     core_keys c1 = (case r of Inl _ \<Rightarrow> core_keys c | Inr _ \<Rightarrow> insert k (core_keys c))"
  by (cases "w_tx_fails (env_world e) n")
    (clarsimp simp: db_write_def on_store_def wire_def core_keys_def mark_ingested_def insert_source_keys)+

lemma mark_source_ingested_keys:
  "mark_source_ingested e k c = (r, c1) \<Longrightarrow>
     core_keys c1 = (case r of Inl _ \<Rightarrow> core_keys c | Inr _ \<Rightarrow> insert k (core_keys c))"
  unfolding mark_source_ingested_def by (rule mark_write_keys)







section \<open>The ingest loop\<close>



lemma persist_one_confirmations [simp]: "col_confirmations (persist_one e src m s) = col_confirmations s"
  by (simp add: persist_one_def split: prod.split sum.split)

lemma persist_each_confirmations [simp]: "col_confirmations (persist_each envs i src ms s) = col_confirmations s"
  by (induction ms arbitrary: i s) simp_all


lemma mark_source_keys_result:
  "mark_source_keys envs i ks c = (failed, c') \<Longrightarrow>
     core_keys c \<subseteq> core_keys c' \<and> core_keys c' \<subseteq> core_keys c \<union> snd ` set ks \<and>
     (\<forall>x \<in> set ks. x \<in> set failed \<or> snd x \<in> core_keys c') \<and> set failed \<subseteq> set ks"
proof (induction ks arbitrary: i c failed)
  case (Cons sk ks)
  obtain src k where sk: "sk = (src, k)" by (cases sk)
  obtain r c1 where w: "mark_source_ingested (envs i) k c = (r, c1)" by fastforce
  note keys = mark_source_ingested_keys [OF w]
  show ?case
  proof (cases r)
    case (Inl err)
    obtain failed1 where f: "mark_source_keys envs (Suc i) ks (blame src err c1) = (failed1, c')" "failed = (src, k) # failed1"
      using Cons.prems w Inl by (auto simp: sk split: prod.splits)
    show ?thesis using Cons.IH [OF f(1)] keys Inl f(2) by (auto simp: sk)
  next
    case (Inr b)
    then have "mark_source_keys envs (Suc i) ks c1 = (failed, c')" using Cons.prems w by (simp add: sk)
    from Cons.IH [OF this] show ?thesis using keys Inr by (auto simp: sk)
  qed
qed simp

lemma persist_completed_parts:
  obtains failed taken mg where
    "take_confirmed_suppressed_source_keys (col_merger (persist_each envs 0 src completed s)) = (taken, mg)"
    and "mark_source_keys envs (length completed) (col_confirmations s @ map (\<lambda>k. (src, k)) taken)
       (col_core (persist_each envs 0 src completed s)) = (failed, col_core (persist_completed envs src completed s))"
    and "col_confirmations (persist_completed envs src completed s) = failed"
    and "col_merger (persist_completed envs src completed s) = mg"
proof -
  let ?s1 = "persist_each envs 0 src completed s"
  obtain taken mg where t: "take_confirmed_suppressed_source_keys (col_merger ?s1) = (taken, mg)" by fastforce
  obtain failed c where m: "mark_source_keys envs (length completed) (col_confirmations s @ map (\<lambda>k. (src, k)) taken) (col_core ?s1) = (failed, c)"
    by fastforce
  have "persist_completed envs src completed s = ?s1\<lparr>col_core := c, col_merger := mg, col_confirmations := failed\<rparr>"
    by (simp add: persist_completed_def Let_def t m)
  then show ?thesis using that [OF t] m by simp
qed


text \<open>C11: no confirmation is lost: a key that waits for its confirmation, or that the correlator hands out in this round, is
  known as ingested after the round or waits for the next one, whatever fails.\<close>
theorem confirmations_are_retried:
  assumes "x \<in> set (col_confirmations s) \<or>
    x \<in> Pair src ` set (fst (take_confirmed_suppressed_source_keys (col_merger (persist_each envs 0 src completed s))))"
  shows "x \<in> set (col_confirmations (persist_completed envs src completed s)) \<or>
    was_source_ingested (col_core (persist_completed envs src completed s)) (snd x)"
proof -
  obtain failed taken mg where t: "take_confirmed_suppressed_source_keys (col_merger (persist_each envs 0 src completed s)) = (taken, mg)"
    and m: "mark_source_keys envs (length completed) (col_confirmations s @ map (\<lambda>k. (src, k)) taken)
       (col_core (persist_each envs 0 src completed s)) = (failed, col_core (persist_completed envs src completed s))"
    and f: "col_confirmations (persist_completed envs src completed s) = failed"
    by (rule persist_completed_parts)
  show ?thesis using mark_source_keys_result [OF m] assms t by (fastforce simp: f was_source_ingested_keys)
qed

section \<open>The artefact loop\<close>

text \<open>a discovered file has one of four outcomes: it is known and nothing happens; it is a crash and goes into the
  channel once, under its own key and not yet marked; it is readable but no crash, and is at most marked; or it cannot
  be read, and only the health of its collector changes.\<close>
theorem ingest_source_outcome:
  assumes "source_seen e (si_key (ds_identity x)) (col_core s) \<noteq> Inr True" and "col_receiver s"
  shows "case fragment_from_source fs x of
      Inr (Some f) \<Rightarrow>
        col_queue (ingest_source e fs describe x s) = col_queue s @ [f\<lparr>f_source_key := Some (si_key (ds_identity x))\<rparr>] \<and>
        core_keys (col_core (ingest_source e fs describe x s)) = core_keys (col_core s)
    | Inr None \<Rightarrow>
        col_queue (ingest_source e fs describe x s) = col_queue s \<and>
        core_keys (col_core (ingest_source e fs describe x s)) \<in>
          {core_keys (col_core s), insert (si_key (ds_identity x)) (core_keys (col_core s))}
    | Inl _ \<Rightarrow>
        col_queue (ingest_source e fs describe x s) = col_queue s \<and>
        core_keys (col_core (ingest_source e fs describe x s)) = core_keys (col_core s)"
proof (cases "fragment_from_source fs x")
  case (Inl err)
  then show ?thesis using assms by (simp add: ingest_source_def Let_def on_core_def)
next
  case (Inr found)
  show ?thesis
  proof (cases found)
    case None
    obtain r c1 where w: "mark_source_ingested e (si_key (ds_identity x))
        (clear_collector_error (collector_from_watch (ds_kind x)) (col_core s)) = (r, c1)" by fastforce
    show ?thesis
      using Inr None assms w mark_source_ingested_keys [OF w]
      by (cases r) (simp_all add: ingest_source_def Let_def on_core_def)
  next
    case (Some f)
    then show ?thesis using Inr assms by (simp add: ingest_source_def Let_def on_core_def send_fragment_def)
  qed
qed

section \<open>The log loops\<close>

text \<open>What a log loop has put into the channel between two states: fragments under different keys, none of which it had
  seen before, all of which it remembers.\<close>

definition delivered :: "LogLoop \<times> Collectors \<Rightarrow> LogLoop \<times> Collectors \<Rightarrow> bool" where
  "delivered a b \<longleftrightarrow>
     (\<exists>new. col_queue (snd b) = col_queue (snd a) @ new \<and> distinct (map f_source_key new) \<and>
        ll_seen (fst a) \<subseteq> ll_seen (fst b) \<and> f_source_key ` set new \<subseteq> Some ` (ll_seen (fst b) - ll_seen (fst a)))"

lemma delivered_same [intro]: "ll_seen (fst b) = ll_seen (fst a) \<Longrightarrow> col_queue (snd b) = col_queue (snd a) \<Longrightarrow> delivered a b"
  by (simp add: delivered_def)

lemma delivered_trans:
  assumes "delivered a b" and "delivered b c"
  shows "delivered a c"
proof -
  obtain n1 n2 where n: "col_queue (snd b) = col_queue (snd a) @ n1" "distinct (map f_source_key n1)"
      "ll_seen (fst a) \<subseteq> ll_seen (fst b)" "f_source_key ` set n1 \<subseteq> Some ` (ll_seen (fst b) - ll_seen (fst a))"
      "col_queue (snd c) = col_queue (snd b) @ n2" "distinct (map f_source_key n2)"
      "ll_seen (fst b) \<subseteq> ll_seen (fst c)" "f_source_key ` set n2 \<subseteq> Some ` (ll_seen (fst c) - ll_seen (fst b))"
    using assms unfolding delivered_def by auto
  have "f_source_key ` set n1 \<inter> f_source_key ` set n2 \<subseteq> Some ` (ll_seen (fst b) - ll_seen (fst a)) \<inter> Some ` (ll_seen (fst c) - ll_seen (fst b))"
    by (rule Int_mono [OF n(4,8)])
  also have "\<dots> = {}" by blast
  finally have "distinct (map f_source_key (n1 @ n2))" using n(2,6) by simp
  moreover have up: "Some ` (ll_seen (fst b) - ll_seen (fst a)) \<subseteq> Some ` (ll_seen (fst c) - ll_seen (fst a))"
    "Some ` (ll_seen (fst c) - ll_seen (fst b)) \<subseteq> Some ` (ll_seen (fst c) - ll_seen (fst a))"
    by (rule image_mono; use n(3,7) in blast)+
  have "f_source_key ` set (n1 @ n2) \<subseteq> Some ` (ll_seen (fst c) - ll_seen (fst a))"
    using subset_trans [OF n(4) up(1)] subset_trans [OF n(8) up(2)]
    by (simp only: set_append image_Un Un_subset_iff simp_thms)
  ultimately show ?thesis
    unfolding delivered_def using n(1,3,5,7) by (intro exI [of _ "n1 @ n2"] conjI) simp_all
qed

text \<open>The contract of an entry handler, and what it gives for a whole run of the reader, reconnections included.\<close>

locale log_handler =
  fixes handle :: "Env \<Rightarrow> LoggerEntry \<Rightarrow> LogLoop \<times> Collectors \<Rightarrow> bool \<times> LogLoop \<times> Collectors"
  assumes handle_delivered: "delivered ls (snd (handle e entry ls))"
begin

lemma read_entries_delivered: "delivered ls (snd (read_entries handle src rs ls))"
proof (induction rs arbitrary: ls)
  case Nil
  show ?case by (cases ls) auto
next
  case (Cons r rs)
  obtain l s where ls: "ls = (l, s)" by (cases ls)
  have core: "delivered (l, s) (l, on_core f s)" for f by (auto simp: on_core_def)
  show ?case
  proof (cases r)
    case (ReadEntry e entry)
    obtain go ls1 where h: "handle e entry (l, on_core (clear_collector_error src) s) = (go, ls1)"
      by (cases "handle e entry (l, on_core (clear_collector_error src) s)")
    have "delivered (l, on_core (clear_collector_error src) s) ls1"
      using handle_delivered [of "(l, on_core (clear_collector_error src) s)" e entry] h by simp
    with core have "delivered (l, s) ls1" by (rule delivered_trans)
    then show ?thesis using Cons.IH [of ls1] ReadEntry ls h by (cases go) (auto intro: delivered_trans)
  next
    case (ReadFails err reconnect)
    then show ?thesis
      using Cons.IH [of "(l, on_core (mark_collector_error src err) s)"] core ls by (auto simp: Let_def intro: delivered_trans)
  qed
qed

lemma run_delivered: "delivered ls (run_log_reader handle src os ls)"
proof (induction os arbitrary: ls)
  case Nil
  show ?case by (cases ls) auto
next
  case (Cons r os)
  obtain l s where ls: "ls = (l, s)" by (cases ls)
  have core: "delivered (l, s) (l, on_core f s)" for f by (auto simp: on_core_def)
  show ?case
  proof (cases r)
    case (OpenFails err)
    then show ?thesis
      using Cons.IH [of "(l, on_core (mark_collector_error src err) s)"] core ls by (auto intro: delivered_trans)
  next
    case (Opens rs)
    obtain go ls1 where h: "read_entries handle src rs (l, on_core (clear_collector_error src) s) = (go, ls1)"
      by (cases "read_entries handle src rs (l, on_core (clear_collector_error src) s)")
    have "delivered (l, on_core (clear_collector_error src) s) ls1"
      using read_entries_delivered [of "(l, on_core (clear_collector_error src) s)" src rs] h by simp
    with core have "delivered (l, s) ls1" by (rule delivered_trans)
    then show ?thesis using Cons.IH [of ls1] Opens ls h by (cases go) (auto intro: delivered_trans)
  qed
qed

end

lemma when_new_delivered:
  assumes "act = send_log_fragment key f \<or> (\<exists>g. act = (\<lambda>s. (True, on_core g s)))"
  shows "delivered ls (snd (when_new e src key historical act ls))"
proof -
  obtain l s where ls: "ls = (l, s)" by (cases ls)
  show ?thesis
  proof (cases "key \<in> ll_seen l")
    case True
    then show ?thesis by (auto simp: ls when_new_def log_source_seen_def Let_def)
  next
    case False
    then show ?thesis using assms
      by (auto simp: ls when_new_def log_source_seen_def Let_def delivered_def send_log_fragment_def send_fragment_def on_core_def
          split: sum.split)
  qed
qed

lemma screen_event_on_core: "\<exists>g. on_screen_event e key = (\<lambda>s. (True, on_core g s))"
  by (rule exI, rule ext) (simp add: on_screen_event_def)

lemma events_entry_delivered: "delivered ls (snd (events_entry e entry ls))"
proof -
  obtain l s where ls: "ls = (l, s)" by (cases ls)
  obtain h r c where h: "is_historical e Events (entry_ms entry) (ll_replay l) (col_core s) = (h, r, c)"
    by (metis prod_cases3)
  let ?ls = "(l\<lparr>ll_replay := r\<rparr>, s\<lparr>col_core := c\<rparr>)"
  have first: "delivered ls ?ls" by (auto simp: ls)
  have "snd (events_entry e entry ls) = ?ls \<or>
      (\<exists>key act f. snd (events_entry e entry ls) = snd (when_new e Events key h act ?ls) \<and>
        (act = send_log_fragment key f \<or> (\<exists>g. act = (\<lambda>s. (True, on_core g s)))))"
    using screen_event_on_core by (auto simp: ls events_entry_def h Let_def split: sum.split option.split) (metis prod.collapse)+
  moreover have "delivered ls (snd (when_new e src key h (send_log_fragment key f) ?ls))"
    "delivered ls (snd (when_new e src key h (\<lambda>s. (True, on_core g s)) ?ls))" for key f g src
    by (rule delivered_trans [OF first when_new_delivered]; blast)+
  ultimately show ?thesis using first by auto
qed

lemma crash_entry_delivered: "delivered ls (snd (crash_entry e entry ls))"
proof -
  obtain l s where ls: "ls = (l, s)" by (cases ls)
  obtain h r c where h: "is_historical e CrashBuffer (entry_ms entry) (ll_replay l) (col_core s) = (h, r, c)"
    by (metis prod_cases3)
  let ?ls = "(l\<lparr>ll_replay := r\<rparr>, s\<lparr>col_core := c\<rparr>)"
  have first: "delivered ls ?ls" by (auto simp: ls)
  have "snd (crash_entry e entry ls) = ?ls \<or>
      (\<exists>key f. snd (crash_entry e entry ls) = snd (when_new e CrashBuffer key h (send_log_fragment key f) ?ls))"
    by (auto simp: ls crash_entry_def h Let_def split: sum.split)
  moreover have "delivered ls (snd (when_new e src key h (send_log_fragment key f) ?ls))"
    "delivered ls (snd (when_new e src key h (\<lambda>s. (True, on_core g s)) ?ls))" for key f g src
    by (rule delivered_trans [OF first when_new_delivered]; blast)+
  ultimately show ?thesis using first by auto
qed

interpretation events: log_handler events_entry
  by unfold_locales (rule events_entry_delivered)

interpretation crashes: log_handler crash_entry
  by unfold_locales (rule crash_entry_delivered)

text \<open>C12: each log loop delivers an entry at most once in its life, whatever the reader does: over failed openings, read
  errors and reconnections that start the buffer over, the fragments it sends have pairwise different source keys, and
  no key it had seen before.\<close>
theorem log_entries_delivered_once:
  "delivered ls (run_log_reader events_entry Events os ls) \<and> delivered ls (run_log_reader crash_entry CrashBuffer os ls)"
  by (rule conjI [OF events.run_delivered crashes.run_delivered])

section \<open>History in the log\<close>

text \<open>The answers of the replay filter to entries that arrive one after another.\<close>

fun replay_answers :: "CollectorSource \<Rightarrow> (Env \<times> int) list \<Rightarrow> LogReplayMigration \<Rightarrow> DaemonCore \<Rightarrow> bool list" where
  "replay_answers src [] r c = []"
| "replay_answers src ((e, at_ms) # rest) r c =
     (case is_historical e src at_ms r c of (h, r1, c1) \<Rightarrow> h # replay_answers src rest r1 c1)"

lemma replay_inactive: "\<not> lm_active r \<Longrightarrow> replay_answers src xs r c = replicate (length xs) False"
  by (induction xs arbitrary: c) (auto simp: is_historical_def)

text \<open>on the first start after the upgrade exactly the entries before the first live one are history: once an entry is
  recent enough, everything after it is live, even with an older time; and on later starts nothing is history.\<close>
theorem history_ends_with_first_live_entry:
  "replay_answers src xs r c =
     (let old = (if lm_active r then length (takeWhile (\<lambda>x. snd x < lm_cutoff_ms r) xs) else 0)
      in replicate old True @ replicate (length xs - old) False)"
proof (cases "lm_active r")
  case True
  then show ?thesis
  proof (induction xs arbitrary: c)
    case (Cons x xs)
    obtain e at_ms where x: "x = (e, at_ms)" by (cases x)
    show ?case using Cons by (cases "at_ms < lm_cutoff_ms r") (auto simp: x is_historical_def replay_inactive Let_def)
  qed simp
qed (simp add: replay_inactive)

section \<open>Sample runs\<close>

definition idle :: Collectors where
  "idle = \<lparr>col_core = fresh_core, col_queue = [], col_receiver = True, col_merger = merger_new 10000, col_confirmations = []\<rparr>"


lemma fresh_keys: "\<not> was_source_ingested fresh_core k"
  by (simp add: was_source_ingested_def was_ingested_def fresh_core_def core_new_def fresh_store_def empty_db_def)


theorem confirmations_are_retried_witness:
  "(None, ''k'') \<in> set (col_confirmations (persist_completed (\<lambda>_. sample_env) None [] (idle\<lparr>col_confirmations := [(None, ''k'')]\<rparr>))) \<or>
   was_source_ingested (col_core (persist_completed (\<lambda>_. sample_env) None [] (idle\<lparr>col_confirmations := [(None, ''k'')]\<rparr>))) ''k''"
  using confirmations_are_retried [of "(None, ''k'')" "idle\<lparr>col_confirmations := [(None, ''k'')]\<rparr>" None "\<lambda>_. sample_env" "[]"] by simp

theorem ingest_source_outcome_witness:
  "\<exists>f. col_queue (ingest_source sample_env (pair_fs ''x'') (\<lambda>_. []) pair_source idle) =
     [f\<lparr>f_source_key := Some (si_key (ds_identity pair_source))\<rparr>]"
proof -
  obtain f where f: "fragment_from_source (pair_fs ''x'') pair_source = Inr (Some f)" by (rule pair_fragment)
  have "source_seen sample_env (si_key (ds_identity pair_source)) (col_core idle) \<noteq> Inr True"
    by (simp add: source_seen_def idle_def fresh_keys)
  from ingest_source_outcome [OF this, of "pair_fs ''x''" "\<lambda>_. []"] f show ?thesis
    by (auto simp: idle_def)
qed

end
