(* ===== verification/Apk_Sig.thy ===== *)
theory Apk_Sig
  imports Auth Watcher
begin

text \<open>
  \<^verbatim>\<open>cch_apk_sig\<close>: the certificates of an APK.  The reader looks for the end-of-central-directory record of the
  ZIP file, takes the APK Signing Block in front of the central directory, chooses one signature scheme and
  returns the SHA-256 of the first certificate of every signer in it.  SHA-256 is a parameter, and so is
  which of the seven calls on the file fails; \<^verbatim>\<open>usize\<close> has 64 bits.
\<close>

section \<open>Constants and errors\<close>

definition EOCD :: "u8 list" where "EOCD = [0x50, 0x4b, 0x05, 0x06]"
definition BLOCK_MAGIC :: "u8 list" where "BLOCK_MAGIC = as_bytes ''APK Sig Block 42''"
definition SCHEME_V2 :: nat where "SCHEME_V2 = 0x7109871a"
definition SCHEME_V3 :: nat where "SCHEME_V3 = 0xf05368c0"
definition SCHEME_V31 :: nat where "SCHEME_V31 = 0x1b93ad61"
definition MAX_BLOCK :: nat where "MAX_BLOCK = 64 * 1024 * 1024"
definition MAX_SIGNERS :: nat where "MAX_SIGNERS = 32"
definition MAX_CERT :: nat where "MAX_CERT = 4 * 1024 * 1024"
definition EOCD_SEARCH :: nat where "EOCD_SEARCH = 65557"

datatype ApkSigError =
  ApkIo string IoKind
| MissingEocd
| Zip64Unsupported
| InvalidCentralDirectory
| MissingSigningBlock
| ApkMalformed string
| SigningBlockTooLarge nat
| MissingCertificate

section \<open>Length-prefixed fields\<close>

text \<open>A \<^verbatim>\<open>Cursor\<close> is the bytes it has not read yet.\<close>

definition cursor_read :: "nat \<Rightarrow> u8 list \<Rightarrow> ApkSigError + u8 list \<times> u8 list" where
  "cursor_read n b =
     (if n > length b then Inl (ApkMalformed ''truncated length-prefixed field'') else Inr (take n b, drop n b))"

definition cursor_u64 :: "u8 list \<Rightarrow> ApkSigError + nat \<times> u8 list" where
  "cursor_u64 b = bind_result (cursor_read 8 b) (\<lambda>(v, rest). Inr (le_value v, rest))"

definition cursor_lp :: "u8 list \<Rightarrow> ApkSigError + u8 list \<times> u8 list" where
  "cursor_lp b = bind_result (cursor_read 4 b) (\<lambda>(n, rest). cursor_read (le_value n) rest)"

lemma bind_result_simps [simp]: "bind_result (Inr x) f = f x" "bind_result (Inl e) f = Inl e"
  by (simp_all add: bind_result_def)

lemma cursor_read_shorter: "cursor_read n b = Inr (v, rest) \<Longrightarrow> length b = n + length rest \<and> length v = n"
  by (auto simp: cursor_read_def split: if_splits)

lemma cursor_u64_shorter: "cursor_u64 b = Inr (v, rest) \<Longrightarrow> length rest < length b"
  by (auto simp: cursor_u64_def bind_result_Inr dest!: cursor_read_shorter)

lemma cursor_lp_shorter: "cursor_lp b = Inr (v, rest) \<Longrightarrow> length rest < length b"
  by (auto simp: cursor_lp_def bind_result_Inr dest!: cursor_read_shorter)

section \<open>The end of the central directory\<close>

record Eocd =
  eo_absolute :: nat
  eo_size :: nat
  eo_offset :: nat

definition u32_at :: "nat \<Rightarrow> u8 list \<Rightarrow> nat" where "u32_at p b = le_value (take 4 (drop p b))"
definition u16_at :: "nat \<Rightarrow> u8 list \<Rightarrow> nat" where "u16_at p b = le_value (take 2 (drop p b))"

text \<open>A record starts at \<open>p\<close>: the magic number is there, and the comment it announces ends the file.\<close>

definition eocd_here :: "u8 list \<Rightarrow> nat \<Rightarrow> bool" where
  "eocd_here tail p \<longleftrightarrow> take 4 (drop p tail) = EOCD \<and> p + 22 + u16_at (p + 20) tail = length tail"

definition eocd_record :: "u8 list \<Rightarrow> nat \<Rightarrow> nat \<Rightarrow> ApkSigError + Eocd" where
  "eocd_record tail start p =
     (let size = u32_at (p + 12) tail; offset = u32_at (p + 16) tail
      in if size = 2 ^ 32 - 1 \<or> offset = 2 ^ 32 - 1 then Inl Zip64Unsupported
         else Inr \<lparr>eo_absolute = start + p, eo_size = size, eo_offset = offset\<rparr>)"

fun eocd_from :: "u8 list \<Rightarrow> nat \<Rightarrow> nat \<Rightarrow> ApkSigError + Eocd" where
  "eocd_from tail start p =
     (if eocd_here tail p then eocd_record tail start p
      else (case p of 0 \<Rightarrow> Inl MissingEocd | Suc q \<Rightarrow> eocd_from tail start q))"

declare eocd_from.simps [simp del]

text \<open>The call number \<open>i\<close> on the file fails or gives \<open>x\<close>.\<close>

definition file_call :: "(nat \<Rightarrow> IoKind option) \<Rightarrow> nat \<Rightarrow> 'a \<Rightarrow> ApkSigError + 'a" where
  "file_call fails i x = (case fails i of Some e \<Rightarrow> Inl (ApkIo [] e) | None \<Rightarrow> Inr x)"

definition find_eocd :: "(nat \<Rightarrow> IoKind option) \<Rightarrow> u8 list \<Rightarrow> ApkSigError + Eocd" where
  "find_eocd fails file =
     (let start = length file - EOCD_SEARCH
      in bind_result (file_call fails 1 ()) (\<lambda>_.
         bind_result (file_call fails 2 (drop start file)) (\<lambda>tail.
           if length tail < 22 then Inl MissingEocd else eocd_from tail start (length tail - 22))))"

section \<open>The signing block\<close>

text \<open>\<^verbatim>\<open>read_exact\<close> of \<open>n\<close> bytes at a position.\<close>

definition read_exact_at :: "(nat \<Rightarrow> IoKind option) \<Rightarrow> nat \<Rightarrow> u8 list \<Rightarrow> nat \<Rightarrow> nat \<Rightarrow> ApkSigError + u8 list" where
  "read_exact_at fails i file pos n =
     bind_result (file_call fails i ()) (\<lambda>_.
     bind_result (file_call fails (i + 1) ()) (\<lambda>_.
       if pos + n \<le> length file then Inr (take n (drop pos file)) else Inl (ApkIo [] (IoOther ''unexpected end of file''))))"

definition read_block :: "(nat \<Rightarrow> IoKind option) \<Rightarrow> u8 list \<Rightarrow> nat \<Rightarrow> ApkSigError + u8 list" where
  "read_block fails file central =
     (if central < 24 then Inl MissingSigningBlock
      else bind_result (read_exact_at fails 3 file (central - 24) 24) (\<lambda>footer.
        if drop 8 footer \<noteq> BLOCK_MAGIC then Inl MissingSigningBlock
        else
          (let size = le_value (take 8 footer)
           in if size + 8 \<ge> 2 ^ 64 then Inl (ApkMalformed ''block size overflow'')
              else if size + 8 > MAX_BLOCK then Inl (SigningBlockTooLarge MAX_BLOCK)
              else if size + 8 > central then Inl (ApkMalformed ''block starts before file'')
              else bind_result (read_exact_at fails 5 file (central - (size + 8)) (size + 8)) (\<lambda>block.
                if le_value (take 8 block) \<noteq> size \<or> drop (length block - 16) block \<noteq> BLOCK_MAGIC
                then Inl (ApkMalformed ''size fields or magic disagree'')
                else Inr block))))"

text \<open>The pairs of an identifier and its value, in the order of the file.\<close>

function pairs_from :: "u8 list \<Rightarrow> ApkSigError + (nat \<times> u8 list) list" where
  "pairs_from c =
     (if c = [] then Inr []
      else
        (case cursor_u64 c of
           Inl e \<Rightarrow> Inl e
         | Inr (len, c1) \<Rightarrow>
             if len < 4 then Inl (ApkMalformed ''pair shorter than ID'')
             else
               (case cursor_read len c1 of
                  Inl e \<Rightarrow> Inl e
                | Inr (pair, c2) \<Rightarrow>
                    bind_result (pairs_from c2) (\<lambda>out. Inr ((le_value (take 4 pair), drop 4 pair) # out)))))"
  by pat_completeness auto
termination
  by (relation "measure length") (auto dest!: cursor_u64_shorter cursor_read_shorter)

declare pairs_from.simps [simp del]

definition parse_pairs :: "u8 list \<Rightarrow> ApkSigError + (nat \<times> u8 list) list" where
  "parse_pairs block =
     (if length block < 32 then Inl (ApkMalformed ''short block'')
      else pairs_from (drop 8 (take (length block - 24) block)))"

section \<open>Signers\<close>

definition first_cert :: "u8 list \<Rightarrow> ApkSigError + u8 list" where
  "first_cert signer =
     bind_result (cursor_lp signer) (\<lambda>(signed, _).
     bind_result (cursor_lp signed) (\<lambda>(_, signed1).
     bind_result (cursor_lp signed1) (\<lambda>(certs, _).
     bind_result (cursor_lp certs) (\<lambda>(cert, _).
       if cert = [] then Inl MissingCertificate
       else if length cert > MAX_CERT then Inl (ApkMalformed ''certificate too large'')
       else Inr cert))))"

text \<open>The loop over the signers; \<open>n\<close> digests are in the output already.\<close>

function signer_digests :: "(u8 list \<Rightarrow> u8 list) \<Rightarrow> nat \<Rightarrow> u8 list \<Rightarrow> ApkSigError + u8 list list" where
  "signer_digests sha n signers =
     (if signers = [] then Inr []
      else if n \<ge> MAX_SIGNERS then Inl (ApkMalformed ''too many signers'')
      else
        (case cursor_lp signers of
           Inl e \<Rightarrow> Inl e
         | Inr (signer, rest) \<Rightarrow>
             bind_result (first_cert signer) (\<lambda>cert.
             bind_result (signer_digests sha (Suc n) rest) (\<lambda>out. Inr (sha cert # out)))))"
  by pat_completeness auto
termination
  by (relation "measure (\<lambda>(_, _, s). length s)") (auto dest!: cursor_lp_shorter)

declare signer_digests.simps [simp del]

definition parse_certificates :: "(u8 list \<Rightarrow> u8 list) \<Rightarrow> u8 list \<Rightarrow> ApkSigError + u8 list list" where
  "parse_certificates sha val =
     bind_result (cursor_lp val) (\<lambda>(signers, _).
     bind_result (signer_digests sha 0 signers) (\<lambda>out.
       if out = [] then Inl MissingCertificate else Inr out))"

text \<open>The newest scheme whose identifier occurs, and the first pair with it.\<close>

definition chosen_scheme :: "(nat \<times> u8 list) list \<Rightarrow> u8 list option" where
  "chosen_scheme pairs =
     (case List.map_filter (map_of pairs) [SCHEME_V31, SCHEME_V3, SCHEME_V2] of [] \<Rightarrow> None | v # _ \<Rightarrow> Some v)"

definition certificate_sha256_from_reader ::
  "(u8 list \<Rightarrow> u8 list) \<Rightarrow> (nat \<Rightarrow> IoKind option) \<Rightarrow> u8 list \<Rightarrow> ApkSigError + u8 list list" where
  "certificate_sha256_from_reader sha fails file =
     bind_result (file_call fails 0 ()) (\<lambda>_.
     bind_result (find_eocd fails file) (\<lambda>e.
       if eo_offset e + eo_size e \<noteq> eo_absolute e \<or> eo_offset e > length file then Inl InvalidCentralDirectory
       else bind_result (read_block fails file (eo_offset e)) (\<lambda>block.
            bind_result (parse_pairs block) (\<lambda>pairs.
              case chosen_scheme pairs of None \<Rightarrow> Inl MissingSigningBlock | Some scheme \<Rightarrow> parse_certificates sha scheme))))"

fun with_path :: "string \<Rightarrow> ApkSigError \<Rightarrow> ApkSigError" where
  "with_path path (ApkIo _ e) = ApkIo path e"
| "with_path path e = e"

text \<open>\<open>open_apk\<close> says whether the file opens, what it holds and which of the later calls fail.\<close>

definition certificate_sha256 ::
  "(u8 list \<Rightarrow> u8 list) \<Rightarrow> (string \<Rightarrow> IoKind + (nat \<Rightarrow> IoKind option) \<times> u8 list) \<Rightarrow> string \<Rightarrow> ApkSigError + u8 list list" where
  "certificate_sha256 sha open_apk path =
     (case open_apk path of
        Inl e \<Rightarrow> Inl (ApkIo path e)
      | Inr (fails, file) \<Rightarrow>
          (case certificate_sha256_from_reader sha fails file of Inl e \<Rightarrow> Inl (with_path path e) | Inr ds \<Rightarrow> Inr ds))"

end
