(* ===== verification/Apk_Props.thy ===== *)
theory Apk_Props
  imports Apk_Sig "HOL-Library.Sublist"
begin

text \<open>
  What the APK reader finds: an encoder of APK files with any content around the signing block, the round trip
  through it, the bounds on what a hostile file can make the reader do, and what it means for the
  authentication of the manager that signatures are not checked.
\<close>

section \<open>Encoding\<close>

definition lp :: "u8 list \<Rightarrow> u8 list" where "lp v = le_bytes 4 (length v) @ v"

text \<open>A signer of scheme v2 or v3: digests, certificates and attributes under the signature, and after them the
  SDK range, the signatures and the public key.\<close>

record ApkSigner =
  sg_digests :: "u8 list"
  sg_cert :: "u8 list"
  sg_more_certs :: "u8 list"
  sg_attributes :: "u8 list"
  sg_unsigned :: "u8 list"

definition encode_signed :: "ApkSigner \<Rightarrow> u8 list" where
  "encode_signed s = lp (sg_digests s) @ lp (lp (sg_cert s) @ sg_more_certs s) @ sg_attributes s"

definition encode_signer :: "ApkSigner \<Rightarrow> u8 list" where
  "encode_signer s = lp (encode_signed s) @ sg_unsigned s"

definition encode_scheme :: "ApkSigner list \<Rightarrow> u8 list" where
  "encode_scheme ss = lp (concat (map (lp \<circ> encode_signer) ss))"

definition encode_pair :: "nat \<times> u8 list \<Rightarrow> u8 list" where
  "encode_pair p = le_bytes 8 (4 + length (snd p)) @ le_bytes 4 (fst p) @ snd p"

definition encode_block :: "(nat \<times> u8 list) list \<Rightarrow> u8 list" where
  "encode_block pairs =
     (let body = concat (map encode_pair pairs)
      in le_bytes 8 (length body + 24) @ body @ le_bytes 8 (length body + 24) @ BLOCK_MAGIC)"

definition encode_eocd :: "u8 list \<Rightarrow> nat \<Rightarrow> nat \<Rightarrow> u8 list \<Rightarrow> u8 list" where
  "encode_eocd counts cd_size offset comment =
     EOCD @ counts @ le_bytes 4 cd_size @ le_bytes 4 offset @ le_bytes 2 (length comment) @ comment"

definition encode_apk :: "u8 list \<Rightarrow> (nat \<times> u8 list) list \<Rightarrow> u8 list \<Rightarrow> u8 list \<Rightarrow> u8 list \<Rightarrow> u8 list" where
  "encode_apk entries pairs central counts comment =
     entries @ encode_block pairs @ central @
     encode_eocd counts (length central) (length (entries @ encode_block pairs)) comment"

definition signer_ok :: "ApkSigner \<Rightarrow> bool" where
  "signer_ok s \<longleftrightarrow> sg_cert s \<noteq> [] \<and> length (sg_cert s) \<le> MAX_CERT"

text \<open>The file is not ZIP64, its block is within the limit, and its comment does not look like an
  end-of-central-directory record of its own.\<close>

definition apk_ok :: "u8 list \<Rightarrow> (nat \<times> u8 list) list \<Rightarrow> u8 list \<Rightarrow> u8 list \<Rightarrow> u8 list \<Rightarrow> bool" where
  "apk_ok entries pairs central counts comment \<longleftrightarrow>
     length counts = 8 \<and> length comment < 2 ^ 16 \<and>
     length central < 2 ^ 32 - 1 \<and> length (entries @ encode_block pairs) < 2 ^ 32 - 1 \<and>
     length (encode_block pairs) \<le> MAX_BLOCK \<and> list_all (\<lambda>p. fst p < 2 ^ 32) pairs \<and>
     (\<forall>j \<in> {0<..length comment}. \<not> eocd_here (encode_eocd counts (length central) (length (entries @ encode_block pairs)) comment) j)"

section \<open>Fields\<close>

lemma le_value_32 [simp]: "v < 4294967296 \<Longrightarrow> le_value (le_bytes 4 v) = v"
  using le_value_le_bytes [of v 4] by simp

lemma le_value_64 [simp]: "v < 18446744073709551616 \<Longrightarrow> le_value (le_bytes 8 v) = v"
  using le_value_le_bytes [of v 8] by simp

lemma le_value_16 [simp]: "v < 65536 \<Longrightarrow> le_value (le_bytes 2 v) = v"
  using le_value_le_bytes [of v 2] by simp

lemma length_lp [simp]: "length (lp v) = 4 + length v"
  by (simp add: lp_def)

lemma cursor_read_append [simp]: "n = length v \<Longrightarrow> cursor_read n (v @ rest) = Inr (v, rest)"
  by (simp add: cursor_read_def)

lemma cursor_lp_lp [simp]: "length v < 2 ^ 32 \<Longrightarrow> cursor_lp (lp v @ rest) = Inr (v, rest)"
  by (simp add: cursor_lp_def lp_def)

lemma cursor_u64_append [simp]: "n < 2 ^ 64 \<Longrightarrow> cursor_u64 (le_bytes 8 n @ rest) = Inr (n, rest)"
  by (simp add: cursor_u64_def)

lemma length_MAGIC [simp]: "length BLOCK_MAGIC = 16" by (simp add: BLOCK_MAGIC_def as_bytes_def)

lemma length_EOCD [simp]: "length EOCD = 4" by (simp add: EOCD_def)

lemma encode_block_parts:
  obtains body where "body = concat (map encode_pair pairs)"
    and "encode_block pairs = le_bytes 8 (length body + 24) @ body @ le_bytes 8 (length body + 24) @ BLOCK_MAGIC"
    and "length (encode_block pairs) = length body + 32"
  by (auto simp: encode_block_def Let_def simp del: length_concat)

section \<open>The record at the end\<close>

lemma eocd_here_append: "eocd_here (x @ r) (length x + j) = eocd_here r j"
  by (auto simp: eocd_here_def u16_at_def)

lemma eocd_from_skips:
  "(\<And>j. 0 < j \<Longrightarrow> j \<le> d \<Longrightarrow> \<not> eocd_here tail (p + j)) \<Longrightarrow> eocd_from tail start (p + d) = eocd_from tail start p"
proof (induction d)
  case (Suc d)
  have "\<not> eocd_here tail (p + Suc d)" by (rule Suc.prems) simp_all
  then have "eocd_from tail start (p + Suc d) = eocd_from tail start (p + d)" by (simp add: eocd_from.simps [of _ _ "Suc _"])
  with Suc show ?case by simp
qed simp

lemma encode_eocd_fields:
  assumes "length counts = 8" and "cd_size < 2 ^ 32" and "offset < 2 ^ 32" and "length comment < 2 ^ 16"
  shows "u32_at 12 (encode_eocd counts cd_size offset comment) = cd_size"
    "u32_at 16 (encode_eocd counts cd_size offset comment) = offset"
    "eocd_here (encode_eocd counts cd_size offset comment) 0"
    "length (encode_eocd counts cd_size offset comment) = 22 + length comment"
proof -
  have "drop 12 (encode_eocd counts cd_size offset comment) =
      le_bytes 4 cd_size @ le_bytes 4 offset @ le_bytes 2 (length comment) @ comment"
    "drop 16 (encode_eocd counts cd_size offset comment) = le_bytes 4 offset @ le_bytes 2 (length comment) @ comment"
    "drop 20 (encode_eocd counts cd_size offset comment) = le_bytes 2 (length comment) @ comment"
    using assms(1) by (simp_all add: encode_eocd_def)
  then show "u32_at 12 (encode_eocd counts cd_size offset comment) = cd_size"
    "u32_at 16 (encode_eocd counts cd_size offset comment) = offset"
    "eocd_here (encode_eocd counts cd_size offset comment) 0"
    "length (encode_eocd counts cd_size offset comment) = 22 + length comment"
    using assms by (simp_all add: u32_at_def u16_at_def eocd_here_def encode_eocd_def)
qed

lemma u32_at_append: "u32_at (length x + j) (x @ r) = u32_at j r"
  by (simp add: u32_at_def)

lemma find_eocd_encoded:
  assumes "length counts = 8" and "cd_size < 2 ^ 32 - 1" and "offset < 2 ^ 32 - 1" and "length comment < 2 ^ 16"
    and "\<And>j. 0 < j \<Longrightarrow> j \<le> length comment \<Longrightarrow> \<not> eocd_here (encode_eocd counts cd_size offset comment) j"
  shows "find_eocd (\<lambda>_. None) (x @ encode_eocd counts cd_size offset comment) =
     Inr \<lparr>eo_absolute = length x, eo_size = cd_size, eo_offset = offset\<rparr>"
proof -
  let ?r = "encode_eocd counts cd_size offset comment" and ?file = "x @ encode_eocd counts cd_size offset comment"
  have bounds: "cd_size < 2 ^ 32" "offset < 2 ^ 32" using assms(2,3) by simp_all
  note f = encode_eocd_fields [OF assms(1) bounds assms(4)]
  define start where "start = length ?file - EOCD_SEARCH"
  have s: "start \<le> length x" using assms(4) f(4) by (simp add: start_def EOCD_SEARCH_def)
  define y where "y = drop start x"
  have tail: "drop start ?file = y @ ?r" using s by (simp add: y_def)
  have y: "start + length y = length x" using s by (simp add: y_def)
  have none: "\<not> eocd_here (y @ ?r) (length y + j)" if "0 < j" "j \<le> length comment" for j
    using assms(5) [OF that] by (simp add: eocd_here_append)
  have "eocd_from (y @ ?r) start (length (y @ ?r) - 22) = eocd_from (y @ ?r) start (length y)"
    using eocd_from_skips [of "length comment" "y @ ?r" "length y" start] none f(4) by simp
  also have "\<dots> = eocd_record (y @ ?r) start (length y)"
    using f(3) eocd_here_append [of y ?r 0] by (simp add: eocd_from.simps)
  also have "\<dots> = Inr \<lparr>eo_absolute = length x, eo_size = cd_size, eo_offset = offset\<rparr>"
    using u32_at_append [of y 12 ?r] u32_at_append [of y 16 ?r] f(1,2) assms(2,3) y by (simp add: eocd_record_def)
  finally show ?thesis
    using f(4) unfolding find_eocd_def Let_def start_def [symmetric] tail by (simp add: file_call_def)
qed

section \<open>The block\<close>

lemma read_block_encoded:
  assumes "length (encode_block pairs) \<le> MAX_BLOCK"
  shows "read_block (\<lambda>_. None) (entries @ encode_block pairs @ rest) (length (entries @ encode_block pairs)) = Inr (encode_block pairs)"
proof -
  obtain body where b: "encode_block pairs = le_bytes 8 (length body + 24) @ body @ le_bytes 8 (length body + 24) @ BLOCK_MAGIC"
    and len: "length (encode_block pairs) = length body + 32" by (rule encode_block_parts)
  have n: "length body < 18446744073709551584" using assms len by (simp add: MAX_BLOCK_def)
  have "take 24 (drop (length (entries @ encode_block pairs) - 24) (entries @ encode_block pairs @ rest)) =
      le_bytes 8 (length body + 24) @ BLOCK_MAGIC"
    by (simp add: b)
  moreover have "drop (length (encode_block pairs) - 16) (encode_block pairs) = BLOCK_MAGIC" by (simp add: b)
  ultimately show ?thesis
    unfolding read_block_def
    using assms len n by (simp add: read_exact_at_def file_call_def Let_def b)
qed

lemma pairs_from_encoded:
  assumes "list_all (\<lambda>p. fst p < 2 ^ 32) ps" and "length (concat (map encode_pair ps)) < 2 ^ 64"
  shows "pairs_from (concat (map encode_pair ps)) = Inr ps"
  using assms
proof (induction ps)
  case (Cons p ps)
  obtain i v where p: "p = (i, v)" by (cases p)
  let ?rest = "concat (map encode_pair ps)"
  have len: "4 + length v < 2 ^ 64" using Cons.prems(2) by (simp add: p encode_pair_def)
  have "pairs_from ?rest = Inr ps" using Cons by simp
  moreover have "cursor_u64 (encode_pair p @ ?rest) = Inr (4 + length v, le_bytes 4 i @ v @ ?rest)"
    using len by (simp add: p encode_pair_def)
  moreover have "cursor_read (4 + length v) (le_bytes 4 i @ v @ ?rest) = Inr (le_bytes 4 i @ v, ?rest)"
    using cursor_read_append [of "4 + length v" "le_bytes 4 i @ v" ?rest] by simp
  moreover have "encode_pair p @ ?rest \<noteq> []" by (metis append_is_Nil_conv encode_pair_def length_0_conv length_le_bytes zero_neq_numeral)
  ultimately show ?case
    using Cons.prems(1) by (subst list.map, subst concat.simps, subst pairs_from.simps) (simp add: p)
qed (simp add: pairs_from.simps)

lemma parse_pairs_encoded:
  assumes "list_all (\<lambda>p. fst p < 2 ^ 32) ps" and "length (encode_block ps) \<le> MAX_BLOCK"
  shows "parse_pairs (encode_block ps) = Inr ps"
proof -
  obtain body where body: "body = concat (map encode_pair ps)"
    and b: "encode_block ps = le_bytes 8 (length body + 24) @ body @ le_bytes 8 (length body + 24) @ BLOCK_MAGIC"
    and len: "length (encode_block ps) = length body + 32" by (rule encode_block_parts)
  have "drop 8 (take (length (encode_block ps) - 24) (encode_block ps)) = body" by (simp add: b)
  moreover have "pairs_from body = Inr ps"
    unfolding body by (rule pairs_from_encoded [OF assms(1)]) (use assms(2) len in \<open>simp add: MAX_BLOCK_def flip: body\<close>)
  ultimately show ?thesis using len by (simp add: parse_pairs_def)
qed

section \<open>The signers\<close>

lemma first_cert_encoded:
  assumes "signer_ok s" and "length (encode_signer s) < 2 ^ 32"
  shows "first_cert (encode_signer s) = Inr (sg_cert s)"
proof -
  have "length (encode_signed s) < 2 ^ 32" "length (sg_digests s) < 2 ^ 32" "length (lp (sg_cert s) @ sg_more_certs s) < 2 ^ 32"
    "length (sg_cert s) < 2 ^ 32"
    using assms(2) by (simp_all add: encode_signer_def encode_signed_def)
  then have "cursor_lp (encode_signer s) = Inr (encode_signed s, sg_unsigned s)"
    "cursor_lp (encode_signed s) = Inr (sg_digests s, lp (lp (sg_cert s) @ sg_more_certs s) @ sg_attributes s)"
    "cursor_lp (lp (lp (sg_cert s) @ sg_more_certs s) @ sg_attributes s) = Inr (lp (sg_cert s) @ sg_more_certs s, sg_attributes s)"
    "cursor_lp (lp (sg_cert s) @ sg_more_certs s) = Inr (sg_cert s, sg_more_certs s)"
    using cursor_lp_lp unfolding encode_signer_def encode_signed_def by blast+
  then show ?thesis using assms(1) by (simp add: first_cert_def signer_ok_def)
qed

lemma signer_digests_encoded:
  assumes "list_all signer_ok ss" and "length (concat (map (lp \<circ> encode_signer) ss)) < 2 ^ 32" and "n \<le> MAX_SIGNERS"
  shows "signer_digests sha n (concat (map (lp \<circ> encode_signer) ss)) =
     (if n + length ss \<le> MAX_SIGNERS then Inr (map (sha \<circ> sg_cert) ss) else Inl (ApkMalformed ''too many signers''))"
  using assms
proof (induction ss arbitrary: n)
  case (Cons s ss)
  define r where "r = concat (map (lp \<circ> encode_signer) ss)"
  have split: "concat (map (lp \<circ> encode_signer) (s # ss)) = lp (encode_signer s) @ r" by (simp add: r_def)
  have len: "length (encode_signer s) < 2 ^ 32" and rest: "length r < 2 ^ 32" using Cons.prems(2) unfolding split by simp_all
  have ne: "lp (encode_signer s) @ r \<noteq> []" by (metis append_is_Nil_conv length_0_conv length_lp add_is_0 zero_neq_numeral)
  have "first_cert (encode_signer s) = Inr (sg_cert s)"
    using Cons.prems(1) by (intro first_cert_encoded len) simp
  moreover have "cursor_lp (lp (encode_signer s) @ r) = Inr (encode_signer s, r)" by (rule cursor_lp_lp [OF len])
  moreover have "signer_digests sha (Suc n) r =
      (if Suc n + length ss \<le> MAX_SIGNERS then Inr (map (sha \<circ> sg_cert) ss) else Inl (ApkMalformed ''too many signers''))"
    if "Suc n \<le> MAX_SIGNERS"
    using Cons.IH [OF _ rest [unfolded r_def] that, folded r_def] Cons.prems(1) by simp
  ultimately show ?case
    using Cons.prems(3) ne unfolding split by (subst signer_digests.simps) auto
qed (simp add: signer_digests.simps)

lemma chosen_scheme_in: "chosen_scheme pairs = Some v \<Longrightarrow> \<exists>i. (i, v) \<in> set pairs"
  by (auto simp: chosen_scheme_def List.map_filter_simps dest: map_of_SomeD split: list.splits option.splits)

lemma chosen_scheme_short:
  assumes "chosen_scheme pairs = Some v"
  shows "length v \<le> length (encode_block pairs)"
proof -
  obtain i where "(i, v) \<in> set pairs" using chosen_scheme_in [OF assms] by blast
  then have "length (encode_pair (i, v)) \<le> sum_list (map (length \<circ> encode_pair) pairs)"
    by (intro member_le_sum_list) auto
  then show ?thesis by (simp add: encode_pair_def encode_block_def Let_def length_concat comp_def)
qed

section \<open>Any file\<close>

lemma cursor_read_sublist: "cursor_read n b = Inr (v, rest) \<Longrightarrow> sublist v b \<and> sublist rest b"
  by (auto simp: cursor_read_def split: if_splits)

lemma cursor_lp_sublist: "cursor_lp b = Inr (v, rest) \<Longrightarrow> sublist v b \<and> sublist rest b"
  by (auto simp: cursor_lp_def bind_result_Inr dest!: cursor_read_sublist intro: sublist_order.order.trans)

lemma first_cert_sublist:
  assumes "first_cert signer = Inr cert"
  shows "sublist cert signer \<and> cert \<noteq> [] \<and> length cert \<le> MAX_CERT"
proof -
  obtain signed r1 d signed1 certs r2 r3 where c: "cursor_lp signer = Inr (signed, r1)" "cursor_lp signed = Inr (d, signed1)"
    "cursor_lp signed1 = Inr (certs, r2)" "cursor_lp certs = Inr (cert, r3)" and ok: "cert \<noteq> [] \<and> length cert \<le> MAX_CERT"
    using assms by (auto simp: first_cert_def bind_result_Inr split: if_splits)
  have "sublist cert certs" using cursor_lp_sublist [OF c(4)] by (rule conjunct1)
  also have "sublist certs signed1" using cursor_lp_sublist [OF c(3)] by (rule conjunct1)
  also have "sublist signed1 signed" using cursor_lp_sublist [OF c(2)] by (rule conjunct2)
  also have "sublist signed signer" using cursor_lp_sublist [OF c(1)] by (rule conjunct1)
  finally show ?thesis using ok by blast
qed

lemma signer_digests_result:
  "signer_digests sha n signers = Inr out \<Longrightarrow>
   n + length out \<le> max n MAX_SIGNERS \<and>
   (\<forall>d\<in>set out. \<exists>cert. d = sha cert \<and> sublist cert signers \<and> cert \<noteq> [] \<and> length cert \<le> MAX_CERT)"
proof (induction sha n signers arbitrary: out rule: signer_digests.induct)
  case (1 sha n signers)
  show ?case
  proof (cases "signers = []")
    case False
    then obtain signer rest cert out1 where s: "cursor_lp signers = Inr (signer, rest)" "first_cert signer = Inr cert"
      "signer_digests sha (Suc n) rest = Inr out1" "out = sha cert # out1" "n < MAX_SIGNERS"
      using "1.prems" by (subst (asm) signer_digests.simps) (auto simp: bind_result_Inr split: if_splits sum.splits)
    have ih: "Suc n + length out1 \<le> max (Suc n) MAX_SIGNERS"
      "\<forall>d\<in>set out1. \<exists>cert. d = sha cert \<and> sublist cert rest \<and> cert \<noteq> [] \<and> length cert \<le> MAX_CERT"
      using "1.IH" [OF False _ s(1) refl s(3)] s(5) by simp_all
    have "sublist cert signers" using first_cert_sublist [OF s(2)] cursor_lp_sublist [OF s(1)] by (blast intro: sublist_order.order.trans)
    moreover have "sublist x signers" if "sublist x rest" for x using that cursor_lp_sublist [OF s(1)] by (blast intro: sublist_order.order.trans)
    ultimately show ?thesis using ih s(4,5) first_cert_sublist [OF s(2)] by fastforce
  qed (use "1.prems" in \<open>simp add: signer_digests.simps\<close>)
qed

lemma pairs_from_sublist: "pairs_from c = Inr ps \<Longrightarrow> \<forall>(i, v) \<in> set ps. sublist v c"
proof (induction c arbitrary: ps rule: pairs_from.induct)
  case (1 c)
  show ?case
  proof (cases "c = []")
    case False
    then obtain len c1 pair c2 out where p: "cursor_u64 c = Inr (len, c1)" "cursor_read len c1 = Inr (pair, c2)" "\<not> len < 4"
      "pairs_from c2 = Inr out" "ps = (le_value (take 4 pair), drop 4 pair) # out"
      using "1.prems" by (subst (asm) pairs_from.simps) (auto simp: bind_result_Inr split: if_splits sum.splits)
    have c1: "sublist c1 c" using p(1) by (auto simp: cursor_u64_def bind_result_Inr dest!: cursor_read_sublist)
    have "sublist (drop 4 pair) c1" using cursor_read_sublist [OF p(2)] by (blast intro: sublist_order.order.trans sublist_drop)
    moreover have "\<forall>(i, v) \<in> set out. sublist v c2" using "1.IH" [OF False p(1) _ p(3,2) _ p(4)] by simp
    ultimately show ?thesis
      using c1 cursor_read_sublist [OF p(2)] p(5) by (fastforce intro: sublist_order.order.trans)
  qed (use "1.prems" in \<open>simp add: pairs_from.simps\<close>)
qed

lemma read_exact_sublist: "read_exact_at fails i file pos n = Inr b \<Longrightarrow> sublist b file"
  by (auto simp: read_exact_at_def bind_result_Inr split: if_splits intro: sublist_order.order.trans)

lemma read_block_sublist: "read_block fails file central = Inr b \<Longrightarrow> sublist b file"
  by (auto simp: read_block_def bind_result_Inr Let_def split: if_splits dest: read_exact_sublist)

section \<open>What the reader finds\<close>

lemma certificates_encoded:
  assumes "apk_ok entries pairs central counts comment" and "chosen_scheme pairs = Some (encode_scheme ss)"
    and "list_all signer_ok ss"
  shows "certificate_sha256_from_reader sha (\<lambda>_. None) (encode_apk entries pairs central counts comment) =
     (if ss = [] then Inl MissingCertificate
      else if length ss \<le> MAX_SIGNERS then Inr (map (sha \<circ> sg_cert) ss)
      else Inl (ApkMalformed ''too many signers''))"
proof -
  let ?off = "length (entries @ encode_block pairs)" and ?x = "entries @ encode_block pairs @ central"
  note ok = assms(1) [unfolded apk_ok_def]
  have eocd: "find_eocd (\<lambda>_. None) (?x @ encode_eocd counts (length central) ?off comment) =
      Inr \<lparr>eo_absolute = length ?x, eo_size = length central, eo_offset = ?off\<rparr>"
    by (rule find_eocd_encoded) (use ok in \<open>auto simp del: length_append\<close>)
  have block: "read_block (\<lambda>_. None) (entries @ encode_block pairs @ central @ encode_eocd counts (length central) ?off comment) ?off =
      Inr (encode_block pairs)"
    using ok by (intro read_block_encoded) simp
  have pairs: "parse_pairs (encode_block pairs) = Inr pairs" using ok by (intro parse_pairs_encoded) simp_all
  have "length (encode_scheme ss) < 2 ^ 32"
    using chosen_scheme_short [OF assms(2)] ok by (simp add: MAX_BLOCK_def)
  then have short: "length (concat (map (lp \<circ> encode_signer) ss)) < 2 ^ 32" by (simp add: encode_scheme_def del: length_concat)
  have "parse_certificates sha (encode_scheme ss) =
      (if ss = [] then Inl MissingCertificate
       else if length ss \<le> MAX_SIGNERS then Inr (map (sha \<circ> sg_cert) ss) else Inl (ApkMalformed ''too many signers''))"
    using cursor_lp_lp [OF short, of "[]"] signer_digests_encoded [OF assms(3) short, of 0 sha]
    by (simp add: parse_certificates_def encode_scheme_def)
  then show ?thesis
    using eocd block pairs assms(2)
    by (simp add: certificate_sha256_from_reader_def file_call_def encode_apk_def)
qed

lemma reader_digests:
  assumes "certificate_sha256_from_reader sha fails file = Inr ds"
  shows "ds \<noteq> [] \<and> length ds \<le> MAX_SIGNERS \<and>
    (\<forall>d\<in>set ds. \<exists>cert. d = sha cert \<and> sublist cert file \<and> cert \<noteq> [] \<and> length cert \<le> MAX_CERT)"
proof -
  obtain central block ps v signers rest where r: "read_block fails file central = Inr block" "parse_pairs block = Inr ps"
    "chosen_scheme ps = Some v" "cursor_lp v = Inr (signers, rest)" "signer_digests sha 0 signers = Inr ds" "ds \<noteq> []"
    using assms
    by (auto simp: certificate_sha256_from_reader_def parse_certificates_def bind_result_Inr split: if_splits option.splits)
  have "pairs_from (drop 8 (take (length block - 24) block)) = Inr ps" using r(2) by (auto simp: parse_pairs_def split: if_splits)
  then have "sublist v (drop 8 (take (length block - 24) block))"
    using pairs_from_sublist chosen_scheme_in [OF r(3)] by fastforce
  then have "sublist v block" by (meson sublist_order.order.trans sublist_drop sublist_take)
  then have "sublist signers file"
    using cursor_lp_sublist [OF r(4)] read_block_sublist [OF r(1)] by (blast intro: sublist_order.order.trans)
  then show ?thesis using signer_digests_result [OF r(5)] r(6) by (fastforce intro: sublist_order.order.trans)
qed

lemma certificate_digests: "certificate_sha256 sha open_apk p = Inr ds \<Longrightarrow> \<forall>d\<in>set ds. \<exists>cert. d = sha cert"
  by (auto simp: certificate_sha256_def dest!: reader_digests split: sum.splits prod.splits)

text \<open>The scheme Android prefers: v3.1 before v3 before v2, and the first of its pairs.\<close>

definition newest_scheme :: "(nat \<times> u8 list) list \<Rightarrow> u8 list \<Rightarrow> bool" where
  "newest_scheme pairs v \<longleftrightarrow>
     map_of pairs 0x1b93ad61 = Some v \<or>
     map_of pairs 0x1b93ad61 = None \<and>
       (map_of pairs 0xf05368c0 = Some v \<or> map_of pairs 0xf05368c0 = None \<and> map_of pairs 0x7109871a = Some v)"

lemma newest_is_chosen: "newest_scheme pairs v \<Longrightarrow> chosen_scheme pairs = Some v"
  by (auto simp: newest_scheme_def chosen_scheme_def SCHEME_V31_def SCHEME_V3_def SCHEME_V2_def List.map_filter_simps)

text \<open>C26: the reader returns exactly the digests of the first certificates of the signers of the newest scheme, in their
  order, whatever entries, other pairs, central directory and comment the file has, and whatever signatures, public keys
  and attributes follow the certificates; more than 32 signers are an error, and so is none.\<close>
theorem apk_certificates_exact:
  assumes "apk_ok entries pairs central counts comment" and "newest_scheme pairs (encode_scheme ss)" and "list_all signer_ok ss"
  shows "certificate_sha256_from_reader sha (\<lambda>_. None) (encode_apk entries pairs central counts comment) =
     (if ss = [] then Inl MissingCertificate
      else if length ss \<le> 32 then Inr (map (sha \<circ> sg_cert) ss)
      else Inl (ApkMalformed ''too many signers''))"
  using certificates_encoded [OF assms(1) newest_is_chosen [OF assms(2)] assms(3)] by (simp add: MAX_SIGNERS_def)

definition sample_signer :: "u8 list \<Rightarrow> ApkSigner" where
  "sample_signer u =
     \<lparr>sg_digests = [], sg_cert = [68, 69, 82], sg_more_certs = [], sg_attributes = [], sg_unsigned = u\<rparr>"

definition sample_apk :: "u8 list \<Rightarrow> u8 list" where
  "sample_apk u =
     encode_apk [112] [(0xf05368c0, encode_scheme [sample_signer u])] [80, 75, 1, 2] (replicate 8 0) []"

lemma sample_apk_ok:
  assumes "length u \<le> 8"
  shows "apk_ok [112] [(0xf05368c0, encode_scheme [sample_signer u])] [80, 75, 1, 2] (replicate 8 0) []"
    "newest_scheme [(0xf05368c0, encode_scheme [sample_signer u])] (encode_scheme [sample_signer u])"
    "signer_ok (sample_signer u)"
  using assms
  by (simp_all add: apk_ok_def encode_block_def encode_pair_def encode_scheme_def encode_signer_def encode_signed_def
      sample_signer_def MAX_BLOCK_def MAX_CERT_def signer_ok_def newest_scheme_def)

theorem apk_certificates_exact_witness:
  "certificate_sha256_from_reader (\<lambda>b. b @ b) (\<lambda>_. None) (sample_apk [1, 2, 3]) = Inr [[68, 69, 82, 68, 69, 82]]"
  using apk_certificates_exact [OF sample_apk_ok(1,2), of "[1, 2, 3]" "\<lambda>b. b @ b"] sample_apk_ok(3) [of "[1, 2, 3]"]
  by (simp add: sample_apk_def) (simp add: sample_signer_def)

text \<open>The certificates as the authentication asks for them.\<close>

definition apk_certs ::
  "(u8 list \<Rightarrow> u8 list) \<Rightarrow> (string \<Rightarrow> IoKind + (nat \<Rightarrow> IoKind option) \<times> u8 list) \<Rightarrow> (ApkSigError \<Rightarrow> string) \<Rightarrow> string \<Rightarrow>
   string + u8 list list" where
  "apk_certs sha open_apk describe path =
     (case certificate_sha256 sha open_apk path of Inl e \<Rightarrow> Inl (describe e) | Inr ds \<Rightarrow> Inr ds)"

lemma first_row_authenticates:
  assumes "e \<in> set cs" and "certified certs pin e" and "\<And>path ds d. certs path = Inr ds \<Longrightarrow> d \<in> set ds \<Longrightarrow> length d = length pin"
  shows "\<exists>m. check_candidates certs pin uid cs False None = Inr m"
proof -
  obtain e1 where e1: "find (certified certs pin) cs = Some e1"
    using assms(1,2) by (metis find_None_iff not_Some_eq)
  then obtain path where "base_apk_path e1 = Some path" by (auto simp: find_Some_iff certified_def)
  then have "check_candidates certs pin uid cs False None = Inr \<lparr>am_uid = uid, am_package_name = pe_name e1, am_apk_path = path\<rparr>"
    using e1 check_candidates_Inr [of certs pin uid cs False None, OF assms(3)] by simp
  then show ?thesis by blast
qed

text \<open>C34: a peer is authenticated by a certificate in its APK, not by a signature: if any signer of the newest scheme in the
  APK of any package of the peer's uid carries the pinned certificate, the peer is the manager, whatever is
  in the parts of that signer that hold the SDK range, the signatures and the public key.\<close>
theorem carrying_the_certificate_authenticates:
  assumes "build list_text code_paths system_packages = Inr ix" and "e \<in> set (ix_entries ix)" and "pe_uid e = uid"
    and "base_apk_path e = Some path" and "android_path_is_absolute path"
    and "open_apk path = Inr (\<lambda>_. None, encode_apk entries pairs central counts comment)"
    and "apk_ok entries pairs central counts comment" and "newest_scheme pairs (encode_scheme ss)" and "list_all signer_ok ss"
    and "length ss \<le> 32" and "s \<in> set ss" and "sha (sg_cert s) = pin" and "\<And>b. length (sha b) = 32"
  shows "\<exists>m. authenticate_uid (apk_certs sha open_apk describe) pin ix uid = Inr m"
proof -
  have digests: "length d = 32" if "apk_certs sha open_apk describe p = Inr ds" "d \<in> set ds" for p ds d
    using that certificate_digests [of sha open_apk p ds] assms(13) by (auto simp: apk_certs_def split: sum.splits)
  have "ss \<noteq> []" using assms(11) by auto
  then have "certificate_sha256 sha open_apk path = Inr (map (sha \<circ> sg_cert) ss)"
    using certificates_encoded [OF assms(7) newest_is_chosen [OF assms(8)] assms(9)] assms(6,10)
    by (simp add: certificate_sha256_def MAX_SIGNERS_def)
  then have "certified (apk_certs sha open_apk describe) pin e"
    using assms(4,5,11,12) by (auto simp: certified_def apk_certs_def)
  moreover have "by_uid ix uid = filter (\<lambda>e. pe_uid e = uid) (ix_entries ix)"
    by (rule lookup.uid_exact [OF build_index_ok [OF assms(1)]])
  then have "e \<in> set (candidates ix uid)" using assms(2,3) by (auto simp: candidates_def Let_def filter_empty_conv)
  ultimately show ?thesis
    using first_row_authenticates [of e "candidates ix uid" "apk_certs sha open_apk describe" pin uid] digests assms(12,13)
    by (auto simp: authenticate_uid_def Let_def)
qed

definition pad32 :: "u8 list \<Rightarrow> u8 list" where "pad32 b = take 32 (b @ replicate 32 0)"

theorem carrying_the_certificate_authenticates_witness:
  "\<exists>m. authenticate_uid (apk_certs pad32 (\<lambda>_. Inr (\<lambda>_. None, sample_apk [9, 9, 9])) (\<lambda>_. ''error'')) (pad32 [68, 69, 82])
     (sample_index {}) 10002 = Inr m"
proof (rule carrying_the_certificate_authenticates [OF sample_build [of "{}"]])
  let ?e = "join_entry sample_paths {} sample_cd"
  show "?e \<in> set (ix_entries (sample_index {}))" "pe_uid ?e = 10002" by (simp_all add: sample_index_simps)
  have p: "path_extension ''/system/c'' = None" "trim_end_slashes ''/system/c'' = ''/system/c''" by code_simp+
  show "base_apk_path ?e = Some ''/system/c/base.apk''" by (simp add: sample_index_simps base_apk_path_def p)
  show "android_path_is_absolute ''/system/c/base.apk''" by (simp add: android_path_is_absolute_def)
  show "newest_scheme [(0xf05368c0, encode_scheme [sample_signer [9, 9, 9]])] (encode_scheme [sample_signer [9, 9, 9]])"
    by (rule sample_apk_ok) simp
  show "apk_ok [112] [(0xf05368c0, encode_scheme [sample_signer [9, 9, 9]])] [80, 75, 1, 2] (replicate 8 0) []"
    by (rule sample_apk_ok) simp
  show "list_all signer_ok [sample_signer [9, 9, 9]]" using sample_apk_ok(3) [of "[9, 9, 9]"] by simp
  show "sample_signer [9, 9, 9] \<in> set [sample_signer [9, 9, 9]]" by simp
qed (simp_all add: sample_apk_def pad32_def sample_signer_def)

text \<open>whatever the bytes of a file are and whatever fails, a result is at least one and at most 32 digests, each of a
  certificate that stands in the file, is not empty and has at most 4 MiB.\<close>
theorem apk_digests_from_file:
  assumes "certificate_sha256_from_reader sha fails file = Inr ds"
  shows "ds \<noteq> [] \<and> length ds \<le> 32 \<and>
    (\<forall>d\<in>set ds. \<exists>cert. d = sha cert \<and> sublist cert file \<and> cert \<noteq> [] \<and> length cert \<le> 4 * 1024 * 1024)"
  using reader_digests [OF assms] by (simp add: MAX_SIGNERS_def MAX_CERT_def)

theorem apk_digests_from_file_witness: "sublist [68, 69, 82] (sample_apk [7])"
proof -
  have r: "certificate_sha256_from_reader (\<lambda>b. b) (\<lambda>_. None) (sample_apk [7]) = Inr [[68, 69, 82]]"
    using certificates_encoded [OF sample_apk_ok(1) newest_is_chosen [OF sample_apk_ok(2)], of "[7]" "\<lambda>b. b"] sample_apk_ok(3) [of "[7]"]
    by (simp add: sample_apk_def MAX_SIGNERS_def) (simp add: sample_signer_def)
  show ?thesis using apk_digests_from_file [OF r] by simp
qed

section \<open>Slices\<close>

text \<open>The slice of the last 16 bytes of the block is taken only when the size fields agree, and then the block has at least
  24 bytes: a size below 16 would have to be the text of the magic number.\<close>

lemma BLOCK_MAGIC_bytes: "BLOCK_MAGIC = [65, 80, 75, 32, 83, 105, 103, 32, 66, 108, 111, 99, 107, 32, 52, 50]"
  by (simp add: BLOCK_MAGIC_def as_bytes_def byte_of_char_def)

lemma le_value_ge: "i < length bs \<Longrightarrow> bs ! i \<noteq> 0 \<Longrightarrow> 256 ^ i \<le> le_value bs"
proof (induction bs arbitrary: i)
  case (Cons b bs)
  show ?case
  proof (cases i)
    case 0
    then have "unat b \<noteq> 0" using Cons.prems(2) by (simp add: unat_eq_0)
    then show ?thesis using 0 by simp
  next
    case (Suc j)
    then have "256 ^ j \<le> le_value bs" using Cons by simp
    then show ?thesis using Suc by simp
  qed
qed simp

lemma magic_is_no_size:
  assumes "n < 16"
  shows "le_value (take 8 (drop (16 - n) (le_bytes 8 n @ BLOCK_MAGIC))) \<noteq> n"
proof -
  let ?b = "take 8 (drop (16 - n) (le_bytes 8 n @ BLOCK_MAGIC))"
  have "list_all (\<lambda>b. b \<noteq> 0) BLOCK_MAGIC" by (simp add: BLOCK_MAGIC_bytes)
  then have "BLOCK_MAGIC ! (15 - n) \<noteq> 0" by (auto simp: list_all_length)
  moreover have "\<not> 7 < n - 8" "8 - n + 7 - (n - 8) = 15 - n" using assms by arith+
  then have "?b ! 7 = BLOCK_MAGIC ! (15 - n)" using assms by (simp add: nth_append)
  ultimately have "256 ^ 7 \<le> le_value ?b" by (intro le_value_ge) simp_all
  then show ?thesis using assms by (intro notI) simp
qed

end
