(* ===== verification/Server.thy ===== *)
theory Server
  imports Collectors
begin

text \<open>
  \<^verbatim>\<open>cch_daemond/transport.rs\<close> and \<^verbatim>\<open>server.rs\<close>: frames on a socket, and the three kinds of connection
  the daemon serves.  A connection is the bytes the peer has sent so far and what a read behind them gives; what
  is written is the list of frames in their order.  JSON is a parameter in both directions.

  A connection thread runs against the core's locked methods, so a connection is a function on the core, with one
  environment for each request.  Threads that run at the same time interleave between requests.
\<close>

section \<open>Frames\<close>

datatype StreamError = UnexpectedEof | StreamIo IoKind | InvalidData string | PermissionDenied string

record InStream =
  is_bytes :: "u8 list"
  is_end :: "IoKind option"

definition read_exact :: "nat \<Rightarrow> InStream \<Rightarrow> (StreamError + u8 list) \<times> InStream" where
  "read_exact n s =
     (if n \<le> length (is_bytes s) then (Inr (take n (is_bytes s)), s\<lparr>is_bytes := drop n (is_bytes s)\<rparr>)
      else (Inl (case is_end s of None \<Rightarrow> UnexpectedEof | Some e \<Rightarrow> StreamIo e), s\<lparr>is_bytes := []\<rparr>))"

definition read_json_frame :: "(u8 list \<Rightarrow> string + 'a) \<Rightarrow> InStream \<Rightarrow> (StreamError + 'a) \<times> InStream" where
  "read_json_frame from_slice s =
     (case read_exact LENGTH_PREFIX_BYTES s of
        (Inl e, s1) \<Rightarrow> (Inl e, s1)
      | (Inr prefix_bytes, s1) \<Rightarrow>
          (case decode_length prefix_bytes of
             Inl e \<Rightarrow> (Inl (InvalidData (wire_text e)), s1)
           | Inr len \<Rightarrow>
               (case read_exact len s1 of
                  (Inl e, s2) \<Rightarrow> (Inl e, s2)
                | (Inr body, s2) \<Rightarrow> (case from_slice body of Inl e \<Rightarrow> (Inl (InvalidData e), s2) | Inr v \<Rightarrow> (Inr v, s2)))))"

text \<open>The bytes of a frame, and whether the socket takes them.\<close>

definition write_json_frame :: "('a \<Rightarrow> string + u8 list) \<Rightarrow> IoKind option \<Rightarrow> 'a \<Rightarrow> StreamError + u8 list" where
  "write_json_frame to_vec socket v =
     (case to_vec v of
        Inl e \<Rightarrow> Inl (InvalidData e)
      | Inr body \<Rightarrow>
          (case encode_frame body of
             Inl e \<Rightarrow> Inl (InvalidData (wire_text e))
           | Inr frame \<Rightarrow> (case socket of None \<Rightarrow> Inr frame | Some e \<Rightarrow> Inl (StreamIo e))))"

section \<open>The control connection\<close>

text \<open>A response goes out as a frame, or as a frame with the descriptor of an open payload.\<close>

datatype Sent = SentFrame "Response ResponseEnvelope" | SentWithFd "Response ResponseEnvelope" "u8 list"

text \<open>JSON of requests, responses and channel kinds, and which write fails (by its number in the connection).\<close>

record Codec =
  cd_channel :: "u8 list \<Rightarrow> string + ChannelKind"
  cd_request :: "u8 list \<Rightarrow> string + nat \<times> Request"
  cd_response :: "Response ResponseEnvelope \<Rightarrow> string + u8 list"
  cd_event :: "DaemonEvent \<Rightarrow> string + u8 list"
  cd_write :: "nat \<Rightarrow> IoKind option"

record ControlConnection =
  ct_core :: DaemonCore
  ct_in :: InStream
  ct_out :: "Sent list"
  ct_agreed :: bool

fun sent_envelope :: "Sent \<Rightarrow> Response ResponseEnvelope" where
  "sent_envelope (SentFrame r) = r"
| "sent_envelope (SentWithFd r _) = r"

definition send_out :: "Codec \<Rightarrow> Sent \<Rightarrow> ControlConnection \<Rightarrow> (StreamError + unit) \<times> ControlConnection" where
  "send_out cd m ct =
     (case write_json_frame (cd_response cd) (cd_write cd (length (ct_out ct))) (sent_envelope m) of
        Inl e \<Rightarrow> (Inl e, ct)
      | Inr _ \<Rightarrow> (Inr (), ct\<lparr>ct_out := ct_out ct @ [m]\<rparr>))"

definition handshake_required :: WireError where
  "handshake_required = wire_error VersionMismatch ''handshake required before any other request''"

text \<open>A result ends the connection; \<^const>\<open>None\<close> goes on to the next request.\<close>

definition ending :: "(StreamError + unit) \<times> ControlConnection \<Rightarrow> (StreamError + unit) option \<times> ControlConnection" where
  "ending r = (Some (fst r), snd r)"

definition going_on :: "(StreamError + unit) \<times> ControlConnection \<Rightarrow> (StreamError + unit) option \<times> ControlConnection" where
  "going_on r = ((case fst r of Inl e \<Rightarrow> Some (Inl e) | Inr _ \<Rightarrow> None), snd r)"

definition first_request :: "Env \<Rightarrow> Codec \<Rightarrow> nat \<Rightarrow> Request \<Rightarrow> ControlConnection \<Rightarrow> (StreamError + unit) option \<times> ControlConnection" where
  "first_request e cd seq req ct =
     (if requires_handshake req then ending (send_out cd (SentFrame (envelope_err seq handshake_required)) ct)
      else
        (case dispatch e seq req (ct_core ct) of
           (response, c) \<Rightarrow>
             (let r = send_out cd (SentFrame response) (ct\<lparr>ct_core := c\<rparr>)
              in if re_err response \<noteq> None then ending r
                 else (case going_on r of (x, ct1) \<Rightarrow> (x, if x = None then ct1\<lparr>ct_agreed := True\<rparr> else ct1)))))"

definition agreed_request :: "Env \<Rightarrow> Codec \<Rightarrow> nat \<Rightarrow> Request \<Rightarrow> ControlConnection \<Rightarrow> (StreamError + unit) option \<times> ControlConnection" where
  "agreed_request e cd seq req ct =
     going_on
       (case req of
          OpenPayload i \<Rightarrow>
            (case open_payload_fd e i (ct_core ct) of
               (Inr (fd, opened), c) \<Rightarrow>
                 send_out cd (SentWithFd (envelope_ok seq (PayloadOpenedResult opened)) fd) (ct\<lparr>ct_core := c\<rparr>)
             | (Inl err, c) \<Rightarrow> send_out cd (SentFrame (envelope_err seq err)) (ct\<lparr>ct_core := c\<rparr>))
        | _ \<Rightarrow>
            (case dispatch e seq req (ct_core ct) of
               (response, c) \<Rightarrow> send_out cd (SentFrame response) (ct\<lparr>ct_core := c\<rparr>)))"

definition control_step :: "Env \<Rightarrow> Codec \<Rightarrow> ControlConnection \<Rightarrow> (StreamError + unit) option \<times> ControlConnection" where
  "control_step e cd ct =
     (case read_json_frame (cd_request cd) (ct_in ct) of
        (Inl UnexpectedEof, s) \<Rightarrow> (Some (Inr ()), ct\<lparr>ct_in := s\<rparr>)
      | (Inl err, s) \<Rightarrow> (Some (Inl err), ct\<lparr>ct_in := s\<rparr>)
      | (Inr (seq, req), s) \<Rightarrow>
          (if ct_agreed ct then agreed_request e cd seq req (ct\<lparr>ct_in := s\<rparr>)
           else first_request e cd seq req (ct\<lparr>ct_in := s\<rparr>)))"

lemma read_json_frame_shorter:
  "read_json_frame f s = (Inr v, s1) \<Longrightarrow> length (is_bytes s1) < length (is_bytes s)"
  by (auto simp: read_json_frame_def read_exact_def LENGTH_PREFIX_BYTES_def split: if_splits sum.splits)

lemma send_out_in [simp]: "ct_in (snd (send_out cd m ct)) = ct_in ct"
  by (simp add: send_out_def split: sum.split)

lemma first_request_in: "first_request e cd seq req ct = (x, ct1) \<Longrightarrow> ct_in ct1 = ct_in ct"
  by (auto simp: first_request_def ending_def going_on_def Let_def split: if_splits prod.splits dest!: arg_cong [of _ _ snd])

lemma agreed_request_in: "agreed_request e cd seq req ct = (x, ct1) \<Longrightarrow> ct_in ct1 = ct_in ct"
  by (auto simp: agreed_request_def going_on_def split: Request.splits prod.splits sum.splits)

lemma control_step_shorter:
  assumes "control_step e cd ct = (None, ct1)"
  shows "length (is_bytes (ct_in ct1)) < length (is_bytes (ct_in ct))"
proof -
  obtain seq req s where r: "read_json_frame (cd_request cd) (ct_in ct) = (Inr (seq, req), s)"
    using assms by (auto simp: control_step_def split: prod.splits sum.splits StreamError.splits)
  then have "ct_in ct1 = s"
    using assms
    by (auto simp: control_step_def split: if_splits dest!: first_request_in agreed_request_in)
  then show ?thesis using read_json_frame_shorter [OF r] by simp
qed

function manager_control :: "(nat \<Rightarrow> Env) \<Rightarrow> Codec \<Rightarrow> ControlConnection \<Rightarrow> (StreamError + unit) \<times> ControlConnection" where
  "manager_control envs cd ct =
     (case control_step (envs 0) cd ct of
        (Some r, ct1) \<Rightarrow> (r, ct1)
      | (None, ct1) \<Rightarrow> manager_control (envs \<circ> Suc) cd ct1)"
  by pat_completeness auto
termination
  by (relation "measure (\<lambda>(_, _, ct). length (is_bytes (ct_in ct)))") (auto dest!: control_step_shorter [OF sym])

declare manager_control.simps [simp del]

section \<open>The subscription\<close>

text \<open>The events the connection takes from its queue, up to the end of the channel.  The result comes with the
  events that were written; a write that fails has consumed its event.\<close>

fun subscribe_loop :: "Codec \<Rightarrow> nat \<Rightarrow> DaemonEvent list \<Rightarrow> (StreamError + unit) \<times> DaemonEvent list" where
  "subscribe_loop cd i [] = (Inr (), [])"
| "subscribe_loop cd i (ev # evs) =
     (case write_json_frame (cd_event cd) (cd_write cd i) ev of
        Inl e \<Rightarrow> (Inl e, [])
      | Inr _ \<Rightarrow> (case subscribe_loop cd (Suc i) evs of (r, sent) \<Rightarrow> (r, ev # sent)))"

section \<open>A manager connection\<close>

datatype Session =
  ControlSession "StreamError + unit" ControlConnection
| SubscribeSession "StreamError + unit" "DaemonEvent list" DaemonCore
| Refused StreamError DaemonCore

definition manager_subscribe :: "Codec \<Rightarrow> DaemonEvent list \<Rightarrow> DaemonCore \<Rightarrow> Session" where
  "manager_subscribe cd received c =
     (case subscribe_loop cd 0 received of (r, sent) \<Rightarrow> SubscribeSession r sent (core_subscribe c))"

text \<open>\<open>received\<close> are the events that reach the queue of a subscription later.\<close>

definition handle_manager ::
  "(nat \<Rightarrow> Env) \<Rightarrow> Codec \<Rightarrow> (string \<Rightarrow> string + u8 list list) \<Rightarrow> u8 list \<Rightarrow> string + int \<Rightarrow> InStream \<Rightarrow>
   DaemonEvent list \<Rightarrow> DaemonCore \<Rightarrow> Session" where
  "handle_manager envs cd certs pin credentials stream received c =
     (case credentials of
        Inl e \<Rightarrow> Refused (PermissionDenied e) c
      | Inr uid \<Rightarrow>
          (case core_authenticate (envs 0) certs pin uid c of
             (Inl err, c1) \<Rightarrow> Refused (PermissionDenied (wire_text err)) c1
           | (Inr _, c1) \<Rightarrow>
               (case read_json_frame (cd_channel cd) stream of
                  (Inl e, _) \<Rightarrow> Refused e c1
                | (Inr Control, s) \<Rightarrow>
                    (case manager_control (envs \<circ> Suc) cd \<lparr>ct_core = c1, ct_in = s, ct_out = [], ct_agreed = False\<rparr> of
                       (r, ct) \<Rightarrow> ControlSession r ct)
                | (Inr Subscribe, _) \<Rightarrow> manager_subscribe cd received c1)))"

text \<open>What the loop of one slot logs about each attempt; True in the state means that a denial was reported.\<close>

datatype ConnectNote = NoteDisconnected | NoteDenied | NoteStillDenied | NoteUnavailable

fun is_denied :: "StreamError + unit \<Rightarrow> bool" where
  "is_denied (Inl (PermissionDenied _)) = True"
| "is_denied _ = False"

definition connect_note :: "bool \<Rightarrow> StreamError + unit \<Rightarrow> ConnectNote \<times> bool" where
  "connect_note reported result =
     (case result of
        Inr _ \<Rightarrow> (NoteDisconnected, False)
      | Inl e \<Rightarrow>
          if is_denied (Inl e) then (if \<not> reported then (NoteDenied, True) else (NoteStillDenied, reported))
          else (NoteUnavailable, False))"

fun connect_loop :: "bool \<Rightarrow> (StreamError + unit) list \<Rightarrow> ConnectNote list" where
  "connect_loop reported [] = []"
| "connect_loop reported (r # rs) = (case connect_note reported r of (n, reported1) \<Rightarrow> n # connect_loop reported1 rs)"

definition MANAGER_CONNECTION_SLOTS :: nat where "MANAGER_CONNECTION_SLOTS = 2"

section \<open>The bridge connection\<close>

text \<open>The events the bridge sends after its first frame: what is read until the end of the stream or an error.\<close>

function bridge_events :: "(u8 list \<Rightarrow> string + BridgeEvent) \<Rightarrow> InStream \<Rightarrow> (StreamError + unit) \<times> BridgeEvent list" where
  "bridge_events from_slice s =
     (case read_json_frame from_slice s of
        (Inl UnexpectedEof, _) \<Rightarrow> (Inr (), [])
      | (Inl e, _) \<Rightarrow> (Inl e, [])
      | (Inr ev, s1) \<Rightarrow> (case bridge_events from_slice s1 of (r, evs) \<Rightarrow> (r, ev # evs)))"
  by pat_completeness auto
termination
  by (relation "measure (\<lambda>(_, s). length (is_bytes s))") (auto dest!: read_json_frame_shorter [OF sym])

declare bridge_events.simps [simp del]

fun is_hello :: "BridgeEvent \<Rightarrow> bool" where
  "is_hello (HelloEvent _) = True"
| "is_hello _ = False"

text \<open>The steps a bridge connection makes on the broker, in their order.  \<open>ch\<close> is the number of its command channel,
  \<open>thread\<close> says whether the stream could be cloned and the writer thread started; when not, the receiving half
  of the channel is dropped at once.\<close>

definition handle_bridge ::
  "(u8 list \<Rightarrow> string + BridgeEvent) \<Rightarrow> nat \<Rightarrow> string + int \<Rightarrow> IoKind option \<Rightarrow> InStream \<Rightarrow>
   (StreamError + unit) \<times> BridgeLabel list" where
  "handle_bridge from_slice ch credentials thread stream =
     (case credentials of
        Inl e \<Rightarrow> (Inl (PermissionDenied e), [])
      | Inr uid \<Rightarrow>
          if uid \<noteq> 0 \<and> uid \<noteq> 1000
          then (Inl (PermissionDenied (''bridge peer uid '' @ int_to_dec uid @ '' is not root/system'')), [])
          else
            (case read_json_frame from_slice stream of
               (Inl e, _) \<Rightarrow> (Inl e, [])
             | (Inr first, s) \<Rightarrow>
                 if \<not> is_hello first then (Inl (InvalidData ''bridge first frame is not hello''), [])
                 else
                   (case thread of
                      Some e \<Rightarrow> (Inl (StreamIo e), [AttachBridge, Event first, WriterEnds ch])
                    | None \<Rightarrow>
                        (case bridge_events from_slice s of
                           (r, evs) \<Rightarrow> (r, AttachBridge # Event first # map Event evs @ [DetachBridge, WriterEnds ch])))))"

text \<open>One accepted connection: whatever happened in it, the loop detaches afterwards.\<close>

definition bridge_accepted ::
  "(u8 list \<Rightarrow> string + BridgeEvent) \<Rightarrow> nat \<Rightarrow> string + int \<Rightarrow> IoKind option \<Rightarrow> InStream \<Rightarrow> BridgeLabel list" where
  "bridge_accepted from_slice ch credentials thread stream =
     snd (handle_bridge from_slice ch credentials thread stream) @ [DetachBridge]"

section \<open>Socket addresses\<close>

definition BRIDGE_SOCKET_NAME :: string where "BRIDGE_SOCKET_NAME = ''crash_catcher_daemon_bridge''"
definition MANAGER_SOCKET_NAME :: string where "MANAGER_SOCKET_NAME = ''crash_catcher_manager_listener''"

text \<open>\<^verbatim>\<open>sun_path\<close> and the length given to the kernel; the path starts at offset 2.\<close>

definition abstract_address :: "string \<Rightarrow> StreamError + u8 list \<times> nat" where
  "abstract_address name =
     (if name = [] \<or> length name + 1 > 108 then Inl (InvalidData ''invalid abstract socket name'')
      else Inr (0 # as_bytes name @ replicate (107 - length name) 0, 2 + 1 + length name))"

end
