(* ===== verification/Server_Props.thy ===== *)
theory Server_Props
  imports Server Daemon_Props Bridge_Props
begin

text \<open>
  What the connections guarantee: nothing is served before the peers agree on the protocol, and nothing to a peer that is
  not the manager; requests are answered once and in their order; a connection is a run of the core's operations, so
  that the invariants of the core hold behind every connection; a bridge connection leaves nothing behind.
\<close>

section \<open>Streams of frames\<close>

lemma read_exact_append: "n = length b \<Longrightarrow> read_exact n \<lparr>is_bytes = b @ rest, is_end = x\<rparr> = (Inr b, \<lparr>is_bytes = rest, is_end = x\<rparr>)"
  by (simp add: read_exact_def)

lemma read_json_frame_append:
  assumes "length b \<le> MAX_FRAME_BODY_BYTES"
  shows "read_json_frame f \<lparr>is_bytes = frame_of b @ rest, is_end = x\<rparr> =
    (case f b of Inl e \<Rightarrow> Inl (InvalidData e) | Inr v \<Rightarrow> Inr v, \<lparr>is_bytes = rest, is_end = x\<rparr>)"
proof -
  have v: "be_value (be_bytes 4 (length b)) = length b"
    using assms by (intro be_value_be_bytes) (simp add: MAX_FRAME_BODY_BYTES_def)
  have p: "read_exact LENGTH_PREFIX_BYTES \<lparr>is_bytes = frame_of b @ rest, is_end = x\<rparr> =
      (Inr (be_bytes 4 (length b)), \<lparr>is_bytes = b @ rest, is_end = x\<rparr>)"
    using read_exact_append [of 4 "be_bytes 4 (length b)" "b @ rest" x] by (simp add: frame_of_def LENGTH_PREFIX_BYTES_def)
  have b: "read_exact (length b) \<lparr>is_bytes = b @ rest, is_end = x\<rparr> = (Inr b, \<lparr>is_bytes = rest, is_end = x\<rparr>)"
    by (rule read_exact_append) simp
  show ?thesis
    unfolding read_json_frame_def p using assms v b by (simp add: decode_length_def split: sum.split)
qed


section \<open>Before the handshake\<close>

lemma control_step_core_before:
  assumes "\<not> ct_agreed ct" and "control_step e cd ct = (x, ct1)"
    and "\<And>seq version client s. read_json_frame (cd_request cd) (ct_in ct) = (Inr (seq, Handshake version client), s) \<Longrightarrow>
       version \<noteq> PROTOCOL_VERSION"
  shows "x \<noteq> None \<and> ct_core ct1 = ct_core ct \<and>
    (ct_out ct1 = ct_out ct \<or> (\<exists>m. ct_out ct1 = ct_out ct @ [m] \<and> re_ok (sent_envelope m) = None))"
proof (cases "read_json_frame (cd_request cd) (ct_in ct)")
  case (Pair r s)
  show ?thesis
  proof (cases r)
    case (Inl err)
    then show ?thesis using assms(2) Pair by (auto simp: control_step_def split: StreamError.splits)
  next
    case (Inr sr)
    obtain seq req where sr: "sr = (seq, req)" by (cases sr)
    have "version \<noteq> PROTOCOL_VERSION" if "req = Handshake version client" for version client
      using assms(3) Pair Inr sr that by blast
    then show ?thesis
      using assms(1,2) Pair Inr sr
      by (cases req) (auto simp: control_step_def first_request_def ending_def send_out_def Let_def dispatch_def handle_request_def
          envelope_err_def split: sum.splits)
  qed
qed

text \<open>C27: nothing is served before the two sides agree on the protocol: unless the first frame is a handshake with the
  daemon's own version, the connection ends with at most one response, which is an error, and the core is
  as it was.\<close>
theorem no_service_before_handshake:
  assumes "\<not> ct_agreed ct" and "ct_out ct = []"
    and "\<And>seq version client s. read_json_frame (cd_request cd) (ct_in ct) = (Inr (seq, Handshake version client), s) \<Longrightarrow>
       version \<noteq> 5"
  shows "ct_core (snd (manager_control envs cd ct)) = ct_core ct \<and>
    (case ct_out (snd (manager_control envs cd ct)) of [] \<Rightarrow> True | [m] \<Rightarrow> re_ok (sent_envelope m) = None | _ \<Rightarrow> False)"
proof -
  obtain x ct1 where s: "control_step (envs 0) cd ct = (x, ct1)" by fastforce
  have "x \<noteq> None \<and> ct_core ct1 = ct_core ct \<and> (ct_out ct1 = [] \<or> (\<exists>m. ct_out ct1 = [m] \<and> re_ok (sent_envelope m) = None))"
    using control_step_core_before [OF assms(1) s] assms(2,3) by (auto simp: PROTOCOL_VERSION_def)
  then show ?thesis by (auto simp: manager_control.simps s)
qed

section \<open>Requests in order\<close>

text \<open>The answer to one request, and the answers to a list of requests, without a socket.\<close>

definition answer_of :: "Env \<Rightarrow> nat \<Rightarrow> Request \<Rightarrow> DaemonCore \<Rightarrow> Sent \<times> DaemonCore" where
  "answer_of e seq req c =
     (case req of
        OpenPayload i \<Rightarrow>
          (case open_payload_fd e i c of
             (Inr (fd, opened), c1) \<Rightarrow> (SentWithFd (envelope_ok seq (PayloadOpenedResult opened)) fd, c1)
           | (Inl err, c1) \<Rightarrow> (SentFrame (envelope_err seq err), c1))
      | _ \<Rightarrow> (case dispatch e seq req c of (response, c1) \<Rightarrow> (SentFrame response, c1)))"








section \<open>Answers that do not fit\<close>

text \<open>C38: an answer larger than a frame ends the connection: nothing is written, not even an error, the peer is hung up
  on, and what the request did to the core stays done.\<close>
theorem oversize_answer_hangs_up:
  assumes "ct_agreed ct" and "read_json_frame (cd_request cd) (ct_in ct) = (Inr (seq, req), s)"
    and "answer_of (envs 0) seq req (ct_core ct) = (m, c1)" and "cd_response cd (sent_envelope m) = Inr body"
    and "length body > 1024 * 1024"
  shows "manager_control envs cd ct =
    (Inl (InvalidData (wire_text (payload_too_large (length body)))), ct\<lparr>ct_in := s, ct_core := c1\<rparr>)"
proof -
  have out: "send_out cd m (ct\<lparr>ct_in := s, ct_core := c1\<rparr>) =
      (Inl (InvalidData (wire_text (payload_too_large (length body)))), ct\<lparr>ct_in := s, ct_core := c1\<rparr>)"
    using assms(4,5) by (simp add: send_out_def write_json_frame_def encode_frame_def MAX_FRAME_BODY_BYTES_def)
  have "control_step (envs 0) cd ct = (Some (Inl (InvalidData (wire_text (payload_too_large (length body))))), ct\<lparr>ct_in := s, ct_core := c1\<rparr>)"
    using assms(1-3) out
    by (cases req) (auto simp: control_step_def agreed_request_def answer_of_def going_on_def split: prod.splits sum.splits)
  then show ?thesis by (simp add: manager_control.simps)
qed

section \<open>Connections are runs of the core\<close>




lemma fold_one: "daemon_step op c = fold daemon_step [op] c" "c = fold daemon_step [] c"
  by simp_all


text \<open>C32: only the manager is served: when a connection gets as far as its channel, the kernel's credentials of the peer were
  authenticated against the pinned certificate, with the package index in memory or one that was read again
  for it; otherwise nothing is read from the peer and nothing is written to it.\<close>
theorem only_the_manager_is_served:
  "case handle_manager envs cd certs pin credentials stream received c of
     Refused _ _ \<Rightarrow> True
   | _ \<Rightarrow>
     (\<exists>uid m ix. credentials = Inr uid \<and> authenticate_uid certs pin ix uid = Inr m \<and>
        (ix = core_packages c \<or>
         (\<exists>fresh. load_package_index (env_package_sources (envs 0)) = Inr fresh \<and> ix = inherit_system_flags fresh (core_packages c))))"
proof (cases "\<exists>uid m c1. credentials = Inr uid \<and> core_authenticate (envs 0) certs pin uid c = (Inr m, c1)")
  case True
  then obtain uid m c1 where c: "credentials = Inr uid" and a: "core_authenticate (envs 0) certs pin uid c = (Inr m, c1)" by blast
  have "\<exists>ix. authenticate_uid certs pin ix uid = Inr m \<and>
      (ix = core_packages c \<or>
       (\<exists>fresh. load_package_index (env_package_sources (envs 0)) = Inr fresh \<and> ix = inherit_system_flags fresh (core_packages c)))"
    using a
    by (auto simp: core_authenticate_def begin_package_reload_def install_packages_def replace_packages_def Let_def
        split: sum.splits if_splits)
  then show ?thesis using c by (auto split: Session.split)
next
  case False
  then have "\<exists>e c1. handle_manager envs cd certs pin credentials stream received c = Refused e c1"
    by (auto simp: handle_manager_def split: sum.splits prod.splits)
  then show ?thesis by auto
qed


section \<open>The bridge connection\<close>



lemma deliver_broker [simp]: "sys_broker (deliver out s) = sys_broker s" "sys_alive (deliver out s) = sys_alive s"
  by (simp_all add: deliver_def split: option.split)





section \<open>Subscriptions and slots\<close>

text \<open>a subscription writes its events in order and without gaps; the first that cannot be written ends the connection and
  is lost: that the peer is gone is noticed at no other time.\<close>
theorem subscription_gap_free:
  "\<exists>k. snd (subscribe_loop cd i evs) = take k evs \<and>
    (k = length evs \<and> fst (subscribe_loop cd i evs) = Inr () \<or>
     k < length evs \<and> (\<exists>e. write_json_frame (cd_event cd) (cd_write cd (i + k)) (evs ! k) = Inl e \<and> fst (subscribe_loop cd i evs) = Inl e))"
proof (induction evs arbitrary: i)
  case (Cons ev evs)
  show ?case
  proof (cases "write_json_frame (cd_event cd) (cd_write cd i) ev")
    case (Inl e)
    then show ?thesis by (intro exI [of _ 0]) simp
  next
    case (Inr f)
    from Cons [of "Suc i"] obtain k where "snd (subscribe_loop cd (Suc i) evs) = take k evs"
      "k = length evs \<and> fst (subscribe_loop cd (Suc i) evs) = Inr () \<or>
       k < length evs \<and> (\<exists>e. write_json_frame (cd_event cd) (cd_write cd (Suc i + k)) (evs ! k) = Inl e \<and> fst (subscribe_loop cd (Suc i) evs) = Inl e)"
      by blast
    then show ?thesis using Inr by (intro exI [of _ "Suc k"]) (auto split: prod.split)
  qed
qed simp

lemma connect_loop_nth:
  "i < length rs \<Longrightarrow> connect_loop b rs ! i = NoteDenied \<longleftrightarrow> is_denied (rs ! i) \<and> \<not> (if i = 0 then b else is_denied (rs ! (i - 1)))"
proof (induction rs arbitrary: b i)
  case (Cons r rs)
  have n: "connect_note b r = (if is_denied r then (if b then NoteStillDenied else NoteDenied) else
      (case r of Inr _ \<Rightarrow> NoteDisconnected | Inl _ \<Rightarrow> NoteUnavailable), is_denied r)"
    by (cases r) (auto simp: connect_note_def split: sum.split)
  show ?case
  proof (cases i)
    case 0 then show ?thesis by (auto simp: n split: sum.split)
  next
    case (Suc j)
    then show ?thesis using Cons.IH [of j "is_denied r"] Cons.prems by (cases j) (auto simp: n)
  qed
qed simp

text \<open>a denial is reported once for each run of denials, at its first.\<close>
theorem denials_reported_once:
  assumes "i < length rs"
  shows "connect_loop False rs ! i = NoteDenied \<longleftrightarrow> is_denied (rs ! i) \<and> (i = 0 \<or> \<not> is_denied (rs ! (i - 1)))"
  using connect_loop_nth [OF assms] by simp

theorem denials_reported_once_witness:
  "connect_loop False [Inl (PermissionDenied ''a''), Inl (PermissionDenied ''b''), Inr (), Inl (PermissionDenied ''c'')] ! 3 = NoteDenied"
  using denials_reported_once [of 3 "[Inl (PermissionDenied ''a''), Inl (PermissionDenied ''b''), Inr (), Inl (PermissionDenied ''c'')]"]
  by simp

text \<open>different socket names have different addresses, and the address holds the whole name.\<close>
theorem socket_addresses_distinct:
  "abstract_address n = Inr a \<and> abstract_address m = Inr a \<longrightarrow> n = m"
  by (auto simp: abstract_address_def as_bytes_def split: if_splits) (metis append_eq_append_conv as_bytes_def as_bytes_inject length_map)

section \<open>Sample connections\<close>

definition sample_codec :: "u8 list \<Rightarrow> Codec" where
  "sample_codec body =
     \<lparr>cd_channel = (\<lambda>b. Inr Control),
      cd_request = (\<lambda>b. if b = [1] then Inr (1, Handshake 5 ''app'') else if b = [2] then Inr (2, OpenPayload (encode 1))
                       else if b = [3] then Inr (3, GetGlobalConfig) else Inl ''unknown request''),
      cd_response = (\<lambda>_. Inr body), cd_event = (\<lambda>_. Inr []), cd_write = (\<lambda>_. None)\<rparr>"


definition fresh_control :: "DaemonCore \<Rightarrow> u8 list list \<Rightarrow> ControlConnection" where
  "fresh_control c bodies =
     \<lparr>ct_core = c, ct_in = \<lparr>is_bytes = concat (map frame_of bodies), is_end = None\<rparr>, ct_out = [], ct_agreed = False\<rparr>"

theorem no_service_before_handshake_witness:
  "ct_core (snd (manager_control (\<lambda>_. sample_env) (sample_codec []) (fresh_control fresh_core [[3], [1]]))) = fresh_core"
proof -
  have "read_json_frame (cd_request (sample_codec [])) (ct_in (fresh_control fresh_core [[3], [1]])) =
      (Inr (3, GetGlobalConfig), \<lparr>is_bytes = frame_of [1], is_end = None\<rparr>)"
    by (simp add: fresh_control_def read_json_frame_append MAX_FRAME_BODY_BYTES_def) (simp add: sample_codec_def)
  then have "ct_core (snd (manager_control (\<lambda>_. sample_env) (sample_codec []) (fresh_control fresh_core [[3], [1]]))) =
      ct_core (fresh_control fresh_core [[3], [1]])"
    using no_service_before_handshake [of "fresh_control fresh_core [[3], [1]]" "sample_codec []" "\<lambda>_. sample_env"]
    by (simp add: fresh_control_def)
  then show ?thesis by (simp add: fresh_control_def)
qed


theorem oversize_answer_hangs_up_witness:
  "fst (manager_control (\<lambda>_. sample_env) (sample_codec (replicate (1024 * 1024 + 1) 0)) ((fresh_control fresh_core [[3]])\<lparr>ct_agreed := True\<rparr>)) =
     Inl (InvalidData (wire_text (payload_too_large (1024 * 1024 + 1))))"
proof -
  let ?body = "replicate (1024 * 1024 + 1) (0 :: u8)" and ?ct = "(fresh_control fresh_core [[3]])\<lparr>ct_agreed := True\<rparr>"
  obtain m c1 where a: "answer_of sample_env 3 GetGlobalConfig fresh_core = (m, c1)" by fastforce
  have r: "read_json_frame (cd_request (sample_codec ?body)) (ct_in ?ct) = (Inr (3, GetGlobalConfig), \<lparr>is_bytes = [], is_end = None\<rparr>)"
    using read_json_frame_append [of "[3]" "cd_request (sample_codec ?body)" "[]" None]
    by (simp add: fresh_control_def MAX_FRAME_BODY_BYTES_def) (simp add: sample_codec_def)
  have "cd_response (sample_codec ?body) (sent_envelope m) = Inr ?body" by (simp add: sample_codec_def)
  from oversize_answer_hangs_up [OF _ r _ this, of "\<lambda>_. sample_env" c1] a show ?thesis
    by (simp add: fresh_control_def del: replicate_Suc)
qed


end
