(* ===== verification/Startup.thy ===== *)
theory Startup
  imports Server
begin

text \<open>
  \<^verbatim>\<open>cch_daemond/main.rs\<close>: the arguments, the order of the start-up and the completion of the package index once
  the package manager answers.  Logging, sockets and child processes are started and not looked into.
\<close>

section \<open>Arguments\<close>

datatype MainError =
  ArgumentsError string | MainIo string | MainStore StoreError | MainPackages PackageIndexError | MainAuth AuthError
| MainBridge SupervisorError | MainServer string | MainWire WireError

record Arguments =
  ar_state_dir :: string
  ar_module_dir :: string
  ar_manager_pin :: string
  ar_ready_file :: string
  ar_android_sdk :: "int option"

text \<open>The variables of the loop.\<close>

record ParsedArguments =
  pa_state_dir :: "string option"
  pa_module_dir :: "string option"
  pa_manager_pin :: "string option"
  pa_ready_file :: "string option"
  pa_android_sdk :: "int option"

definition no_arguments :: ParsedArguments where
  "no_arguments = \<lparr>pa_state_dir = None, pa_module_dir = None, pa_manager_pin = None, pa_ready_file = None, pa_android_sdk = None\<rparr>"

definition set_argument :: "string \<Rightarrow> string \<Rightarrow> ParsedArguments \<Rightarrow> MainError + ParsedArguments" where
  "set_argument argument v a =
     (if argument = ''--state-dir'' then Inr (a\<lparr>pa_state_dir := Some v\<rparr>)
      else if argument = ''--module-dir'' then Inr (a\<lparr>pa_module_dir := Some v\<rparr>)
      else if argument = ''--manager-pin'' then Inr (a\<lparr>pa_manager_pin := Some v\<rparr>)
      else if argument = ''--ready-file'' then Inr (a\<lparr>pa_ready_file := Some v\<rparr>)
      else if argument = ''--android-sdk'' then
        (case parse_unsigned is_u32 v of
           Some n \<Rightarrow> Inr (a\<lparr>pa_android_sdk := Some n\<rparr>)
         | None \<Rightarrow> Inl (ArgumentsError ''--android-sdk must be an integer''))
      else Inl (ArgumentsError (''unknown argument '' @ argument)))"

fun read_arguments :: "string list \<Rightarrow> ParsedArguments \<Rightarrow> MainError + ParsedArguments" where
  "read_arguments [] a = Inr a"
| "read_arguments [argument] a = Inl (ArgumentsError (''missing value after '' @ argument))"
| "read_arguments (argument # v # rest) a = bind_result (set_argument argument v a) (read_arguments rest)"

definition required :: "string \<Rightarrow> string option \<Rightarrow> MainError + string" where
  "required name v = (case v of None \<Rightarrow> Inl (ArgumentsError (name @ '' is required'')) | Some x \<Rightarrow> Inr x)"

definition parse_arguments :: "string list \<Rightarrow> MainError + Arguments" where
  "parse_arguments argv =
     bind_result (read_arguments argv no_arguments) (\<lambda>a.
     bind_result (required ''--state-dir'' (pa_state_dir a)) (\<lambda>state_dir.
     bind_result (required ''--module-dir'' (pa_module_dir a)) (\<lambda>module_dir.
     bind_result (required ''--manager-pin'' (pa_manager_pin a)) (\<lambda>manager_pin.
       Inr \<lparr>ar_state_dir = state_dir, ar_module_dir = module_dir, ar_manager_pin = manager_pin,
            ar_ready_file = unwrap_or (pa_ready_file a) (path_join state_dir ''runtime/ready''),
            ar_android_sdk = pa_android_sdk a\<rparr>))))"

text \<open>\<^verbatim>\<open>getprop\<close>: whether it ran and with what success and output.\<close>

definition read_android_sdk :: "(bool \<times> string) option \<Rightarrow> int" where
  "read_android_sdk output =
     (case output of
        Some (True, out) \<Rightarrow> if valid_utf8 out then unwrap_or (parse_unsigned is_u32 (trim out)) 0 else 0
      | _ \<Rightarrow> 0)"

section \<open>The package index\<close>

definition INDEX_RETRY_LIMIT :: nat where "INDEX_RETRY_LIMIT = 60"

text \<open>The thread that waits for the package manager, with the number of tries left.\<close>

fun index_retry :: "nat \<Rightarrow> (nat \<Rightarrow> Env) \<Rightarrow> DaemonCore \<Rightarrow> DaemonCore" where
  "index_retry 0 envs c = c"
| "index_retry (Suc n) envs c =
     (case load_package_index (env_package_sources (envs 0)) of
        Inl _ \<Rightarrow> index_retry n (envs \<circ> Suc) c
      | Inr ix \<Rightarrow>
          if \<not> ix_system_flags_known ix then index_retry n (envs \<circ> Suc) c
          else snd (reclassify_stored_packages (envs 0) (replace_packages ix c)))"

definition complete_package_index :: "(nat \<Rightarrow> Env) \<Rightarrow> DaemonCore \<Rightarrow> DaemonCore" where
  "complete_package_index envs c =
     (if package_flags_known c then c else index_retry INDEX_RETRY_LIMIT envs c)"

section \<open>The start\<close>

text \<open>What the start finds outside: the directory, the opened store, the files beside the configuration, the pin, and
  whether the servers and the supervisor start.\<close>

record StartInputs =
  si_mkdir_fails :: "string option"
  si_store :: "StoreError + Store"
  si_config_files :: "path \<rightharpoonup> string"
  si_pin_metadata :: "PinMetadata option"
  si_pin_content :: "string option"
  si_getprop :: "(bool \<times> string) option"
  si_server_fails :: "string option"
  si_supervisor :: "string option"
  si_ready_fails :: "string option"

definition or_fail :: "('e \<Rightarrow> MainError) \<Rightarrow> 'e + 'a \<Rightarrow> MainError + 'a" where
  "or_fail f r = (case r of Inl e \<Rightarrow> Inl (f e) | Inr x \<Rightarrow> Inr x)"

definition unless_fails :: "('e \<Rightarrow> MainError) \<Rightarrow> 'e option \<Rightarrow> MainError + unit" where
  "unless_fails f r = (case r of Some e \<Rightarrow> Inl (f e) | None \<Rightarrow> Inr ())"

text \<open>The core as the servers are given it: the level and the space are only tried, the mutes have to be cleared.\<close>

definition prepared_core :: "(nat \<Rightarrow> Env) \<Rightarrow> Store \<Rightarrow> (path \<rightharpoonup> string) \<Rightarrow> PackageIndex \<Rightarrow> MainError + DaemonCore" where
  "prepared_core envs s fs ix =
     (let c1 = snd (apply_log_level (envs 0) (core_new s fs ix))
      in case clear_volatile_mutes (envs 1) c1 of
           (Inl err, _) \<Rightarrow> Inl (MainWire err)
         | (Inr _, c2) \<Rightarrow> Inr (snd (reclaim_storage (envs 2) c2)))"

definition daemon_start :: "(nat \<Rightarrow> Env) \<Rightarrow> StartInputs \<Rightarrow> string list \<Rightarrow> MainError + (DaemonCore \<times> u8 list \<times> int)" where
  "daemon_start envs i argv =
     bind_result (parse_arguments argv) (\<lambda>arguments.
     bind_result (unless_fails MainIo (si_mkdir_fails i)) (\<lambda>_.
     bind_result (or_fail MainStore (si_store i)) (\<lambda>s.
     bind_result (or_fail MainPackages (load_package_index (env_package_sources (envs 0)))) (\<lambda>ix.
     bind_result (or_fail MainAuth (pin_load (si_pin_metadata i) (si_pin_content i))) (\<lambda>pin.
     bind_result (prepared_core envs s (si_config_files i) ix) (\<lambda>c.
     bind_result (unless_fails MainServer (si_server_fails i)) (\<lambda>_.
     bind_result
       (or_fail MainBridge
         (supervisor_start (si_supervisor i)
           (android_defaults (path_join (ar_module_dir arguments) ''dex/cch_bridge.dex'') BRIDGE_SOCKET_NAME
             ''io.github.lingqiqi5211.crashcatcher''))) (\<lambda>_.
     bind_result (unless_fails MainIo (si_ready_fails i)) (\<lambda>_.
       Inr (c, pin, (case ar_android_sdk arguments of Some n \<Rightarrow> n | None \<Rightarrow> read_android_sdk (si_getprop i))))))))))))"

end
