(* ===== verification/Startup_Props.thy ===== *)
theory Startup_Props
  imports Startup Daemon_Props
begin

text \<open>
  The start of the daemon: what the arguments mean in any order, what holds when the servers are started, what keeps the
  daemon from starting at all, and when the package index becomes complete.
\<close>

section \<open>Arguments\<close>

definition argument_ok :: "string \<times> string \<Rightarrow> bool" where
  "argument_ok kv =
     (fst kv \<in> {''--state-dir'', ''--module-dir'', ''--manager-pin'', ''--ready-file''} \<or>
      fst kv = ''--android-sdk'' \<and> parse_unsigned is_u32 (snd kv) \<noteq> None)"

definition put_argument :: "string \<times> string \<Rightarrow> ParsedArguments \<Rightarrow> ParsedArguments" where
  "put_argument kv a = (case set_argument (fst kv) (snd kv) a of Inr b \<Rightarrow> b | Inl _ \<Rightarrow> a)"

lemma set_argument_put: "argument_ok kv \<Longrightarrow> set_argument (fst kv) (snd kv) a = Inr (put_argument kv a)"
  by (auto simp: argument_ok_def put_argument_def set_argument_def split: option.split)

lemma set_argument_bad: "\<not> argument_ok kv \<Longrightarrow> \<exists>e. set_argument (fst kv) (snd kv) a = Inl (ArgumentsError e)"
  by (auto simp: argument_ok_def set_argument_def split: option.split)

lemma read_arguments_pairs:
  "if list_all argument_ok kvs then read_arguments (concat (map (\<lambda>(k, v). [k, v]) kvs)) a = Inr (fold put_argument kvs a)
   else \<exists>e. read_arguments (concat (map (\<lambda>(k, v). [k, v]) kvs)) a = Inl (ArgumentsError e)"
proof (induction kvs arbitrary: a)
  case (Cons kv kvs)
  obtain k v where kv: "kv = (k, v)" by (cases kv)
  show ?case
  proof (cases "argument_ok kv")
    case True
    then show ?thesis using Cons [of "put_argument kv a"] set_argument_put [OF True, of a] by (auto simp: kv bind_result_def)
  next
    case False
    then show ?thesis using set_argument_bad [OF False, of a] by (auto simp: kv bind_result_def)
  qed
qed simp

lemma put_argument_fields:
  assumes "argument_ok kv"
  shows "pa_state_dir (put_argument kv a) = (if fst kv = ''--state-dir'' then Some (snd kv) else pa_state_dir a)"
    "pa_module_dir (put_argument kv a) = (if fst kv = ''--module-dir'' then Some (snd kv) else pa_module_dir a)"
    "pa_manager_pin (put_argument kv a) = (if fst kv = ''--manager-pin'' then Some (snd kv) else pa_manager_pin a)"
    "pa_ready_file (put_argument kv a) = (if fst kv = ''--ready-file'' then Some (snd kv) else pa_ready_file a)"
    "pa_android_sdk (put_argument kv a) = (if fst kv = ''--android-sdk'' then parse_unsigned is_u32 (snd kv) else pa_android_sdk a)"
  using assms by (auto simp: argument_ok_def put_argument_def set_argument_def)

text \<open>The last of several settings is the one that counts.\<close>

lemma fold_put_field:
  assumes "\<And>kv a. argument_ok kv \<Longrightarrow> field (put_argument kv a) = (if fst kv = name then g (snd kv) else field a)"
    and "list_all argument_ok kvs"
  shows "field (fold put_argument kvs a) = (case map_of (rev kvs) name of Some v \<Rightarrow> g v | None \<Rightarrow> field a)"
  using assms(2)
proof (induction kvs rule: rev_induct)
  case (snoc kv kvs)
  then show ?case using assms(1) [of kv "fold put_argument kvs a"] by (cases kv) simp
qed simp

text \<open>the arguments are accepted exactly when each is a known option with a value of its type and the three required ones
  are there; they may come in any order, of several settings of one option the last counts, and the ready file
  is in the state directory when it is not named.\<close>
theorem arguments_exact:
  "parse_arguments (concat (map (\<lambda>(k, v). [k, v]) kvs)) = Inr ar \<longleftrightarrow>
     list_all argument_ok kvs \<and>
     map_of (rev kvs) ''--state-dir'' = Some (ar_state_dir ar) \<and>
     map_of (rev kvs) ''--module-dir'' = Some (ar_module_dir ar) \<and>
     map_of (rev kvs) ''--manager-pin'' = Some (ar_manager_pin ar) \<and>
     ar_ready_file ar = unwrap_or (map_of (rev kvs) ''--ready-file'') (path_join (ar_state_dir ar) ''runtime/ready'') \<and>
     ar_android_sdk ar = Option.bind (map_of (rev kvs) ''--android-sdk'') (parse_unsigned is_u32)"
proof (cases "list_all argument_ok kvs")
  case True
  let ?a = "fold put_argument kvs no_arguments"
  have "read_arguments (concat (map (\<lambda>(k, v). [k, v]) kvs)) no_arguments = Inr ?a"
    using read_arguments_pairs [of kvs no_arguments] True by simp
  moreover have "pa_state_dir ?a = map_of (rev kvs) ''--state-dir''" "pa_module_dir ?a = map_of (rev kvs) ''--module-dir''"
    "pa_manager_pin ?a = map_of (rev kvs) ''--manager-pin''" "pa_ready_file ?a = map_of (rev kvs) ''--ready-file''"
    "pa_android_sdk ?a = Option.bind (map_of (rev kvs) ''--android-sdk'') (parse_unsigned is_u32)"
    using fold_put_field [of pa_state_dir "''--state-dir''" Some, OF put_argument_fields(1) True]
      fold_put_field [of pa_module_dir "''--module-dir''" Some, OF put_argument_fields(2) True]
      fold_put_field [of pa_manager_pin "''--manager-pin''" Some, OF put_argument_fields(3) True]
      fold_put_field [of pa_ready_file "''--ready-file''" Some, OF put_argument_fields(4) True]
      fold_put_field [of pa_android_sdk "''--android-sdk''" "parse_unsigned is_u32", OF put_argument_fields(5) True]
    by (simp_all add: no_arguments_def split: option.split)
  ultimately show ?thesis
    using True by (cases ar) (auto simp: parse_arguments_def bind_result_Inr required_def split: option.splits)
next
  case False
  then show ?thesis using read_arguments_pairs [of kvs no_arguments] by (auto simp: parse_arguments_def bind_result_def)
qed

section \<open>What holds when the servers start\<close>

lemma apply_log_level_rest:
  "core_files (snd (apply_log_level e c)) = core_files c" "core_volatile_mutes (snd (apply_log_level e c)) = core_volatile_mutes c"
  "core_packages (snd (apply_log_level e c)) = core_packages c"
  by (simp_all add: apply_log_level_def split: sum.split)

lemma clear_volatile_memory:
  assumes "core_volatile_mutes c = Map.empty"
  shows "core_volatile_mutes (snd (clear_volatile_mutes e c)) = Map.empty"
proof (cases "load_config e c")
  case (Inr cfg)
  have "core_volatile_mutes (snd (drop_mutes e ps c1)) = core_volatile_mutes c1" for ps c1
    using unmute_stored_rest(1) [of c1 e ps]
    by (auto simp: drop_mutes_def snd_bind same_rest_def update_config_def split: sum.split prod.split)
  then show ?thesis using Inr assms by (simp add: clear_volatile_mutes_def clear_mutes_def snd_bind forget_mutes_def split: sum.split)
qed (use assms in \<open>simp add: clear_volatile_mutes_def clear_mutes_def bind_store_def\<close>)


lemma or_fail_Inr: "or_fail f r = Inr x \<longleftrightarrow> r = Inr x"
  by (cases r) (simp_all add: or_fail_def)

lemma started_parts:
  assumes "daemon_start envs i argv = Inr (c, pin, sdk)"
  obtains s ix where "si_store i = Inr s" and "load_package_index (env_package_sources (envs 0)) = Inr ix"
    and "pin_load (si_pin_metadata i) (si_pin_content i) = Inr pin" and "prepared_core envs s (si_config_files i) ix = Inr c"
  using assms that by (auto simp: daemon_start_def bind_result_Inr or_fail_Inr)

text \<open>C36: when the daemon has started, every mute of the last run is gone, in memory and in the stored configuration, which can be
  read; and the pin that managers are checked against came from a regular file of root that nobody else can
  write, and is a digest of 32 bytes that are not all zero.\<close>
theorem started_without_mutes:
  assumes "json_ok fj tj" and "steady fj tj P (envs 1)" and "steady fj tj P (envs 2)" and "config_is fj P (si_config_files i) doc"
    and "daemon_start envs i argv = Inr (c, pin, sdk)"
  shows "core_volatile_mutes c = Map.empty \<and>
    (\<exists>doc'. load_config (envs 2) c = Inr doc' \<and> (\<forall>p. mute (app doc' p) = MuteNone)) \<and>
    length pin = 32 \<and> \<not> list_all (\<lambda>b. b = 0) pin \<and>
    (\<exists>m. si_pin_metadata i = Some m \<and> pin_is_file m \<and> pin_uid m = 0 \<and> pin_gid m = 0 \<and> pin_mode m AND 18 = 0)"
proof -
  obtain s ix where p: "pin_load (si_pin_metadata i) (si_pin_content i) = Inr pin"
    and prep: "prepared_core envs s (si_config_files i) ix = Inr c"
    by (rule started_parts [OF assms(5)])
  define c1 where "c1 = snd (apply_log_level (envs 0) (core_new s (si_config_files i) ix))"
  define c2 where "c2 = snd (clear_volatile_mutes (envs 1) c1)"
  have c: "c = snd (reclaim_storage (envs 2) c2)"
    using prep unfolding prepared_core_def Let_def c1_def [symmetric] c2_def by (auto split: prod.splits sum.splits)
  have mem: "core_volatile_mutes c1 = Map.empty" and files: "core_files c1 = si_config_files i"
    by (simp_all add: c1_def apply_log_level_rest core_new_def)
  have quiet: "quiet_mutes c2 c"
    unfolding c reclaim_storage_def by (auto intro!: quiet_bind quiet_on_store split: sum.split)
  have vol: "core_volatile_mutes c = Map.empty"
    using quiet clear_volatile_memory [OF mem] by (simp add: quiet_mutes_def c2_def)
  have "mutes_agree fj P c2"
    unfolding c2_def using startup_agree [OF assms(1,2) _ mem] assms(4) files by simp
  then have "mutes_agree fj P c" by (rule quiet_agree [OF quiet])
  from mutes_agree_load [OF this assms(3)] obtain doc' where "load_config (envs 2) c = Inr doc'"
    "\<And>p. core_volatile_mutes c p = (if mute (app doc' p) = MuteNone then None else Some (mute (app doc' p)))" by blast
  then have "\<exists>doc'. load_config (envs 2) c = Inr doc' \<and> (\<forall>p. mute (app doc' p) = MuteNone)"
    using vol by (metis option.distinct(1))
  then show ?thesis using vol p pin_load_Inr [OF p] pin_parse_length by blast
qed


definition sample_inputs :: "(path \<rightharpoonup> string) \<Rightarrow> StartInputs" where
  "sample_inputs fs =
     \<lparr>si_mkdir_fails = None, si_store = Inr fresh_store, si_config_files = fs,
      si_pin_metadata = Some \<lparr>pin_is_file = True, pin_uid = 0, pin_gid = 0, pin_mode = 384, pin_len = 64\<rparr>,
      si_pin_content = Some (hex_encode sample_pin), si_getprop = None, si_server_fails = None, si_supervisor = None,
      si_ready_fails = None\<rparr>"

definition sample_argv :: "string list" where
  "sample_argv = [''--state-dir'', ''/s'', ''--module-dir'', ''/m'', ''--manager-pin'', ''/p'']"

definition listed_env :: Env where
  "listed_env = sample_env\<lparr>env_package_sources := \<lparr>ps_list = Some [], ps_pm_paths = None, ps_pm_system = None\<rparr>\<rparr>"

lemma listed_steady: "steady sample_from_json sample_to_json [''c''] listed_env"
  using sample_steady by (simp add: steady_def listed_env_def)

lemma sample_argv_parsed: "\<exists>ar. parse_arguments sample_argv = Inr ar"
  by (simp add: parse_arguments_def sample_argv_def set_argument_def no_arguments_def required_def bind_result_def)

theorem started_without_mutes_witness:
  "\<exists>c pin sdk. daemon_start (\<lambda>_. listed_env) (sample_inputs Map.empty) sample_argv = Inr (c, pin, sdk) \<and> core_volatile_mutes c = Map.empty"
proof -
  have cfg: "config_is sample_from_json [''c''] Map.empty document_default" by (simp add: config_is_def document_default_def)
  obtain ar where ar: "parse_arguments sample_argv = Inr ar" using sample_argv_parsed by blast
  have "lines [] = ([] :: string list)" by code_simp
  then obtain ix where ix: "load_package_index (env_package_sources listed_env) = Inr ix"
    by (simp add: load_package_index_def listed_env_def build_def bind_result_def)
  define c1 where "c1 = snd (apply_log_level listed_env (core_new fresh_store Map.empty ix))"
  have files: "core_files c1 = Map.empty" by (simp add: c1_def apply_log_level_rest core_new_def)
  have "load_config listed_env c1 = Inr document_default"
    by (rule load_steady [OF listed_steady]) (simp add: files cfg)
  then have "fst (clear_volatile_mutes listed_env c1) = Inr ()"
    by (simp add: clear_volatile_mutes_def clear_mutes_def cleared_mutes_def configured_mutes_def remembered_mutes_def
        drop_mutes_def btree_keys_def document_default_def c1_def apply_log_level_rest core_new_def)
  then obtain c where c: "prepared_core (\<lambda>_. listed_env) fresh_store Map.empty ix = Inr c"
    unfolding prepared_core_def Let_def c1_def [symmetric] by (cases "clear_volatile_mutes listed_env c1") auto
  have "BRIDGE_SOCKET_NAME \<noteq> []" by (simp add: BRIDGE_SOCKET_NAME_def)
  then obtain sdk where "daemon_start (\<lambda>_. listed_env) (sample_inputs Map.empty) sample_argv = Inr (c, sample_pin, sdk)"
    using ar ix c sample_pin_load
    by (simp add: daemon_start_def sample_inputs_def bind_result_def unless_fails_def or_fail_def supervisor_start_def
        android_defaults_def)
  with started_without_mutes [OF sample_json_ok listed_steady listed_steady _ this] cfg show ?thesis
    by (auto simp: sample_inputs_def)
qed


section \<open>The package index\<close>

text \<open>the index becomes complete exactly when one of the first sixty tries finds the package manager answering; the first
  that does replaces the index, and the groups stored before are classified again.\<close>
theorem index_completed_exactly:
  "complete_package_index envs c =
     (if package_flags_known c then c
      else
        (case find (\<lambda>i. case load_package_index (env_package_sources (envs i)) of Inl _ \<Rightarrow> False | Inr ix \<Rightarrow> ix_system_flags_known ix) [0..<60] of
           None \<Rightarrow> c
         | Some i \<Rightarrow>
             snd (reclassify_stored_packages (envs i)
               (c\<lparr>core_packages := projr (load_package_index (env_package_sources (envs i)))\<rparr>))))"
proof -
  have "index_retry n (\<lambda>j. envs (k + j)) c =
      (case find (\<lambda>i. case load_package_index (env_package_sources (envs i)) of Inl _ \<Rightarrow> False | Inr ix \<Rightarrow> ix_system_flags_known ix) [k..<k + n] of
         None \<Rightarrow> c
       | Some i \<Rightarrow>
           snd (reclassify_stored_packages (envs i)
             (c\<lparr>core_packages := projr (load_package_index (env_package_sources (envs i)))\<rparr>)))" for n k
  proof (induction n arbitrary: k)
    case (Suc n)
    have "[k..<k + Suc n] = k # [Suc k..<Suc k + n]" by (simp add: upt_conv_Cons)
    moreover have "(\<lambda>j. envs (k + j)) \<circ> Suc = (\<lambda>j. envs (Suc k + j))" by (simp add: comp_def)
    ultimately show ?case using Suc [of "Suc k"] by (auto simp: replace_packages_def split: sum.split)
  qed simp
  from this [of INDEX_RETRY_LIMIT 0] show ?thesis
    by (simp add: complete_package_index_def INDEX_RETRY_LIMIT_def del: upt_Suc)
qed

end
