(* ===== verification/Logd_Reader.thy ===== *)
theory Logd_Reader
  imports Collectors
begin

text \<open>
  \<^verbatim>\<open>cch_logd/reader.rs\<close>: reading entries through liblog.  What the library answers is the input: whether it and
  its functions are found, whether a list is allocated and opened, and for each read the returned length and
  the buffer it filled.  The reader loop of the collectors is fed from this.
\<close>

definition LOGGER_ENTRY_MAX_BYTES :: nat where "LOGGER_ENTRY_MAX_BYTES = 64 * 1024"

datatype LogBuffer = EventsBuffer | CrashLogBuffer

fun log_buffer_id :: "LogBuffer \<Rightarrow> int" where
  "log_buffer_id EventsBuffer = 2"
| "log_buffer_id CrashLogBuffer = 4"

datatype LogReaderError =
  LoadFailed string
| AllocationFailed
| OpenFailed int
| LogReadFailed int
| EndOfStream
| InvalidLength
| InvalidEntry ParseError nat string

fun requires_reconnect :: "LogReaderError \<Rightarrow> bool" where
  "requires_reconnect (LogReadFailed _) = True"
| "requires_reconnect EndOfStream = True"
| "requires_reconnect _ = False"

text \<open>The library's answers while a reader is opened: an error of the loader for the library and each of its four functions,
  whether the list was allocated, and for a buffer the error of opening it.\<close>

record Liblog =
  lb_library :: "string option"
  lb_symbols :: "string \<Rightarrow> string option"
  lb_allocates :: bool
  lb_opens :: "int \<Rightarrow> int option"

definition log_symbols :: "string list" where
  "log_symbols = [''android_logger_list_alloc'', ''android_logger_open'', ''android_logger_list_read'', ''android_logger_list_free'']"

text \<open>Opening, with the number of lists that were allocated and not freed on the way to an error.\<close>

definition reader_open :: "Liblog \<Rightarrow> LogBuffer \<Rightarrow> (LogReaderError + unit) \<times> nat" where
  "reader_open lib buffer =
     (case lb_library lib of
        Some e \<Rightarrow> (Inl (LoadFailed e), 0)
      | None \<Rightarrow>
          (case List.map_filter (lb_symbols lib) log_symbols of
             e # _ \<Rightarrow> (Inl (LoadFailed e), 0)
           | [] \<Rightarrow>
               if \<not> lb_allocates lib then (Inl AllocationFailed, 0)
               else
                 (let allocated = 1
                  in case lb_opens lib (log_buffer_id buffer) of
                       Some errno \<Rightarrow> (Inl (OpenFailed errno), allocated - 1)
                     | None \<Rightarrow> (Inr (), allocated))))"

text \<open>\<^verbatim>\<open>-length\<close> on an \<^verbatim>\<open>i32\<close> wraps at its least value.\<close>

definition negated_i32 :: "int \<Rightarrow> int" where
  "negated_i32 n = (if n = i32_min then i32_min else - n)"

definition hex_prefix :: "u8 list \<Rightarrow> string" where
  "hex_prefix bytes = join_with '' '' (map (\<lambda>b. hex_encode [b]) (take 32 bytes))"

definition read_log_entry :: "int \<Rightarrow> u8 list \<Rightarrow> LogReaderError + LoggerEntry" where
  "read_log_entry len buffer =
     (if len = 0 then Inl EndOfStream
      else if len < 0 then Inl (LogReadFailed (negated_i32 len))
      else if nat len > length buffer then Inl InvalidLength
      else
        (case parse_logger_entry (take (nat len) buffer) of
           Inr entry \<Rightarrow> Inr entry
         | Inl e \<Rightarrow> Inl (InvalidEntry e (nat len) (hex_prefix (take (nat len) buffer)))))"

text \<open>What the collectors' loop sees of a read and of an opening.\<close>

definition log_read :: "(LogReaderError \<Rightarrow> string) \<Rightarrow> Env \<Rightarrow> int \<times> u8 list \<Rightarrow> LogRead" where
  "log_read describe e r =
     (case read_log_entry (fst r) (snd r) of
        Inr entry \<Rightarrow> ReadEntry e entry
      | Inl err \<Rightarrow> ReadFails (describe err) (requires_reconnect err))"

definition log_reader_open :: "(LogReaderError \<Rightarrow> string) \<Rightarrow> Liblog \<Rightarrow> LogBuffer \<Rightarrow> (Env \<times> int \<times> u8 list) list \<Rightarrow> LogOpen" where
  "log_reader_open describe lib buffer reads =
     (case fst (reader_open lib buffer) of
        Inl err \<Rightarrow> OpenFails (describe err)
      | Inr _ \<Rightarrow> Opens (map (\<lambda>(e, r). log_read describe e r) reads))"

section \<open>When the reader connects again\<close>

text \<open>the reader is replaced exactly when liblog itself ended or failed the read: an entry that cannot be parsed, or a
  length beyond the buffer, costs that entry only.\<close>
theorem reconnects_exactly_on_broken_streams:
  "(case read_log_entry len buffer of Inl e \<Rightarrow> requires_reconnect e | Inr _ \<Rightarrow> False) \<longleftrightarrow> len \<le> 0"
  by (auto simp: read_log_entry_def split: sum.split)

text \<open>opening never leaks a list: one is kept exactly when the reader is returned.\<close>
theorem reader_open_frees:
  "snd (reader_open lib buffer) = (case fst (reader_open lib buffer) of Inr _ \<Rightarrow> 1 | Inl _ \<Rightarrow> 0)"
  by (auto simp: reader_open_def Let_def split: option.split list.split)

text \<open>an entry is taken only from bytes that were read: the rest of the buffer, which holds older entries, plays no
  part.\<close>
theorem stale_bytes_ignored:
  "length a = nat len \<and> nat len \<le> length b + length a \<longrightarrow>
     (\<forall>e. read_log_entry len (a @ b) = Inr e \<longleftrightarrow> 0 < len \<and> parse_logger_entry a = Inr e)"
  by (auto simp: read_log_entry_def split: sum.split)

end
