(* ===== verification/Pack_Files.thy ===== *)
theory Pack_Files
  imports Apk_Sig Daemon "HOL-Library.Option_ord"
begin

text \<open>
  The file side of \<^verbatim>\<open>cch_packager/src/main.rs\<close>: the walk over a directory tree, the searches built on it, the copy
  of the module template and the plan of the module archive.

  A path is its list of components, an absolute one with an empty first component.  A directory is a tree whose
  entries stand in the order \<^verbatim>\<open>read_dir\<close> gives them; a directory that cannot be listed, an entry that
  cannot be read and a symbolic link are nodes of their own.
\<close>

section \<open>Paths\<close>

definition path_text :: "path \<Rightarrow> string" where "path_text p = join_with ''/'' p"

definition path_absolute :: "path \<Rightarrow> bool" where "path_absolute p \<longleftrightarrow> p \<noteq> [] \<and> hd p = []"

text \<open>\<^verbatim>\<open>Path::join\<close>, \<^verbatim>\<open>resolve\<close> and \<^verbatim>\<open>Path::strip_prefix\<close>.\<close>

definition join_path :: "path \<Rightarrow> path \<Rightarrow> path" where
  "join_path p q = (if path_absolute q then q else p @ q)"

definition resolve_path :: "path \<Rightarrow> path \<Rightarrow> path" where
  "resolve_path root p = (if path_absolute p then p else join_path root p)"

fun strip_path :: "path \<Rightarrow> path \<Rightarrow> path option" where
  "strip_path [] p = Some p"
| "strip_path (c # cs) [] = None"
| "strip_path (c # cs) (d # ds) = (if c = d then strip_path cs ds else None)"

lemma strip_path_append [simp]: "strip_path r (r @ p) = Some p"
  by (induction r) simp_all

section \<open>Errors\<close>

record PackCommand =
  pc_program :: string
  pc_dir :: "path option"
  pc_env :: "(string \<times> string) list"
  pc_args :: "string list"

datatype PackagerError =
  PackArguments string
| PackIo IoKind
| PackCommandFailed PackCommand
| MissingArtifact path
| UnsafePath path
| PackApk ApkSigError
| PackPin AuthError
| PackZip string
| PackThread

section \<open>Trees\<close>

datatype FsNode =
  RegularFile "u8 list"
| Directory "IoKind option" "(string \<times> FsNode) list"
| SymbolicLink
| OtherNode
| BadEntry IoKind

fun node_at :: "FsNode \<Rightarrow> path \<Rightarrow> FsNode option" where
  "node_at n [] = Some n"
| "node_at (Directory x es) (c # cs) = (case map_of es c of None \<Rightarrow> None | Some n \<Rightarrow> node_at n cs)"
| "node_at n (c # cs) = None"

fun is_dir_node :: "FsNode option \<Rightarrow> bool" where
  "is_dir_node (Some (Directory x es)) = True"
| "is_dir_node n = False"

fun is_file_node :: "FsNode option \<Rightarrow> bool" where
  "is_file_node (Some (RegularFile b)) = True"
| "is_file_node n = False"

fun file_bytes :: "FsNode option \<Rightarrow> PackagerError + u8 list" where
  "file_bytes (Some (RegularFile b)) = Inr b"
| "file_bytes None = Inl (PackIo IoNotFound)"
| "file_bytes n = Inl (PackIo (IoOther ''not a file''))"

text \<open>\<^verbatim>\<open>create_dir_all\<close> of the parent and the write of a file: missing directories are made, an existing file is replaced.\<close>

fun new_file :: "path \<Rightarrow> u8 list \<Rightarrow> FsNode" where
  "new_file [] b = RegularFile b"
| "new_file (c # cs) b = Directory None [(c, new_file cs b)]"

fun put_file :: "path \<Rightarrow> u8 list \<Rightarrow> FsNode \<Rightarrow> PackagerError + FsNode" where
  "put_file [] b (RegularFile _) = Inr (RegularFile b)"
| "put_file (c # cs) b (Directory x es) =
     (case map_of es c of
        None \<Rightarrow> Inr (Directory x (es @ [(c, new_file cs b)]))
      | Some n \<Rightarrow> (case put_file cs b n of Inl e \<Rightarrow> Inl e | Inr m \<Rightarrow> Inr (Directory x (AList.update c m es))))"
| "put_file p b n = Inl (PackIo (IoOther ''not a directory or not a file''))"

section \<open>The walk\<close>

text \<open>The inner loop over the entries of one directory; directories go onto the stack, files to the output.\<close>

fun walk_entries :: "path \<Rightarrow> (string \<times> FsNode) list \<Rightarrow> (path \<times> FsNode) list \<Rightarrow> path list \<Rightarrow>
    PackagerError + (path \<times> FsNode) list \<times> path list" where
  "walk_entries dir [] todo out = Inr (todo, out)"
| "walk_entries dir ((c, n) # es) todo out =
     (case n of
        BadEntry e \<Rightarrow> Inl (PackIo e)
      | SymbolicLink \<Rightarrow> Inl (UnsafePath (dir @ [c]))
      | Directory _ _ \<Rightarrow> walk_entries dir es ((dir @ [c], n) # todo) out
      | RegularFile _ \<Rightarrow> walk_entries dir es todo (out @ [dir @ [c]])
      | OtherNode \<Rightarrow> walk_entries dir es todo out)"

fun tree_size :: "FsNode \<Rightarrow> nat" where
  "tree_size (Directory x es) = Suc (sum_list (map (\<lambda>(c, n). tree_size n) es))"
| "tree_size n = 1"

lemma walk_entries_size:
  "walk_entries dir es todo out = Inr (todo', out') \<Longrightarrow>
   sum_list (map (\<lambda>(p, n). tree_size n) todo') \<le>
     sum_list (map (\<lambda>(p, n). tree_size n) todo) + sum_list (map (\<lambda>(c, n). tree_size n) es)"
proof (induction es arbitrary: todo out)
  case (Cons e es)
  obtain c n where e: "e = (c, n)" by (cases e)
  show ?case
  proof (cases n)
    case (Directory x ds)
    then have "walk_entries dir es ((dir @ [c], n) # todo) out = Inr (todo', out')" using Cons.prems by (simp add: e)
    from Cons.IH [OF this] show ?thesis by (simp add: e)
  next
    case (RegularFile b)
    then have "walk_entries dir es todo (out @ [dir @ [c]]) = Inr (todo', out')" using Cons.prems by (simp add: e)
    from Cons.IH [OF this] show ?thesis by (simp add: e)
  next
    case OtherNode
    then have "walk_entries dir es todo out = Inr (todo', out')" using Cons.prems by (simp add: e)
    from Cons.IH [OF this] show ?thesis by (simp add: e)
  qed (use Cons.prems in \<open>simp_all add: e\<close>)
qed simp

function walk :: "(path \<times> FsNode) list \<Rightarrow> path list \<Rightarrow> PackagerError + path list" where
  "walk [] out = Inr out"
| "walk ((dir, Directory None es) # todo) out =
     (case walk_entries dir es todo out of
        Inl e \<Rightarrow> Inl e
      | Inr (todo', out') \<Rightarrow> walk todo' out')"
| "walk ((dir, Directory (Some e) es) # todo) out = Inl (PackIo e)"
| "walk ((dir, RegularFile b) # todo) out = Inl (PackIo (IoOther ''not a directory''))"
| "walk ((dir, SymbolicLink) # todo) out = Inl (PackIo (IoOther ''not a directory''))"
| "walk ((dir, OtherNode) # todo) out = Inl (PackIo (IoOther ''not a directory''))"
| "walk ((dir, BadEntry e) # todo) out = Inl (PackIo e)"
  by pat_completeness auto
termination
  by (relation "measure (\<lambda>(todo, _). sum_list (map (\<lambda>(p, n). tree_size n) todo))")
     (auto simp: less_Suc_eq_le add.commute dest!: walk_entries_size)

text \<open>\<open>None\<close> is a root that does not exist.\<close>

definition all_files :: "path \<Rightarrow> FsNode option \<Rightarrow> PackagerError + path list" where
  "all_files root node = (case node of None \<Rightarrow> Inl (PackIo IoNotFound) | Some n \<Rightarrow> walk [(root, n)] [])"

definition component_extension :: "path \<Rightarrow> string option" where
  "component_extension p =
     (if p = [] \<or> last p = [] then None
      else if last p = ''..'' then None
      else (case rsplit_once CHR ''.'' (last p) of
              None \<Rightarrow> None | Some (stem, ext) \<Rightarrow> if stem = [] then None else Some ext))"

definition files_with_extension :: "path \<Rightarrow> FsNode option \<Rightarrow> string \<Rightarrow> PackagerError + path list" where
  "files_with_extension root node extension =
     bind_result (all_files root node) (\<lambda>ps. Inr (filter (\<lambda>p. component_extension p = Some extension) ps))"

text \<open>\<open>modified\<close> is the modification time, when the file system gives one; files without one come first.\<close>

definition newest_file_with_extension ::
  "(path \<Rightarrow> int option) \<Rightarrow> path \<Rightarrow> FsNode option \<Rightarrow> string \<Rightarrow> PackagerError + path option" where
  "newest_file_with_extension modified root node extension =
     bind_result (files_with_extension root node extension) (\<lambda>ps.
       let candidates = sort_key modified ps
       in Inr (if candidates = [] then None else Some (last candidates)))"

text \<open>\<open>fs\<close> is the file system as \<^verbatim>\<open>is_dir\<close> sees it, with links followed.\<close>

definition newest_directory :: "(path \<Rightarrow> FsNode option) \<Rightarrow> path \<Rightarrow> PackagerError + path option" where
  "newest_directory fs root =
     (case fs root of
        Some (Directory None es) \<Rightarrow>
          (let directories = sort (filter (\<lambda>p. is_dir_node (fs p))
                 (List.map_filter (\<lambda>(c, n). case n of BadEntry _ \<Rightarrow> None | _ \<Rightarrow> Some (root @ [c])) es))
           in Inr (if directories = [] then None else Some (last directories)))
      | Some (Directory (Some e) es) \<Rightarrow> Inl (PackIo e)
      | _ \<Rightarrow> Inr None)"

section \<open>Copying the template\<close>

text \<open>The files in the order of the walk; \<open>dst\<close> is the tree at the destination.\<close>

fun copy_files :: "path \<Rightarrow> FsNode \<Rightarrow> path list \<Rightarrow> FsNode \<Rightarrow> PackagerError + FsNode" where
  "copy_files root src [] dst = Inr dst"
| "copy_files root src (p # ps) dst =
     (case strip_path root p of
        None \<Rightarrow> Inl (UnsafePath p)
      | Some relative \<Rightarrow>
          bind_result (file_bytes (node_at src relative)) (\<lambda>b.
          bind_result (put_file relative b dst) (copy_files root src ps)))"

definition copy_tree :: "path \<Rightarrow> FsNode option \<Rightarrow> FsNode \<Rightarrow> PackagerError + FsNode" where
  "copy_tree root src dst =
     (case src of
        Some (Directory x es) \<Rightarrow>
          bind_result (all_files root src) (\<lambda>ps. copy_files root (Directory x es) ps dst)
      | _ \<Rightarrow> Inl (MissingArtifact root))"

section \<open>The archive\<close>

record ZipEntry =
  ze_name :: string
  ze_mode :: nat
  ze_data :: "u8 list"

definition replace_char :: "char \<Rightarrow> char \<Rightarrow> string \<Rightarrow> string" where
  "replace_char a b s = map (\<lambda>c. if c = a then b else c) s"

definition zip_name :: "path \<Rightarrow> string" where
  "zip_name relative = replace_char (CHR 0x5C) (CHR ''/'') (from_utf8_lossy (path_text relative))"

definition unsafe_name :: "string \<Rightarrow> bool" where
  "unsafe_name name \<longleftrightarrow> prefix ''/'' name \<or> ''..'' \<in> set (split_on CHR ''/'' name)"

definition zip_executable :: "string \<Rightarrow> bool" where
  "zip_executable name \<longleftrightarrow> suffix ''.sh'' name \<or> suffix ''/catcherd'' name"

text \<open>The entry of a file: mode 0755 or 0644.\<close>

definition zip_entry :: "string \<Rightarrow> u8 list \<Rightarrow> ZipEntry" where
  "zip_entry name b = \<lparr>ze_name = name, ze_mode = (if zip_executable name then 493 else 420), ze_data = b\<rparr>"

text \<open>\<open>start_file\<close> is the archive writer's answer to a new name after the entries it has: an error, or none.\<close>

fun zip_files ::
  "(ZipEntry list \<Rightarrow> string \<Rightarrow> string option) \<Rightarrow> path \<Rightarrow> path \<Rightarrow> FsNode \<Rightarrow> path list \<Rightarrow> ZipEntry list \<Rightarrow>
   PackagerError + ZipEntry list" where
  "zip_files start_file root out tree [] archive = Inr archive"
| "zip_files start_file root out tree (p # ps) archive =
     (if p = out then zip_files start_file root out tree ps archive
      else
        (case strip_path root p of
           None \<Rightarrow> Inl (UnsafePath p)
         | Some relative \<Rightarrow>
             (let name = zip_name relative
              in if unsafe_name name then Inl (UnsafePath relative)
                 else
                   (case start_file archive name of
                      Some e \<Rightarrow> Inl (PackZip e)
                    | None \<Rightarrow>
                        bind_result (file_bytes (node_at tree relative)) (\<lambda>b.
                          zip_files start_file root out tree ps
                            (archive @ [zip_entry name b]))))))"

definition create_zip ::
  "(ZipEntry list \<Rightarrow> string \<Rightarrow> string option) \<Rightarrow> path \<Rightarrow> FsNode \<Rightarrow> path \<Rightarrow> PackagerError + ZipEntry list" where
  "create_zip start_file root tree out =
     bind_result (all_files root (Some tree)) (\<lambda>ps. zip_files start_file root out tree (sort ps) [])"

end
