(* ===== verification/Packager.thy ===== *)
theory Packager
  imports Pack_Files
begin

text \<open>
  The rest of \<^verbatim>\<open>cch_packager/src/main.rs\<close>: the version that every part of the module carries, the manager pin, and
  the three builds.  Programs the packager runs (\<^verbatim>\<open>git\<close>, \<^verbatim>\<open>cargo\<close>, \<^verbatim>\<open>javac\<close>, \<^verbatim>\<open>d8\<close>, Gradle) are parameters, and
  so are the file system it finds, its temporary directories and the archive writer.  A build ends in an error or in the
  file it leaves.
\<close>

section \<open>ABIs and hosts\<close>

datatype Abi = Arm64V8a | ArmeabiV7a | X86_64

definition Abi_ALL :: "Abi list" where "Abi_ALL = [Arm64V8a, ArmeabiV7a, X86_64]"

fun android_name :: "Abi \<Rightarrow> string" where
  "android_name Arm64V8a = ''arm64-v8a''"
| "android_name ArmeabiV7a = ''armeabi-v7a''"
| "android_name X86_64 = ''x86_64''"

fun rust_target :: "Abi \<Rightarrow> string" where
  "rust_target Arm64V8a = ''aarch64-linux-android''"
| "rust_target ArmeabiV7a = ''armv7-linux-androideabi''"
| "rust_target X86_64 = ''x86_64-linux-android''"

fun clang_prefix :: "Abi \<Rightarrow> string" where
  "clang_prefix Arm64V8a = ''aarch64-linux-android''"
| "clang_prefix ArmeabiV7a = ''armv7a-linux-androideabi''"
| "clang_prefix X86_64 = ''x86_64-linux-android''"

text \<open>What \<^verbatim>\<open>cfg!\<close> tells the packager of the machine it was built for.\<close>

datatype Host = HostWindows | HostMacArm | HostMacIntel | HostLinux

definition android_build_tool :: "Host \<Rightarrow> string \<Rightarrow> string" where
  "android_build_tool h name = (if h = HostWindows then name @ ''.bat'' else name)"

definition ndk_tool :: "Host \<Rightarrow> string \<Rightarrow> string" where
  "ndk_tool h name = (if h = HostWindows then name @ ''.cmd'' else name)"

definition llvm_tool :: "Host \<Rightarrow> string \<Rightarrow> string" where
  "llvm_tool h name = (if h = HostWindows then name @ ''.exe'' else name)"

fun ndk_host_tag :: "Host \<Rightarrow> string" where
  "ndk_host_tag HostWindows = ''windows-x86_64''"
| "ndk_host_tag HostMacArm = ''darwin-arm64''"
| "ndk_host_tag HostMacIntel = ''darwin-x86_64''"
| "ndk_host_tag HostLinux = ''linux-x86_64''"

section \<open>The build environment\<close>

text \<open>\<open>be_fs\<close> is the tree at a path with links followed.  \<open>be_exec\<close> runs a command for which the given files were
  written before: it does not start, or it has a status and leaves its results in a tree.\<close>

record BuildEnv =
  be_fs :: "path \<Rightarrow> FsNode option"
  be_canonical :: "path \<Rightarrow> IoKind + path"
  be_var :: "string \<Rightarrow> path option"
  be_cwd :: "IoKind + path"
  be_temp :: "IoKind + path"
  be_staging :: "IoKind + path"
  be_host :: Host
  be_modified :: "path \<Rightarrow> int option"
  be_git :: "path \<Rightarrow> string list \<Rightarrow> (bool \<times> string) option"
  be_exec :: "PackCommand \<Rightarrow> (path \<times> string) list \<Rightarrow> IoKind + bool \<times> FsNode option"
  be_open_apk :: "string \<Rightarrow> IoKind + (nat \<Rightarrow> IoKind option) \<times> u8 list"
  be_sha :: "u8 list \<Rightarrow> u8 list"
  be_start_file :: "ZipEntry list \<Rightarrow> string \<Rightarrow> string option"

definition pack_io :: "IoKind + 'a \<Rightarrow> PackagerError + 'a" where
  "pack_io r = (case r of Inl e \<Rightarrow> Inl (PackIo e) | Inr x \<Rightarrow> Inr x)"

definition run_tool :: "BuildEnv \<Rightarrow> PackCommand \<Rightarrow> (path \<times> string) list \<Rightarrow> PackagerError + FsNode option" where
  "run_tool env cmd given =
     bind_result (pack_io (be_exec env cmd given)) (\<lambda>(success, tree).
       if success then Inr tree else Inl (PackCommandFailed cmd))"

definition read_text :: "FsNode option \<Rightarrow> PackagerError + string" where
  "read_text n =
     bind_result (file_bytes n) (\<lambda>b.
       if valid_utf8 (from_bytes b) then Inr (from_bytes b)
       else Inl (PackIo (IoOther ''stream did not contain valid UTF-8'')))"

section \<open>The version\<close>

definition git :: "BuildEnv \<Rightarrow> path \<Rightarrow> string list \<Rightarrow> string option" where
  "git env workspace arguments =
     (case be_git env workspace arguments of
        Some (True, stdout) \<Rightarrow>
          if valid_utf8 stdout then (let text = trim stdout in if text \<noteq> [] then Some text else None) else None
      | _ \<Rightarrow> None)"

definition commit_count :: "BuildEnv \<Rightarrow> path \<Rightarrow> int" where
  "commit_count env workspace =
     unwrap_or (Option.bind (git env workspace [''rev-list'', ''--count'', ''HEAD'']) (parse_unsigned is_u32)) 1"

definition version_property :: "string \<Rightarrow> string option" where
  "version_property text =
     map_option (\<lambda>(k, v). trim v)
       (find (\<lambda>(k, v). trim k = ''version'') (List.map_filter (split_once CHR ''='') (lines text)))"

definition repository_version :: "BuildEnv \<Rightarrow> path \<Rightarrow> PackagerError + string" where
  "repository_version env workspace =
     (let p = workspace @ [''version.properties'']
      in bind_result (read_text (be_fs env p)) (\<lambda>text.
           case version_property text of
             Some v \<Rightarrow> Inr v
           | None \<Rightarrow> Inl (PackArguments (''no `version` in '' @ path_text p))))"

definition version_label :: "BuildEnv \<Rightarrow> path \<Rightarrow> PackagerError + string" where
  "version_label env workspace =
     bind_result (repository_version env workspace) (\<lambda>v.
       if git env workspace [''describe'', ''--exact-match'', ''--tags'', ''HEAD''] \<noteq> None then Inr v
       else
         (case git env workspace [''rev-parse'', ''--short=7'', ''HEAD''] of
            None \<Rightarrow> Inr v
          | Some hash \<Rightarrow> Inr (v @ ''-r'' @ int_to_dec (commit_count env workspace) @ ''-g'' @ hash)))"

definition stamp_line :: "string \<Rightarrow> int \<Rightarrow> string \<Rightarrow> string" where
  "stamp_line v n line =
     (case split_once CHR ''='' line of
        Some (k, _) \<Rightarrow>
          if k = ''version'' then ''version='' @ v
          else if k = ''versionCode'' then ''versionCode='' @ int_to_dec n
          else line
      | None \<Rightarrow> line)"

definition stamp_text :: "string \<Rightarrow> int \<Rightarrow> string \<Rightarrow> string" where
  "stamp_text v n original = join_with [NEWLINE] (map (stamp_line v n) (lines original)) @ [NEWLINE]"

text \<open>The staged file is rewritten in place.\<close>

definition stamp_version :: "BuildEnv \<Rightarrow> path \<Rightarrow> path \<Rightarrow> FsNode \<Rightarrow> PackagerError + FsNode" where
  "stamp_version env workspace module_prop staged =
     bind_result (version_label env workspace) (\<lambda>v.
     bind_result (read_text (node_at staged module_prop)) (\<lambda>original.
       put_file module_prop (as_bytes (stamp_text v (commit_count env workspace) original)) staged))"

definition bridge_version_source :: "BuildEnv \<Rightarrow> path \<Rightarrow> PackagerError + string" where
  "bridge_version_source env workspace =
     bind_result (version_label env workspace) (\<lambda>v.
       Inr (''package io.github.lingqiqi5211.crashcatcher.bridge;'' @ [NEWLINE] @
            [NEWLINE] @
            ''/** Generated by cch-packager. */'' @ [NEWLINE] @
            ''final class BridgeVersion {'' @ [NEWLINE] @
            ''    static final String VALUE = '' @ [CHR 0x22] @ v @ [CHR 0x22] @ '';'' @ [NEWLINE] @
            [NEWLINE] @
            ''    private BridgeVersion() {}'' @ [NEWLINE] @
            ''}'' @ [NEWLINE]))"

section \<open>The pin\<close>

definition manager_pin :: "BuildEnv \<Rightarrow> path option \<Rightarrow> string option \<Rightarrow> PackagerError + string" where
  "manager_pin env apk explicit =
     (case apk of
        Some p \<Rightarrow>
          (case certificate_sha256 (be_sha env) (be_open_apk env) (path_text p) of
             Inl e \<Rightarrow> Inl (PackApk e)
           | Inr [] \<Rightarrow> Inl (PackArguments ''manager APK has no v2/v3 signer'')
           | Inr (d # _) \<Rightarrow> Inr (hex_encode d))
      | None \<Rightarrow>
          (case explicit of
             None \<Rightarrow> Inl (PackArguments ''provide --manager-apk or --manager-cert-sha256 for module authentication'')
           | Some text \<Rightarrow> (case pin_parse text of Inl e \<Rightarrow> Inl (PackPin e) | Inr d \<Rightarrow> Inr (hex_encode d))))"

section \<open>The SDK and the NDK\<close>

definition android_sdk :: "BuildEnv \<Rightarrow> path option \<Rightarrow> PackagerError + path" where
  "android_sdk env explicit =
     (case opt_or explicit (opt_or (be_var env ''ANDROID_SDK_ROOT'') (be_var env ''ANDROID_HOME'')) of
        Some p \<Rightarrow> if is_dir_node (be_fs env p) then Inr p else Inl (PackArguments ''Android SDK path was not found'')
      | None \<Rightarrow> Inl (PackArguments ''Android SDK path was not found''))"

definition newest_ndk :: "BuildEnv \<Rightarrow> path \<Rightarrow> PackagerError + path" where
  "newest_ndk env sdk =
     bind_result (newest_directory (be_fs env) (sdk @ [''ndk''])) (\<lambda>d.
       case d of Some p \<Rightarrow> Inr p | None \<Rightarrow> Inl (PackArguments ''Android NDK path was not found''))"

definition android_ndk :: "BuildEnv \<Rightarrow> path option \<Rightarrow> path \<Rightarrow> PackagerError + path" where
  "android_ndk env explicit sdk =
     (case opt_or explicit (opt_or (be_var env ''ANDROID_NDK_HOME'') (be_var env ''ANDROID_NDK_ROOT'')) of
        Some p \<Rightarrow> if is_dir_node (be_fs env p) then Inr p else newest_ndk env sdk
      | None \<Rightarrow> newest_ndk env sdk)"

definition newest_android_jar :: "BuildEnv \<Rightarrow> path \<Rightarrow> PackagerError + path" where
  "newest_android_jar env sdk =
     bind_result (newest_directory (be_fs env) (sdk @ [''platforms''])) (\<lambda>d.
       case d of
         None \<Rightarrow> Inl (MissingArtifact (sdk @ [''platforms'']))
       | Some platform \<Rightarrow>
           (let jar = platform @ [''android.jar'']
            in if is_file_node (be_fs env jar) then Inr jar else Inl (MissingArtifact jar)))"

definition newest_build_tool :: "BuildEnv \<Rightarrow> path \<Rightarrow> string \<Rightarrow> PackagerError + path" where
  "newest_build_tool env sdk name =
     bind_result (newest_directory (be_fs env) (sdk @ [''build-tools''])) (\<lambda>d.
       case d of
         None \<Rightarrow> Inl (MissingArtifact (sdk @ [''build-tools'']))
       | Some dir \<Rightarrow>
           (let tool = dir @ [android_build_tool (be_host env) name]
            in if is_file_node (be_fs env tool) then Inr tool else Inl (MissingArtifact tool)))"

section \<open>The bridge\<close>

definition bridge_sources :: "path \<Rightarrow> path list \<Rightarrow> path list" where
  "bridge_sources version_source ps = filter (\<lambda>p. last p \<noteq> ''BridgeVersion.java'') ps @ [version_source]"

text \<open>The bytes of the DEX file, which the caller's path receives.\<close>

definition compile_bridge :: "BuildEnv \<Rightarrow> path \<Rightarrow> path \<Rightarrow> int \<Rightarrow> PackagerError + u8 list" where
  "compile_bridge env workspace sdk min_api =
     bind_result (newest_android_jar env sdk) (\<lambda>android_jar.
     bind_result (newest_build_tool env sdk ''d8'') (\<lambda>d8.
     bind_result (pack_io (be_temp env)) (\<lambda>temporary.
       let classes = temporary @ [''classes'']; dex_dir = temporary @ [''dex''];
           src = workspace @ [''bridge'', ''src'']
       in bind_result (files_with_extension src (be_fs env src) ''java'') (\<lambda>found.
          if found = [] then Inl (MissingArtifact src)
          else
            (let version_source = temporary @ [''generated'', ''BridgeVersion.java'']
             in bind_result (bridge_version_source env workspace) (\<lambda>text.
                bind_result
                  (run_tool env
                    \<lparr>pc_program = ''javac'', pc_dir = None, pc_env = [],
                     pc_args = [''-encoding'', ''UTF-8'', ''--release'', ''21'', ''-classpath'', path_text android_jar,
                       ''-d'', path_text classes] @ map path_text (bridge_sources version_source found)\<rparr>
                    [(version_source, text)]) (\<lambda>compiled.
                bind_result (files_with_extension classes compiled ''class'') (\<lambda>class_files.
                bind_result
                  (run_tool env
                    \<lparr>pc_program = path_text d8, pc_dir = None, pc_env = [],
                     pc_args = [''--min-api'', int_to_dec min_api, ''--output'', path_text dex_dir] @ map path_text class_files\<rparr>
                    []) (\<lambda>dexed.
                  case Option.bind dexed (\<lambda>t. node_at t [''classes.dex'']) of
                    Some (RegularFile b) \<Rightarrow> Inr b
                  | _ \<Rightarrow> Inl (MissingArtifact (dex_dir @ [''classes.dex'']))))))))))) "

section \<open>The daemons\<close>

definition ascii_upper :: "char \<Rightarrow> char" where
  "ascii_upper c = (if in_range 97 (of_char c) 122 then char_of (of_char c - 32 :: nat) else c)"

definition target_variable :: "Abi \<Rightarrow> string" where
  "target_variable abi = replace_char (CHR ''-'') (CHR ''_'') (rust_target abi)"

definition cargo_command :: "Host \<Rightarrow> path \<Rightarrow> path \<Rightarrow> path \<Rightarrow> string \<Rightarrow> Abi \<Rightarrow> PackCommand" where
  "cargo_command h workspace toolchain clang label abi =
     \<lparr>pc_program = ''cargo'', pc_dir = Some workspace,
      pc_env =
        [(''CARGO_TARGET_'' @ map ascii_upper (target_variable abi) @ ''_LINKER'', path_text clang),
         (''CC_'' @ target_variable abi, path_text clang),
         (''AR_'' @ target_variable abi, path_text (toolchain @ [llvm_tool h ''llvm-ar''])),
         (''CCH_RELEASE_VERSION'', label)],
      pc_args = [''build'', ''--release'', ''--locked'', ''--package'', ''cch_daemond'', ''--bin'', ''catcherd'', ''--target'',
        rust_target abi]\<rparr>"

text \<open>A binary is the node found at its path when its build had ended.\<close>

definition build_daemon :: "BuildEnv \<Rightarrow> path \<Rightarrow> path \<Rightarrow> int \<Rightarrow> string \<Rightarrow> Abi \<Rightarrow> PackagerError + Abi \<times> FsNode option" where
  "build_daemon env workspace toolchain api label abi =
     (let clang = toolchain @ [ndk_tool (be_host env) (clang_prefix abi @ int_to_dec api @ ''-clang'')]
      in if \<not> is_file_node (be_fs env clang) then Inl (MissingArtifact clang)
         else
           bind_result (run_tool env (cargo_command (be_host env) workspace toolchain clang label abi) []) (\<lambda>target_tree.
             let binary = Option.bind target_tree (\<lambda>t. node_at t [rust_target abi, ''release'', ''catcherd''])
             in if is_file_node binary then Inr (abi, binary)
                else Inl (MissingArtifact (workspace @ [''target'', rust_target abi, ''release'', ''catcherd'']))))"

definition build_daemons :: "BuildEnv \<Rightarrow> path \<Rightarrow> path \<Rightarrow> int \<Rightarrow> Abi list \<Rightarrow> PackagerError + (Abi \<times> FsNode option) list" where
  "build_daemons env workspace ndk api abis =
     (let toolchain = ndk @ [''toolchains'', ''llvm'', ''prebuilt'', ndk_host_tag (be_host env), ''bin'']
      in bind_result (version_label env workspace) (\<lambda>label.
           collect_results (build_daemon env workspace toolchain api label) abis))"

section \<open>The module\<close>

record ModuleArgs =
  ma_workspace :: path
  ma_template :: path
  ma_output :: path
  ma_manager_apk :: "path option"
  ma_manager_cert :: "string option"
  ma_android_sdk :: "path option"
  ma_android_ndk :: "path option"
  ma_api :: int
  ma_abi :: "Abi list"

fun stage_binaries :: "(Abi \<times> FsNode option) list \<Rightarrow> FsNode \<Rightarrow> PackagerError + FsNode" where
  "stage_binaries [] staged = Inr staged"
| "stage_binaries ((abi, binary) # rest) staged =
     bind_result (file_bytes binary) (\<lambda>b.
     bind_result (put_file [''bin'', android_name abi, ''catcherd''] b staged) (stage_binaries rest))"

definition PIN_PATH :: path where "PIN_PATH = [''config'', ''manager_signing_cert.sha256'']"
definition DEX_PATH :: path where "DEX_PATH = [''dex'', ''cch_bridge.dex'']"
definition DEX_SUM_PATH :: path where "DEX_SUM_PATH = [''dex'', ''cch_bridge.dex.sha256'']"

definition stage_module :: "BuildEnv \<Rightarrow> path \<Rightarrow> path \<Rightarrow> path \<Rightarrow> path \<Rightarrow> string \<Rightarrow> ModuleArgs \<Rightarrow> PackagerError + FsNode" where
  "stage_module env workspace template sdk ndk pin a =
     bind_result (copy_tree template (be_fs env template) (Directory None [])) (\<lambda>t1.
     bind_result (stamp_version env workspace [''module.prop''] t1) (\<lambda>t2.
     bind_result (put_file PIN_PATH (as_bytes (pin @ [NEWLINE])) t2) (\<lambda>t3.
     bind_result (compile_bridge env workspace sdk (ma_api a)) (\<lambda>dex.
     bind_result (put_file DEX_PATH dex t3) (\<lambda>t4.
     bind_result (put_file DEX_SUM_PATH (as_bytes (hex_encode (be_sha env dex) @ ''  cch_bridge.dex'' @ [NEWLINE])) t4) (\<lambda>t5.
     bind_result (build_daemons env workspace ndk (ma_api a) (ma_abi a)) (\<lambda>binaries.
       stage_binaries binaries t5)))))))"

text \<open>The path of the archive and its entries.\<close>

definition build_module :: "BuildEnv \<Rightarrow> ModuleArgs \<Rightarrow> PackagerError + path \<times> ZipEntry list" where
  "build_module env a =
     (if ma_abi a = [] then Inl (PackArguments ''at least one ABI is required'')
      else
        bind_result (pack_io (be_canonical env (ma_workspace a))) (\<lambda>workspace.
          let template = resolve_path workspace (ma_template a); target = resolve_path workspace (ma_output a)
          in bind_result (android_sdk env (ma_android_sdk a)) (\<lambda>sdk.
             bind_result (android_ndk env (ma_android_ndk a) sdk) (\<lambda>ndk.
             bind_result (manager_pin env (map_option (resolve_path workspace) (ma_manager_apk a)) (ma_manager_cert a)) (\<lambda>pin.
             bind_result (pack_io (be_staging env)) (\<lambda>staging.
             bind_result (stage_module env workspace template sdk ndk pin a) (\<lambda>staged.
             bind_result (create_zip (be_start_file env) staging staged target) (\<lambda>entries.
               Inr (target, entries)))))))))"

section \<open>The manager APK\<close>

record ManagerApkArgs =
  mk_project :: path
  mk_output :: path
  mk_variant :: string

text \<open>The first character in upper case; the only caller passes ASCII.\<close>

fun upper_first :: "string \<Rightarrow> string" where
  "upper_first [] = []"
| "upper_first (c # cs) = ascii_upper c # cs"

text \<open>Gradle leaves the tree of the variant's directory.\<close>

definition build_manager_apk :: "BuildEnv \<Rightarrow> ManagerApkArgs \<Rightarrow> PackagerError + path \<times> u8 list" where
  "build_manager_apk env a =
     bind_result (pack_io (be_canonical env (mk_project a))) (\<lambda>project.
       let variant = trim (mk_variant a)
       in if variant = [] \<or> \<not> list_all is_ascii_alphanumeric variant then Inl (PackArguments ''variant must be alphanumeric'')
          else
            (let apk_dir = project @ [''app'', ''build'', ''outputs'', ''apk'', variant];
                 wrapper = project @ [if be_host env = HostWindows then ''gradlew.bat'' else ''gradlew'']
             in bind_result
                  (run_tool env
                    \<lparr>pc_program = path_text wrapper, pc_dir = Some project, pc_env = [],
                     pc_args = ['':app:assemble'' @ upper_first variant]\<rparr> []) (\<lambda>built.
                bind_result (newest_file_with_extension (be_modified env) apk_dir built ''apk'') (\<lambda>newest.
                  case newest of
                    None \<Rightarrow> Inl (MissingArtifact apk_dir)
                  | Some apk \<Rightarrow>
                      bind_result
                        (if path_absolute (mk_output a) then Inr (mk_output a)
                         else bind_result (pack_io (be_cwd env)) (\<lambda>cwd. Inr (join_path cwd (mk_output a)))) (\<lambda>target.
                      bind_result (file_bytes (Option.bind built (\<lambda>t. Option.bind (strip_path apk_dir apk) (node_at t)))) (\<lambda>b.
                        Inr (target, b)))))))"

section \<open>The command\<close>

record BridgeArgs =
  ba_workspace :: path
  ba_android_sdk :: "path option"
  ba_min_api :: int
  ba_output :: path

datatype PackageCommandLine = PackModule ModuleArgs | PackManagerApk ManagerApkArgs | PackBridge BridgeArgs

datatype BuiltFile = BuiltModule path "ZipEntry list" | BuiltApk path "u8 list" | BuiltBridge path "u8 list"

fun packager_main :: "BuildEnv \<Rightarrow> PackageCommandLine \<Rightarrow> PackagerError + BuiltFile" where
  "packager_main env (PackModule a) = bind_result (build_module env a) (\<lambda>(p, es). Inr (BuiltModule p es))"
| "packager_main env (PackManagerApk a) = bind_result (build_manager_apk env a) (\<lambda>(p, b). Inr (BuiltApk p b))"
| "packager_main env (PackBridge a) =
     bind_result (android_sdk env (ba_android_sdk a)) (\<lambda>sdk.
     bind_result (compile_bridge env (ba_workspace a) sdk (ba_min_api a)) (\<lambda>b.
       Inr (BuiltBridge (ba_output a) b)))"

end
