(* ===== verification/Pack_File_Props.thy ===== *)
theory Pack_File_Props
  imports Pack_Files "HOL-Library.Multiset"
begin

text \<open>
  What the walk, the copy and the archive plan do, against a recursive listing of the tree: the walk finds every
  file once and refuses trees with links; a file that was put is found, and the others stay; the archive has an
  entry for every file.
\<close>

section \<open>The listing of a tree\<close>

fun files_of :: "FsNode \<Rightarrow> path list" where
  "files_of (RegularFile b) = [[]]"
| "files_of (Directory x es) = concat (map (\<lambda>(c, n). map ((#) c) (files_of n)) es)"
| "files_of n = []"

text \<open>Everything can be listed and nothing is a link.\<close>

fun clean :: "FsNode \<Rightarrow> bool" where
  "clean (Directory x es) \<longleftrightarrow> x = None \<and> list_all (\<lambda>(c, n). clean n) es"
| "clean SymbolicLink \<longleftrightarrow> False"
| "clean (BadEntry e) \<longleftrightarrow> False"
| "clean n \<longleftrightarrow> True"

lemma node_at_listed: "node_at t p = Some (RegularFile b) \<Longrightarrow> p \<in> set (files_of t)"
proof (induction t p rule: node_at.induct)
  case (2 x es c cs)
  then obtain n where n: "map_of es c = Some n" and "cs \<in> set (files_of n)" by (auto split: option.splits)
  then show ?case using map_of_SomeD [OF n] by force
qed simp_all

section \<open>The walk\<close>

definition below :: "path \<times> FsNode \<Rightarrow> path multiset" where
  "below pn = image_mset ((@) (fst pn)) (mset (files_of (snd pn)))"

lemma below_directory:
  "below (p, Directory x es) = (\<Sum>(c, n) \<leftarrow> es. below (p @ [c], n))"
  by (induction es) (auto simp: below_def image_mset.compositionality comp_def intro!: image_mset_cong)

text \<open>One directory: what is not put out at once is on the stack.\<close>

lemma walk_entries_found:
  "walk_entries dir es todo out = Inr (todo', out') \<Longrightarrow>
     mset out' + (\<Sum>pn \<leftarrow> todo'. below pn) = mset out + (\<Sum>pn \<leftarrow> todo. below pn) + (\<Sum>(c, n) \<leftarrow> es. below (dir @ [c], n)) \<and>
     (list_all (\<lambda>pn. clean (snd pn)) todo' \<longleftrightarrow> list_all (\<lambda>pn. clean (snd pn)) todo \<and> list_all (\<lambda>(c, n). clean n) es) \<and>
     (list_all (\<lambda>(p, n). is_dir_node (Some n)) todo' \<longleftrightarrow> list_all (\<lambda>(p, n). is_dir_node (Some n)) todo)"
proof (induction es arbitrary: todo out)
  case (Cons e es)
  obtain c n where e: "e = (c, n)" by (cases e)
  show ?case
  proof (cases n)
    case (Directory x ds)
    then have "walk_entries dir es ((dir @ [c], n) # todo) out = Inr (todo', out')" using Cons.prems by (simp add: e)
    from Cons.IH [OF this] show ?thesis using Directory by (auto simp: e ac_simps)
  next
    case (RegularFile b)
    then have "walk_entries dir es todo (out @ [dir @ [c]]) = Inr (todo', out')" using Cons.prems by (simp add: e)
    from Cons.IH [OF this] show ?thesis using RegularFile by (auto simp: e below_def)
  next
    case OtherNode
    then have "walk_entries dir es todo out = Inr (todo', out')" using Cons.prems by (simp add: e)
    from Cons.IH [OF this] show ?thesis using OtherNode by (auto simp: e below_def)
  qed (use Cons.prems in \<open>simp_all add: e\<close>)
qed simp

lemma walk_entries_refused: "walk_entries dir es todo out = Inl e \<Longrightarrow> \<not> list_all (\<lambda>(c, n). clean n) es"
proof (induction es arbitrary: todo out)
  case (Cons x es)
  obtain c n where x: "x = (c, n)" by (cases x)
  then show ?case using Cons by (cases n) auto
qed simp

lemma walk_exact:
  "list_all (\<lambda>(p, n). is_dir_node (Some n)) todo \<Longrightarrow>
   (case walk todo out of
      Inr ps \<Rightarrow> list_all (\<lambda>pn. clean (snd pn)) todo \<and> mset ps = mset out + (\<Sum>pn \<leftarrow> todo. below pn)
    | Inl _ \<Rightarrow> \<not> list_all (\<lambda>pn. clean (snd pn)) todo)"
proof (induction todo out rule: walk.induct)
  case (2 dir es todo out)
  show ?case
  proof (cases "walk_entries dir es todo out")
    case (Inl e)
    then show ?thesis using walk_entries_refused [OF Inl] by simp
  next
    case (Inr r)
    obtain todo' out' where r: "r = (todo', out')" by (cases r)
    note f = walk_entries_found [OF Inr [unfolded r]]
    have "list_all (\<lambda>(p, n). is_dir_node (Some n)) todo'" using f 2(2) by simp
    from 2(1) [OF Inr r [symmetric] this] show ?thesis
      using f by (auto simp: Inr r below_directory ac_simps split: sum.splits)
  qed
qed simp_all

text \<open>C29: the packager's walk finds every file below a directory exactly once, in trees of any depth, and nothing else; it fails
  exactly when something below the directory is a symbolic link or cannot be read.\<close>
theorem all_files_exact:
  "case all_files root (Some (Directory x es)) of
     Inr ps \<Rightarrow> clean (Directory x es) \<and> mset ps = mset (map ((@) root) (files_of (Directory x es)))
   | Inl _ \<Rightarrow> \<not> clean (Directory x es)"
  using walk_exact [of "[(root, Directory x es)]" "[]"]
  by (auto simp: all_files_def below_def split: sum.splits simp del: files_of.simps clean.simps)

lemma all_files_found:
  assumes "all_files root (Some (Directory x es)) = Inr ps"
  shows "clean (Directory x es)" and "mset ps = mset (map ((@) root) (files_of (Directory x es)))"
  using walk_exact [of "[(root, Directory x es)]" "[]"] assms
  by (auto simp: all_files_def below_def simp del: files_of.simps clean.simps)

section \<open>Files in a tree\<close>

text \<open>A store of files: what is put at a path is found there, and what is found elsewhere stays.\<close>

locale file_tree =
  fixes look :: "'t \<Rightarrow> path \<Rightarrow> u8 list option" and put :: "path \<Rightarrow> u8 list \<Rightarrow> 't \<Rightarrow> 'e + 't"
  assumes look_put: "put p b t = Inr t' \<Longrightarrow> look t' p = Some b"
    and look_put_other: "put p b t = Inr t' \<Longrightarrow> p \<noteq> q \<Longrightarrow> look t' q = look t q"
begin

fun put_all :: "(path \<times> u8 list) list \<Rightarrow> 't \<Rightarrow> 'e + 't" where
  "put_all [] t = Inr t"
| "put_all ((p, b) # fs) t = (case put p b t of Inl e \<Rightarrow> Inl e | Inr t' \<Rightarrow> put_all fs t')"

lemma look_put_all: "put_all fs t = Inr t' \<Longrightarrow> look t' p = (case map_of (rev fs) p of Some b \<Rightarrow> Some b | None \<Rightarrow> look t p)"
proof (induction fs arbitrary: t)
  case (Cons f fs)
  obtain q b where f: "f = (q, b)" by (cases f)
  with Cons.prems obtain t1 where t1: "put q b t = Inr t1" "put_all fs t1 = Inr t'" by (auto split: sum.splits)
  have "look t1 p = (if p = q then Some b else look t p)" using look_put [OF t1(1)] look_put_other [OF t1(1)] by auto
  then show ?case using Cons.IH [OF t1(2)] by (auto simp: f map_add_def split: option.splits)
qed simp

lemma put_all_keeps: "put_all fs t = Inr t' \<Longrightarrow> p \<notin> fst ` set fs \<Longrightarrow> look t' p = look t p"
  using look_put_all [of fs t t' p] by (simp add: map_of_eq_None_iff [THEN iffD2] split: option.split)

end

fun regular_at :: "FsNode \<Rightarrow> path \<Rightarrow> u8 list option" where
  "regular_at t p = (case node_at t p of Some (RegularFile b) \<Rightarrow> Some b | _ \<Rightarrow> None)"

declare regular_at.simps [simp del]

lemma regular_at_simps [simp]:
  "regular_at (RegularFile b) p = (if p = [] then Some b else None)"
  "regular_at (Directory x es) [] = None"
  "regular_at (Directory x es) (c # cs) = (case map_of es c of None \<Rightarrow> None | Some n \<Rightarrow> regular_at n cs)"
  by (cases p) (auto simp: regular_at.simps split: option.split)

lemma regular_at_new: "regular_at (new_file p b) q = (if p = q then Some b else None)"
proof (induction p b arbitrary: q rule: new_file.induct)
  case (2 c cs b)
  then show ?case by (cases q) auto
qed simp

lemma regular_at_put: "put_file p b t = Inr t' \<Longrightarrow> regular_at t' q = (if p = q then Some b else regular_at t q)"
proof (induction p b t arbitrary: t' q rule: put_file.induct)
  case (2 c cs b x es)
  show ?case
  proof (cases "map_of es c")
    case None
    then have t': "t' = Directory x (es @ [(c, new_file cs b)])" using 2(2) by simp
    show ?thesis using None by (cases q) (auto simp: t' regular_at_new map_add_def split: option.splits)
  next
    case (Some n)
    then obtain m where m: "put_file cs b n = Inr m" and t': "t' = Directory x (AList.update c m es)"
      using 2(2) by (auto split: sum.splits)
    show ?thesis using Some 2(1) [OF Some m] by (cases q) (auto simp: t' update_conv' split: option.splits)
  qed
qed auto

interpretation tree: file_tree regular_at put_file
  by unfold_locales (simp_all add: regular_at_put)

lemma regular_at_iff: "regular_at t p = Some b \<longleftrightarrow> node_at t p = Some (RegularFile b)"
  by (auto simp: regular_at.simps split: option.splits FsNode.splits)

section \<open>The newest directory\<close>

lemma in_map_filter: "y \<in> set (List.map_filter f xs) \<longleftrightarrow> (\<exists>x \<in> set xs. f x = Some y)"
  by (induction xs) (auto simp: List.map_filter_simps split: option.split)

text \<open>the directory the packager takes for the newest is the one whose name is greatest as text: of \<^verbatim>\<open>android-9\<close> and
  \<^verbatim>\<open>android-36\<close> it takes the first.\<close>
theorem newest_directory_by_text:
  assumes "fs root = Some (Directory None es)" and "newest_directory fs root = Inr (Some p)"
  shows "\<exists>c. p = root @ [c] \<and> c \<in> fst ` set es \<and> is_dir_node (fs p) \<and>
    (\<forall>(d, n) \<in> set es. is_dir_node (Some n) \<longrightarrow> is_dir_node (fs (root @ [d])) \<longrightarrow> d \<le> c)"
proof -
  define ds where "ds = filter (\<lambda>p. is_dir_node (fs p)) (List.map_filter (\<lambda>(c, n). case n of BadEntry _ \<Rightarrow> None | _ \<Rightarrow> Some (root @ [c])) es)"
  have p: "sort ds \<noteq> []" "p = last (sort ds)"
    using assms by (auto simp: newest_directory_def Let_def simp flip: ds_def split: if_splits)
  have m: "p \<in> set ds" using p by (metis last_in_set set_sort)
  then obtain c where c: "p = root @ [c]" "c \<in> fst ` set es" "is_dir_node (fs p)"
    by (force simp: ds_def in_map_filter split: FsNode.splits)
  have "d \<le> c" if "(d, n) \<in> set es" "is_dir_node (Some n)" "is_dir_node (fs (root @ [d]))" for d n
  proof -
    have "root @ [d] \<in> set ds" using that by (force simp: ds_def in_map_filter split: FsNode.splits)
    then have "root @ [d] \<in> set (sort ds)" by simp
    then have "root @ [d] \<le> p"
      using p sorted_sort [of ds] by (metis append_butlast_last_id in_set_conv_decomp_last last_snoc order_refl set_ConsD
          sorted_append list.set_intros(1) rotate1.simps(2) set_rotate1)
    then have "[d] \<le> [c]" unfolding c(1) by (induction root) simp_all
    then show ?thesis by auto
  qed
  then show ?thesis using c by blast
qed

definition sample_platforms :: "path \<Rightarrow> FsNode option" where
  "sample_platforms =
     node_at (Directory None [(''android-36'', Directory None []), (''android-9'', Directory None []), (''x.txt'', RegularFile [])])"

theorem newest_directory_by_text_witness:
  "newest_directory sample_platforms [] = Inr (Some [''android-9'']) \<and> (''android-36'' :: string) \<le> ''android-9''"
proof -
  have n: "newest_directory sample_platforms [] = Inr (Some [''android-9''])" by code_simp
  show ?thesis
    using n newest_directory_by_text [OF _ n] by (auto simp: sample_platforms_def)
qed

end
