(* ===== verification/Packager_Props.thy ===== *)
theory Packager_Props
  imports Packager Pack_File_Props Apk_Props
begin

text \<open>
  What the packager builds: an archive that has every staged file once under its own name; a \<^verbatim>\<open>module.prop\<close> that keeps
  every line but the two it stamps; and a pin file that lets the daemon of the module accept the manager APK the
  module was built for.
\<close>

section \<open>Names in the archive\<close>

definition good_component :: "string \<Rightarrow> bool" where
  "good_component c \<longleftrightarrow> c \<noteq> [] \<and> CHR ''/'' \<notin> set c \<and> CHR 0x5C \<notin> set c \<and> c \<noteq> ''..'' \<and> valid_utf8 c"

lemma split_join: "p \<noteq> [] \<Longrightarrow> list_all good_component p \<Longrightarrow> split_on CHR ''/'' (join_with ''/'' p) = p"
  by (induction "''/''" p rule: join_with.induct)
     (auto simp: good_component_def split_on_fresh split_on_append)

lemma join_chars:
  "list_all good_component p \<Longrightarrow> CHR 0x5C \<notin> set (join_with ''/'' p) \<and> valid_utf8 (join_with ''/'' p)"
proof (induction "''/''" p rule: join_with.induct)
  case (3 x y xs)
  have "valid_utf8 ''/''" by code_simp
  then have s: "valid_utf8 (CHR ''/'' # s) = valid_utf8 s" for s using valid_utf8_append [of "''/''" s] by simp
  then show ?case using 3 by (auto simp: good_component_def valid_utf8_append)
qed (auto simp: good_component_def valid_utf8.simps [of "[]"])

lemma zip_name_good: "list_all good_component p \<Longrightarrow> zip_name p = join_with ''/'' p"
  using join_chars [of p]
  by (auto simp: zip_name_def path_text_def lossy_valid replace_char_def intro!: map_idI)

lemma join_head: "list_all good_component (c # p) \<Longrightarrow> hd (join_with ''/'' (c # p)) = hd c \<and> join_with ''/'' (c # p) \<noteq> []"
  by (cases p) (auto simp: good_component_def)

lemma safe_name_good: "p \<noteq> [] \<Longrightarrow> list_all good_component p \<Longrightarrow> \<not> unsafe_name (join_with ''/'' p)"
proof -
  assume p: "p \<noteq> []" "list_all good_component p"
  then obtain c cs where c: "p = c # cs" by (cases p) auto
  have "hd (join_with ''/'' p) \<noteq> CHR ''/''" "join_with ''/'' p \<noteq> []"
    using join_head [of c cs] p(2) by (auto simp: c good_component_def) (metis hd_in_set)
  then have "\<not> prefix ''/'' (join_with ''/'' p)" by (cases "join_with ''/'' p") auto
  then show ?thesis using p split_join [OF p] by (auto simp: unsafe_name_def list_all_iff good_component_def)
qed

section \<open>The archive\<close>

text \<open>A tree as a file system has it: names are single components, no name occurs twice in a directory.\<close>

fun proper :: "FsNode \<Rightarrow> bool" where
  "proper (Directory x es) \<longleftrightarrow> distinct (map fst es) \<and> list_all (\<lambda>(c, n). good_component c \<and> proper n) es"
| "proper n \<longleftrightarrow> True"

definition archive_entry :: "FsNode \<Rightarrow> path \<Rightarrow> ZipEntry" where
  "archive_entry tree p =
     zip_entry (join_with ''/'' p) (the (regular_at tree p))"

lemma files_of_proper:
  "proper t \<Longrightarrow> p \<in> set (files_of t) \<Longrightarrow> list_all good_component p \<and> regular_at t p \<noteq> None"
proof (induction t arbitrary: p rule: files_of.induct)
  case (2 x es)
  then obtain c n q where q: "(c, n) \<in> set es" "q \<in> set (files_of n)" "p = c # q" by auto
  then have n: "map_of es c = Some n" "good_component c" "proper n" using 2(2) by (auto simp: list_all_iff)
  with 2(1) [OF q(1) refl n(3) q(2)] show ?case by (simp add: q(3))
qed simp_all

lemma distinct_listing:
  "distinct (map fst es) \<Longrightarrow> list_all (\<lambda>(c, n). distinct (files_of n)) es \<Longrightarrow>
   distinct (concat (map (\<lambda>(c, n). map ((#) c) (files_of n)) es))"
  by (induction es) (auto simp: distinct_map image_iff)

lemma distinct_files_of: "proper t \<Longrightarrow> distinct (files_of t)"
proof (induction t rule: files_of.induct)
  case (2 x es)
  then have "list_all (\<lambda>(c, n). distinct (files_of n)) es" by (fastforce simp: list_all_iff)
  then show ?case using 2(2) distinct_listing by simp
qed simp_all

lemma zip_files_good:
  assumes accept: "\<And>ar n. n \<notin> ze_name ` set ar \<Longrightarrow> start_file ar n = None"
    and out: "strip_path root out = None"
  shows "proper tree \<Longrightarrow> distinct ps \<Longrightarrow> set ps \<subseteq> set (files_of tree) \<Longrightarrow> [] \<notin> set ps \<Longrightarrow>
    (\<And>p. p \<in> set ps \<Longrightarrow> join_with ''/'' p \<notin> ze_name ` set ar) \<Longrightarrow>
    zip_files start_file root out tree (map ((@) root) ps) ar = Inr (ar @ map (archive_entry tree) ps)"
proof (induction ps arbitrary: ar)
  case (Cons p ps)
  have p: "list_all good_component p" "p \<noteq> []" using files_of_proper [of tree p] Cons.prems(1,3,4) by auto
  obtain b where b: "regular_at tree p = Some b" using files_of_proper [of tree p] Cons.prems(1,3) by auto
  have "root @ p \<noteq> out" using out by auto
  moreover have "file_bytes (node_at tree p) = Inr b" using b by (simp add: regular_at_iff)
  moreover have "start_file ar (join_with ''/'' p) = None" using accept Cons.prems(5) by simp
  moreover have "zip_files start_file root out tree (map ((@) root) ps) (ar @ [archive_entry tree p]) =
      Inr ((ar @ [archive_entry tree p]) @ map (archive_entry tree) ps)"
  proof (rule Cons.IH)
    fix q assume q: "q \<in> set ps"
    have "list_all good_component q" "q \<noteq> []" using files_of_proper [of tree q] Cons.prems(1,3,4) q by auto
    then have "join_with ''/'' q \<noteq> join_with ''/'' p" using split_join p q Cons.prems(2) by (metis distinct.simps(2))
    then show "join_with ''/'' q \<notin> ze_name ` set (ar @ [archive_entry tree p])"
      using Cons.prems(5) [of q] q by (auto simp: archive_entry_def zip_entry_def)
  qed (use Cons.prems in auto)
  ultimately show ?case
    using b zip_name_good [OF p(1)] safe_name_good [OF p(2,1)] by (simp add: archive_entry_def)
qed simp

lemma sort_below: "sort (map ((@) root) ps) = map ((@) root) (sort (ps :: path list))"
proof (rule properties_for_sort)
  have "root @ a \<le> root @ b \<longleftrightarrow> a \<le> (b :: path)" for a b by (induction root) simp_all
  then show "sorted (map ((@) root) (sort ps))"
    by (auto simp: sorted_map intro: sorted_wrt_mono_rel [OF _ sorted_sort])
qed simp

lemma archive_exact':
  assumes "clean (Directory x es)" and "proper (Directory x es)" and "strip_path root out = None"
    and "\<And>ar n. n \<notin> ze_name ` set ar \<Longrightarrow> start_file ar n = None"
  shows "create_zip start_file root (Directory x es) out =
    Inr (map (archive_entry (Directory x es)) (sort (files_of (Directory x es))))"
proof -
  let ?t = "Directory x es"
  obtain ps where ps: "all_files root (Some ?t) = Inr ps" "mset ps = mset (map ((@) root) (files_of ?t))"
    using walk_exact [of "[(root, ?t)]" "[]"] assms(1)
    by (auto simp: all_files_def below_def split: sum.splits simp del: files_of.simps clean.simps)
  have "sort ps = map ((@) root) (sort (files_of ?t))"
    using ps(2) by (metis sort_below sorted_list_of_multiset_mset)
  moreover have "zip_files start_file root out ?t (map ((@) root) (sort (files_of ?t))) [] =
      Inr ([] @ map (archive_entry ?t) (sort (files_of ?t)))"
    by (rule zip_files_good [OF assms(4,3)])
       (use assms(2) distinct_files_of [OF assms(2)] in \<open>auto simp del: files_of.simps(2) simp: files_of.simps(2) [of x es]\<close>)
  ultimately show ?thesis using ps(1) by (simp add: create_zip_def)
qed

text \<open>C30: the archive has exactly one entry for every file of a tree, in the order of the paths: under the path with slashes between
  its components, with the bytes of the file, executable exactly when it is a script or a daemon.\<close>
theorem archive_exact:
  assumes "clean (Directory x es)" and "proper (Directory x es)" and "strip_path root out = None"
    and "\<And>ar n. n \<notin> ze_name ` set ar \<Longrightarrow> start_file ar n = None"
  shows "create_zip start_file root (Directory x es) out =
    Inr (map (archive_entry (Directory x es)) (sort (files_of (Directory x es))))"
  by (rule archive_exact' [OF assms])

definition sample_tree :: FsNode where
  "sample_tree =
     Directory None
       [(''service.sh'', RegularFile [1]),
        (''bin'', Directory None [(''x86_64'', Directory None [(''catcherd'', RegularFile [2, 3])])]),
        (''module.prop'', RegularFile [])]"

theorem archive_exact_witness:
  "\<exists>es. create_zip (\<lambda>ar n. if n \<in> ze_name ` set ar then Some ''twice'' else None) [[], ''tmp''] sample_tree [[], ''module.zip''] = Inr es \<and>
     map (\<lambda>e. (ze_name e, ze_mode e, ze_data e)) es =
       [(''bin/x86_64/catcherd'', 493, [2, 3]), (''module.prop'', 420, []), (''service.sh'', 493, [1])]"
proof -
  have ok: "clean sample_tree" "proper sample_tree"
    by (simp_all add: sample_tree_def good_component_def) code_simp
  have sorted: "sort (files_of sample_tree) = [[''bin'', ''x86_64'', ''catcherd''], [''module.prop''], [''service.sh'']]" by code_simp
  show ?thesis
    using archive_exact [OF ok [unfolded sample_tree_def], of "[[], ''tmp'']" "[[], ''module.zip'']"
        "\<lambda>ar n. if n \<in> ze_name ` set ar then Some ''twice'' else None"] sorted
    by (simp add: sample_tree_def archive_entry_def zip_entry_def zip_executable_def suffix_to_prefix)
qed

section \<open>The pin in the module\<close>

lemma zip_files_keep: "zip_files start_file root out tree ps ar = Inr es \<Longrightarrow> set ar \<subseteq> set es"
proof (induction ps arbitrary: ar)
  case (Cons p ps)
  show ?case
  proof (cases "p = out")
    case False
    with Cons.prems obtain b relative where
      "zip_files start_file root out tree ps
         (ar @ [zip_entry (zip_name relative) b]) = Inr es"
      by (auto simp: Let_def bind_result_Inr split: option.splits if_splits)
    from Cons.IH [OF this] show ?thesis by auto
  qed (use Cons in auto)
qed simp

lemma zip_files_entry:
  assumes "regular_at tree p = Some b" and "root @ p \<noteq> out"
  shows "zip_files start_file root out tree ps ar = Inr es \<Longrightarrow> root @ p \<in> set ps \<Longrightarrow>
    \<exists>e \<in> set es. ze_name e = zip_name p \<and> ze_data e = b"
proof (induction ps arbitrary: ar)
  case (Cons q ps)
  show ?case
  proof (cases "q = root @ p")
    case True
    have "file_bytes (node_at tree p) = Inr b" using assms(1) by (simp add: regular_at_iff)
    then have "zip_files start_file root out tree ps
        (ar @ [zip_entry (zip_name p) b]) = Inr es"
      using Cons.prems(1) assms(2) by (auto simp: True Let_def split: option.splits if_splits)
    from zip_files_keep [OF this] show ?thesis by (force simp: zip_entry_def)
  next
    case False
    then have "root @ p \<in> set ps" using Cons.prems(2) by simp
    then show ?thesis
      using Cons.prems(1) Cons.IH by (fastforce simp: Let_def bind_result_Inr split: option.splits if_splits)
  qed
qed simp

lemma create_zip_entry:
  assumes "create_zip start_file root tree out = Inr es" and "regular_at tree p = Some b" and "strip_path root out = None"
  shows "\<exists>e \<in> set es. ze_name e = zip_name p \<and> ze_data e = b"
proof -
  obtain ps where ps: "all_files root (Some tree) = Inr ps" and z: "zip_files start_file root out tree (sort ps) [] = Inr es"
    using assms(1) by (auto simp: create_zip_def bind_result_Inr)
  have "\<exists>x ds. tree = Directory x ds" using ps by (cases tree) (simp_all add: all_files_def)
  then have "mset ps = mset (map ((@) root) (files_of tree))" using all_files_found(2) ps by blast
  moreover have "p \<in> set (files_of tree)" using assms(2) by (simp add: regular_at_iff node_at_listed)
  ultimately have "root @ p \<in> set (sort ps)" by (metis image_eqI list.set_map set_mset_mset set_sort)
  moreover have "root @ p \<noteq> out" using assms(3) by auto
  ultimately show ?thesis using zip_files_entry [OF assms(2) _ z] by blast
qed

lemma stage_binaries_keep: "stage_binaries bs t = Inr t' \<Longrightarrow> p = [] \<or> hd p \<noteq> ''bin'' \<Longrightarrow> regular_at t' p = regular_at t p"
proof (induction bs arbitrary: t)
  case (Cons ab bs)
  obtain abi n where ab: "ab = (abi, n)" by (cases ab)
  then obtain b t1 where t1: "put_file [''bin'', android_name abi, ''catcherd''] b t = Inr t1" "stage_binaries bs t1 = Inr t'"
    using Cons.prems(1) by (auto simp: bind_result_Inr)
  have "regular_at t1 p = regular_at t p" by (rule tree.look_put_other [OF t1(1)]) (use Cons.prems(2) in auto)
  then show ?case using Cons.IH [OF t1(2) Cons.prems(2)] by simp
qed simp

lemma staged_pin:
  assumes "stage_module env workspace template sdk ndk pin a = Inr t"
  shows "regular_at t PIN_PATH = Some (as_bytes (pin @ [NEWLINE]))"
proof -
  obtain t2 t3 t4 t5 dex sums binaries where t: "put_file PIN_PATH (as_bytes (pin @ [NEWLINE])) t2 = Inr t3"
    "put_file DEX_PATH dex t3 = Inr t4" "put_file DEX_SUM_PATH sums t4 = Inr t5" "stage_binaries binaries t5 = Inr t"
    using assms by (auto simp: stage_module_def bind_result_Inr)
  have "regular_at t PIN_PATH = regular_at t5 PIN_PATH"
    by (rule stage_binaries_keep [OF t(4)]) (simp add: PIN_PATH_def)
  also have "\<dots> = regular_at t4 PIN_PATH" by (rule tree.look_put_other [OF t(3)]) (simp add: PIN_PATH_def DEX_SUM_PATH_def)
  also have "\<dots> = regular_at t3 PIN_PATH" by (rule tree.look_put_other [OF t(2)]) (simp add: PIN_PATH_def DEX_PATH_def)
  also have "\<dots> = Some (as_bytes (pin @ [NEWLINE]))" by (rule tree.look_put [OF t(1)])
  finally show ?thesis .
qed

lemma trim_final_newline:
  assumes "s \<noteq> []" and "graph_char (hd s)"
  shows "trim (s @ [NEWLINE]) = trim s"
proof -
  have h: "trim_start (s @ r) = s @ r" for r
    using assms by (simp add: trim_start_def strip_front_fresh graph_not_white)
  have "strip_front (map rev white_space) (NEWLINE # r) = strip_front (map rev white_space) r" for r
    by (subst strip_front.simps) (simp add: match_len_def white_space_def NEWLINE_def)
  then show ?thesis using h [of "[NEWLINE]"] h [of "[]"] by (simp add: trim_def trim_end_def)
qed

lemma pin_parse_line:
  assumes "length d = 32" and "\<not> list_all (\<lambda>b. b = 0) d"
  shows "pin_parse (hex_encode d @ [NEWLINE]) = Inr d"
proof -
  have ne: "hex_encode d \<noteq> []" using assms(1) length_hex_encode [of d] by auto
  have "trim (hex_encode d @ [NEWLINE]) = trim (hex_encode d)"
    by (rule trim_final_newline [OF ne hex_encode_chars(1) [OF hd_in_set [OF ne]]])
  then have "pin_parse (hex_encode d @ [NEWLINE]) = pin_parse (hex_encode d)" by (simp add: pin_parse_def)
  then show ?thesis using pin_parse_encode [OF assms] by simp
qed

text \<open>C28: a module built for a manager APK accepts that manager: the archive has a pin file from which the daemon reads a pin,
  when it is installed as a file of root that others cannot write, and with this pin every uid that has a package with the
  same APK is authenticated.\<close>
theorem module_accepts_its_manager:
  assumes "build_module env a = Inr (target, entries)" and "be_canonical env (ma_workspace a) = Inr workspace"
    and "ma_manager_apk a = Some apk" and "be_staging env = Inr staging" and "strip_path staging target = None"
    and "\<And>b. length (be_sha env b) = 32" and "\<And>b. \<not> list_all (\<lambda>x. x = 0) (be_sha env b)"
    and "pin_is_file md" and "pin_uid md = 0" and "pin_gid md = 0" and "pin_mode md AND 18 = 0" and "pin_len md \<le> 256"
    and "row \<in> set (candidates ix uid)" and "base_apk_path row = Some p" and "android_path_is_absolute p"
    and "open_apk p = be_open_apk env (path_text (resolve_path workspace apk))"
  shows "\<exists>e pin m. e \<in> set entries \<and> ze_name e = ''config/manager_signing_cert.sha256'' \<and>
    pin_load (Some md) (Some (from_bytes (ze_data e))) = Inr pin \<and>
    authenticate_uid (apk_certs (be_sha env) open_apk describe) pin ix uid = Inr m"
proof -
  obtain template sdk ndk pin staged where pin: "manager_pin env (Some (resolve_path workspace apk)) (ma_manager_cert a) = Inr pin"
    and st: "stage_module env workspace template sdk ndk pin a = Inr staged"
    and z: "create_zip (be_start_file env) staging staged target = Inr entries"
    using assms(1-4) by (auto simp: build_module_def Let_def pack_io_def bind_result_Inr split: if_splits)
  obtain d ds where ds: "certificate_sha256 (be_sha env) (be_open_apk env) (path_text (resolve_path workspace apk)) = Inr (d # ds)"
    and p: "pin = hex_encode d"
    using pin by (auto simp: manager_pin_def split: sum.splits list.splits)
  have d: "length d = 32" "\<not> list_all (\<lambda>x. x = 0) d" using certificate_digests [OF ds] assms(6,7) by auto
  obtain e where e: "e \<in> set entries" "ze_name e = zip_name PIN_PATH" "ze_data e = as_bytes (pin @ [NEWLINE])"
    using create_zip_entry [OF z staged_pin [OF st] assms(5)] by blast
  have n: "zip_name PIN_PATH = ''config/manager_signing_cert.sha256''" by code_simp
  have load: "pin_load (Some md) (Some (from_bytes (ze_data e))) = Inr d"
    using assms(8-12) pin_parse_line [OF d] by (simp add: pin_load_def validate_metadata_def e(3) p del: as_bytes_append)
  have "certificate_sha256 (be_sha env) open_apk p = Inr (d # ds)"
    using ds assms(16) by (auto simp: certificate_sha256_def split: sum.splits prod.splits)
  then have "certified (apk_certs (be_sha env) open_apk describe) d row"
    using assms(14,15) by (simp add: certified_def apk_certs_def)
  moreover have "length x = length d" if "apk_certs (be_sha env) open_apk describe q = Inr xs" "x \<in> set xs" for q xs x
    using that certificate_digests [of "be_sha env" open_apk q xs] assms(6) d(1) by (auto simp: apk_certs_def split: sum.splits)
  ultimately obtain m where "check_candidates (apk_certs (be_sha env) open_apk describe) d uid (candidates ix uid) False None = Inr m"
    using first_row_authenticates [OF assms(13)] by blast
  then have "authenticate_uid (apk_certs (be_sha env) open_apk describe) d ix uid = Inr m"
    using assms(13) by (auto simp: authenticate_uid_def Let_def)
  then show ?thesis using e(1,2) n load by auto
qed

section \<open>A sample build\<close>

definition sample_machine :: FsNode where
  "sample_machine =
     Directory None
       [(''w'', Directory None
          [(''version.properties'', RegularFile (as_bytes ''version=1.0'')),
           (''module'', Directory None
              [(''module.prop'', RegularFile (as_bytes (''id=c'' @ [NEWLINE] @ ''version=0'' @ [NEWLINE] @ ''versionCode=0''))),
               (''service.sh'', RegularFile [1])]),
           (''bridge'', Directory None [(''src'', Directory None [(''A.java'', RegularFile [])])])]),
        (''sdk'', Directory None
          [(''platforms'', Directory None [(''android-36'', Directory None [(''android.jar'', RegularFile [])])]),
           (''build-tools'', Directory None [(''36.0.0'', Directory None [(''d8'', RegularFile [])])])]),
        (''ndk'', Directory None
          [(''toolchains'', Directory None [(''llvm'', Directory None [(''prebuilt'', Directory None
            [(''linux-x86_64'', Directory None [(''bin'', Directory None
              [(''x86_64-linux-android29-clang'', RegularFile [])])])])])])])]"

definition sample_sha :: "u8 list \<Rightarrow> u8 list" where "sample_sha b = 1 # take 31 (b @ replicate 31 0)"

definition sample_exec :: "PackCommand \<Rightarrow> (path \<times> string) list \<Rightarrow> IoKind + bool \<times> FsNode option" where
  "sample_exec cmd given =
     Inr (True, Some
       (if pc_program cmd = ''javac'' then Directory None [(''A.class'', RegularFile [])]
        else if pc_program cmd = ''cargo'' then new_file [''x86_64-linux-android'', ''release'', ''catcherd''] [7]
        else Directory None [(''classes.dex'', RegularFile [5])]))"

definition sample_build_env :: BuildEnv where
  "sample_build_env =
     \<lparr>be_fs = (\<lambda>p. case p of [] # cs \<Rightarrow> node_at sample_machine cs | _ \<Rightarrow> None),
      be_canonical = (\<lambda>_. Inr [[], ''w'']), be_var = (\<lambda>_. None), be_cwd = Inr [[], ''w''],
      be_temp = Inr [[], ''t''], be_staging = Inr [[], ''s''], be_host = HostLinux, be_modified = (\<lambda>_. None),
      be_git = (\<lambda>_ _. None), be_exec = sample_exec, be_open_apk = (\<lambda>_. Inr (\<lambda>_. None, sample_apk [9, 9, 9])),
      be_sha = sample_sha, be_start_file = (\<lambda>_ _. None)\<rparr>"

definition sample_args :: ModuleArgs where
  "sample_args =
     \<lparr>ma_workspace = [''.''], ma_template = [''module''], ma_output = [''dist'', ''m.zip''], ma_manager_apk = Some [''m.apk''],
      ma_manager_cert = None, ma_android_sdk = Some [[], ''sdk''], ma_android_ndk = Some [[], ''ndk''], ma_api = 29,
      ma_abi = [X86_64]\<rparr>"

lemma sample_manager_pin: "manager_pin sample_build_env (Some p) None = Inr (hex_encode (sample_sha [68, 69, 82]))"
proof -
  have "certificate_sha256_from_reader sample_sha (\<lambda>_. None) (sample_apk [9, 9, 9]) = Inr [sample_sha [68, 69, 82]]"
    using certificates_encoded [OF sample_apk_ok(1) newest_is_chosen [OF sample_apk_ok(2)], of "[9, 9, 9]" sample_sha]
      sample_apk_ok(3) [of "[9, 9, 9]"]
    by (simp add: sample_apk_def MAX_SIGNERS_def) (simp add: sample_signer_def)
  then show ?thesis by (simp add: manager_pin_def certificate_sha256_def sample_build_env_def)
qed


lemma sample_fs:
  "be_fs sample_build_env [[], ''w'', ''version.properties''] = Some (RegularFile (as_bytes ''version=1.0''))"
  "be_fs sample_build_env [[], ''w'', ''module''] = Some (Directory None
     [(''module.prop'', RegularFile (as_bytes (''id=c'' @ [NEWLINE] @ ''version=0'' @ [NEWLINE] @ ''versionCode=0''))),
      (''service.sh'', RegularFile [1])])"
  "be_fs sample_build_env [[], ''w'', ''bridge'', ''src''] = Some (Directory None [(''A.java'', RegularFile [])])"
  "be_fs sample_build_env [[], ''sdk'', ''platforms''] =
     Some (Directory None [(''android-36'', Directory None [(''android.jar'', RegularFile [])])])"
  "be_fs sample_build_env [[], ''sdk'', ''platforms'', ''android-36''] = Some (Directory None [(''android.jar'', RegularFile [])])"
  "be_fs sample_build_env [[], ''sdk'', ''platforms'', ''android-36'', ''android.jar''] = Some (RegularFile [])"
  "be_fs sample_build_env [[], ''sdk'', ''build-tools''] =
     Some (Directory None [(''36.0.0'', Directory None [(''d8'', RegularFile [])])])"
  "be_fs sample_build_env [[], ''sdk'', ''build-tools'', ''36.0.0''] = Some (Directory None [(''d8'', RegularFile [])])"
  "be_fs sample_build_env [[], ''sdk'', ''build-tools'', ''36.0.0'', ''d8''] = Some (RegularFile [])"
  "be_fs sample_build_env [[], ''ndk'', ''toolchains'', ''llvm'', ''prebuilt'', ''linux-x86_64'', ''bin'', ''x86_64-linux-android29-clang''] =
     Some (RegularFile [])"
  by (simp_all add: sample_build_env_def sample_machine_def)

lemma sample_rest:
  "be_git sample_build_env = (\<lambda>_ _. None)" "be_temp sample_build_env = Inr [[], ''t'']" "be_host sample_build_env = HostLinux"
  "be_exec sample_build_env = sample_exec"
  by (simp_all add: sample_build_env_def)

lemma sample_version: "version_label sample_build_env [[], ''w''] = Inr ''1.0''"
proof -
  have "valid_utf8 ''version=1.0''" "version_property ''version=1.0'' = Some ''1.0''" by code_simp+
  then show ?thesis
    by (simp add: version_label_def repository_version_def read_text_def sample_fs sample_rest git_def)
qed

lemma sample_dex: "compile_bridge sample_build_env [[], ''w''] [[], ''sdk''] 29 = Inr [5]"
  by (simp add: compile_bridge_def newest_android_jar_def newest_build_tool_def newest_directory_def sample_fs sample_rest
      android_build_tool_def pack_io_def files_with_extension_def all_files_def component_extension_def rsplit_once_def
      bridge_version_source_def sample_version run_tool_def sample_exec_def List.map_filter_simps path_text_def)

lemma sample_daemon: "build_daemons sample_build_env [[], ''w''] [[], ''ndk''] 29 [X86_64] = Inr [(X86_64, Some (RegularFile [7]))]"
proof -
  have "int_to_dec 29 = ''29''" by code_simp
  then show ?thesis
    by (simp add: build_daemons_def sample_version build_daemon_def sample_rest ndk_tool_def sample_fs run_tool_def cargo_command_def
        sample_exec_def pack_io_def)
qed

definition sample_staged :: FsNode where
  "sample_staged = Directory None
     [(''module.prop'', RegularFile (as_bytes (''id=c'' @ [NEWLINE] @ ''version=1.0'' @ [NEWLINE] @ ''versionCode=1'' @ [NEWLINE]))),
      (''service.sh'', RegularFile [1])]"

lemma sample_stamped:
  "bind_result (copy_tree [[], ''w'', ''module''] (be_fs sample_build_env [[], ''w'', ''module'']) (Directory None []))
     (stamp_version sample_build_env [[], ''w''] [''module.prop'']) = Inr sample_staged"
proof -
  let ?text = "''id=c'' @ [NEWLINE] @ ''version=0'' @ [NEWLINE] @ ''versionCode=0''"
  have "commit_count sample_build_env [[], ''w''] = 1" by (simp add: commit_count_def git_def sample_rest)
  moreover have "stamp_text ''1.0'' 1 ?text = ''id=c'' @ [NEWLINE] @ ''version=1.0'' @ [NEWLINE] @ ''versionCode=1'' @ [NEWLINE]"
    "valid_utf8 ?text" by code_simp+
  ultimately show ?thesis
    by (simp add: copy_tree_def all_files_def sample_fs stamp_version_def sample_version read_text_def sample_staged_def
        del: as_bytes_append)
qed

lemma sample_built: "\<exists>entries. build_module sample_build_env sample_args = Inr ([[], ''w'', ''dist'', ''m.zip''], entries)"
proof -
  obtain t1 where t1: "copy_tree [[], ''w'', ''module''] (be_fs sample_build_env [[], ''w'', ''module'']) (Directory None []) = Inr t1"
    "stamp_version sample_build_env [[], ''w''] [''module.prop''] t1 = Inr sample_staged"
    using sample_stamped by (auto simp: bind_result_Inr)
  have a: "ma_api sample_args = 29" "ma_abi sample_args = [X86_64]" by (simp_all add: sample_args_def)
  have utf8: "list_all valid_utf8 [''module.prop'', ''service.sh'', ''config'', ''manager_signing_cert.sha256'', ''dex'', ''cch_bridge.dex'',
      ''cch_bridge.dex.sha256'', ''bin'', ''x86_64'', ''catcherd'']" by code_simp
  obtain t where t: "stage_module sample_build_env [[], ''w''] [[], ''w'', ''module''] [[], ''sdk''] [[], ''ndk'']
      (hex_encode (sample_sha [68, 69, 82])) sample_args = Inr t"
    and s: "clean t" "proper t" "\<exists>x es. t = Directory x es"
    unfolding stage_module_def t1(1) bind_result_simps t1(2) a sample_dex sample_daemon
    by (simp add: sample_staged_def PIN_PATH_def DEX_PATH_def DEX_SUM_PATH_def good_component_def) (use utf8 in simp)
  obtain entries where z: "create_zip (\<lambda>_ _. None) [[], ''s''] t [[], ''w'', ''dist'', ''m.zip''] = Inr entries"
    using s archive_exact' by force
  have "android_sdk sample_build_env (Some [[], ''sdk'']) = Inr [[], ''sdk'']"
    "android_ndk sample_build_env (Some [[], ''ndk'']) [[], ''sdk''] = Inr [[], ''ndk'']"
    by (simp_all add: android_sdk_def android_ndk_def sample_build_env_def sample_machine_def)
  then show ?thesis
    using t z sample_manager_pin
    by (simp add: build_module_def pack_io_def sample_args_def resolve_path_def path_absolute_def join_path_def)
       (simp add: sample_build_env_def)
qed

theorem module_accepts_its_manager_witness:
  "\<exists>entries e pin m. build_module sample_build_env sample_args = Inr ([[], ''w'', ''dist'', ''m.zip''], entries) \<and> e \<in> set entries \<and>
     authenticate_uid (apk_certs sample_sha (\<lambda>_. Inr (\<lambda>_. None, sample_apk [9, 9, 9])) (\<lambda>_. ''error'')) pin (sample_index {}) 10002 = Inr m"
proof -
  obtain entries where built: "build_module sample_build_env sample_args = Inr ([[], ''w'', ''dist'', ''m.zip''], entries)"
    using sample_built by blast
  define md where "md = \<lparr>pin_is_file = True, pin_uid = 0, pin_gid = 0, pin_mode = 420, pin_len = 65\<rparr>"
  let ?row = "join_entry sample_paths {} sample_cd"
  have "by_uid (sample_index {}) 10002 = filter (\<lambda>e. pe_uid e = 10002) (ix_entries (sample_index {}))"
    by (rule lookup.uid_exact [OF build_index_ok [OF sample_build]])
  then have "?row \<in> set (candidates (sample_index {}) 10002)" by (simp add: candidates_def sample_index_simps)
  moreover have "path_extension ''/system/c'' = None" "trim_end_slashes ''/system/c'' = ''/system/c''" by code_simp+
  then have "base_apk_path ?row = Some ''/system/c/base.apk''" by (simp add: sample_index_simps base_apk_path_def)
  moreover have "android_path_is_absolute ''/system/c/base.apk''" by (simp add: android_path_is_absolute_def)
  ultimately obtain row p where row: "row \<in> set (candidates (sample_index {}) 10002)" "base_apk_path row = Some p"
    "android_path_is_absolute p" by blast
  have env: "be_sha sample_build_env = sample_sha" "be_canonical sample_build_env (ma_workspace sample_args) = Inr [[], ''w'']"
    "ma_manager_apk sample_args = Some [''m.apk'']" "be_staging sample_build_env = Inr [[], ''s'']"
    "\<And>q. be_open_apk sample_build_env q = Inr (\<lambda>_. None, sample_apk [9, 9, 9])"
    by (simp_all add: sample_build_env_def sample_args_def)
  have sha: "length (sample_sha b) = 32" "\<not> list_all (\<lambda>x. x = 0) (sample_sha b)" for b by (simp_all add: sample_sha_def)
  have "\<exists>e pin m. e \<in> set entries \<and> ze_name e = ''config/manager_signing_cert.sha256'' \<and>
      pin_load (Some md) (Some (from_bytes (ze_data e))) = Inr pin \<and>
      authenticate_uid (apk_certs sample_sha (\<lambda>_. Inr (\<lambda>_. None, sample_apk [9, 9, 9])) (\<lambda>_. ''error'')) pin (sample_index {}) 10002 = Inr m"
    by (rule module_accepts_its_manager [OF built env(2,3,4), unfolded env(1,5), OF _ sha _ _ _ _ _ row])
       (simp_all add: md_def)
  with built show ?thesis by blast
qed

section \<open>The stamp\<close>

lemma split_on_join:
  "ls \<noteq> [] \<Longrightarrow> list_all (\<lambda>l. c \<notin> set l) ls \<Longrightarrow> split_on c (join_with [c] ls @ [c]) = ls @ [[]]"
  by (induction "[c]" ls rule: join_with.induct) (simp_all add: split_on_append)

lemma lines_joined:
  assumes "ls \<noteq> []" and "list_all (\<lambda>l. NEWLINE \<notin> set l \<and> (l = [] \<or> last l \<noteq> CHR 0x0D)) ls"
  shows "lines (join_with [NEWLINE] ls @ [NEWLINE]) = ls"
proof -
  have "list_all (\<lambda>l. NEWLINE \<notin> set l) ls" using assms(2) by (simp add: list_all_iff)
  moreover have "map strip_cr ls = ls" using assms(2) by (induction ls) (auto simp: strip_cr_def)
  ultimately show ?thesis using split_on_join [OF assms(1), of NEWLINE] by (simp add: lines_def NEWLINE_def)
qed

lemma split_once_parts:
  assumes "split_once c s = Some (k, r)"
  shows "s = k @ c # r"
proof -
  from assms obtain i where i: "find_char c s = Some i" "k = take i s" "r = drop (Suc i) s" by (auto simp: split_once_def)
  show ?thesis using find_char_SomeD [OF i(1)] id_take_nth_drop [of i s] i(2,3) by simp
qed

lemma split_once_version: "split_once CHR ''='' (''version='' @ r) = Some (''version'', r)"
  "split_once CHR ''='' (''versionCode='' @ r) = Some (''versionCode'', r)"
  using split_once_append [of "CHR ''=''" "''version''" r] split_once_append [of "CHR ''=''" "''versionCode''" r] by simp_all

lemma stamp_line_twice: "stamp_line w m (stamp_line v n l) = stamp_line w m l"
  using split_once_version by (auto simp: stamp_line_def split: option.split)

lemma stamp_line_other: "(\<exists>r. l = ''version='' @ r) \<or> (\<exists>r. l = ''versionCode='' @ r) \<or> stamp_line v n l = l"
  by (auto simp: stamp_line_def split: option.split dest!: split_once_parts)

lemma dec_visible: "c \<in> set (int_to_dec n) \<Longrightarrow> c \<noteq> NEWLINE \<and> c \<noteq> CHR 0x0D"
proof -
  assume "c \<in> set (int_to_dec n)"
  then have "is_digit c \<or> c = CHR ''-''" by (auto simp: int_to_dec_def dest: nat_to_dec_digits split: if_splits)
  moreover have "\<not> is_digit NEWLINE" "\<not> is_digit CHR 0x0D" by code_simp+
  ultimately show ?thesis by (auto simp: NEWLINE_def)
qed

lemma stamp_line_visible:
  assumes "NEWLINE \<notin> set v" and "v = [] \<or> last v \<noteq> CHR 0x0D" and "NEWLINE \<notin> set l \<and> (l = [] \<or> last l \<noteq> CHR 0x0D)"
  shows "NEWLINE \<notin> set (stamp_line v n l) \<and> (stamp_line v n l = [] \<or> last (stamp_line v n l) \<noteq> CHR 0x0D)"
proof -
  have "NEWLINE \<notin> set (int_to_dec n)" "last (int_to_dec n) \<noteq> CHR 0x0D" using dec_visible last_in_set int_to_dec_ne by blast+
  then show ?thesis using assms by (auto simp: stamp_line_def NEWLINE_def split: option.split)
qed

text \<open>the stamp changes the lines of the version and of its code and no other, keeps the order, and stamping once more, with
  any version, gives what stamping the template with it would have given.\<close>
theorem stamp_exact:
  assumes "lines text \<noteq> []" and "list_all (\<lambda>l. NEWLINE \<notin> set l \<and> (l = [] \<or> last l \<noteq> CHR 0x0D)) (lines text)"
    and "NEWLINE \<notin> set v" and "v = [] \<or> last v \<noteq> CHR 0x0D"
  shows "lines (stamp_text v n text) = map (stamp_line v n) (lines text) \<and>
    (\<forall>l. (\<exists>r. l = ''version='' @ r) \<or> (\<exists>r. l = ''versionCode='' @ r) \<or> stamp_line v n l = l) \<and>
    stamp_text w m (stamp_text v n text) = stamp_text w m text"
proof -
  have l: "lines (stamp_text v n text) = map (stamp_line v n) (lines text)"
    unfolding stamp_text_def
    by (rule lines_joined) (use assms(1,2) stamp_line_visible [OF assms(3,4)] in \<open>auto simp: list_all_iff\<close>)
  have "stamp_line w m \<circ> stamp_line v n = stamp_line w m" by (simp add: fun_eq_iff stamp_line_twice)
  then have "stamp_text w m (stamp_text v n text) = stamp_text w m text"
    using l by (simp add: stamp_text_def [of w m] stamp_line_twice)
  with l stamp_line_other show ?thesis by blast
qed

theorem stamp_exact_witness:
  "lines (stamp_text ''1.0'' 7 (''id=c'' @ [NEWLINE] @ ''version=0'')) = [''id=c'', ''version=1.0'']"
proof -
  have l: "lines (''id=c'' @ [NEWLINE] @ ''version=0'') = [''id=c'', ''version=0'']" by code_simp
  have "stamp_line ''1.0'' 7 ''id=c'' = ''id=c''" "stamp_line ''1.0'' 7 ''version=0'' = ''version=1.0''" by code_simp+
  then show ?thesis
    using stamp_exact [of "''id=c'' @ [NEWLINE] @ ''version=0''" "''1.0''"] l by (simp add: NEWLINE_def)
qed

end
