(* ===== verification/Package_Xml.thy ===== *)
theory Package_Xml
  imports Packages
begin

text \<open>
  The textual \<^verbatim>\<open>packages.xml\<close> of \<^verbatim>\<open>cch_packages\<close>: the code paths taken from the events of an XML reader.  The reader is
  a crate; its events, with the attributes it could and could not read, are the input, up to the end of the file.
\<close>

text \<open>An attribute that is malformed, or its key and its value, which may fail to be normalised.\<close>

type_synonym XmlAttribute = "string + string \<times> (string + string)"

datatype XmlEvent =
  XmlElement string "XmlAttribute list"
| XmlOther
| XmlError string
| XmlEof

fun package_attributes :: "XmlAttribute list \<Rightarrow> string option \<Rightarrow> string option \<Rightarrow> PackageError + string option \<times> string option" where
  "package_attributes [] name path = Inr (name, path)"
| "package_attributes (Inl e # rest) name path = Inl (InvalidXml e)"
| "package_attributes (Inr (k, v) # rest) name path =
     (if k = ''name'' then (case v of Inl e \<Rightarrow> Inl (InvalidXml e) | Inr n \<Rightarrow> package_attributes rest (Some n) path)
      else if k = ''codePath'' then (case v of Inl e \<Rightarrow> Inl (InvalidXml e) | Inr p \<Rightarrow> package_attributes rest name (Some p))
      else package_attributes rest name path)"

definition insert_code_path :: "string option \<times> string option \<Rightarrow> (string \<rightharpoonup> string) \<Rightarrow> (string \<rightharpoonup> string)" where
  "insert_code_path np m =
     (case np of
        (Some n, Some p) \<Rightarrow> if android_path_is_absolute p then m(n \<mapsto> p) else m
      | _ \<Rightarrow> m)"

fun code_paths_from :: "XmlEvent list \<Rightarrow> (string \<rightharpoonup> string) \<Rightarrow> PackageError + (string \<rightharpoonup> string)" where
  "code_paths_from [] m = Inr m"
| "code_paths_from (XmlEof # rest) m = Inr m"
| "code_paths_from (XmlOther # rest) m = code_paths_from rest m"
| "code_paths_from (XmlError e # rest) m = Inl (InvalidXml e)"
| "code_paths_from (XmlElement tag attrs # rest) m =
     (if tag = ''package'' then
        bind_result (package_attributes attrs None None) (\<lambda>np. code_paths_from rest (insert_code_path np m))
      else code_paths_from rest m)"

definition parse_code_paths :: "XmlEvent list \<Rightarrow> PackageError + (string \<rightharpoonup> string)" where
  "parse_code_paths events = code_paths_from events Map.empty"

text \<open>\<open>read_xml\<close> is the reader.\<close>

definition index_parse :: "(string \<Rightarrow> XmlEvent list) \<Rightarrow> string \<Rightarrow> string \<Rightarrow> PackageError + PackageIndex" where
  "index_parse read_xml list_text xml =
     bind_result (parse_code_paths (read_xml xml)) (\<lambda>code_paths. build list_text code_paths {})"

section \<open>What is read\<close>

text \<open>An element as the platform writes it, with any other attributes around the two.\<close>

definition plain :: "string \<times> string \<Rightarrow> XmlAttribute" where "plain kv = Inr (fst kv, Inr (snd kv))"

lemma package_attributes_plain:
  "package_attributes (map plain kvs) name path =
     Inr (case map_of (rev kvs) ''name'' of Some n \<Rightarrow> Some n | None \<Rightarrow> name,
          case map_of (rev kvs) ''codePath'' of Some p \<Rightarrow> Some p | None \<Rightarrow> path)"
proof (induction kvs arbitrary: name path)
  case (Cons kv kvs)
  obtain k v where kv: "kv = (k, v)" by (cases kv)
  show ?case by (auto simp: kv plain_def Cons [unfolded plain_def] map_add_def split: option.split)
qed simp

lemma code_paths_from_absolute:
  "code_paths_from es m = Inr m' \<Longrightarrow> (\<And>n p. m n = Some p \<Longrightarrow> android_path_is_absolute p) \<Longrightarrow> m' n = Some p \<Longrightarrow>
   android_path_is_absolute p"
proof (induction es m rule: code_paths_from.induct)
  case (5 tag attrs rest m)
  show ?case
  proof (cases "tag = ''package''")
    case True
    then obtain np where np: "package_attributes attrs None None = Inr np" "code_paths_from rest (insert_code_path np m) = Inr m'"
      using 5(3) by (auto simp: bind_result_Inr)
    have "android_path_is_absolute q" if "insert_code_path np m k = Some q" for k q
      using that 5(4) by (auto simp: insert_code_path_def split: prod.splits option.splits if_splits)
    then show ?thesis using 5(1) [OF True _ _ 5(5)] np by simp
  qed (use 5 in simp)
qed auto

text \<open>the map holds, for each package element that names a package and an absolute code path, that path, and of several elements
  for one package the last; nothing else of the file is taken.\<close>
theorem code_paths_exact:
  "parse_code_paths (map (\<lambda>kvs. XmlElement ''package'' (map plain kvs)) packages) =
     Inr (map_of (rev (List.map_filter (\<lambda>kvs.
       case (map_of (rev kvs) ''name'', map_of (rev kvs) ''codePath'') of
         (Some n, Some p) \<Rightarrow> if android_path_is_absolute p then Some (n, p) else None
       | _ \<Rightarrow> None) packages)))"
proof -
  have "code_paths_from (map (\<lambda>kvs. XmlElement ''package'' (map plain kvs)) packages) m =
     Inr (m ++ map_of (rev (List.map_filter (\<lambda>kvs.
       case (map_of (rev kvs) ''name'', map_of (rev kvs) ''codePath'') of
         (Some n, Some p) \<Rightarrow> if android_path_is_absolute p then Some (n, p) else None
       | _ \<Rightarrow> None) packages)))" for m
    by (induction packages arbitrary: m)
       (auto simp: package_attributes_plain bind_result_def insert_code_path_def List.map_filter_simps split: option.split)
  then show ?thesis by (simp add: parse_code_paths_def)
qed

text \<open>whatever the reader reports, every code path in the result is absolute.\<close>
theorem code_paths_absolute:
  assumes "parse_code_paths events = Inr m" and "m n = Some p"
  shows "android_path_is_absolute p"
  using code_paths_from_absolute [OF assms(1) [unfolded parse_code_paths_def] _ assms(2)] by simp

theorem code_paths_absolute_witness: "android_path_is_absolute ''/data/app/x''"
  by (rule code_paths_absolute [of "[XmlElement ''package'' [Inr (''name'', Inr ''a''), Inr (''codePath'', Inr ''/data/app/x'')]]"
        "[''a'' \<mapsto> ''/data/app/x'']" "''a''"])
     (simp_all add: parse_code_paths_def bind_result_def insert_code_path_def android_path_is_absolute_def)

end
