(* ===== verification/Spec2Isabelle.thy ===== *)
theory Spec2Isabelle
  imports Merge_Proofs Config Logd_Proofs Store_Payloads Store_Pages Daemon_Props Artifact_Props
    Bridge_Props Watcher_Props Collector_Props Apk_Props Server_Props Startup_Props Logd_Reader
    Packager_Props Package_Xml
begin

text \<open>
  A verification development of CrashCatcher, the Rust crates under \<^verbatim>\<open>src/crates\<close>.

  \<^bold>\<open>The program.\<close>  A root daemon records the crashes of an Android device.  Collectors find crash artefacts (DropBox
  entries, tombstones, ANR dumps) with inotify and read the events and crash buffers of the log; they turn each into
  a fragment.  A correlator merges the fragments of one occurrence.  The daemon's core classifies the merged crash,
  stores it in a SQLite index with a payload file beside it, and announces it to subscribers, to the notification
  bridge and as an alert.  A manager app, authenticated by the certificate of its APK, queries and configures the daemon
  over a socket; a bridge process in the system server's world posts notifications and answers package queries.
  A packager builds the root module that carries all of this.

  \<^bold>\<open>How the code is modelled.\<close>  Structs are records, enums datatypes, methods functions on an explicit state; a \<^verbatim>\<open>Result\<close> is a
  sum with the error on the left, an \<^verbatim>\<open>Option\<close> an option.  A loop is a total function, with a measure where the recursion
  is not structural; the connections of the bridge, which interleave within one request, are an inductive step relation.
  Texts are lists of bytes written as characters, so that lengths and slices are those of Rust; integers are words
  where bits matter and bounded \<^verbatim>\<open>int\<close>s with their saturation or range written out elsewhere.

  \<^bold>\<open>Theories, in the order of the data flow.\<close>
  \<^item> \<open>Prelude\<close>: bounded integers, byte strings, UTF-8, decimal text, and the locales shared by the components: codecs
    (a round trip gives injectivity), increasing sources, normal forms, graded invariants of runs.
  \<^item> \<open>Kinds\<close>, \<open>Record_Id\<close>, \<open>Fingerprint\<close> (\<^verbatim>\<open>cch_model\<close>): kinds and masks, 128-bit record ids and their generator, frame
    normalisation and group identity.
  \<^item> \<open>Merge\<close>, \<open>Merge_Proofs\<close> (\<^verbatim>\<open>cch_merge\<close>): the correlator; no source key is lost, completion is exactly the expired set.
  \<^item> \<open>Config\<close> (\<^verbatim>\<open>cch_config\<close>): policies, documents, patches, and the atomic save over a model of the directory.
  \<^item> \<open>Wire\<close> (\<^verbatim>\<open>cch_wire\<close>): errors, frames, filters, cursors, pages, requests, envelopes, events.
  \<^item> \<open>Logd\<close>, \<open>Logd_Proofs\<close>, \<open>Logd_Reader\<close> (\<^verbatim>\<open>cch_logd\<close>): the binary event, entry and crash-buffer parsers, exact against an
    encoder of Android's layout, and the liblog reader.
  \<^item> \<open>Artifacts\<close>, \<open>Artifact_Props\<close> (\<^verbatim>\<open>cch_dropbox\<close>, \<^verbatim>\<open>cch_tombstone\<close>, \<^verbatim>\<open>cch_anrfile\<close>): the artefact parsers and their round trips.
  \<^item> \<open>Watcher\<close>, \<open>Watcher_Props\<close> (\<^verbatim>\<open>cch_watcher\<close>): the start-up scan and the inotify queue.
  \<^item> \<open>Fragments\<close>, \<open>Collectors\<close>, \<open>Fragment_Props\<close>, \<open>Collector_Props\<close> (\<^verbatim>\<open>collectors.rs\<close>): how files and log entries become fragments,
    and the ingest, artefact and log loops.
  \<^item> \<open>Payload\<close>, \<open>Store\<close>, \<open>Store_Ops\<close> (\<^verbatim>\<open>cch_store\<close>): payload files, tables, inserts, folds, retention, queries, deletion;
    \<open>Store_Inv\<close>: the invariant of the index; \<open>Store_Files\<close>: ids stay fresh and files agree with rows; \<open>Store_Sweep\<close>:
    retention; \<open>Store_Payloads\<close>: readable payloads are present; \<open>Store_Pages\<close>: listings; \<open>Store_Stats\<close>: aggregates.
  \<^item> \<open>Packages\<close>, \<open>Package_Xml\<close> (\<^verbatim>\<open>cch_packages\<close>, \<^verbatim>\<open>packages.rs\<close>): the package index and the two sources of code paths.
  \<^item> \<open>Auth\<close> (\<^verbatim>\<open>cch_auth\<close>) and \<open>Apk_Sig\<close>, \<open>Apk_Props\<close> (\<^verbatim>\<open>cch_apk_sig\<close>): the pin, the candidates, the certificates of an APK.
  \<^item> \<open>Settings\<close> (\<^verbatim>\<open>cch_settings\<close>), \<open>Diagnostics\<close> (\<^verbatim>\<open>logsink.rs\<close>, \<^verbatim>\<open>diagnostics.rs\<close>).
  \<^item> \<open>Bridge\<close>, \<open>Bridge_Props\<close> (\<^verbatim>\<open>bridge_broker.rs\<close>, \<^verbatim>\<open>cch_bridge_supervisor\<close>): the broker under interleaving, the restart policy.
  \<^item> \<open>Daemon\<close>, \<open>Daemon_Proofs\<close>, \<open>Daemon_Props\<close> (\<^verbatim>\<open>core.rs\<close>): every method and request of the core on one record of state, and the
    properties that hold along every run of them.
  \<^item> \<open>Server\<close>, \<open>Server_Props\<close> (\<^verbatim>\<open>transport.rs\<close>, \<^verbatim>\<open>server.rs\<close>): frames on a stream and the three kinds of connection; every
    connection is a run of the core's operations, so the invariants of \<open>Daemon_Props\<close> hold behind it.
  \<^item> \<open>Startup\<close>, \<open>Startup_Props\<close> (\<^verbatim>\<open>main.rs\<close>): arguments, the order of the start, the completion of the package index.
  \<^item> \<open>Pack_Files\<close>, \<open>Pack_File_Props\<close>, \<open>Packager\<close>, \<open>Packager_Props\<close> (\<^verbatim>\<open>cch_packager\<close>): the walk over trees, the archive, versions and
    builds; the pin in a built module lets the daemon accept the manager APK it was built for.

  \<^bold>\<open>Interfaces.\<close>  Each locale is interpreted on the model's own definitions: the codecs of ids, enums, frames and cursors, the id
  generator, the clamping of policies, the store's and the daemon's invariants over runs, keyset listings, package lookup,
  and the file tree of the packager.

  \<^bold>\<open>Bounds.\<close>  The id generator is strictly increasing while its 80 random bits do not overflow within one millisecond and
  the clock fits in 48 bits.  The walk over pages takes as fuel one more than the number of matching rows, which suffices
  because every page is shorter than what is left.  Request ids and payload handles are 64-bit counters taken not to wrap.
  Inotify batches are at most 64 KiB, log entries 64 KiB, frames 1 MiB; the package index is tried sixty times.

  \<^bold>\<open>Parameters.\<close>  SHA-256, compression, the protobuf decoder, the XML reader, JSON in both directions, the archive writer, the
  answers of the file system, inotify, liblog, the commands (\<^verbatim>\<open>cmd package\<close>, \<^verbatim>\<open>am\<close>, \<^verbatim>\<open>settings\<close>, \<^verbatim>\<open>getprop\<close>, \<^verbatim>\<open>git\<close>, build tools), the
  bridge, clock readings, and which call on the disk or on SQLite fails.  What a proof uses of them stands as a hypothesis.

  \<^bold>\<open>Not modelled.\<close>  Poisoned locks and the interleaving of threads inside one method of the core (its methods run one at a
  time); SQLite's own transactions beyond their success or rollback, its compaction and its integrity check; socket, memfd
  and descriptor-passing system calls, thread creation and sleeping; the installation of the log subscriber; failing
  writes to the packager's temporary directories; serde's JSON text; the Kotlin, Java and shell parts of the repository.
\<close>

end
